(* ===== verification/FR_Prelude.thy ===== *)
theory FR_Prelude
  imports Main "HOL-Library.AList" "HOL-Library.Sublist" "HOL-Library.Multiset"
begin

text \<open>
  The prelude of the development: the types every component shares (time, durations, Go maps as
  association lists), the parts of Go's standard library the sources call on strings and numbers
  (\<open>strings\<close>, \<open>strconv\<close>), transition systems with their reachable states, and the lemmas and
  collections the component proofs use.

  Conventions.  A Go \<open>string\<close> is a byte sequence, here a \<open>string\<close> (one \<open>char\<close> per byte).
  \<open>time.Time\<close> and \<open>time.Duration\<close> are integers in nanoseconds.  A Go \<open>int\<close> that counts runners or
  slots is an \<open>int\<close>: its width is never reached.  A Go map is an association list with distinct
  keys; the list's order stands for nothing, and an operation whose result depends on the order in
  which \<open>range\<close> visits a map takes that order as an argument.  Logging is left out everywhere.
\<close>

section \<open>Collections of rules\<close>

named_theorems go_simps \<open>equations that evaluate the modelled standard library\<close>
named_theorems inv_intros \<open>introduction rules for component invariants\<close>

section \<open>Time\<close>

type_synonym time = int
type_synonym duration = int

abbreviation millisecond :: duration where "millisecond \<equiv> 1000000"
abbreviation second :: duration where "second \<equiv> 1000000000"
abbreviation minute :: duration where "minute \<equiv> 60000000000"
abbreviation hour :: duration where "hour \<equiv> 3600000000000"

text \<open>\<open>time.Time.Unix()\<close>: whole seconds, rounded towards minus infinity.\<close>

definition unix :: "time \<Rightarrow> int" where
  "unix t = t div 1000000000"

lemma unix_mono: "s \<le> t \<Longrightarrow> unix s \<le> unix t"
  by (simp add: unix_def zdiv_mono1)

section \<open>Go maps\<close>

type_synonym ('k, 'v) gomap = "('k \<times> 'v) list"

abbreviation mlookup :: "('k, 'v) gomap \<Rightarrow> 'k \<Rightarrow> 'v option" where
  "mlookup m k \<equiv> map_of m k"

abbreviation mput :: "'k \<Rightarrow> 'v \<Rightarrow> ('k, 'v) gomap \<Rightarrow> ('k, 'v) gomap" where
  "mput k v m \<equiv> AList.update k v m"

abbreviation mdel :: "'k \<Rightarrow> ('k, 'v) gomap \<Rightarrow> ('k, 'v) gomap" where
  "mdel k m \<equiv> AList.delete k m"

definition keys :: "('k, 'v) gomap \<Rightarrow> 'k list" where
  "keys m = map fst m"

definition wf_map :: "('k, 'v) gomap \<Rightarrow> bool" where
  "wf_map m \<longleftrightarrow> distinct (keys m)"

text \<open>A runtime order in which \<open>range\<close> may visit the map.\<close>

definition range_order :: "'k list \<Rightarrow> ('k, 'v) gomap \<Rightarrow> bool" where
  "range_order ks m \<longleftrightarrow> distinct ks \<and> set ks = set (keys m)"

lemma wf_map_Nil [simp]: "wf_map []"
  by (simp add: wf_map_def keys_def)

lemma wf_map_mput [simp, intro]: "wf_map m \<Longrightarrow> wf_map (mput k v m)"
  by (simp add: wf_map_def keys_def distinct_update)

lemma wf_map_mdel [simp, intro]: "wf_map m \<Longrightarrow> wf_map (mdel k m)"
  by (simp add: wf_map_def keys_def distinct_delete)

lemma mlookup_mput [simp]: "mlookup (mput k v m) k' = (if k' = k then Some v else mlookup m k')"
  by (simp add: update_conv')

lemma mlookup_mdel [simp]: "mlookup (mdel k m) k' = (if k' = k then None else mlookup m k')"
  by (simp add: delete_conv')

lemma mlookup_in_set: "wf_map m \<Longrightarrow> mlookup m k = Some v \<longleftrightarrow> (k, v) \<in> set m"
  by (simp add: wf_map_def keys_def)

lemma set_keys_iff: "k \<in> set (keys m) \<longleftrightarrow> mlookup m k \<noteq> None"
  by (simp add: keys_def map_of_eq_None_iff)

text \<open>How many values of a map satisfy a predicate.\<close>

definition countv :: "('v \<Rightarrow> bool) \<Rightarrow> ('k, 'v) gomap \<Rightarrow> int" where
  "countv P m = int (length (filter (\<lambda>kv. P (snd kv)) m))"

lemma countv_Nil [simp]: "countv P [] = 0"
  by (simp add: countv_def)

lemma countv_Cons [simp]: "countv P ((k, v) # m) = of_bool (P v) + countv P m"
  by (simp add: countv_def)

lemma countv_nonneg [simp]: "0 \<le> countv P m"
  by (simp add: countv_def)

lemma countv_le_length: "countv P m \<le> int (length m)"
  by (simp add: countv_def)

lemma countv_mput_new: "mlookup m k = None \<Longrightarrow> countv P (mput k v m) = countv P m + of_bool (P v)"
  by (induction m) (auto split: if_splits)

lemma countv_mput_old:
  "wf_map m \<Longrightarrow> mlookup m k = Some u \<Longrightarrow>
   countv P (mput k v m) = countv P m - of_bool (P u) + of_bool (P v)"
  by (induction m) (auto simp: wf_map_def keys_def split: if_splits)

lemma countv_mdel:
  "wf_map m \<Longrightarrow> countv P (mdel k m) = countv P m - (case mlookup m k of None \<Rightarrow> 0 | Some u \<Rightarrow> of_bool (P u))"
proof (induction m)
  case (Cons kv m)
  obtain a b where kv: "kv = (a, b)" by fastforce
  have wf: "wf_map m" and a: "a \<notin> fst ` set m"
    using Cons.prems by (simp_all add: kv wf_map_def keys_def)
  show ?case
  proof (cases "a = k")
    case True
    with a show ?thesis by (simp add: kv delete_id)
  next
    case False
    with Cons.IH [OF wf] show ?thesis by (simp add: kv)
  qed
qed simp

lemma countv_mono: "(\<And>v. P v \<Longrightarrow> Q v) \<Longrightarrow> countv P m \<le> countv Q m"
  by (induction m) (auto simp: of_bool_def)

lemma countv_split: "countv P m + countv (\<lambda>v. \<not> P v) m = int (length m)"
  by (induction m) (auto simp: of_bool_def)

lemma countv_cong: "(\<And>k v. (k, v) \<in> set m \<Longrightarrow> P v = Q v) \<Longrightarrow> countv P m = countv Q m"
  unfolding countv_def by (metis (mono_tags, lifting) filter_cong prod.collapse)

lemma countv_card: "wf_map m \<Longrightarrow> countv P m = int (card {k. \<exists>v. mlookup m k = Some v \<and> P v})"
proof (induction m)
  case (Cons kv m)
  obtain a b where kv: "kv = (a, b)" by fastforce
  have wf: "wf_map m" and a: "a \<notin> set (keys m)"
    using Cons.prems by (simp_all add: kv wf_map_def keys_def)
  then have no: "mlookup m a = None" by (simp add: set_keys_iff)
  let ?S = "{k. \<exists>v. mlookup m k = Some v \<and> P v}"
  have "?S \<subseteq> set (keys m)" by (auto simp: set_keys_iff)
  then have fin: "finite ?S" by (rule finite_subset) simp
  have "{k. \<exists>v. mlookup (kv # m) k = Some v \<and> P v} = (if P b then insert a ?S else ?S)"
    using no by (auto simp: kv split: if_splits)
  with Cons.IH [OF wf] fin no show ?case by (simp add: kv)
qed simp

lemma length_mput_old: "mlookup m k = Some u \<Longrightarrow> length (mput k v m) = length m"
  by (induction m) (auto split: if_splits)

lemma length_mput: "length (mput k v m) \<le> Suc (length m)"
  by (induction m) auto

lemma length_mdel: "mlookup m k \<noteq> None \<Longrightarrow> length (mdel k m) < length m"
  by (induction m) (auto simp: length_delete_le less_Suc_eq_le Suc_le_eq split: if_splits)

section \<open>Transition systems\<close>

text \<open>
  The states a labelled step relation reaches from its initial states, and the invariant rule.
\<close>

inductive reach :: "('s \<Rightarrow> bool) \<Rightarrow> ('l \<Rightarrow> 's \<Rightarrow> 's \<Rightarrow> bool) \<Rightarrow> 's \<Rightarrow> bool"
  for init :: "'s \<Rightarrow> bool" and stp :: "'l \<Rightarrow> 's \<Rightarrow> 's \<Rightarrow> bool" where
  reach_init: "init s \<Longrightarrow> reach init stp s"
| reach_step: "reach init stp s \<Longrightarrow> stp l s t \<Longrightarrow> reach init stp t"

locale invariant_system =
  fixes init :: "'s \<Rightarrow> bool"
    and stp :: "'l \<Rightarrow> 's \<Rightarrow> 's \<Rightarrow> bool"
    and inv :: "'s \<Rightarrow> bool"
  assumes inv_init: "init s \<Longrightarrow> inv s"
    and inv_step: "inv s \<Longrightarrow> stp l s t \<Longrightarrow> inv t"
begin

lemma reach_inv: "reach init stp s \<Longrightarrow> inv s"
  by (induction rule: reach.induct) (auto intro: inv_init inv_step)

lemma reach_inv_step: "reach init stp s \<Longrightarrow> stp l s t \<Longrightarrow> inv s \<and> inv t"
  by (auto intro: reach_inv inv_step)

end

section \<open>Strings\<close>

text \<open>\<open>strings.HasPrefix\<close>, \<open>HasSuffix\<close> and \<open>Contains\<close> are the library's \<open>prefix\<close>, \<open>suffix\<close> and \<open>sublist\<close>.\<close>

abbreviation has_prefix :: "string \<Rightarrow> string \<Rightarrow> bool" where
  "has_prefix s p \<equiv> prefix p s"

abbreviation has_suffix :: "string \<Rightarrow> string \<Rightarrow> bool" where
  "has_suffix s p \<equiv> suffix p s"

abbreviation contains :: "string \<Rightarrow> string \<Rightarrow> bool" where
  "contains s sub \<equiv> sublist sub s"

definition contains_any :: "string \<Rightarrow> string \<Rightarrow> bool" where
  "contains_any s cs \<longleftrightarrow> list_ex (\<lambda>c. c \<in> set cs) s"

text \<open>\<open>strings.TrimPrefix\<close>.\<close>

definition trim_prefix :: "string \<Rightarrow> string \<Rightarrow> string" where
  "trim_prefix s p = (if has_prefix s p then drop (length p) s else s)"

text \<open>\<open>strings.Split\<close> and \<open>strings.Cut\<close> for a one-byte separator.\<close>

fun split_on :: "char \<Rightarrow> string \<Rightarrow> string list" where
  "split_on c [] = [[]]"
| "split_on c (x # xs) =
     (if x = c then [] # split_on c xs
      else (case split_on c xs of [] \<Rightarrow> [[x]] | y # ys \<Rightarrow> (x # y) # ys))"

fun cut :: "char \<Rightarrow> string \<Rightarrow> string \<times> string \<times> bool" where
  "cut c [] = ([], [], False)"
| "cut c (x # xs) =
     (if x = c then ([], xs, True)
      else (case cut c xs of (a, b, f) \<Rightarrow> (x # a, b, f)))"

text \<open>\<open>strings.ToLower\<close>, \<open>strings.EqualFold\<close> and \<open>strings.TrimSpace\<close> on ASCII.\<close>

definition lower_char :: "char \<Rightarrow> char" where
  "lower_char c = (let n = (of_char c :: nat) in if 65 \<le> n \<and> n \<le> 90 then char_of (n + 32) else c)"

definition to_lower :: "string \<Rightarrow> string" where
  "to_lower s = map lower_char s"

definition equal_fold :: "string \<Rightarrow> string \<Rightarrow> bool" where
  "equal_fold s t \<longleftrightarrow> to_lower s = to_lower t"

definition is_space :: "char \<Rightarrow> bool" where
  "is_space c \<longleftrightarrow> (let n = (of_char c :: nat) in n = 32 \<or> (9 \<le> n \<and> n \<le> 13))"

definition trim_space :: "string \<Rightarrow> string" where
  "trim_space s = rev (dropWhile is_space (rev (dropWhile is_space s)))"

text \<open>\<open>strings.Join\<close>.\<close>

fun join :: "string \<Rightarrow> string list \<Rightarrow> string" where
  "join sep [] = []"
| "join sep [x] = x"
| "join sep (x # y # ys) = x @ sep @ join sep (y # ys)"

lemma split_on_not_Nil [simp]: "split_on c s \<noteq> []"
  by (induction s) (auto split: list.splits)

lemma split_on_no_sep: "p \<in> set (split_on c s) \<Longrightarrow> c \<notin> set p"
  by (induction s arbitrary: p) (auto split: list.splits if_splits)

lemma split_on_none: "c \<notin> set a \<Longrightarrow> split_on c a = [a]"
  by (induction a) auto

lemma split_on_parts: "split_on c (a @ c # b) = split_on c a @ split_on c b"
proof (induction a)
  case (Cons x a)
  then show ?case by (cases "split_on c a") auto
qed simp

lemma split_on_chars: "p \<in> set (split_on c s) \<Longrightarrow> set p \<subseteq> set s"
proof (induction s arbitrary: p)
  case (Cons x xs)
  then show ?case by (cases "split_on c xs") (fastforce split: if_splits)+
qed simp

lemma join_split_on: "join [c] (split_on c s) = s"
proof (induction s)
  case (Cons x xs)
  show ?case
  proof (cases "split_on c xs")
    case (Cons y ys)
    then show ?thesis using Cons.IH by (cases ys) auto
  qed simp
qed simp

lemma cut_None: "cut c s = (a, b, False) \<Longrightarrow> a = s \<and> b = [] \<and> c \<notin> set s"
  by (induction s arbitrary: a b) (auto split: if_splits prod.splits)

lemma cut_Some: "cut c s = (a, b, True) \<Longrightarrow> s = a @ c # b \<and> c \<notin> set a"
  by (induction s arbitrary: a b) (auto split: if_splits prod.splits)

lemma equal_fold_refl [simp]: "equal_fold s s"
  by (simp add: equal_fold_def)

lemma equal_fold_sym: "equal_fold s t \<Longrightarrow> equal_fold t s"
  by (simp add: equal_fold_def)

lemma equal_fold_trans: "equal_fold s t \<Longrightarrow> equal_fold t u \<Longrightarrow> equal_fold s u"
  by (simp add: equal_fold_def)

section \<open>Decimal numbers\<close>

text \<open>\<open>%d\<close>, \<open>strconv.Itoa\<close> and \<open>strconv.Atoi\<close>; the latter also takes a sign.\<close>

definition digit_char :: "nat \<Rightarrow> char" where
  "digit_char d = char_of (48 + d)"

fun show_nat :: "nat \<Rightarrow> string" where
  "show_nat n = (if n < 10 then [digit_char n] else show_nat (n div 10) @ [digit_char (n mod 10)])"

declare show_nat.simps [simp del]

definition show_int :: "int \<Rightarrow> string" where
  "show_int i = (if i < 0 then CHR ''-'' # show_nat (nat (- i)) else show_nat (nat i))"

definition is_digit :: "char \<Rightarrow> bool" where
  "is_digit c \<longleftrightarrow> (let n = (of_char c :: nat) in 48 \<le> n \<and> n \<le> 57)"

definition digit_val :: "char \<Rightarrow> nat" where
  "digit_val c = of_char c - 48"

fun read_nat_acc :: "nat \<Rightarrow> string \<Rightarrow> nat" where
  "read_nat_acc a [] = a"
| "read_nat_acc a (c # cs) = read_nat_acc (10 * a + digit_val c) cs"

definition parse_nat :: "string \<Rightarrow> nat option" where
  "parse_nat s = (if s \<noteq> [] \<and> list_all is_digit s then Some (read_nat_acc 0 s) else None)"

definition atoi :: "string \<Rightarrow> int option" where
  "atoi s =
     (case s of
        [] \<Rightarrow> None
      | c # cs \<Rightarrow>
          if c = CHR ''-'' then map_option (\<lambda>n. - int n) (parse_nat cs)
          else if c = CHR ''+'' then map_option int (parse_nat cs)
          else map_option int (parse_nat s))"

lemma digit_chars [go_simps]:
  "digit_char 0 = CHR ''0''" "digit_char 1 = CHR ''1''" "digit_char (Suc 0) = CHR ''1''"
  "digit_char 2 = CHR ''2''" "digit_char 3 = CHR ''3''" "digit_char 4 = CHR ''4''"
  "digit_char 5 = CHR ''5''" "digit_char 6 = CHR ''6''" "digit_char 7 = CHR ''7''"
  "digit_char 8 = CHR ''8''" "digit_char 9 = CHR ''9''"
  by code_simp+

lemmas show_eval = show_int_def show_nat.simps digit_chars

lemma of_char_digit_char: "d < 10 \<Longrightarrow> (of_char (digit_char d) :: nat) = 48 + d"
  by (simp add: digit_char_def)

lemma is_digit_digit_char: "d < 10 \<Longrightarrow> is_digit (digit_char d)"
  by (simp add: is_digit_def of_char_digit_char Let_def)

lemma digit_val_digit_char: "d < 10 \<Longrightarrow> digit_val (digit_char d) = d"
  by (simp add: digit_val_def of_char_digit_char)

lemma read_nat_acc_snoc: "read_nat_acc a (cs @ [c]) = 10 * read_nat_acc a cs + digit_val c"
  by (induction cs arbitrary: a) auto

lemma show_nat_not_Nil [simp]: "show_nat n \<noteq> []"
  by (subst show_nat.simps) simp

lemma show_nat_digits: "list_all is_digit (show_nat n)"
proof (induction n rule: show_nat.induct)
  case (1 n)
  then show ?case
    by (cases "n < 10") (simp_all add: show_nat.simps [of n] is_digit_digit_char)
qed

lemma read_show_nat: "read_nat_acc 0 (show_nat n) = n"
proof (induction n rule: show_nat.induct)
  case (1 n)
  then show ?case
    by (cases "n < 10")
      (simp_all add: show_nat.simps [of n] read_nat_acc_snoc digit_val_digit_char)
qed

lemma parse_show_nat: "parse_nat (show_nat n) = Some n"
  by (simp add: parse_nat_def show_nat_digits read_show_nat)

lemma show_nat_inj: "show_nat m = show_nat n \<longleftrightarrow> m = n"
  by (metis read_show_nat)

lemma show_nat_no: "\<not> is_digit c \<Longrightarrow> c \<notin> set (show_nat n)"
  using show_nat_digits [of n] by (auto simp: list_all_iff)

lemma length_show_nat_mono: "n < 10 ^ k \<Longrightarrow> 0 < k \<Longrightarrow> length (show_nat n) \<le> k"
proof (induction k arbitrary: n)
  case (Suc k)
  show ?case
  proof (cases "n < 10")
    case True
    then show ?thesis by (simp add: show_nat.simps [of n])
  next
    case False
    then have k: "0 < k" using Suc.prems by (cases k) auto
    have "n div 10 < 10 ^ k" using Suc.prems by (simp add: less_mult_imp_div_less mult.commute)
    then have "length (show_nat (n div 10)) \<le> k" using Suc.IH k by simp
    with False show ?thesis by (simp add: show_nat.simps [of n])
  qed
qed simp

text \<open>Splitting \<open>prefix @ number\<close> and \<open>number @ suffix\<close>: a number ends where the digits end.\<close>

lemma digits_append_eq:
  assumes "list_all is_digit a" "list_all is_digit b"
    and "u = [] \<or> \<not> is_digit (hd u)" "v = [] \<or> \<not> is_digit (hd v)"
    and "a @ u = b @ v"
  shows "a = b \<and> u = v"
  using assms
proof (induction a arbitrary: b)
  case Nil
  then show ?case by (cases b) auto
next
  case (Cons x xs)
  then show ?case by (cases b) auto
qed

lemma show_nat_append_eq:
  assumes "u = [] \<or> \<not> is_digit (hd u)" "v = [] \<or> \<not> is_digit (hd v)"
    and "show_nat m @ u = show_nat n @ v"
  shows "m = n \<and> u = v"
  using digits_append_eq [OF show_nat_digits show_nat_digits assms] by (simp add: show_nat_inj)

end
