(* ===== verification/Sched_Core.thy ===== *)
theory Sched_Core
  imports FR_Prelude
begin

text \<open>
  The scheduler's state and its critical sections (\<open>internal/scheduler/scheduler.go\<close>).

  Every function here is what one of the scheduler's methods does while it holds \<open>s.mu\<close>: it takes
  the \<^term>\<open>s\<close> of before the lock and returns the one at the unlock, with what the method returns or
  does next.  The goroutines that call them are in theory \<open>Sched_Machine\<close>.

  A \<open>context.Context\<close> is a number and \<open>ctx.Err() != nil\<close> a predicate on it.  A handle's \<open>cancel\<close>
  field names the launch whose \<open>vmCtx\<close> it cancels; the launches cancelled so far are in
  \<open>s_vmDone\<close>.
\<close>

section \<open>State\<close>

type_synonym ctx = nat

record vmHandle =
  h_cancel :: nat
  h_busy :: bool
  h_since :: time
  h_cancelled :: bool
  h_removing :: bool
  h_completed :: bool
  h_completedAt :: nat

record scheduler =
  s_max :: int
  s_min :: int
  s_hasRemover :: bool
  s_pendingAll :: int
  s_running :: int
  s_active :: "(string, vmHandle) gomap"
  s_failures :: int
  s_backingOff :: int
  s_pending :: int
  s_removeQ :: "string list"
  s_removerActive :: bool
  s_lastJobs :: int
  s_lastCtx :: ctx
  s_hasDesired :: bool
  s_reconciles :: nat
  s_draining :: bool
  s_vmDone :: "nat set"

text \<open>\<open>New\<close>: a nil \<open>Pending\<close> gets a counter of its own, a shared one keeps its count.\<close>

definition new_scheduler :: "int \<Rightarrow> int \<Rightarrow> bool \<Rightarrow> int option \<Rightarrow> scheduler" where
  "new_scheduler mx mn hasRemover shared =
     \<lparr> s_max = mx, s_min = mn, s_hasRemover = hasRemover,
       s_pendingAll = (case shared of None \<Rightarrow> 0 | Some n \<Rightarrow> n),
       s_running = 0, s_active = [], s_failures = 0, s_backingOff = 0, s_pending = 0,
       s_removeQ = [], s_removerActive = False,
       s_lastJobs = 0, s_lastCtx = 0, s_hasDesired = False, s_reconciles = 0,
       s_draining = False, s_vmDone = {} \<rparr>"

section \<open>Planning\<close>

definition plan :: "int \<Rightarrow> int \<Rightarrow> int \<Rightarrow> int \<Rightarrow> int" where
  "plan desired live running mx =
     (let want = desired - live;
          want = (if want < 0 then 0 else want);
          avail = mx - running;
          want = (if want > avail then avail else want)
      in if want < 0 then 0 else want)"

text \<open>The handles \<open>live\<close> leaves out.\<close>

definition gone :: "vmHandle \<Rightarrow> bool" where
  "gone h \<longleftrightarrow> h_cancelled h \<or> h_removing h \<or> h_completed h"

definition live :: "scheduler \<Rightarrow> int" where
  "live s = s_running s - s_backingOff s - countv gone (s_active s)"

definition desired :: "scheduler \<Rightarrow> int" where
  "desired s = s_lastJobs s + s_min s"

definition commit :: "int \<Rightarrow> scheduler \<Rightarrow> scheduler" where
  "commit n s = s\<lparr>s_running := s_running s + n, s_pending := s_pending s + n,
                  s_pendingAll := s_pendingAll s + n\<rparr>"

section \<open>Scaling down and taking it back\<close>

text \<open>\<open>h.cancelled = true; h.cancel()\<close>.\<close>

definition cancel_handle :: "string \<Rightarrow> vmHandle \<Rightarrow> scheduler \<Rightarrow> scheduler" where
  "cancel_handle name h s =
     s\<lparr>s_active := mput name (h\<lparr>h_cancelled := True\<rparr>) (s_active s),
       s_vmDone := insert (h_cancel h) (s_vmDone s)\<rparr>"

definition mark_removing :: "string \<Rightarrow> vmHandle \<Rightarrow> scheduler \<Rightarrow> scheduler" where
  "mark_removing name h s =
     s\<lparr>s_active := mput name (h\<lparr>h_removing := True\<rparr>) (s_active s),
       s_removeQ := s_removeQ s @ [name]\<rparr>"

text \<open>The \<open>range s.active\<close> loop of \<open>scaleDown\<close>, over the order in which the map is visited.\<close>

fun scale_loop :: "string list \<Rightarrow> int \<Rightarrow> int \<Rightarrow> scheduler \<Rightarrow> scheduler \<times> int" where
  "scale_loop [] excess picked s = (s, picked)"
| "scale_loop (name # ns) excess picked s =
     (if excess \<le> 0 then (s, picked)
      else (case mlookup (s_active s) name of
              None \<Rightarrow> scale_loop ns excess picked s
            | Some h \<Rightarrow>
                if h_busy h \<or> h_cancelled h \<or> h_removing h then scale_loop ns excess picked s
                else if s_hasRemover s
                then scale_loop ns (excess - 1) (picked + 1) (mark_removing name h s)
                else scale_loop ns (excess - 1) (picked + 1) (cancel_handle name h s)))"

declare scale_loop.simps(2) [simp del]

definition scaleDown :: "string list \<Rightarrow> int \<Rightarrow> scheduler \<Rightarrow> scheduler \<times> int \<times> bool" where
  "scaleDown ord want s =
     (let floor = (if want < s_min s then s_min s else want);
          excess = live s - floor
      in if excess \<le> 0 then (s, 0, False)
         else (case scale_loop ord excess 0 s of (s', picked) \<Rightarrow>
                 let start = (s_removeQ s' \<noteq> [] \<and> \<not> s_removerActive s')
                 in (if start then s'\<lparr>s_removerActive := True\<rparr> else s', picked, start)))"

text \<open>The loop of \<open>reclaimQueued\<close>; it takes names off the end, so it runs over the reversed queue.\<close>

fun reclaim_loop ::
  "int \<Rightarrow> int \<Rightarrow> string list \<Rightarrow> (string, vmHandle) gomap
     \<Rightarrow> string list \<times> (string, vmHandle) gomap \<times> int" where
  "reclaim_loop need reclaimed [] act = ([], act, reclaimed)"
| "reclaim_loop need reclaimed (name # q) act =
     (if need \<le> 0 then (name # q, act, reclaimed)
      else (case mlookup act name of
              None \<Rightarrow> reclaim_loop need reclaimed q act
            | Some h \<Rightarrow>
                if h_removing h \<and> \<not> h_cancelled h
                then reclaim_loop (need - 1) (reclaimed + 1) q (mput name (h\<lparr>h_removing := False\<rparr>) act)
                else reclaim_loop need reclaimed q act))"

definition reclaimQueued :: "int \<Rightarrow> scheduler \<Rightarrow> scheduler \<times> int" where
  "reclaimQueued want s =
     (let need = max want (s_min s) - live s
      in case reclaim_loop need 0 (rev (s_removeQ s)) (s_active s) of
           (q, act, reclaimed) \<Rightarrow> (s\<lparr>s_removeQ := rev q, s_active := act\<rparr>, reclaimed))"

section \<open>Reconcile and its kin\<close>

text \<open>What the closure returned by \<open>reconcileLocked\<close> does once the lock is released.\<close>

record reconcile_act =
  a_launch :: int
  a_startRemover :: bool

definition reconcileLocked :: "string list \<Rightarrow> scheduler \<Rightarrow> scheduler \<times> reconcile_act" where
  "reconcileLocked ord s =
     (let want = desired s;
          (s, reclaimed) = reclaimQueued want s;
          n = (if s_draining s then 0 else plan want (live s) (s_running s) (s_max s));
          s = commit n s
      in if n = 0
         then (case scaleDown ord want s of
                 (s, stopped, startRemover) \<Rightarrow> (s, \<lparr>a_launch = 0, a_startRemover = startRemover\<rparr>))
         else (s, \<lparr>a_launch = n, a_startRemover = False\<rparr>))"

definition Reconcile :: "string list \<Rightarrow> ctx \<Rightarrow> int \<Rightarrow> scheduler \<Rightarrow> scheduler \<times> reconcile_act" where
  "Reconcile ord ctx jobs s =
     reconcileLocked ord
       (s\<lparr>s_lastJobs := jobs, s_lastCtx := ctx, s_hasDesired := True,
          s_reconciles := s_reconciles s + 1\<rparr>)"

definition replan :: "(ctx \<Rightarrow> bool) \<Rightarrow> ctx \<Rightarrow> scheduler \<Rightarrow> scheduler \<times> int" where
  "replan done ctx s =
     (if \<not> s_hasDesired s \<or> s_draining s \<or> done ctx \<or> done (s_lastCtx s) then (s, 0)
      else (case reclaimQueued (desired s) s of (s', reclaimed) \<Rightarrow>
              if reclaimed > 0 then (s', 0)
              else let n = min 1 (plan (desired s') (live s') (s_running s') (s_max s'))
                   in (commit n s', n)))"

text \<open>
  \<open>SetMin\<close> up to its unlock; what is left is the closure of \<open>reconcileLocked\<close>, a call of
  \<open>maintainMinimum\<close>, or nothing.
\<close>

datatype setmin_rest = Unchanged | Act reconcile_act | Maintain | NothingLeft

definition SetMin :: "string list \<Rightarrow> (ctx \<Rightarrow> bool) \<Rightarrow> int \<Rightarrow> scheduler \<Rightarrow> scheduler \<times> setmin_rest" where
  "SetMin ord done n s =
     (let old = s_min s
      in if n = old then (s, Unchanged)
         else let s = s\<lparr>s_min := n\<rparr>
              in if s_hasDesired s \<and> \<not> done (s_lastCtx s)
                 then (case reconcileLocked ord s of (s, act) \<Rightarrow> (s, Act act))
                 else (s, if n > old then Maintain else NothingLeft))"

definition maintainMinimum :: "(ctx \<Rightarrow> bool) \<Rightarrow> ctx \<Rightarrow> scheduler \<Rightarrow> scheduler \<times> int" where
  "maintainMinimum done ctx s =
     (if done ctx then (s, 0)
      else if s_min s \<le> 0 then (s, 0)
      else let n = (if s_draining s then 0
                    else plan (s_min s) (s_running s) (s_running s) (s_max s))
           in (commit n s, n))"

section \<open>Deregistration\<close>

text \<open>
  The error of \<open>RunnerRemover.RemoveRunner\<close>: \<open>core.ErrRunnerBusy\<close>, \<open>core.ErrRemovalUnknown\<close>, any
  other, or (None) nil.
\<close>

datatype removal_error = ErrRunnerBusy | ErrRemovalUnknown | ErrOther

fun next_loop ::
  "string list \<Rightarrow> (string, vmHandle) gomap \<Rightarrow> string list \<times> (string, vmHandle) gomap \<times> string option" where
  "next_loop [] act = ([], act, None)"
| "next_loop (name # q) act =
     (case mlookup act name of
        None \<Rightarrow> next_loop q act
      | Some h \<Rightarrow>
          if \<not> h_removing h \<or> h_cancelled h then next_loop q act
          else if h_busy h then next_loop q (mput name (h\<lparr>h_removing := False\<rparr>) act)
          else (q, act, Some name))"

definition nextRemoval :: "scheduler \<Rightarrow> scheduler \<times> string option" where
  "nextRemoval s =
     (case next_loop (s_removeQ s) (s_active s) of
        (q, act, r) \<Rightarrow> (s\<lparr>s_removeQ := q, s_active := act\<rparr>, r))"

text \<open>The critical section at the head of \<open>removeLoop\<close>; None ends the loop.\<close>

definition removeLoop_next :: "(ctx \<Rightarrow> bool) \<Rightarrow> ctx \<Rightarrow> scheduler \<Rightarrow> scheduler \<times> string option" where
  "removeLoop_next done ctx s =
     (case (if done ctx then (s, None) else nextRemoval s) of
        (s, None) \<Rightarrow> (s\<lparr>s_removeQ := [], s_removerActive := False\<rparr>, None)
      | (s, Some name) \<Rightarrow> (s, Some name))"

definition settleRemoval :: "string \<Rightarrow> removal_error option \<Rightarrow> scheduler \<Rightarrow> scheduler \<times> bool" where
  "settleRemoval name err s =
     (case mlookup (s_active s) name of
        None \<Rightarrow> (s, False)
      | Some h \<Rightarrow>
          if h_cancelled h then (s, False)
          else if err = Some ErrRemovalUnknown \<and> \<not> h_busy h
          then (s\<lparr>s_removeQ := s_removeQ s @ [name]\<rparr>, True)
          else let h = h\<lparr>h_removing := False\<rparr>;
                   s = s\<lparr>s_active := mput name h (s_active s)\<rparr>
               in (case err of
                     Some ErrRunnerBusy \<Rightarrow>
                       (s\<lparr>s_active := mput name (h\<lparr>h_busy := True\<rparr>) (s_active s)\<rparr>, False)
                   | Some _ \<Rightarrow> (s, False)
                   | None \<Rightarrow> if h_busy h then (s, False) else (cancel_handle name h s, False)))"

section \<open>The handles\<close>

definition track :: "string \<Rightarrow> nat \<Rightarrow> time \<Rightarrow> scheduler \<Rightarrow> scheduler" where
  "track name cancel now s =
     s\<lparr>s_active := mput name \<lparr>h_cancel = cancel, h_busy = False, h_since = now, h_cancelled = False,
          h_removing = False, h_completed = False, h_completedAt = 0\<rparr> (s_active s)\<rparr>"

definition untrack :: "string \<Rightarrow> scheduler \<Rightarrow> scheduler" where
  "untrack name s = s\<lparr>s_active := mdel name (s_active s)\<rparr>"

definition MarkBusy :: "string \<Rightarrow> scheduler \<Rightarrow> scheduler" where
  "MarkBusy name s =
     (case mlookup (s_active s) name of
        None \<Rightarrow> s
      | Some h \<Rightarrow> s\<lparr>s_active := mput name (h\<lparr>h_busy := True\<rparr>) (s_active s)\<rparr>)"

definition MarkCompleted :: "string \<Rightarrow> scheduler \<Rightarrow> scheduler" where
  "MarkCompleted name s =
     (case mlookup (s_active s) name of
        None \<Rightarrow> s
      | Some h \<Rightarrow>
          s\<lparr>s_active := mput name (h\<lparr>h_busy := True, h_completed := True,
                                     h_completedAt := s_reconciles s\<rparr>) (s_active s)\<rparr>)"

definition IdleRunners :: "time \<Rightarrow> duration \<Rightarrow> scheduler \<Rightarrow> string list" where
  "IdleRunners now olderThan s =
     (let cutoff = now - olderThan
      in map fst (filter (\<lambda>(name, h). \<not> h_busy h \<and> \<not> h_cancelled h \<and> \<not> h_removing h \<and> h_since h < cutoff)
                   (s_active s)))"

definition CancelLost :: "string \<Rightarrow> scheduler \<Rightarrow> scheduler \<times> bool" where
  "CancelLost name s =
     (case mlookup (s_active s) name of
        None \<Rightarrow> (s, False)
      | Some h \<Rightarrow>
          if h_busy h \<or> h_cancelled h \<or> h_removing h then (s, False)
          else (cancel_handle name h s, True))"

definition cancelIfIdle :: "string \<Rightarrow> scheduler \<Rightarrow> scheduler" where
  "cancelIfIdle name s =
     (case mlookup (s_active s) name of
        None \<Rightarrow> s
      | Some h \<Rightarrow> if h_busy h \<or> h_cancelled h then s else cancel_handle name h s)"

section \<open>Capacity, drain and backoff\<close>

text \<open>
  \<open>Capacity\<close>; the first argument is \<open>FreeSlots()\<close> when the provisioner reports slots.
\<close>

definition Capacity :: "int option \<Rightarrow> scheduler \<Rightarrow> int" where
  "Capacity slots s =
     (let room = max 0 (s_max s - s_running s);
          committed = max 0 (live s - s_pending s)
      in case slots of
           None \<Rightarrow> committed + s_pending s + room
         | Some free \<Rightarrow>
             let willBoot = min (s_pending s) free;
                 headroom = max 0 (min room (free - s_pendingAll s))
             in committed + willBoot + headroom)"

definition Drain :: "scheduler \<Rightarrow> scheduler" where
  "Drain s = s\<lparr>s_draining := True\<rparr>"

definition backoffBase :: duration where "backoffBase = 500 * millisecond"
definition backoffMax :: duration where "backoffMax = 30 * second"

text \<open>The doubling loop of \<open>backoffDelay\<close>: \<open>k\<close> counts the iterations left (\<open>failures - 1\<close> at first).\<close>

fun double_loop :: "nat \<Rightarrow> duration \<Rightarrow> duration" where
  "double_loop 0 d = d"
| "double_loop (Suc k) d = (if d < backoffMax then double_loop k (2 * d) else d)"

definition backoffDelay :: "int \<Rightarrow> duration" where
  "backoffDelay failures =
     (let failures = (if failures < 1 then 1 else failures);
          d = double_loop (nat (failures - 1)) backoffBase
      in if d > backoffMax then backoffMax else d)"

definition backoff_enter :: "scheduler \<Rightarrow> scheduler \<times> duration" where
  "backoff_enter s =
     (let n = s_failures s + 1
      in (s\<lparr>s_failures := n, s_backingOff := s_backingOff s + 1\<rparr>, backoffDelay n))"

definition backoff_leave :: "scheduler \<Rightarrow> scheduler" where
  "backoff_leave s = s\<lparr>s_backingOff := s_backingOff s - 1\<rparr>"

definition resetBackoff :: "scheduler \<Rightarrow> scheduler" where
  "resetBackoff s = s\<lparr>s_failures := 0\<rparr>"

text \<open>The two halves of a launch's bookkeeping: \<open>enter\<close> settles the reservation, and the part of
  \<open>finish\<close> that takes the launch out of \<open>running\<close>.  \<open>Pending.done\<close> runs right after the unlock of \<open>enter\<close>; it is in the
  same section here, so the count of all tiers is never a launch ahead of the tier's own.\<close>

definition enter :: "scheduler \<Rightarrow> scheduler" where
  "enter s = s\<lparr>s_pending := s_pending s - 1, s_pendingAll := s_pendingAll s - 1\<rparr>"

definition finish :: "(ctx \<Rightarrow> bool) \<Rightarrow> ctx \<Rightarrow> bool \<Rightarrow> scheduler \<Rightarrow> scheduler \<times> int" where
  "finish done ctx jobDone s =
     (let s = s\<lparr>s_running := s_running s - 1\<rparr>
      in if jobDone then replan done ctx s else (s, 0))"

text \<open>The critical section after \<open>Provisioner.Launch\<close> returned.\<close>

definition exit_section ::
  "(ctx \<Rightarrow> bool) \<Rightarrow> ctx \<Rightarrow> nat \<Rightarrow> string \<Rightarrow> bool \<Rightarrow> scheduler \<Rightarrow> scheduler \<times> bool \<times> bool \<times> int" where
  "exit_section done ctx i name launchErr s =
     (let jobDone = (case mlookup (s_active s) name of
                       None \<Rightarrow> False
                     | Some h \<Rightarrow> h_completed h \<and> s_reconciles s > h_completedAt h);
          s = s\<lparr>s_active := mdel name (s_active s)\<rparr>;
          failed = (launchErr \<and> i \<notin> s_vmDone s)
      in if failed then (s, jobDone, False, 0)
         else (case finish done ctx jobDone s of (s, n) \<Rightarrow> (s, jobDone, True, n)))"

end
