(* ===== verification/Sched_Machine.thy ===== *)
theory Sched_Machine
  imports Sched_Core
begin

text \<open>
  The scheduler's goroutines as a labelled step relation: one rule per critical section of
  \<open>launchOne\<close>, \<open>backoff\<close> and \<open>removeLoop\<close>, per call from outside (the listener, the reconciler, the
  schedule, shutdown) and per answer of the environment (GitHub, the provisioner, timers).

  A launch is in the list from the moment it is committed to \<open>running\<close>.  Its program counter
  \<open>l_pc\<close> says which part of \<open>launchOne\<close> comes next.  Contexts that have ended are in \<open>w_done\<close>.
  Starting a goroutine some time after the lock is released is the same as the goroutine taking
  that long to run its first statement.
\<close>

section \<open>Launches and the world around the scheduler\<close>

text \<open>
  Where a \<open>launchOne\<close> goroutine is: committed but not running yet; about to call \<open>JIT.Generate\<close>;
  past it, before \<open>enter\<close>; before \<open>track\<close>; inside \<open>Provisioner.Launch\<close>; at the final \<open>switch\<close>; before
  and inside \<open>backoff\<close> (with the runner's name when it was tracked); running the deferred \<open>untrack\<close>
  and \<open>enter\<close>, the deferred \<open>finish\<close>, and the deferred \<open>maintainMinimum\<close>.
\<close>

datatype lpc =
    Committed
  | Generating
  | GenFailed
  | Generated string
  | Entered string
  | Launching string
  | Switching string bool
  | BackoffDue "string option"
  | Sleeping "string option"
  | Returning "string option"
  | Finishing
  | Finished

record launch =
  l_ctx :: ctx
  l_pc :: lpc
  l_entered :: bool
  l_finished :: bool
  l_jobDone :: bool

text \<open>A \<open>removeLoop\<close> goroutine: at the loop head, waiting for GitHub, or pacing a retry.\<close>

datatype rpc = RHead | RCall string | RWait string

record world =
  w_s :: scheduler
  w_launches :: "(nat, launch) gomap"
  w_removers :: "(ctx \<times> rpc) list"
  w_maintain :: "ctx list"
  w_done :: "ctx set"
  w_next :: nat

abbreviation ctx_done :: "world \<Rightarrow> ctx \<Rightarrow> bool" where
  "ctx_done w c \<equiv> c \<in> w_done w"

text \<open>The goroutines \<open>go s.launchOne(ctx, ...)\<close> of a committed launch count.\<close>

fun add_launches :: "nat \<Rightarrow> ctx \<Rightarrow> world \<Rightarrow> world" where
  "add_launches 0 c w = w"
| "add_launches (Suc k) c w =
     add_launches k c
       (w\<lparr>w_launches := mput (w_next w)
            \<lparr>l_ctx = c, l_pc = Committed, l_entered = False, l_finished = False, l_jobDone = False\<rparr>
            (w_launches w),
          w_next := Suc (w_next w)\<rparr>)"

definition start_launches :: "int \<Rightarrow> ctx \<Rightarrow> world \<Rightarrow> world" where
  "start_launches n c w = add_launches (nat n) c w"

definition start_remover :: "bool \<Rightarrow> ctx \<Rightarrow> world \<Rightarrow> world" where
  "start_remover b c w = (if b then w\<lparr>w_removers := (c, RHead) # w_removers w\<rparr> else w)"

definition run_act :: "reconcile_act \<Rightarrow> ctx \<Rightarrow> world \<Rightarrow> world" where
  "run_act act c w = start_remover (a_startRemover act) c (start_launches (a_launch act) c w)"

definition set_launch :: "nat \<Rightarrow> launch \<Rightarrow> world \<Rightarrow> world" where
  "set_launch i l w = w\<lparr>w_launches := mput i l (w_launches w)\<rparr>"

text \<open>The names launches hold: a runner's name is in use from its generation to its \<open>untrack\<close>.\<close>

fun pc_name :: "lpc \<Rightarrow> string option" where
  "pc_name (Generated n) = Some n"
| "pc_name (Entered n) = Some n"
| "pc_name (Launching n) = Some n"
| "pc_name (Switching n e) = Some n"
| "pc_name (BackoffDue n) = n"
| "pc_name (Sleeping n) = n"
| "pc_name (Returning n) = n"
| "pc_name _ = None"

definition name_used :: "string \<Rightarrow> world \<Rightarrow> bool" where
  "name_used n w \<longleftrightarrow> list_ex (\<lambda>(i, l). pc_name (l_pc l) = Some n) (w_launches w)"

section \<open>The steps\<close>

datatype label =
    LReconcile ctx int | LSetMin ctx int | LMaintain | LMarkBusy string | LMarkCompleted string
  | LCancelLost string | LDrain | LCtxDone ctx | LOtherTier int
  | LStart nat | LGenerate nat "string option" | LGenEnter nat | LEnter nat | LTrack nat
  | LWatch nat | LExit nat bool | LSwitch nat | LBackoff nat | LWake nat | LUntrack nat
  | LDeferEnter nat | LFinish nat | LReturn nat
  | LRemoverNext | LSettle string "removal_error option" | LRemoverRetry

text \<open>
  A new scheduler: \<open>Max\<close> is not negative (\<open>config.validate\<close> asks for at least 1), no goroutine runs,
  and a shared \<open>Pending\<close> counter may already hold the other tiers' launches.
\<close>

definition init_world :: "int \<Rightarrow> int \<Rightarrow> bool \<Rightarrow> world \<Rightarrow> bool" where
  "init_world mx mn hasRemover w \<longleftrightarrow>
     0 \<le> mx \<and> w_launches w = [] \<and> w_removers w = [] \<and> w_maintain w = [] \<and> w_done w = {} \<and> w_next w = 0 \<and>
     (\<exists>shared. w_s w = new_scheduler mx mn hasRemover shared \<and> (\<forall>n. shared = Some n \<longrightarrow> 0 \<le> n))"

text \<open>
  What the environment is assumed to do: \<open>JIT.Generate\<close> never returns the name of a runner that is
  still in flight (GitHub registers a runner name once), the other tiers only add and settle
  launches of their own on the shared counter, and a context that ended stays ended.
\<close>

inductive sched_step :: "label \<Rightarrow> world \<Rightarrow> world \<Rightarrow> bool" where
  reconcile:
    "range_order ord (s_active (w_s w)) \<Longrightarrow>
     Reconcile ord c jobs (w_s w) = (s, act) \<Longrightarrow>
     sched_step (LReconcile c jobs) w (run_act act c (w\<lparr>w_s := s\<rparr>))"
| set_min:
    "range_order ord (s_active (w_s w)) \<Longrightarrow>
     SetMin ord (ctx_done w) n (w_s w) = (s, rest) \<Longrightarrow>
     sched_step (LSetMin c n) w
       (case rest of
          Act act \<Rightarrow> run_act act (s_lastCtx (w_s w)) (w\<lparr>w_s := s\<rparr>)
        | Maintain \<Rightarrow> w\<lparr>w_s := s, w_maintain := c # w_maintain w\<rparr>
        | _ \<Rightarrow> w\<lparr>w_s := s\<rparr>)"
| maintain:
    "w_maintain w = c # cs \<Longrightarrow>
     maintainMinimum (ctx_done w) c (w_s w) = (s, n) \<Longrightarrow>
     sched_step LMaintain w (start_launches n c (w\<lparr>w_s := s, w_maintain := cs\<rparr>))"
| mark_busy:
    "sched_step (LMarkBusy name) w (w\<lparr>w_s := MarkBusy name (w_s w)\<rparr>)"
| mark_completed:
    "sched_step (LMarkCompleted name) w (w\<lparr>w_s := MarkCompleted name (w_s w)\<rparr>)"
| cancel_lost:
    "CancelLost name (w_s w) = (s, b) \<Longrightarrow> sched_step (LCancelLost name) w (w\<lparr>w_s := s\<rparr>)"
| drain:
    "sched_step LDrain w (w\<lparr>w_s := Drain (w_s w)\<rparr>)"
| ctx_ends:
    "sched_step (LCtxDone c) w (w\<lparr>w_done := insert c (w_done w)\<rparr>)"
| other_tier:
    "s_pending (w_s w) \<le> s_pendingAll (w_s w) + d \<Longrightarrow>
     sched_step (LOtherTier d) w (w\<lparr>w_s := (w_s w)\<lparr>s_pendingAll := s_pendingAll (w_s w) + d\<rparr>\<rparr>)"
| start:
    "mlookup (w_launches w) i = Some l \<Longrightarrow> l_pc l = Committed \<Longrightarrow>
     sched_step (LStart i) w
       (set_launch i (l\<lparr>l_pc := (if ctx_done w (l_ctx l) then Returning None else Generating)\<rparr>) w)"
| generate:
    "mlookup (w_launches w) i = Some l \<Longrightarrow> l_pc l = Generating \<Longrightarrow>
     (\<And>name. r = Some name \<Longrightarrow> \<not> name_used name w) \<Longrightarrow>
     sched_step (LGenerate i r) w
       (set_launch i (l\<lparr>l_pc := (case r of None \<Rightarrow> GenFailed | Some name \<Rightarrow> Generated name)\<rparr>) w)"
| gen_enter:
    "mlookup (w_launches w) i = Some l \<Longrightarrow> l_pc l = GenFailed \<Longrightarrow>
     sched_step (LGenEnter i) w
       (set_launch i (l\<lparr>l_pc := BackoffDue None, l_entered := True\<rparr>) (w\<lparr>w_s := enter (w_s w)\<rparr>))"
| enter_provisioner:
    "mlookup (w_launches w) i = Some l \<Longrightarrow> l_pc l = Generated name \<Longrightarrow>
     sched_step (LEnter i) w
       (set_launch i (l\<lparr>l_pc := Entered name, l_entered := True\<rparr>) (w\<lparr>w_s := enter (w_s w)\<rparr>))"
| track_runner:
    "mlookup (w_launches w) i = Some l \<Longrightarrow> l_pc l = Entered name \<Longrightarrow>
     sched_step (LTrack i) w
       (set_launch i (l\<lparr>l_pc := Launching name\<rparr>) (w\<lparr>w_s := track name i now (w_s w)\<rparr>))"
| watch:
    "mlookup (w_launches w) i = Some l \<Longrightarrow> pc_name (l_pc l) = Some name \<Longrightarrow> ctx_done w (l_ctx l) \<Longrightarrow>
     sched_step (LWatch i) w (w\<lparr>w_s := cancelIfIdle name (w_s w)\<rparr>)"
| exit_launch:
    "mlookup (w_launches w) i = Some l \<Longrightarrow> l_pc l = Launching name \<Longrightarrow>
     exit_section (ctx_done w) (l_ctx l) i name err (w_s w) = (s, jobDone, fin, n) \<Longrightarrow>
     sched_step (LExit i err) w
       (start_launches n (s_lastCtx (w_s w))
          (set_launch i (l\<lparr>l_pc := Switching name err, l_jobDone := jobDone, l_finished := fin\<rparr>)
             (w\<lparr>w_s := s\<rparr>)))"
| switch:
    "mlookup (w_launches w) i = Some l \<Longrightarrow> l_pc l = Switching name err \<Longrightarrow>
     sched_step (LSwitch i) w
       (if i \<notin> s_vmDone (w_s w) \<and> err
        then set_launch i (l\<lparr>l_pc := BackoffDue (Some name)\<rparr>) w
        else set_launch i (l\<lparr>l_pc := Returning (Some name)\<rparr>) (w\<lparr>w_s := resetBackoff (w_s w)\<rparr>))"
| backoff_begin:
    "mlookup (w_launches w) i = Some l \<Longrightarrow> l_pc l = BackoffDue nm \<Longrightarrow>
     sched_step (LBackoff i) w
       (if ctx_done w (l_ctx l) then set_launch i (l\<lparr>l_pc := Returning nm\<rparr>) w
        else set_launch i (l\<lparr>l_pc := Sleeping nm\<rparr>) (w\<lparr>w_s := fst (backoff_enter (w_s w))\<rparr>))"
| backoff_end:
    "mlookup (w_launches w) i = Some l \<Longrightarrow> l_pc l = Sleeping nm \<Longrightarrow>
     sched_step (LWake i) w
       (set_launch i (l\<lparr>l_pc := Returning nm\<rparr>) (w\<lparr>w_s := backoff_leave (w_s w)\<rparr>))"
| defer_untrack:
    "mlookup (w_launches w) i = Some l \<Longrightarrow> l_pc l = Returning (Some name) \<Longrightarrow>
     sched_step (LUntrack i) w
       (set_launch i (l\<lparr>l_pc := Returning None\<rparr>) (w\<lparr>w_s := untrack name (w_s w)\<rparr>))"
| defer_enter:
    "mlookup (w_launches w) i = Some l \<Longrightarrow> l_pc l = Returning None \<Longrightarrow>
     sched_step (LDeferEnter i) w
       (set_launch i (l\<lparr>l_pc := Finishing, l_entered := True\<rparr>)
          (if l_entered l then w else w\<lparr>w_s := enter (w_s w)\<rparr>))"
| defer_finish:
    "mlookup (w_launches w) i = Some l \<Longrightarrow> l_pc l = Finishing \<Longrightarrow>
     (if l_finished l then (w_s w, 0) else finish (ctx_done w) (l_ctx l) (l_jobDone l) (w_s w)) = (s, n) \<Longrightarrow>
     sched_step (LFinish i) w
       (start_launches n (s_lastCtx (w_s w))
          (set_launch i (l\<lparr>l_pc := Finished, l_finished := True\<rparr>) (w\<lparr>w_s := s\<rparr>)))"
| return:
    "mlookup (w_launches w) i = Some l \<Longrightarrow> l_pc l = Finished \<Longrightarrow>
     maintainMinimum (ctx_done w) (l_ctx l) (w_s w) = (s, n) \<Longrightarrow>
     sched_step (LReturn i) w
       (start_launches n (l_ctx l) (w\<lparr>w_s := s, w_launches := mdel i (w_launches w)\<rparr>))"
| remover_next:
    "w_removers w = (c, RHead) # rs \<Longrightarrow>
     removeLoop_next (ctx_done w) c (w_s w) = (s, r) \<Longrightarrow>
     sched_step LRemoverNext w
       (w\<lparr>w_s := s, w_removers := (case r of None \<Rightarrow> rs | Some name \<Rightarrow> (c, RCall name) # rs)\<rparr>)"
| remover_settle:
    "w_removers w = (c, RCall name) # rs \<Longrightarrow>
     settleRemoval name err (w_s w) = (s, again) \<Longrightarrow>
     sched_step (LSettle name err) w
       (w\<lparr>w_s := s, w_removers := (if again then (c, RWait name) # rs else (c, RHead) # rs)\<rparr>)"
| remover_retry:
    "w_removers w = (c, RWait name) # rs \<Longrightarrow>
     sched_step LRemoverRetry w (w\<lparr>w_removers := (c, RHead) # rs\<rparr>)"

end
