(* ===== verification/Sched_Facts.thy ===== *)
theory Sched_Facts
  imports Sched_Core
begin

text \<open>
  Facts about the scheduler's critical sections taken one at a time: what planning computes, what
  each operation leaves alone, how scaling down and reclaiming change the live count, and the delay
  of the backoff.  The invariants of the concurrent system (theory \<open>Sched_Invariant\<close>) rest on them.
\<close>

section \<open>Planning\<close>

lemma plan_eq: "plan d l r m = max 0 (min (d - l) (m - r))"
  by (auto simp: plan_def Let_def)

lemma plan_nonneg [simp]: "0 \<le> plan d l r m"
  by (simp add: plan_eq)

lemma plan_bound: "r \<le> m \<Longrightarrow> r + plan d l r m \<le> m"
  by (simp add: plan_eq)

section \<open>What an operation on handles may change\<close>

text \<open>
  Most operations only write handles, the removal queue and the cancelled launches.  \<open>handles_only\<close>
  says so: the counters stand, no handle appears, disappears or changes its launch, a busy or
  cancelled handle stays so, and every launch newly cancelled belongs to a handle that was idle.
\<close>

definition handle_le :: "vmHandle \<Rightarrow> vmHandle \<Rightarrow> bool" where
  "handle_le h h' \<longleftrightarrow>
     h_cancel h' = h_cancel h \<and> (h_busy h \<longrightarrow> h_busy h') \<and> (h_cancelled h \<longrightarrow> h_cancelled h') \<and>
     (h_completed h \<longrightarrow> h_completed h') \<and>
     ((h_completed h \<longrightarrow> h_busy h) \<longrightarrow> (h_completed h' \<longrightarrow> h_busy h')) \<and>
     (h_cancelled h' \<longrightarrow> h_cancelled h \<or> \<not> h_busy h)"

definition active_le :: "(string, vmHandle) gomap \<Rightarrow> (string, vmHandle) gomap \<Rightarrow> bool" where
  "active_le a b \<longleftrightarrow>
     (wf_map a \<longrightarrow> wf_map b) \<and> length b = length a \<and>
     (\<forall>n. rel_option handle_le (mlookup a n) (mlookup b n))"

definition same_counts :: "scheduler \<Rightarrow> scheduler \<Rightarrow> bool" where
  "same_counts s t \<longleftrightarrow>
     s_max t = s_max s \<and> s_hasRemover t = s_hasRemover s \<and> s_running t = s_running s \<and>
     s_pending t = s_pending s \<and> s_pendingAll t = s_pendingAll s \<and> s_backingOff t = s_backingOff s"

definition handles_only :: "scheduler \<Rightarrow> scheduler \<Rightarrow> bool" where
  "handles_only s t \<longleftrightarrow>
     same_counts s t \<and> active_le (s_active s) (s_active t) \<and> s_vmDone s \<subseteq> s_vmDone t \<and>
     (\<forall>i \<in> s_vmDone t - s_vmDone s.
        \<exists>n h. mlookup (s_active s) n = Some h \<and> h_cancel h = i \<and> \<not> h_busy h \<and> \<not> h_cancelled h)"

lemma handle_le_refl [simp]: "handle_le h h"
  by (simp add: handle_le_def)

lemma handle_le_trans: "handle_le a b \<Longrightarrow> handle_le b c \<Longrightarrow> handle_le a c"
  by (auto simp: handle_le_def)

lemma active_le_refl [simp]: "active_le a a"
  by (simp add: active_le_def rel_option_iff split: option.split)

lemma active_le_trans:
  assumes "active_le a b" "active_le b c" shows "active_le a c"
proof -
  have "rel_option handle_le (mlookup a n) (mlookup c n)" for n
  proof -
    have "rel_option handle_le (mlookup a n) (mlookup b n)" "rel_option handle_le (mlookup b n) (mlookup c n)"
      using assms by (auto simp: active_le_def)
    then show ?thesis
      by (cases "mlookup a n"; cases "mlookup b n"; cases "mlookup c n") (auto intro: handle_le_trans)
  qed
  with assms show ?thesis by (simp add: active_le_def)
qed

lemma active_le_mput:
  "mlookup a n = Some h \<Longrightarrow> handle_le h h' \<Longrightarrow> active_le a (mput n h' a)"
  by (auto simp: active_le_def rel_option_iff length_mput_old split: option.splits)

lemma active_le_at: "active_le a b \<Longrightarrow> rel_option handle_le (mlookup a n) (mlookup b n)"
  by (simp add: active_le_def)

lemma active_leD:
  "active_le a b \<Longrightarrow> mlookup a n = Some h \<Longrightarrow> \<exists>h'. mlookup b n = Some h' \<and> handle_le h h'"
  using active_le_at [of a b n] by (cases "mlookup b n") auto

lemma active_leD2:
  "active_le a b \<Longrightarrow> mlookup b n = Some h' \<Longrightarrow> \<exists>h. mlookup a n = Some h \<and> handle_le h h'"
  using active_le_at [of a b n] by (cases "mlookup a n") auto

lemma active_le_None: "active_le a b \<Longrightarrow> mlookup b n = None \<longleftrightarrow> mlookup a n = None"
  using active_le_at [of a b n] by (cases "mlookup a n"; cases "mlookup b n") auto

lemma handles_only_refl [simp]: "handles_only s s"
  by (simp add: handles_only_def same_counts_def)

lemma handles_only_trans:
  assumes "handles_only s t" "handles_only t u" shows "handles_only s u"
proof -
  have "\<exists>n h. mlookup (s_active s) n = Some h \<and> h_cancel h = i \<and> \<not> h_busy h \<and> \<not> h_cancelled h"
    if i: "i \<in> s_vmDone u" "i \<notin> s_vmDone s" for i
  proof (cases "i \<in> s_vmDone t")
    case True
    with i have "i \<in> s_vmDone t - s_vmDone s" by simp
    with assms(1) show ?thesis unfolding handles_only_def by blast
  next
    case False
    with i have "i \<in> s_vmDone u - s_vmDone t" by simp
    then obtain n h' where h': "mlookup (s_active t) n = Some h'" "h_cancel h' = i"
      "\<not> h_busy h'" "\<not> h_cancelled h'"
      using assms(2) unfolding handles_only_def by blast
    obtain h where "mlookup (s_active s) n = Some h" "handle_le h h'"
      using assms(1) h'(1) by (auto simp: handles_only_def dest: active_leD2)
    with h' show ?thesis by (auto simp: handle_le_def)
  qed
  with assms show ?thesis
    by (auto simp: handles_only_def same_counts_def intro: active_le_trans)
qed

lemma handles_only_mput:
  "mlookup (s_active s) n = Some h \<Longrightarrow> handle_le h h' \<Longrightarrow>
   handles_only s (s\<lparr>s_active := mput n h' (s_active s)\<rparr>)"
  by (simp add: handles_only_def same_counts_def active_le_mput)

lemma handles_only_queue [simp]: "handles_only s (s\<lparr>s_removeQ := q\<rparr>)"
  "handles_only s (s\<lparr>s_removerActive := b\<rparr>)"
  "handles_only s (s\<lparr>s_removeQ := q, s_removerActive := b\<rparr>)"
  by (simp_all add: handles_only_def same_counts_def)

lemma handles_only_cancel:
  assumes "mlookup (s_active s) n = Some h" "\<not> h_busy h" "\<not> h_cancelled h"
  shows "handles_only s (cancel_handle n h s)"
proof -
  have "active_le (s_active s) (mput n (h\<lparr>h_cancelled := True\<rparr>) (s_active s))"
    using assms by (intro active_le_mput [of _ _ h]) (auto simp: handle_le_def)
  with assms show ?thesis
    by (auto simp: handles_only_def same_counts_def cancel_handle_def)
qed

lemma handles_only_mark_removing:
  assumes "mlookup (s_active s) n = Some h"
  shows "handles_only s (mark_removing n h s)"
proof -
  have "active_le (s_active s) (mput n (h\<lparr>h_removing := True\<rparr>) (s_active s))"
    using assms by (intro active_le_mput [of _ _ h]) (auto simp: handle_le_def)
  then show ?thesis
    by (simp add: handles_only_def same_counts_def mark_removing_def)
qed

lemma scale_loop_handles: "scale_loop ord e p s = (t, q) \<Longrightarrow> handles_only s t"
proof (induction ord e p s arbitrary: t q rule: scale_loop.induct)
  case (2 name ns excess picked s)
  show ?case
  proof (cases "excess \<le> 0 \<or> mlookup (s_active s) name = None")
    case True
    with 2 show ?thesis by (auto simp: scale_loop.simps(2) split: if_splits)
  next
    case False
    then obtain h where h: "mlookup (s_active s) name = Some h" and e: "\<not> excess \<le> 0" by auto
    show ?thesis
    proof (cases "h_busy h \<or> h_cancelled h \<or> h_removing h")
      case True
      with 2 h e show ?thesis by (auto simp: scale_loop.simps(2))
    next
      case idle: False
      show ?thesis
      proof (cases "s_hasRemover s")
        case True
        with 2 h e idle have "handles_only (mark_removing name h s) t" by (auto simp: scale_loop.simps(2))
        with h show ?thesis by (blast intro: handles_only_trans handles_only_mark_removing)
      next
        case False
        with 2 h e idle have "handles_only (cancel_handle name h s) t" by (auto simp: scale_loop.simps(2))
        with h idle show ?thesis by (blast intro: handles_only_trans handles_only_cancel)
      qed
    qed
  qed
qed simp

lemma scaleDown_handles: "scaleDown ord d s = (t, k, b) \<Longrightarrow> handles_only s t"
  by (auto simp: scaleDown_def Let_def split: prod.splits if_splits dest!: scale_loop_handles
      intro: handles_only_trans)

lemma reclaim_loop_le:
  "reclaim_loop need r q a = (q', a', r') \<Longrightarrow> active_le a a' \<and> set q' \<subseteq> set q \<and> r \<le> r'"
proof (induction need r q a arbitrary: q' a' r' rule: reclaim_loop.induct)
  case (2 need reclaimed name q act)
  show ?case
  proof (cases "mlookup act name")
    case (Some h)
    have "active_le act (mput name (h\<lparr>h_removing := False\<rparr>) act)"
      using Some by (rule active_le_mput) (simp add: handle_le_def)
    with 2 Some show ?thesis by (fastforce split: if_splits intro: active_le_trans)
  qed (use 2 in \<open>fastforce split: if_splits\<close>)
qed auto

lemma reclaimQueued_handles: "reclaimQueued d s = (t, r) \<Longrightarrow> handles_only s t \<and> 0 \<le> r"
  by (auto simp: reclaimQueued_def Let_def handles_only_def same_counts_def split: prod.splits
      dest!: reclaim_loop_le)

lemma next_loop_le:
  "next_loop q a = (q', a', r) \<Longrightarrow> active_le a a' \<and> set q' \<subseteq> set q"
proof (induction q a arbitrary: q' a' r rule: next_loop.induct)
  case (2 name q act)
  show ?case
  proof (cases "mlookup act name")
    case (Some h)
    have "active_le act (mput name (h\<lparr>h_removing := False\<rparr>) act)"
      using Some by (rule active_le_mput) (simp add: handle_le_def)
    with 2 Some show ?thesis by (fastforce split: if_splits intro: active_le_trans)
  qed (use 2 in \<open>fastforce split: if_splits\<close>)
qed auto

lemma nextRemoval_handles: "nextRemoval s = (t, r) \<Longrightarrow> handles_only s t"
  by (auto simp: nextRemoval_def handles_only_def same_counts_def split: prod.splits dest!: next_loop_le)

lemma removeLoop_next_handles: "removeLoop_next dn c s = (t, r) \<Longrightarrow> handles_only s t"
  by (auto simp: removeLoop_next_def split: prod.splits option.splits if_splits
      dest!: nextRemoval_handles intro: handles_only_trans)

lemma settleRemoval_handles: "settleRemoval n e s = (t, b) \<Longrightarrow> handles_only s t"
proof (cases "mlookup (s_active s) n")
  case (Some h)
  have idle: "handles_only s (s\<lparr>s_active := mput n (h\<lparr>h_removing := False\<rparr>) (s_active s)\<rparr>)"
    using Some by (rule handles_only_mput) (simp add: handle_le_def)
  have busy: "handles_only s
     (s\<lparr>s_active := mput n (h\<lparr>h_removing := False, h_busy := True\<rparr>)
                      (mput n (h\<lparr>h_removing := False\<rparr>) (s_active s))\<rparr>)"
    using handles_only_trans [OF idle handles_only_mput [of _ n "h\<lparr>h_removing := False\<rparr>"]]
    by (simp add: handle_le_def)
  have cancel: "handles_only s
     (cancel_handle n (h\<lparr>h_removing := False\<rparr>)
        (s\<lparr>s_active := mput n (h\<lparr>h_removing := False\<rparr>) (s_active s)\<rparr>))"
    if "\<not> h_busy h" "\<not> h_cancelled h"
    using handles_only_trans [OF idle handles_only_cancel [of _ n "h\<lparr>h_removing := False\<rparr>"]] that
    by simp
  assume "settleRemoval n e s = (t, b)"
  with Some idle busy cancel show ?thesis
    by (auto simp: settleRemoval_def Let_def split: if_splits option.splits removal_error.splits)
qed (auto simp: settleRemoval_def)

lemma MarkBusy_handles: "handles_only s (MarkBusy n s)"
  by (auto simp: MarkBusy_def handle_le_def intro: handles_only_mput split: option.split)

lemma MarkCompleted_handles: "handles_only s (MarkCompleted n s)"
  by (auto simp: MarkCompleted_def handle_le_def intro: handles_only_mput split: option.split)

lemma CancelLost_handles: "CancelLost n s = (t, b) \<Longrightarrow> handles_only s t"
  by (auto simp: CancelLost_def intro: handles_only_cancel split: option.splits if_splits)

lemma cancelIfIdle_handles: "handles_only s (cancelIfIdle n s)"
  by (auto simp: cancelIfIdle_def intro: handles_only_cancel split: option.split)

lemmas handle_ops =
  scaleDown_handles reclaimQueued_handles [THEN conjunct1] removeLoop_next_handles
  settleRemoval_handles MarkBusy_handles MarkCompleted_handles CancelLost_handles cancelIfIdle_handles

section \<open>The live count\<close>

definition idle :: "vmHandle \<Rightarrow> bool" where
  "idle h \<longleftrightarrow> \<not> h_busy h \<and> \<not> h_cancelled h \<and> \<not> h_removing h"

text \<open>\<open>MarkCompleted\<close> is the only writer of \<open>completed\<close>, and it marks the handle busy too.\<close>

definition handles_ok :: "(string, vmHandle) gomap \<Rightarrow> bool" where
  "handles_ok a \<longleftrightarrow> wf_map a \<and> (\<forall>n h. mlookup a n = Some h \<longrightarrow> h_completed h \<longrightarrow> h_busy h)"

definition idle_at :: "(string, vmHandle) gomap \<Rightarrow> string \<Rightarrow> bool" where
  "idle_at a n = (case mlookup a n of None \<Rightarrow> False | Some h \<Rightarrow> idle h)"

lemma handles_ok_mput:
  "handles_ok a \<Longrightarrow> (h_completed h \<longrightarrow> h_busy h) \<Longrightarrow> handles_ok (mput n h a)"
  by (auto simp: handles_ok_def)

lemma handles_ok_le: "handles_ok a \<Longrightarrow> active_le a b \<Longrightarrow> handles_ok b"
  by (fastforce simp: handles_ok_def active_le_def handle_le_def dest: active_leD2 [of a b, rotated])

lemma gone_mput:
  "handles_ok a \<Longrightarrow> mlookup a n = Some h \<Longrightarrow> idle h \<Longrightarrow> gone h' \<Longrightarrow>
   countv gone (mput n h' a) = countv gone a + 1"
  by (auto simp: handles_ok_def countv_mput_old gone_def idle_def)

text \<open>Every VM that \<open>scaleDown\<close> picks leaves the live count, and it picks as many as it can.\<close>

definition pick :: "string \<Rightarrow> scheduler \<Rightarrow> scheduler" where
  "pick n s = (let h = the (mlookup (s_active s) n)
               in if s_hasRemover s then mark_removing n h s else cancel_handle n h s)"

lemma scale_loop_Cons:
  "scale_loop (n # ns) e p s =
     (if e \<le> 0 then (s, p)
      else if idle_at (s_active s) n then scale_loop ns (e - 1) (p + 1) (pick n s)
      else scale_loop ns e p s)"
  by (cases "mlookup (s_active s) n") (simp_all add: scale_loop.simps(2) idle_at_def idle_def pick_def Let_def)

lemma pick_active:
  assumes "idle_at (s_active s) n"
  obtains h h' where "mlookup (s_active s) n = Some h" "idle h" "s_active (pick n s) = mput n h' (s_active s)"
    "gone h'" "h_completed h' = h_completed h" "h_busy h' = h_busy h"
  using assms
  by (cases "s_hasRemover s")
     (auto simp: idle_at_def pick_def mark_removing_def cancel_handle_def gone_def Let_def split: option.splits)

lemma scale_loop_live:
  assumes "scale_loop ord e p s = (t, q)" "handles_ok (s_active s)" "distinct ord" "0 \<le> e"
  shows "countv gone (s_active t) = countv gone (s_active s) + (q - p) \<and>
         q - p = min e (int (length (filter (idle_at (s_active s)) ord)))"
  using assms
proof (induction ord arbitrary: e p s)
  case (Cons n ns)
  show ?case
  proof (cases "0 < e \<and> idle_at (s_active s) n")
    case True
    obtain h h' where h: "mlookup (s_active s) n = Some h" "idle h"
      and s1: "s_active (pick n s) = mput n h' (s_active s)"
      and h': "gone h'" "h_completed h' = h_completed h" "h_busy h' = h_busy h"
      using True pick_active by blast
    have ok: "handles_ok (s_active (pick n s))"
      using Cons.prems(2) h h' by (auto simp: s1 handles_ok_def)
    have one: "countv gone (s_active (pick n s)) = countv gone (s_active s) + 1"
      unfolding s1 by (rule gone_mput [OF Cons.prems(2) h h'(1)])
    have fl: "filter (idle_at (s_active (pick n s))) ns = filter (idle_at (s_active s)) ns"
      using Cons.prems(3) by (intro filter_cong) (auto simp: idle_at_def s1)
    show ?thesis
      using Cons.IH [of "e - 1" "p + 1" "pick n s"] Cons.prems ok one fl True
      by (auto simp: scale_loop_Cons)
  next
    case False
    with Cons show ?thesis by (auto simp: scale_loop_Cons split: if_splits)
  qed
qed simp

lemma idle_order:
  assumes "range_order ord a" "wf_map a"
  shows "int (length (filter (idle_at a) ord)) = countv idle a"
proof -
  have "set (filter (idle_at a) ord) = {k. \<exists>v. mlookup a k = Some v \<and> idle v}"
    using assms(1) by (auto simp: range_order_def set_keys_iff idle_at_def split: option.splits)
  moreover have "distinct (filter (idle_at a) ord)"
    using assms(1) by (simp add: range_order_def)
  ultimately show ?thesis
    using countv_card [OF assms(2), of idle] by (simp flip: distinct_card)
qed

lemma scaleDown_live:
  assumes "scaleDown ord d s = (t, k, b)" "handles_ok (s_active s)" "range_order ord (s_active s)"
  shows "k = (let floor = max d (s_min s) in if live s \<le> floor then 0 else min (live s - floor) (countv idle (s_active s)))"
    and "live t = live s - k" and "s_min t = s_min s"
proof -
  have mn: "scale_loop xs e p s = (t, q) \<Longrightarrow> s_min t = s_min s" for xs e p q s t
    by (induction xs arbitrary: e p s)
       (auto simp: scale_loop_Cons pick_def mark_removing_def cancel_handle_def Let_def split: if_splits)
  have od: "distinct ord" using assms(3) by (simp add: range_order_def)
  have wf: "wf_map (s_active s)" using assms(2) by (simp add: handles_ok_def)
  have eq: "(if d < s_min s then s_min s else d) = max d (s_min s)" by simp
  have "k = (let floor = max d (s_min s) in if live s \<le> floor then 0 else min (live s - floor) (countv idle (s_active s)))
        \<and> live t = live s - k \<and> s_min t = s_min s"
  proof (cases "live s \<le> max d (s_min s)")
    case True
    with assms(1) show ?thesis by (simp add: scaleDown_def Let_def eq)
  next
    case False
    let ?e = "live s - max d (s_min s)"
    obtain u q where u: "scale_loop ord ?e 0 s = (u, q)" by fastforce
    have "0 \<le> ?e" using False by linarith
    from scale_loop_live [OF u assms(2) od this]
    have c: "countv gone (s_active u) = countv gone (s_active s) + q" "q = min ?e (countv idle (s_active s))"
      by (simp_all add: idle_order [OF assms(3) wf])
    have same: "same_counts s u" using scale_loop_handles [OF u] by (simp add: handles_only_def)
    have t: "t = (if s_removeQ u \<noteq> [] \<and> \<not> s_removerActive u then u\<lparr>s_removerActive := True\<rparr> else u)" "k = q"
      using assms(1) False u by (auto simp: scaleDown_def Let_def eq)
    show ?thesis using same c t mn [OF u] False
      by (auto simp: live_def same_counts_def)
  qed
  then show "k = (let floor = max d (s_min s) in if live s \<le> floor then 0 else min (live s - floor) (countv idle (s_active s)))"
    and "live t = live s - k" and "s_min t = s_min s" by blast+
qed

text \<open>Reclaiming raises the live count by at most the number it reports, and never lowers it.\<close>

lemma reclaim_loop_live:
  assumes "reclaim_loop need r q a = (q', a', r')" "wf_map a"
  shows "countv gone a - (r' - r) \<le> countv gone a' \<and> countv gone a' \<le> countv gone a \<and>
         (r' - r \<le> need \<or> r' = r)"
  using assms
proof (induction need r q a arbitrary: q' a' r' rule: reclaim_loop.induct)
  case (2 need r name q act)
  show ?case
  proof (cases "mlookup act name")
    case (Some h)
    have "countv gone (mput name (h\<lparr>h_removing := False\<rparr>) act) =
          countv gone act - of_bool (gone h) + of_bool (gone (h\<lparr>h_removing := False\<rparr>))"
      by (rule countv_mput_old [OF 2(5) Some])
    then have "countv gone act - 1 \<le> countv gone (mput name (h\<lparr>h_removing := False\<rparr>) act) \<and>
               countv gone (mput name (h\<lparr>h_removing := False\<rparr>) act) \<le> countv gone act"
      by (auto simp: gone_def)
    with 2 Some show ?thesis by (fastforce split: if_splits)
  qed (use 2 in \<open>fastforce split: if_splits\<close>)
qed auto

lemma reclaimQueued_live:
  assumes "reclaimQueued d s = (t, r)" "wf_map (s_active s)"
  shows "live s \<le> live t" "live t \<le> live s + r" "r \<le> max 0 (max d (s_min s) - live s)"
    "s_min t = s_min s"
proof -
  obtain q a where l: "reclaim_loop (max d (s_min s) - live s) 0 (rev (s_removeQ s)) (s_active s) = (q, a, r)"
    and t: "t = s\<lparr>s_removeQ := rev q, s_active := a\<rparr>"
    using assms(1) by (auto simp: reclaimQueued_def Let_def split: prod.splits)
  from reclaim_loop_live [OF l assms(2)]
  show "live s \<le> live t" "live t \<le> live s + r" "r \<le> max 0 (max d (s_min s) - live s)" "s_min t = s_min s"
    by (auto simp: live_def t)
qed

section \<open>Backoff\<close>

lemma double_loop_min:
  "0 \<le> d \<Longrightarrow> min backoffMax (double_loop k d) = min backoffMax (d * 2 ^ k)"
proof (induction k arbitrary: d)
  case (Suc k)
  show ?case
  proof (cases "d < backoffMax")
    case True
    with Suc.IH [of "2 * d"] Suc.prems show ?thesis by (simp add: algebra_simps)
  next
    case False
    have "(1::int) \<le> 2 ^ Suc k" by (rule one_le_power) simp
    then have "d * 1 \<le> d * 2 ^ Suc k" using Suc.prems by (rule mult_left_mono)
    with False show ?thesis by simp
  qed
qed simp

lemma backoffDelay_eq: "backoffDelay n = min backoffMax (backoffBase * 2 ^ nat (n - 1))"
  using double_loop_min [of backoffBase "nat (n - 1)"] double_loop_min [of backoffBase 0]
  by (auto simp: backoffDelay_def backoffBase_def Let_def)

end
