(* ===== verification/Sched_Invariant.thy ===== *)
theory Sched_Invariant
  imports Sched_Machine Sched_Facts
begin

text \<open>
  The invariant of the scheduler's reachable worlds: the counters \<open>running\<close>, \<open>pending\<close> and
  \<open>backingOff\<close> are the numbers of launches they claim to be, \<open>running\<close> never exceeds \<open>Max\<close>, and the
  tracked handles are exactly the launches inside \<open>Provisioner.Launch\<close>.
\<close>

section \<open>The invariant\<close>

fun sleeping :: "lpc \<Rightarrow> bool" where
  "sleeping (Sleeping n) = True"
| "sleeping _ = False"

fun launching :: "lpc \<Rightarrow> bool" where
  "launching (Launching n) = True"
| "launching _ = False"

text \<open>What the program counter says about \<open>entered\<close> and \<open>finished\<close>.\<close>

fun entered_ok :: "lpc \<Rightarrow> bool \<Rightarrow> bool" where
  "entered_ok Committed e = (\<not> e)"
| "entered_ok Generating e = (\<not> e)"
| "entered_ok GenFailed e = (\<not> e)"
| "entered_ok (Generated n) e = (\<not> e)"
| "entered_ok (Returning None) e = True"
| "entered_ok _ e = e"

fun finished_ok :: "nat set \<Rightarrow> nat \<Rightarrow> lpc \<Rightarrow> bool \<Rightarrow> bool" where
  "finished_ok D i (Switching n err) f = (f = (\<not> (err \<and> i \<notin> D)))"
| "finished_ok D i (Returning n) f = True"
| "finished_ok D i Finishing f = True"
| "finished_ok D i Finished f = f"
| "finished_ok D i _ f = (\<not> f)"

definition launch_ok :: "nat set \<Rightarrow> nat \<Rightarrow> launch \<Rightarrow> bool" where
  "launch_ok D i l \<longleftrightarrow>
     entered_ok (l_pc l) (l_entered l) \<and> finished_ok D i (l_pc l) (l_finished l) \<and>
     (l_finished l \<longrightarrow> l_entered l)"

definition counts_ok :: "scheduler \<Rightarrow> (nat, launch) gomap \<Rightarrow> bool" where
  "counts_ok s L \<longleftrightarrow>
     s_running s = countv (\<lambda>l. \<not> l_finished l) L \<and>
     s_pending s = countv (\<lambda>l. \<not> l_entered l) L \<and>
     s_backingOff s = countv (\<lambda>l. sleeping (l_pc l)) L \<and>
     int (length (s_active s)) = countv (\<lambda>l. launching (l_pc l)) L \<and>
     s_pending s \<le> s_pendingAll s \<and> s_running s \<le> s_max s"

definition handles_match :: "(string, vmHandle) gomap \<Rightarrow> (nat, launch) gomap \<Rightarrow> bool" where
  "handles_match a L \<longleftrightarrow>
     (\<forall>n h. mlookup a n = Some h \<longrightarrow> (\<exists>l. mlookup L (h_cancel h) = Some l \<and> l_pc l = Launching n)) \<and>
     (\<forall>i l n. mlookup L i = Some l \<and> l_pc l = Launching n \<longrightarrow>
        (\<exists>h. mlookup a n = Some h \<and> h_cancel h = i))"

lemma handles_matchD1:
  "handles_match a L \<Longrightarrow> mlookup a n = Some h \<Longrightarrow> \<exists>l. mlookup L (h_cancel h) = Some l \<and> l_pc l = Launching n"
  unfolding handles_match_def by blast

lemma handles_matchD2:
  "handles_match a L \<Longrightarrow> mlookup L i = Some l \<Longrightarrow> l_pc l = Launching n \<Longrightarrow>
   \<exists>h. mlookup a n = Some h \<and> h_cancel h = i"
  unfolding handles_match_def by blast

definition names_unique :: "(nat, launch) gomap \<Rightarrow> bool" where
  "names_unique L \<longleftrightarrow>
     (\<forall>i j l l' n. mlookup L i = Some l \<and> mlookup L j = Some l' \<and>
        pc_name (l_pc l) = Some n \<and> pc_name (l_pc l') = Some n \<longrightarrow> i = j)"

definition world_ok :: "world \<Rightarrow> bool" where
  "world_ok w \<longleftrightarrow>
     handles_ok (s_active (w_s w)) \<and> wf_map (w_launches w) \<and>
     (\<forall>i l. mlookup (w_launches w) i = Some l \<longrightarrow> i < w_next w \<and> launch_ok (s_vmDone (w_s w)) i l) \<and>
     counts_ok (w_s w) (w_launches w) \<and>
     handles_match (s_active (w_s w)) (w_launches w) \<and> names_unique (w_launches w)"

lemma world_okI [inv_intros]:
  assumes "handles_ok (s_active (w_s w))" "wf_map (w_launches w)"
    "\<And>i l. mlookup (w_launches w) i = Some l \<Longrightarrow> i < w_next w \<and> launch_ok (s_vmDone (w_s w)) i l"
    "counts_ok (w_s w) (w_launches w)" "handles_match (s_active (w_s w)) (w_launches w)"
    "names_unique (w_launches w)"
  shows "world_ok w"
  using assms by (simp add: world_ok_def)

section \<open>Writing handles\<close>

lemma handles_match_le:
  assumes "handles_match a L" "active_le a b" shows "handles_match b L"
  unfolding handles_match_def
proof (intro conjI allI impI)
  fix n h' assume "mlookup b n = Some h'"
  then obtain h where "mlookup a n = Some h" "handle_le h h'" using assms(2) active_leD2 by blast
  then show "\<exists>l. mlookup L (h_cancel h') = Some l \<and> l_pc l = Launching n"
    using assms(1) by (auto simp: handles_match_def handle_le_def)
next
  fix i l n assume "mlookup L i = Some l \<and> l_pc l = Launching n"
  then obtain h where h: "mlookup a n = Some h" "h_cancel h = i"
    using handles_matchD2 [OF assms(1)] by blast
  then obtain h' where "mlookup b n = Some h'" "handle_le h h'" using assms(2) active_leD by blast
  with h show "\<exists>h'. mlookup b n = Some h' \<and> h_cancel h' = i" by (auto simp: handle_le_def)
qed

text \<open>Only launches inside the provisioner are cancelled, and they are not finished.\<close>

lemma launch_ok_handles:
  assumes "launch_ok (s_vmDone s) i l" "handles_only s t" "handles_match (s_active s) L"
    "mlookup L i = Some l"
  shows "launch_ok (s_vmDone t) i l"
proof (cases "i \<in> s_vmDone t - s_vmDone s")
  case True
  with assms(2) obtain n h where "mlookup (s_active s) n = Some h" "h_cancel h = i"
    unfolding handles_only_def by blast
  with handles_matchD1 [OF assms(3)] assms(4) have "l_pc l = Launching n" by fastforce
  with assms(1) show ?thesis by (simp add: launch_ok_def)
next
  case False
  with assms(2) have "i \<in> s_vmDone t \<longleftrightarrow> i \<in> s_vmDone s" by (auto simp: handles_only_def)
  with assms(1) show ?thesis by (cases "l_pc l") (simp_all add: launch_ok_def)
qed

lemma world_ok_handles:
  assumes "world_ok w" "handles_only (w_s w) t"
  shows "world_ok (w\<lparr>w_s := t\<rparr>)"
proof -
  have le: "active_le (s_active (w_s w)) (s_active t)" and same: "same_counts (w_s w) t"
    using assms(2) by (auto simp: handles_only_def)
  have "length (s_active t) = length (s_active (w_s w))" using le by (simp add: active_le_def)
  with assms le same show ?thesis
    by (intro world_okI)
       (auto simp: world_ok_def counts_ok_def same_counts_def
             intro: handles_ok_le handles_match_le launch_ok_handles)
qed

lemma world_ok_other [simp]:
  "world_ok (w\<lparr>w_removers := r\<rparr>) = world_ok w"
  "world_ok (w\<lparr>w_maintain := m\<rparr>) = world_ok w"
  "world_ok (w\<lparr>w_done := d\<rparr>) = world_ok w"
  by (simp_all add: world_ok_def)

section \<open>Committing launches\<close>

text \<open>Between \<open>commit\<close> and the last \<open>go\<close> the counters are ahead by the launches still to start.\<close>

definition behind :: "int \<Rightarrow> world \<Rightarrow> world" where
  "behind k w = w\<lparr>w_s := (w_s w)\<lparr>s_running := s_running (w_s w) - k, s_pending := s_pending (w_s w) - k\<rparr>\<rparr>"

lemma add_launch_ok:
  assumes "world_ok (behind (1 + k) w)" "0 \<le> k"
    "s_running (w_s w) \<le> s_max (w_s w)" "s_pending (w_s w) \<le> s_pendingAll (w_s w)"
  shows "world_ok (behind k (w\<lparr>w_launches := mput (w_next w)
            \<lparr>l_ctx = c, l_pc = Committed, l_entered = False, l_finished = False, l_jobDone = False\<rparr>
            (w_launches w), w_next := Suc (w_next w)\<rparr>))"
proof -
  have new: "mlookup (w_launches w) (w_next w) = None"
  proof (rule ccontr)
    assume "mlookup (w_launches w) (w_next w) \<noteq> None"
    then obtain l where "mlookup (w_launches w) (w_next w) = Some l" by auto
    with assms(1) have "w_next w < w_next w" unfolding world_ok_def behind_def by fastforce
    then show False by simp
  qed
  have match: "handles_match a (mput (w_next w) l L)"
    if "handles_match a L" "mlookup L (w_next w) = None" "l_pc l = Committed" for a l L
    using that by (fastforce simp: handles_match_def)
  have uniq: "names_unique (mput (w_next w) l L)"
    if "names_unique L" "l_pc l = Committed" for l L
    using that unfolding names_unique_def by (auto split: if_splits)
  show ?thesis
    using assms new
    by (intro world_okI)
       (auto simp: world_ok_def behind_def counts_ok_def countv_mput_new launch_ok_def less_Suc_eq
             intro!: match uniq split: if_splits)
qed

lemma add_launches_ok:
  "world_ok (behind (int k) w) \<Longrightarrow> s_running (w_s w) \<le> s_max (w_s w) \<Longrightarrow>
   s_pending (w_s w) \<le> s_pendingAll (w_s w) \<Longrightarrow> world_ok (add_launches k c w)"
proof (induction k arbitrary: w)
  case 0
  then show ?case by (simp add: behind_def)
next
  case (Suc k)
  show ?case
    unfolding add_launches.simps
    by (rule Suc.IH, rule add_launch_ok) (use Suc.prems in \<open>simp_all add: algebra_simps\<close>)
qed

lemma commit_ok:
  assumes "world_ok w" "0 \<le> n" "n = 0 \<or> s_running (w_s w) + n \<le> s_max (w_s w)"
  shows "world_ok (start_launches n c (w\<lparr>w_s := commit n (w_s w)\<rparr>))"
  unfolding start_launches_def
proof (rule add_launches_ok)
  have c: "counts_ok (w_s w) (w_launches w)" using assms(1) by (simp add: world_ok_def)
  show "world_ok (behind (int (nat n)) (w\<lparr>w_s := commit n (w_s w)\<rparr>))"
    using assms(1,2) by (auto simp: world_ok_def behind_def commit_def counts_ok_def)
  show "s_running (w_s (w\<lparr>w_s := commit n (w_s w)\<rparr>)) \<le> s_max (w_s (w\<lparr>w_s := commit n (w_s w)\<rparr>))"
    "s_pending (w_s (w\<lparr>w_s := commit n (w_s w)\<rparr>)) \<le> s_pendingAll (w_s (w\<lparr>w_s := commit n (w_s w)\<rparr>))"
    using assms c by (auto simp: commit_def counts_ok_def)
qed

section \<open>Planning operations\<close>

lemma handles_ok_wf: "handles_ok a \<Longrightarrow> wf_map a"
  by (simp add: handles_ok_def)

lemma world_ok_max: "world_ok w \<Longrightarrow> s_running (w_s w) \<le> s_max (w_s w)"
  by (simp add: world_ok_def counts_ok_def)

lemma replan_ok:
  assumes "world_ok w" "replan dn c (w_s w) = (t, n)"
  shows "world_ok (start_launches n c' (w\<lparr>w_s := t\<rparr>))"
proof (cases "t = w_s w \<and> n = 0")
  case True
  with assms(1) show ?thesis by (simp add: start_launches_def)
next
  case False
  obtain u r where u: "reclaimQueued (desired (w_s w)) (w_s w) = (u, r)" by fastforce
  have ok: "world_ok (w\<lparr>w_s := u\<rparr>)"
    using assms(1) reclaimQueued_handles [OF u] by (simp add: world_ok_handles)
  show ?thesis
  proof (cases "r > 0")
    case True
    with False assms(2) u have "t = u" "n = 0" by (auto simp: replan_def split: if_splits)
    with ok show ?thesis by (simp add: start_launches_def)
  next
    case r: False
    with False assms(2) u have tn: "t = commit n u" "n = min 1 (plan (desired u) (live u) (s_running u) (s_max u))"
      by (auto simp: replan_def Let_def split: if_splits)
    have "0 \<le> n" "s_running u + n \<le> s_max u"
      using world_ok_max [OF ok] plan_bound [of "s_running u" "s_max u" "desired u" "live u"]
      by (auto simp: tn(2) plan_nonneg)
    with commit_ok [OF ok, of n c'] show ?thesis by (simp add: tn(1))
  qed
qed

lemma maintain_ok:
  assumes "world_ok w" "maintainMinimum dn c (w_s w) = (t, n)"
  shows "world_ok (start_launches n c' (w\<lparr>w_s := t\<rparr>))"
proof (cases "t = w_s w \<and> n = 0")
  case True
  with assms(1) show ?thesis by (simp add: start_launches_def)
next
  case False
  with assms(2) have tn: "t = commit n (w_s w)" "0 \<le> n" "n = 0 \<or> s_running (w_s w) + n \<le> s_max (w_s w)"
    using plan_bound [OF world_ok_max [OF assms(1)]]
    by (auto simp: maintainMinimum_def Let_def commit_def split: if_splits)
  with commit_ok [OF assms(1), of n c'] show ?thesis by simp
qed

text \<open>
  \<open>reconcileLocked\<close>: reclaim, commit, and only when nothing is launched scale down.
\<close>

lemma reconcileLocked_parts:
  assumes "reconcileLocked ord s = (t, act)" "s_running s \<le> s_max s"
  obtains u r n where "reclaimQueued (desired s) s = (u, r)" "handles_only s u" "0 \<le> n"
    "s_running u + n \<le> s_max u" "a_launch act = n" "handles_only (commit n u) t"
    "n = (if s_draining u then 0 else plan (desired s) (live u) (s_running u) (s_max u))"
    "0 < n \<Longrightarrow> t = commit n u"
    "n = 0 \<Longrightarrow> \<exists>k. scaleDown ord (desired s) u = (t, k, a_startRemover act)"
proof -
  obtain u r where u: "reclaimQueued (desired s) s = (u, r)" by fastforce
  define n where "n = (if s_draining u then 0 else plan (desired s) (live u) (s_running u) (s_max u))"
  have hu: "handles_only s u" using reclaimQueued_handles [OF u] by simp
  then have b: "s_running u \<le> s_max u" using assms(2) by (simp add: handles_only_def same_counts_def)
  have "0 \<le> n" "s_running u + n \<le> s_max u" using b plan_bound [OF b] by (auto simp: n_def)
  have c0: "commit 0 u = u" by (simp add: commit_def)
  show ?thesis
  proof (cases "n = 0")
    case True
    obtain t' k b' where sd: "scaleDown ord (desired s) u = (t', k, b')" by (metis prod_cases3)
    with True assms(1) u c0 have "t = t'" "act = \<lparr>a_launch = 0, a_startRemover = b'\<rparr>"
      by (auto simp: reconcileLocked_def Let_def n_def [symmetric])
    with True sd u hu b c0 scaleDown_handles [OF sd] show ?thesis
      by (intro that [of u r n]) (auto simp: n_def)
  next
    case False
    with assms(1) u have "t = commit n u" "a_launch act = n"
      by (auto simp: reconcileLocked_def Let_def n_def [symmetric])
    with False u hu \<open>0 \<le> n\<close> \<open>s_running u + n \<le> s_max u\<close> show ?thesis
      by (intro that [of u r n]) (auto simp: n_def)
  qed
qed

lemma start_launches_s [simp]: "w_s (start_launches n c w) = w_s w"
proof -
  have "w_s (add_launches k c w) = w_s w" for k
    by (induction k arbitrary: w) simp_all
  then show ?thesis by (simp add: start_launches_def)
qed

lemma start_launches_commute:
  "start_launches n c (w\<lparr>w_s := t\<rparr>) = (start_launches n c w)\<lparr>w_s := t\<rparr>"
proof -
  have "add_launches k c (w\<lparr>w_s := t\<rparr>) = (add_launches k c w)\<lparr>w_s := t\<rparr>" for k
  proof (induction k arbitrary: w)
    case (Suc k)
    show ?case
      using Suc.IH [of "w\<lparr>w_launches := mput (w_next w)
            \<lparr>l_ctx = c, l_pc = Committed, l_entered = False, l_finished = False, l_jobDone = False\<rparr>
            (w_launches w), w_next := Suc (w_next w)\<rparr>"]
      by (cases w) simp
  qed simp
  then show ?thesis by (simp add: start_launches_def)
qed

lemma reconcileLocked_ok:
  assumes "world_ok w" "reconcileLocked ord (w_s w) = (t, act)"
  shows "world_ok (run_act act c (w\<lparr>w_s := t\<rparr>))"
proof -
  obtain u r n where u: "handles_only (w_s w) u" "0 \<le> n" "s_running u + n \<le> s_max u"
    "a_launch act = n" "handles_only (commit n u) t"
    by (rule reconcileLocked_parts [OF assms(2) world_ok_max [OF assms(1)]]) blast
  have "world_ok (start_launches n c (w\<lparr>w_s := commit n u\<rparr>))"
    using commit_ok [OF world_ok_handles [OF assms(1) u(1)]] u by simp
  then have "world_ok ((start_launches n c (w\<lparr>w_s := commit n u\<rparr>))\<lparr>w_s := t\<rparr>)"
    by (rule world_ok_handles) (simp add: u(5))
  then show ?thesis
    by (simp add: run_act_def u(4) start_remover_def start_launches_commute)
qed

section \<open>Moves of a launch\<close>

lemma names_unique_mput:
  assumes "names_unique L" "mlookup L i = Some l"
    "\<And>n. pc_name (l_pc l') = Some n \<Longrightarrow>
       pc_name (l_pc l) = Some n \<or> (\<forall>j k. mlookup L j = Some k \<longrightarrow> pc_name (l_pc k) \<noteq> Some n)"
  shows "names_unique (mput i l' L)"
  unfolding names_unique_def
proof (intro allI impI)
  fix a b la lb n
  assume A: "mlookup (mput i l' L) a = Some la \<and> mlookup (mput i l' L) b = Some lb \<and>
    pc_name (l_pc la) = Some n \<and> pc_name (l_pc lb) = Some n"
  have U: "mlookup L a = Some la \<Longrightarrow> mlookup L b = Some lb \<Longrightarrow> pc_name (l_pc la) = Some n \<Longrightarrow>
     pc_name (l_pc lb) = Some n \<Longrightarrow> a = b" for a b la lb n
    using assms(1) unfolding names_unique_def by blast
  show "a = b"
  proof (cases "a = i"; cases "b = i")
    assume "a = i" "b \<noteq> i"
    with A have "pc_name (l_pc l') = Some n" "mlookup L b = Some lb" by auto
    with A assms(2,3) U [of i l b lb n] \<open>a = i\<close> show ?thesis by blast
  next
    assume "a \<noteq> i" "b = i"
    with A have "pc_name (l_pc l') = Some n" "mlookup L a = Some la" by auto
    with A assms(2,3) U [of i l a la n] \<open>b = i\<close> show ?thesis by blast
  next
    assume "a \<noteq> i" "b \<noteq> i"
    with A U show ?thesis by (metis mlookup_mput)
  qed simp
qed

lemma handles_match_mput:
  assumes "handles_match a L" "mlookup L i = Some l" "\<not> launching (l_pc l)" "\<not> launching (l_pc l')"
  shows "handles_match a (mput i l' L)"
  using assms unfolding handles_match_def
  by (auto split: if_splits) (metis launching.simps(1) option.inject)

text \<open>A move outside the provisioner: it may settle \<open>pending\<close>, \<open>running\<close> or \<open>backingOff\<close>.\<close>

lemma move_ok:
  assumes "world_ok w" "mlookup (w_launches w) i = Some l"
    and "s_active t = s_active (w_s w)" "s_vmDone t = s_vmDone (w_s w)" "s_max t = s_max (w_s w)"
    and "s_running t = s_running (w_s w) - of_bool (\<not> l_finished l) + of_bool (\<not> l_finished l')"
    and "s_pending t = s_pending (w_s w) - of_bool (\<not> l_entered l) + of_bool (\<not> l_entered l')"
    and "s_backingOff t = s_backingOff (w_s w) - of_bool (sleeping (l_pc l)) + of_bool (sleeping (l_pc l'))"
    and "s_pendingAll t - s_pending t = s_pendingAll (w_s w) - s_pending (w_s w)"
    and "l_finished l \<longrightarrow> l_finished l'"
    and "\<not> launching (l_pc l)" "\<not> launching (l_pc l')" "launch_ok (s_vmDone t) i l'"
    and "\<And>n. pc_name (l_pc l') = Some n \<Longrightarrow> pc_name (l_pc l) = Some n \<or> \<not> name_used n w"
  shows "world_ok (set_launch i l' (w\<lparr>w_s := t\<rparr>))"
proof -
  have wf: "wf_map (w_launches w)" using assms(1) by (simp add: world_ok_def)
  note cm = countv_mput_old [OF wf assms(2)]
  have unused: "\<forall>j k. mlookup (w_launches w) j = Some k \<longrightarrow> pc_name (l_pc k) \<noteq> Some n"
    if "\<not> name_used n w" for n
    using that wf by (auto simp: name_used_def list_ex_iff mlookup_in_set)
  have "names_unique (mput i l' (w_launches w))"
    using assms(1,2,14) unused by (intro names_unique_mput) (auto simp: world_ok_def)
  moreover have "counts_ok t (mput i l' (w_launches w))"
    using assms by (auto simp: world_ok_def counts_ok_def cm)
  ultimately show ?thesis
    using assms handles_match_mput [OF _ assms(2,11,12)]
    by (intro world_okI) (auto simp: world_ok_def set_launch_def split: if_splits)
qed

text \<open>Entering the provisioner, leaving it, and forgetting the name.\<close>

lemma world_okD:
  assumes "world_ok w"
  shows "handles_ok (s_active (w_s w))" "wf_map (w_launches w)" "counts_ok (w_s w) (w_launches w)"
    "handles_match (s_active (w_s w)) (w_launches w)" "names_unique (w_launches w)"
    "mlookup (w_launches w) i = Some l \<Longrightarrow> i < w_next w"
    "mlookup (w_launches w) i = Some l \<Longrightarrow> launch_ok (s_vmDone (w_s w)) i l"
  using assms by (auto simp: world_ok_def)

lemma not_tracked:
  assumes "world_ok w" "mlookup (w_launches w) i = Some l" "pc_name (l_pc l) = Some n"
    "\<not> launching (l_pc l)"
  shows "mlookup (s_active (w_s w)) n = None"
proof (rule ccontr)
  assume "mlookup (s_active (w_s w)) n \<noteq> None"
  then obtain h where "mlookup (s_active (w_s w)) n = Some h" by auto
  from handles_matchD1 [OF world_okD(4) [OF assms(1)] this]
  obtain l' where l': "mlookup (w_launches w) (h_cancel h) = Some l'" "l_pc l' = Launching n" by blast
  with world_okD(5) [OF assms(1)] assms(2,3) have "h_cancel h = i"
    unfolding names_unique_def by (metis pc_name.simps(3))
  with l' assms(2,4) show False by simp
qed

lemma track_ok:
  assumes "world_ok w" "mlookup (w_launches w) i = Some l" "l_pc l = Entered n"
  shows "world_ok (set_launch i (l\<lparr>l_pc := Launching n\<rparr>) (w\<lparr>w_s := track n i now (w_s w)\<rparr>))"
proof -
  note ok = world_okD [OF assms(1)]
  note cm = countv_mput_old [OF ok(2) assms(2)]
  have new: "mlookup (s_active (w_s w)) n = None"
    using not_tracked [OF assms(1,2)] assms(3) by simp
  have len: "length (mput n h (s_active (w_s w))) = Suc (length (s_active (w_s w)))" for h
  proof -
    have "countv (\<lambda>_. True) (mput n h (s_active (w_s w))) = countv (\<lambda>_. True) (s_active (w_s w)) + 1"
      using countv_mput_new [OF new] by simp
    then show ?thesis by (simp add: countv_def)
  qed
  let ?a = "s_active (track n i now (w_s w))" and ?L = "mput i (l\<lparr>l_pc := Launching n\<rparr>) (w_launches w)"
  have "handles_match ?a ?L"
    unfolding handles_match_def
  proof (intro conjI allI impI)
    fix m h assume m: "mlookup ?a m = Some h"
    show "\<exists>k. mlookup ?L (h_cancel h) = Some k \<and> l_pc k = Launching m"
    proof (cases "m = n")
      case False
      with m have mm: "mlookup (s_active (w_s w)) m = Some h" by (simp add: track_def)
      from handles_matchD1 [OF ok(4) this] assms(2,3) show ?thesis by auto
    qed (use m in \<open>auto simp: track_def\<close>)
  next
    fix j k m assume jk: "mlookup ?L j = Some k \<and> l_pc k = Launching m"
    show "\<exists>h. mlookup ?a m = Some h \<and> h_cancel h = j"
    proof (cases "j = i")
      case False
      with jk have "mlookup (w_launches w) j = Some k" "l_pc k = Launching m" by auto
      from handles_matchD2 [OF ok(4) this] new show ?thesis by (auto simp: track_def)
    qed (use jk in \<open>auto simp: track_def\<close>)
  qed
  moreover have "names_unique ?L"
    by (rule names_unique_mput [OF ok(5) assms(2)]) (simp add: assms(3))
  moreover have "counts_ok (track n i now (w_s w)) ?L"
    using ok(3) assms(3) by (simp add: counts_ok_def cm track_def len)
  moreover have "launch_ok (s_vmDone (w_s w)) i (l\<lparr>l_pc := Launching n\<rparr>)"
    using ok(7) [OF assms(2)] assms(3) by (simp add: launch_ok_def)
  ultimately show ?thesis
    using ok assms(2)
    by (intro world_okI) (auto simp: set_launch_def track_def handles_ok_mput split: if_splits)
qed

lemma leave_ok:
  assumes "world_ok w" "mlookup (w_launches w) i = Some l" "l_pc l = Launching n"
    and "fin = (\<not> (err \<and> i \<notin> s_vmDone (w_s w)))"
  shows "world_ok (set_launch i (l\<lparr>l_pc := Switching n err, l_jobDone := jd, l_finished := fin\<rparr>)
           (w\<lparr>w_s := (w_s w)\<lparr>s_active := mdel n (s_active (w_s w)),
                            s_running := s_running (w_s w) - of_bool fin\<rparr>\<rparr>))"
proof -
  note ok = world_okD [OF assms(1)]
  note cm = countv_mput_old [OF ok(2) assms(2)]
  obtain h where h: "mlookup (s_active (w_s w)) n = Some h" "h_cancel h = i"
    using handles_matchD2 [OF ok(4) assms(2,3)] by blast
  have "\<not> l_finished l" using ok(7) [OF assms(2)] assms(3) by (simp add: launch_ok_def)
  moreover have "int (length (mdel n (s_active (w_s w)))) = int (length (s_active (w_s w))) - 1"
    using countv_mdel [OF handles_ok_wf [OF ok(1)], of "\<lambda>_. True" n] h by (simp add: countv_def)
  moreover let ?L = "mput i (l\<lparr>l_pc := Switching n err, l_jobDone := jd, l_finished := fin\<rparr>) (w_launches w)"
  have "handles_match (mdel n (s_active (w_s w))) ?L"
    unfolding handles_match_def
  proof (intro conjI allI impI)
    fix m k assume m: "mlookup (mdel n (s_active (w_s w))) m = Some k"
    then have mn: "m \<noteq> n" "mlookup (s_active (w_s w)) m = Some k" by (auto split: if_splits)
    from handles_matchD1 [OF ok(4) mn(2)] mn(1) assms(2,3)
    show "\<exists>l. mlookup ?L (h_cancel k) = Some l \<and> l_pc l = Launching m" by auto
  next
    fix j k m assume jk: "mlookup ?L j = Some k \<and> l_pc k = Launching m"
    then have ji: "j \<noteq> i" "mlookup (w_launches w) j = Some k" by (auto split: if_splits)
    with jk handles_matchD2 [OF ok(4) ji(2)] obtain g
      where g: "mlookup (s_active (w_s w)) m = Some g" "h_cancel g = j" by blast
    then have "m \<noteq> n" using h ji(1) by auto
    with g show "\<exists>h. mlookup (mdel n (s_active (w_s w))) m = Some h \<and> h_cancel h = j" by simp
  qed
  moreover have "names_unique ?L"
    by (rule names_unique_mput [OF ok(5) assms(2)]) (simp add: assms(3))
  moreover have "launch_ok (s_vmDone (w_s w)) i (l\<lparr>l_pc := Switching n err, l_jobDone := jd, l_finished := fin\<rparr>)"
    using ok(7) [OF assms(2)] assms(3,4) by (simp add: launch_ok_def)
  moreover have "handles_ok (mdel n (s_active (w_s w)))"
    using ok(1) by (auto simp: handles_ok_def split: if_splits)
  ultimately show ?thesis
    using ok assms(2,3)
    by (intro world_okI) (auto simp: set_launch_def counts_ok_def cm of_bool_def split: if_splits)
qed

lemma untrack_ok:
  assumes "world_ok w" "mlookup (w_launches w) i = Some l" "l_pc l = Returning (Some n)"
  shows "untrack n (w_s w) = w_s w"
proof -
  have "mlookup (s_active (w_s w)) n = None" using not_tracked [OF assms(1,2)] assms(3) by simp
  then have "mdel n (s_active (w_s w)) = s_active (w_s w)"
    by (simp add: delete_id map_of_eq_None_iff)
  then show ?thesis by (simp add: untrack_def)
qed

lemma drop_ok:
  assumes "world_ok w" "mlookup (w_launches w) i = Some l" "l_pc l = Finished"
  shows "world_ok (w\<lparr>w_launches := mdel i (w_launches w)\<rparr>)"
proof -
  note ok = world_okD [OF assms(1)]
  have "l_finished l" "l_entered l" using ok(7) [OF assms(2)] assms(3) by (simp_all add: launch_ok_def)
  moreover have "handles_match (s_active (w_s w)) (mdel i (w_launches w))"
    unfolding handles_match_def
  proof (intro conjI allI impI)
    fix m h assume "mlookup (s_active (w_s w)) m = Some h"
    from handles_matchD1 [OF ok(4) this] assms(2,3)
    show "\<exists>l. mlookup (mdel i (w_launches w)) (h_cancel h) = Some l \<and> l_pc l = Launching m" by auto
  next
    fix j k m assume "mlookup (mdel i (w_launches w)) j = Some k \<and> l_pc k = Launching m"
    then show "\<exists>h. mlookup (s_active (w_s w)) m = Some h \<and> h_cancel h = j"
      using handles_matchD2 [OF ok(4)] by (auto split: if_splits)
  qed
  moreover have "names_unique (mdel i (w_launches w))"
    using ok(5) unfolding names_unique_def by (auto split: if_splits)
  ultimately show ?thesis
    using ok assms(2,3)
    by (intro world_okI) (auto simp: counts_ok_def countv_mdel split: if_splits)
qed

section \<open>Every step preserves the invariant\<close>

lemma init_world_ok: "init_world mx mn hr w \<Longrightarrow> world_ok w"
  by (auto simp: init_world_def world_ok_def new_scheduler_def handles_ok_def counts_ok_def
      handles_match_def names_unique_def split: option.splits)

lemma set_launch_s [simp]: "(set_launch i l w)\<lparr>w_s := t\<rparr> = set_launch i l (w\<lparr>w_s := t\<rparr>)"
  by (cases w) (simp add: set_launch_def)

lemma w_s_set_launch [simp]: "w_s (set_launch i l w) = w_s w"
  by (simp add: set_launch_def)

lemma Reconcile_fields_ok:
  "world_ok w \<Longrightarrow> world_ok (w\<lparr>w_s := (w_s w)\<lparr>s_lastJobs := j, s_lastCtx := c, s_hasDesired := True,
     s_reconciles := k\<rparr>\<rparr>)"
  "world_ok w \<Longrightarrow> world_ok (w\<lparr>w_s := (w_s w)\<lparr>s_min := n\<rparr>\<rparr>)"
  "world_ok w \<Longrightarrow> world_ok (w\<lparr>w_s := Drain (w_s w)\<rparr>)"
  "world_ok w \<Longrightarrow> world_ok (w\<lparr>w_s := resetBackoff (w_s w)\<rparr>)"
  by (auto simp: world_ok_def counts_ok_def Drain_def resetBackoff_def)

lemma w_s_self [simp]: "w\<lparr>w_s := w_s w\<rparr> = w"
  by simp

lemma exit_ok:
  assumes w: "world_ok w" and l: "mlookup (w_launches w) i = Some l" "l_pc l = Launching n"
    and e: "exit_section dn c i n err (w_s w) = (s, jd, fin, k)"
  shows "world_ok (start_launches k c' (set_launch i
           (l\<lparr>l_pc := Switching n err, l_jobDone := jd, l_finished := fin\<rparr>) (w\<lparr>w_s := s\<rparr>)))"
proof -
  define s1 where "s1 = (w_s w)\<lparr>s_active := mdel n (s_active (w_s w)), s_running := s_running (w_s w) - of_bool fin\<rparr>"
  define w1 where "w1 = set_launch i (l\<lparr>l_pc := Switching n err, l_jobDone := jd, l_finished := fin\<rparr>) (w\<lparr>w_s := s1\<rparr>)"
  have fin: "fin = (\<not> (err \<and> i \<notin> s_vmDone (w_s w)))"
    using e by (auto simp: exit_section_def Let_def split: if_splits prod.splits)
  have w1: "world_ok w1" unfolding w1_def s1_def by (rule leave_ok [OF w l fin])
  have r: "(s, k) = (if fin \<and> jd then replan dn c s1 else (s1, 0))"
    using e fin by (auto simp: exit_section_def Let_def finish_def s1_def split: if_splits prod.splits)
  show ?thesis
  proof (cases "fin \<and> jd")
    case True
    with r have "replan dn c (w_s w1) = (s, k)" by (simp add: w1_def)
    from replan_ok [OF w1 this, of c'] show ?thesis by (simp add: w1_def)
  next
    case False
    with r w1 show ?thesis by (simp add: w1_def start_launches_def)
  qed
qed

lemma finish_ok:
  assumes w: "world_ok w" and l: "mlookup (w_launches w) i = Some l" "l_pc l = Finishing"
    and e: "(if l_finished l then (w_s w, 0) else finish dn c (l_jobDone l) (w_s w)) = (s, k)"
  shows "world_ok (start_launches k c' (set_launch i (l\<lparr>l_pc := Finished, l_finished := True\<rparr>) (w\<lparr>w_s := s\<rparr>)))"
proof -
  define s1 where "s1 = (w_s w)\<lparr>s_running := s_running (w_s w) - of_bool (\<not> l_finished l)\<rparr>"
  define w1 where "w1 = set_launch i (l\<lparr>l_pc := Finished, l_finished := True\<rparr>) (w\<lparr>w_s := s1\<rparr>)"
  have "l_entered l" using world_okD(7) [OF w l(1)] l(2) by (simp add: launch_ok_def)
  then have w1: "world_ok w1"
    unfolding w1_def by (intro move_ok [OF w l(1)]) (simp_all add: s1_def l(2) launch_ok_def)
  have r: "(s, k) = (if \<not> l_finished l \<and> l_jobDone l then replan dn c s1 else (s1, 0))"
    using e by (auto simp: finish_def s1_def Let_def split: if_splits)
  show ?thesis
  proof (cases "\<not> l_finished l \<and> l_jobDone l")
    case True
    with r have "replan dn c (w_s w1) = (s, k)" by (simp add: w1_def)
    from replan_ok [OF w1 this, of c'] show ?thesis by (simp add: w1_def)
  next
    case False
    with r w1 show ?thesis by (simp add: w1_def start_launches_def split: if_splits)
  qed
qed

lemma SetMin_ok:
  assumes "world_ok w" "SetMin ord dn n (w_s w) = (s, rest)"
  shows "world_ok (case rest of
          Act act \<Rightarrow> run_act act (s_lastCtx (w_s w)) (w\<lparr>w_s := s\<rparr>)
        | Maintain \<Rightarrow> w\<lparr>w_s := s, w_maintain := c # w_maintain w\<rparr>
        | _ \<Rightarrow> w\<lparr>w_s := s\<rparr>)"
proof (cases rest)
  case (Act act)
  let ?w = "w\<lparr>w_s := (w_s w)\<lparr>s_min := n\<rparr>\<rparr>"
  have "reconcileLocked ord (w_s ?w) = (s, act)"
    using assms(2) Act by (auto simp: SetMin_def Let_def split: if_splits prod.splits)
  from reconcileLocked_ok [OF _ this] Act assms(1) show ?thesis by (simp add: Reconcile_fields_ok)
qed (use assms in \<open>auto simp: SetMin_def Let_def Reconcile_fields_ok split: if_splits prod.splits\<close>)

text \<open>Moves that leave the scheduler alone, and those that settle one counter.\<close>

lemma pc_move_ok:
  assumes w: "world_ok w" "mlookup (w_launches w) i = Some l"
    and "\<not> launching (l_pc l)" "\<not> launching pc" "sleeping pc = sleeping (l_pc l)"
    "entered_ok pc (l_entered l)" "finished_ok (s_vmDone (w_s w)) i pc (l_finished l)"
    "\<And>n. pc_name pc = Some n \<Longrightarrow> pc_name (l_pc l) = Some n \<or> \<not> name_used n w"
  shows "world_ok (set_launch i (l\<lparr>l_pc := pc\<rparr>) w)"
  using move_ok [OF w, of "w_s w" "l\<lparr>l_pc := pc\<rparr>"] assms(3-8) world_okD(7) [OF w]
  by (simp add: launch_ok_def)

lemma enter_ok:
  assumes w: "world_ok w" "mlookup (w_launches w) i = Some l" and e: "\<not> l_entered l"
    and "\<not> launching (l_pc l)" "\<not> launching pc" "\<not> sleeping (l_pc l)" "\<not> sleeping pc"
    "entered_ok pc True" "finished_ok (s_vmDone (w_s w)) i pc (l_finished l)"
    "\<And>n. pc_name pc = Some n \<Longrightarrow> pc_name (l_pc l) = Some n"
  shows "world_ok (set_launch i (l\<lparr>l_pc := pc, l_entered := True\<rparr>) (w\<lparr>w_s := enter (w_s w)\<rparr>))"
  by (rule move_ok [OF w]) (use assms(4-10) e in \<open>simp_all add: enter_def launch_ok_def\<close>)

lemma deferred_enter_ok:
  assumes w: "world_ok w" "mlookup (w_launches w) i = Some l" "l_pc l = Returning None"
  shows "world_ok (set_launch i (l\<lparr>l_pc := Finishing, l_entered := True\<rparr>)
          (if l_entered l then w else w\<lparr>w_s := enter (w_s w)\<rparr>))"
proof (cases "l_entered l")
  case True
  then have "l\<lparr>l_pc := Finishing, l_entered := True\<rparr> = l\<lparr>l_pc := Finishing\<rparr>" by (cases l) simp
  moreover have "world_ok (set_launch i (l\<lparr>l_pc := Finishing\<rparr>) w)"
    by (rule pc_move_ok [OF w(1,2)]) (simp_all add: w(3) True)
  ultimately show ?thesis using True by metis
next
  case False
  with enter_ok [OF w(1,2) False, of Finishing] w(3) show ?thesis by simp
qed

lemma switch_ok:
  assumes w: "world_ok w" "mlookup (w_launches w) i = Some l" "l_pc l = Switching n err"
  shows "world_ok (if i \<notin> s_vmDone (w_s w) \<and> err
        then set_launch i (l\<lparr>l_pc := BackoffDue (Some n)\<rparr>) w
        else set_launch i (l\<lparr>l_pc := Returning (Some n)\<rparr>) (w\<lparr>w_s := resetBackoff (w_s w)\<rparr>))"
proof -
  have l: "l_entered l" "l_finished l = (\<not> (err \<and> i \<notin> s_vmDone (w_s w)))"
    using world_okD(7) [OF w(1,2)] w(3) by (simp_all add: launch_ok_def)
  have r: "world_ok (w\<lparr>w_s := resetBackoff (w_s w)\<rparr>)" using w(1) by (rule Reconcile_fields_ok)
  show ?thesis
    using pc_move_ok [OF w(1,2), of "BackoffDue (Some n)"]
      pc_move_ok [OF r, of i l "Returning (Some n)"] w(2,3) l
    by (auto simp: resetBackoff_def)
qed

lemma backoff_begin_ok:
  assumes w: "world_ok w" "mlookup (w_launches w) i = Some l" "l_pc l = BackoffDue nm"
  shows "world_ok (if d then set_launch i (l\<lparr>l_pc := Returning nm\<rparr>) w
        else set_launch i (l\<lparr>l_pc := Sleeping nm\<rparr>) (w\<lparr>w_s := fst (backoff_enter (w_s w))\<rparr>))"
proof -
  have l: "l_entered l" "\<not> l_finished l"
    using world_okD(7) [OF w(1,2)] w(3) by (simp_all add: launch_ok_def)
  have "world_ok (set_launch i (l\<lparr>l_pc := Returning nm\<rparr>) w)"
    by (rule pc_move_ok [OF w(1,2)]) (use w(3) l in \<open>cases nm; simp\<close>)+
  moreover have "world_ok (set_launch i (l\<lparr>l_pc := Sleeping nm\<rparr>) (w\<lparr>w_s := fst (backoff_enter (w_s w))\<rparr>))"
    by (rule move_ok [OF w(1,2)]) (use w(3) l in \<open>simp_all add: backoff_enter_def Let_def launch_ok_def\<close>)
  ultimately show ?thesis by simp
qed

lemma backoff_end_ok:
  assumes w: "world_ok w" "mlookup (w_launches w) i = Some l" "l_pc l = Sleeping nm"
  shows "world_ok (set_launch i (l\<lparr>l_pc := Returning nm\<rparr>) (w\<lparr>w_s := backoff_leave (w_s w)\<rparr>))"
proof -
  have l: "l_entered l" "\<not> l_finished l"
    using world_okD(7) [OF w(1,2)] w(3) by (simp_all add: launch_ok_def)
  then show ?thesis
    by (intro move_ok [OF w(1,2)]) (use w(3) in \<open>cases nm; simp add: backoff_leave_def launch_ok_def\<close>)+
qed

lemma sched_step_ok:
  assumes "sched_step lab w w'" "world_ok w" shows "world_ok w'"
  using assms
proof (induction rule: sched_step.induct)
  case (reconcile ord w c jobs s act)
  from reconcile(2) have "reconcileLocked ord (w_s (w\<lparr>w_s := (w_s w)\<lparr>s_lastJobs := jobs,
     s_lastCtx := c, s_hasDesired := True, s_reconciles := s_reconciles (w_s w) + 1\<rparr>\<rparr>)) = (s, act)"
    by (simp add: Reconcile_def)
  from reconcileLocked_ok [OF _ this, of c] reconcile(3) show ?case by (simp add: Reconcile_fields_ok)
next
  case (set_min ord w n s rest c)
  then show ?case by (intro SetMin_ok)
next
  case (maintain w c cs s n)
  have "world_ok (w\<lparr>w_maintain := cs\<rparr>)" using maintain(3) by simp
  from maintain_ok [OF this, of "ctx_done w" c s n c] maintain(2) show ?case by (cases w) simp
next
  case (mark_busy name w)
  then show ?case by (intro world_ok_handles MarkBusy_handles)
next
  case (mark_completed name w)
  then show ?case by (intro world_ok_handles MarkCompleted_handles)
next
  case (cancel_lost name w s b)
  then show ?case by (intro world_ok_handles) (auto dest: CancelLost_handles)
next
  case (drain w)
  then show ?case by (rule Reconcile_fields_ok)
next
  case (ctx_ends c w)
  then show ?case by simp
next
  case (other_tier w d)
  then show ?case by (auto simp: world_ok_def counts_ok_def)
next
  case (start w i l)
  show ?case
    by (rule pc_move_ok [OF start(3,1)])
       (use start world_okD(7) [OF start(3,1)] in \<open>auto simp: launch_ok_def split: if_splits\<close>)
next
  case (generate w i l r)
  show ?case
    by (rule pc_move_ok [OF generate(4,1)])
       (use generate(2,3) world_okD(7) [OF generate(4,1)] in \<open>auto simp: launch_ok_def split: option.splits\<close>)
next
  case (gen_enter w i l)
  show ?case
    by (rule enter_ok [OF gen_enter(3,1)])
       (use gen_enter world_okD(7) [OF gen_enter(3,1)] in \<open>auto simp: launch_ok_def\<close>)
next
  case (enter_provisioner w i l name)
  show ?case
    by (rule enter_ok [OF enter_provisioner(3,1)])
       (use enter_provisioner world_okD(7) [OF enter_provisioner(3,1)] in \<open>auto simp: launch_ok_def\<close>)
next
  case (track_runner w i l name now)
  then show ?case by (intro track_ok)
next
  case (watch w i l name)
  then show ?case by (intro world_ok_handles cancelIfIdle_handles)
next
  case (exit_launch w i l name err s jobDone fin n)
  show ?case by (rule exit_ok [OF exit_launch(4,1,2,3)])
next
  case (switch w i l name err)
  then show ?case by (intro switch_ok)
next
  case (backoff_begin w i l nm)
  then show ?case by (intro backoff_begin_ok)
next
  case (backoff_end w i l nm)
  then show ?case by (intro backoff_end_ok)
next
  case (defer_untrack w i l name)
  have "world_ok (set_launch i (l\<lparr>l_pc := Returning None\<rparr>) w)"
    by (rule pc_move_ok [OF defer_untrack(3,1)])
       (use defer_untrack(2) world_okD(7) [OF defer_untrack(3,1)] in \<open>auto simp: launch_ok_def\<close>)
  then show ?case by (simp add: untrack_ok [OF defer_untrack(3,1,2)])
next
  case (defer_enter w i l)
  then show ?case by (intro deferred_enter_ok)
next
  case (defer_finish w i l s n)
  show ?case by (rule finish_ok [OF defer_finish(4,1,2,3)])
next
  case (return w i l s n)
  have "maintainMinimum (ctx_done w) (l_ctx l) (w_s (w\<lparr>w_launches := mdel i (w_launches w)\<rparr>)) = (s, n)"
    using return(3) by simp
  from maintain_ok [OF drop_ok [OF return(4,1,2)] this, of "l_ctx l"] show ?case by (cases w) simp
next
  case (remover_next w c rs s r)
  from world_ok_handles [OF remover_next(3) removeLoop_next_handles [OF remover_next(2)]]
  show ?case by simp
next
  case (remover_settle w c name rs err s again)
  from world_ok_handles [OF remover_settle(3) settleRemoval_handles [OF remover_settle(2)]]
  show ?case by simp
next
  case (remover_retry w c name rs)
  then show ?case by simp
qed

interpretation sched: invariant_system "init_world mx mn hr" sched_step world_ok for mx mn hr
  by unfold_locales (auto intro: init_world_ok sched_step_ok)

end
