(* ===== verification/Sched_Removal.thy ===== *)
theory Sched_Removal
  imports Sched_Invariant
begin

text \<open>
  Deregistration: at most one \<open>removeLoop\<close> runs, exactly when \<open>removerActive\<close> says so, and until
  shutdown every VM marked removing is queued or waiting for GitHub's answer, so none is left
  outside both the pool and the queue.
\<close>

section \<open>The invariant\<close>

definition queue_ok :: "(string, vmHandle) gomap \<Rightarrow> string list \<Rightarrow> string set \<Rightarrow> bool" where
  "queue_ok a q I \<longleftrightarrow>
     (\<forall>n h. mlookup a n = Some h \<longrightarrow> h_removing h \<longrightarrow> \<not> h_cancelled h \<longrightarrow> n \<in> set q \<union> I)"

definition none_removing :: "scheduler \<Rightarrow> bool" where
  "none_removing s \<longleftrightarrow>
     s_removeQ s = [] \<and> \<not> s_removerActive s \<and> (\<forall>n h. mlookup (s_active s) n = Some h \<longrightarrow> \<not> h_removing h)"

definition in_flight :: "(ctx \<times> rpc) list \<Rightarrow> string set" where
  "in_flight rs = {n. \<exists>c. (c, RCall n) \<in> set rs}"

definition removal_ok :: "scheduler \<Rightarrow> (ctx \<times> rpc) list \<Rightarrow> ctx set \<Rightarrow> bool" where
  "removal_ok s rs D \<longleftrightarrow>
     length rs = of_bool (s_removerActive s) \<and> (s_removeQ s \<noteq> [] \<longrightarrow> s_removerActive s) \<and>
     (\<not> s_hasRemover s \<longrightarrow> none_removing s) \<and>
     (D = {} \<longrightarrow> queue_ok (s_active s) (s_removeQ s) (in_flight rs))"

abbreviation world_removal_ok :: "world \<Rightarrow> bool" where
  "world_removal_ok w \<equiv> removal_ok (w_s w) (w_removers w) (w_done w)"

section \<open>The operations\<close>

text \<open>An operation that leaves the queue as it is, up to dropping names, and marks nothing.\<close>

lemma queue_ok_mput:
  "queue_ok a q I \<Longrightarrow> mlookup a n = Some h \<Longrightarrow>
   (h_removing h' \<and> \<not> h_cancelled h' \<longrightarrow> h_removing h \<and> \<not> h_cancelled h) \<Longrightarrow> queue_ok (mput n h' a) q I"
  by (auto simp: queue_ok_def)

lemma queue_ok_drop:
  assumes "queue_ok a (n # q) I" "\<And>h. mlookup a n = Some h \<Longrightarrow> \<not> h_removing h \<or> h_cancelled h"
  shows "queue_ok a q I"
  unfolding queue_ok_def
proof (intro allI impI)
  fix m h assume m: "mlookup a m = Some h" "h_removing h" "\<not> h_cancelled h"
  then have "m \<in> set (n # q) \<union> I" "m \<noteq> n" using assms by (auto simp: queue_ok_def)
  then show "m \<in> set q \<union> I" by simp
qed

lemma queue_ok_settle:
  assumes "queue_ok a q (insert n I)" "h_removing h \<longrightarrow> h_cancelled h \<or> n \<in> set q \<union> I"
  shows "queue_ok (mput n h a) q I"
  unfolding queue_ok_def
proof (intro allI impI)
  fix m k assume m: "mlookup (mput n h a) m = Some k" "h_removing k" "\<not> h_cancelled k"
  show "m \<in> set q \<union> I"
  proof (cases "m = n")
    case False
    with m have "mlookup a m = Some k" by simp
    with m(2,3) assms(1) have "m \<in> set q \<union> insert n I" unfolding queue_ok_def by blast
    with False show ?thesis by simp
  qed (use m assms(2) in auto)
qed

lemma queue_ok_drop_flight:
  "queue_ok a q (insert n I) \<Longrightarrow> mlookup a n = Some h \<Longrightarrow> h_cancelled h \<Longrightarrow> queue_ok a q I"
  by (rule queue_ok_drop [of a n]) (auto simp: queue_ok_def)

lemma queue_ok_requeue: "queue_ok a q (insert n I) \<Longrightarrow> queue_ok a (q @ [n]) I"
  unfolding queue_ok_def by fastforce

lemma reclaim_loop_queue:
  "reclaim_loop need r q a = (q', a', r') \<Longrightarrow> queue_ok a q I \<Longrightarrow>
     queue_ok a' q' I \<and> (q = [] \<longrightarrow> q' = [] \<and> a' = a) \<and>
     (\<forall>n h'. mlookup a' n = Some h' \<longrightarrow> h_removing h' \<longrightarrow> (\<exists>h. mlookup a n = Some h \<and> h_removing h))"
proof (induction need r q a arbitrary: q' a' r' rule: reclaim_loop.induct)
  case (2 need r name q act)
  show ?case
  proof (cases "need \<le> 0")
    case False
    show ?thesis
    proof (cases "mlookup act name")
      case None
      with 2(5) have "queue_ok act q I" by (auto intro: queue_ok_drop)
      with 2(4) False None 2(1) [OF False None] show ?thesis by auto
    next
      case (Some h)
      show ?thesis
      proof (cases "h_removing h \<and> \<not> h_cancelled h")
        case True
        have "queue_ok (mput name (h\<lparr>h_removing := False\<rparr>) act) q I"
          using 2(5) Some by (auto simp: queue_ok_def)
        with 2(4) False Some True 2(2) [OF False Some True] show ?thesis
          by (auto split: if_splits)
      next
        case no: False
        with 2(5) Some have "queue_ok act q I" by (auto intro: queue_ok_drop)
        with 2(4) False Some no 2(3) [OF False Some no] show ?thesis by auto
      qed
    qed
  qed (use 2 in auto)
qed auto

lemma next_loop_queue:
  "next_loop q a = (q', a', r) \<Longrightarrow> queue_ok a q I \<Longrightarrow>
     queue_ok a' q' (I \<union> set_option r) \<and> (r = None \<longrightarrow> q' = []) \<and> (q = [] \<longrightarrow> a' = a \<and> r = None)"
proof (induction q a arbitrary: q' a' r rule: next_loop.induct)
  case (2 name q act)
  show ?case
  proof (cases "mlookup act name")
    case None
    with 2(5) have "queue_ok act q I" by (auto intro: queue_ok_drop)
    with 2(4) None 2(1) [OF None] show ?thesis by auto
  next
    case (Some h)
    show ?thesis
    proof (cases "\<not> h_removing h \<or> h_cancelled h")
      case True
      with 2(5) Some have "queue_ok act q I" by (auto intro: queue_ok_drop)
      with 2(2) [OF Some True] 2(4) Some True show ?thesis by auto
    next
      case no: False
      show ?thesis
      proof (cases "h_busy h")
        case True
        have "queue_ok (mput name (h\<lparr>h_removing := False\<rparr>) act) q I"
          using 2(5) Some by (auto simp: queue_ok_def)
        with 2(3) [OF Some no True] 2(4) Some no True show ?thesis by auto
      next
        case False
        with 2(4,5) Some no show ?thesis by (auto simp: queue_ok_def)
      qed
    qed
  qed
qed auto

lemma reclaimQueued_removal:
  assumes "reclaimQueued d s = (t, r)" "removal_ok s rs D" shows "removal_ok t rs D"
proof -
  obtain q a where l: "reclaim_loop (max d (s_min s) - live s) 0 (rev (s_removeQ s)) (s_active s) = (q, a, r)"
    and t: "t = s\<lparr>s_removeQ := rev q, s_active := a\<rparr>"
    using assms(1) by (auto simp: reclaimQueued_def Let_def split: prod.splits)
  note L = reclaim_loop_queue [OF l]
  have "queue_ok a (rev q) (in_flight rs)" if "D = {}"
    using L [of "in_flight rs"] that assms(2) by (auto simp: removal_ok_def queue_ok_def)
  moreover have "q \<noteq> [] \<longrightarrow> s_removerActive s"
    using L [of UNIV] assms(2) by (auto simp: removal_ok_def queue_ok_def)
  moreover have "none_removing t" if "none_removing s"
    using L [of UNIV] that by (auto simp: none_removing_def queue_ok_def t)
  ultimately show ?thesis using assms(2) by (auto simp: removal_ok_def t)
qed

lemma scale_loop_removal:
  assumes "scale_loop ord e p s = (t, k)" "\<not> s_hasRemover s \<longrightarrow> none_removing s"
  shows "(\<not> s_hasRemover t \<longrightarrow> none_removing t) \<and> s_removerActive t = s_removerActive s \<and>
     (\<forall>I. queue_ok (s_active s) (s_removeQ s) I \<longrightarrow> queue_ok (s_active t) (s_removeQ t) I) \<and>
     s_hasRemover t = s_hasRemover s \<and> (s_removeQ s \<noteq> [] \<longrightarrow> s_removeQ t \<noteq> [])"
  using assms
proof (induction ord arbitrary: e p s)
  case (Cons n ns)
  show ?case
  proof (cases "0 < e \<and> idle_at (s_active s) n")
    case True
    then obtain h where h: "mlookup (s_active s) n = Some h" "idle h"
      by (auto simp: idle_at_def split: option.splits)
    have "\<not> s_hasRemover (pick n s) \<longrightarrow> none_removing (pick n s)"
      using Cons.prems(2) h
      by (auto simp: pick_def Let_def none_removing_def mark_removing_def cancel_handle_def)
    moreover have "scale_loop ns (e - 1) (p + 1) (pick n s) = (t, k)"
      using Cons.prems(1) True by (simp add: scale_loop_Cons)
    moreover have "queue_ok (s_active (pick n s)) (s_removeQ (pick n s)) I"
      if "queue_ok (s_active s) (s_removeQ s) I" for I
      using that h by (auto simp: pick_def Let_def queue_ok_def mark_removing_def cancel_handle_def)
    moreover have "s_removerActive (pick n s) = s_removerActive s" "s_hasRemover (pick n s) = s_hasRemover s"
      "s_removeQ s \<noteq> [] \<longrightarrow> s_removeQ (pick n s) \<noteq> []"
      by (auto simp: pick_def Let_def mark_removing_def cancel_handle_def)
    ultimately show ?thesis using Cons.IH [of "e - 1" "p + 1" "pick n s"] by auto
  next
    case False
    with Cons.prems have "t = s \<or> scale_loop ns e p s = (t, k)" by (auto simp: scale_loop_Cons split: if_splits)
    then show ?thesis using Cons.IH [of e p s] Cons.prems(2) by auto
  qed
qed auto

lemma scaleDown_removal:
  assumes "scaleDown ord d s = (t, k, b)" "removal_ok s rs D"
  shows "removal_ok t (if b then (c, RHead) # rs else rs) D"
proof (cases "live s - (if d < s_min s then s_min s else d) \<le> 0")
  case True
  with assms show ?thesis by (auto simp: scaleDown_def Let_def)
next
  case False
  obtain u q where u: "scale_loop ord (live s - (if d < s_min s then s_min s else d)) 0 s = (u, q)" by fastforce
  define start where "start = (s_removeQ u \<noteq> [] \<and> \<not> s_removerActive u)"
  have t: "t = (if start then u\<lparr>s_removerActive := True\<rparr> else u)" "b = start"
    using assms(1) False u by (auto simp: scaleDown_def Let_def start_def)
  have L: "(\<not> s_hasRemover u \<longrightarrow> none_removing u)" "s_removerActive u = s_removerActive s"
     "\<And>I. queue_ok (s_active s) (s_removeQ s) I \<Longrightarrow> queue_ok (s_active u) (s_removeQ u) I"
     "s_hasRemover u = s_hasRemover s"
    using scale_loop_removal [OF u] assms(2) by (auto simp: removal_ok_def)
  have "in_flight ((c, RHead) # rs) = in_flight rs" by (auto simp: in_flight_def)
  with assms(2) L show ?thesis
    by (auto simp: removal_ok_def t start_def none_removing_def)
qed

lemma removeLoop_next_removal:
  assumes "removeLoop_next dn c s = (t, r)" "removal_ok s ((c', RHead) # rs) D" "dn c \<longrightarrow> D \<noteq> {}"
  shows "removal_ok t (case r of None \<Rightarrow> rs | Some name \<Rightarrow> (c', RCall name) # rs) D"
proof (cases "dn c")
  case True
  with assms show ?thesis
    by (auto simp: removeLoop_next_def removal_ok_def none_removing_def of_bool_def split: if_splits)
next
  case False
  have fl: "in_flight ((c', RHead) # rs) = in_flight rs"
    "in_flight ((c', RCall n) # rs) = in_flight rs \<union> {n}" for n by (auto simp: in_flight_def)
  obtain q a r' where l: "next_loop (s_removeQ s) (s_active s) = (q, a, r')" by (metis prod_cases3)
  have active: "s_removerActive s" "s_hasRemover s"
    using assms(2) by (auto simp: removal_ok_def none_removing_def)
  have L: "queue_ok a q (in_flight rs \<union> set_option r')" "r' = None \<Longrightarrow> q = []" if "D = {}"
    using next_loop_queue [OF l, of "in_flight rs"] that assms(2) by (auto simp: removal_ok_def fl)
  show ?thesis
  proof (cases r')
    case None
    then have "q = []" using next_loop_queue [OF l, of UNIV] by (auto simp: queue_ok_def)
    with assms(1,2) False l None L active show ?thesis
      by (auto simp: removeLoop_next_def nextRemoval_def removal_ok_def none_removing_def)
  next
    case (Some n)
    have "in_flight [(c', RCall n)] = insert n (in_flight [])" by (auto simp: in_flight_def)
    with Some assms(1,2) False l L active show ?thesis
      by (auto simp: removeLoop_next_def nextRemoval_def removal_ok_def none_removing_def of_bool_def)
  qed
qed

lemma settleRemoval_removal:
  assumes "settleRemoval n e s = (t, again)" "removal_ok s ((c, RCall n) # rs) D"
  shows "removal_ok t (if again then (c, RWait n) # rs else (c, RHead) # rs) D"
proof -
  have active: "s_removerActive s" "s_hasRemover s" "rs = []"
    using assms(2) by (auto simp: removal_ok_def none_removing_def of_bool_def split: if_splits)
  have fl: "in_flight [(c, RCall n)] = {n}" "in_flight [(c, RWait n)] = {}" "in_flight [(c, RHead)] = {}"
    by (auto simp: in_flight_def)
  show ?thesis
  proof (cases "mlookup (s_active s) n")
    case None
    have "queue_ok (s_active s) (n # s_removeQ s) {}" if "D = {}"
      using that assms(2) active by (auto simp: removal_ok_def fl queue_ok_def)
    then have "queue_ok (s_active s) (s_removeQ s) {}" if "D = {}"
      using that None by (auto intro: queue_ok_drop)
    with None assms active show ?thesis
      by (auto simp: settleRemoval_def removal_ok_def fl)
  next
    case (Some h)
    with assms active show ?thesis
      by (auto simp: settleRemoval_def removal_ok_def fl Let_def cancel_handle_def
          intro: queue_ok_requeue queue_ok_drop_flight
          intro!: queue_ok_settle split: if_splits option.splits removal_error.splits)
  qed
qed

section \<open>Every step preserves it\<close>

lemma removal_ok_frame:
  assumes "removal_ok s rs D"
    and "s_removeQ t = s_removeQ s" "s_removerActive t = s_removerActive s" "s_hasRemover t = s_hasRemover s"
    and "\<And>n h'. mlookup (s_active t) n = Some h' \<Longrightarrow> h_removing h' \<Longrightarrow>
       \<exists>h. mlookup (s_active s) n = Some h \<and> h_removing h \<and> (h_cancelled h \<longrightarrow> h_cancelled h')"
  shows "removal_ok t rs D"
proof -
  have "queue_ok (s_active t) (s_removeQ t) (in_flight rs)" if "queue_ok (s_active s) (s_removeQ s) (in_flight rs)"
    unfolding queue_ok_def
  proof (intro allI impI)
    fix n h' assume n: "mlookup (s_active t) n = Some h'" "h_removing h'" "\<not> h_cancelled h'"
    then obtain h where "mlookup (s_active s) n = Some h" "h_removing h" "\<not> h_cancelled h"
      using assms(5) by blast
    with that show "n \<in> set (s_removeQ t) \<union> in_flight rs" unfolding queue_ok_def assms(2) by blast
  qed
  moreover have "none_removing t" if "none_removing s"
    using that assms(2,3,5) unfolding none_removing_def by metis
  ultimately show ?thesis using assms(1-4) by (simp add: removal_ok_def)
qed

lemma removal_ok_mput:
  assumes "removal_ok s rs D" "mlookup (s_active s) n = Some h" "h_removing h' = h_removing h"
    "h_cancelled h \<longrightarrow> h_cancelled h'"
  shows "removal_ok (s\<lparr>s_active := mput n h' (s_active s)\<rparr>) rs D"
  by (rule removal_ok_frame [OF assms(1)]) (use assms(2-4) in \<open>auto split: if_splits\<close>)

lemma removal_ok_eq:
  "removal_ok s rs D \<Longrightarrow> s_removeQ t = s_removeQ s \<Longrightarrow> s_removerActive t = s_removerActive s \<Longrightarrow>
   s_hasRemover t = s_hasRemover s \<Longrightarrow> s_active t = s_active s \<Longrightarrow> removal_ok t rs D"
  by (rule removal_ok_frame) auto

lemma commit_removal: "removal_ok (commit n s) rs D = removal_ok s rs D"
  by (auto simp: removal_ok_def commit_def none_removing_def)

lemma replan_removal: "replan dn c s = (t, n) \<Longrightarrow> removal_ok s rs D \<Longrightarrow> removal_ok t rs D"
  by (auto simp: replan_def commit_removal Let_def split: if_splits prod.splits
      dest: reclaimQueued_removal)

lemma reconcileLocked_removal:
  assumes "reconcileLocked ord s = (t, act)" "removal_ok s rs D"
  shows "removal_ok t (if a_startRemover act then (c, RHead) # rs else rs) D"
proof -
  obtain u r where u: "reclaimQueued (desired s) s = (u, r)" by fastforce
  define n where "n = (if s_draining u then 0 else plan (desired s) (live u) (s_running u) (s_max u))"
  have U: "removal_ok (commit n u) rs D"
    using reclaimQueued_removal [OF u assms(2)] by (simp add: commit_removal)
  show ?thesis
  proof (cases "n = 0")
    case True
    obtain t' k b' where sd: "scaleDown ord (desired s) (commit n u) = (t', k, b')" by (metis prod_cases3)
    with True assms(1) u have "t = t'" "act = \<lparr>a_launch = 0, a_startRemover = b'\<rparr>"
      by (auto simp: reconcileLocked_def Let_def n_def [symmetric])
    with scaleDown_removal [OF sd U] show ?thesis by simp
  next
    case False
    with assms(1) u have "t = commit n u" "\<not> a_startRemover act"
      by (auto simp: reconcileLocked_def Let_def n_def [symmetric])
    with U show ?thesis by simp
  qed
qed

lemma start_launches_other [simp]:
  "w_removers (start_launches n c w) = w_removers w" "w_done (start_launches n c w) = w_done w"
proof -
  have "w_removers (add_launches k c w) = w_removers w \<and> w_done (add_launches k c w) = w_done w" for k
    by (induction k arbitrary: w) simp_all
  then show "w_removers (start_launches n c w) = w_removers w" "w_done (start_launches n c w) = w_done w"
    by (simp_all add: start_launches_def)
qed

lemma set_launch_other [simp]:
  "w_removers (set_launch i l w) = w_removers w" "w_done (set_launch i l w) = w_done w"
  by (simp_all add: set_launch_def)

lemma run_act_other [simp]:
  "w_s (run_act act c w) = w_s w" "w_done (run_act act c w) = w_done w"
  "w_removers (run_act act c w) = (if a_startRemover act then (c, RHead) # w_removers w else w_removers w)"
  by (simp_all add: run_act_def start_remover_def)

lemma exit_section_removal:
  assumes "exit_section dn c i n err s = (t, jd, fin, k)" "removal_ok s rs D"
  shows "removal_ok t rs D"
proof -
  let ?s = "s\<lparr>s_active := mdel n (s_active s)\<rparr>"
  have "removal_ok ?s rs D" "removal_ok (?s\<lparr>s_running := s_running s - 1\<rparr>) rs D"
    by (rule removal_ok_frame [OF assms(2)]; simp split: if_splits)+
  with assms(1) show ?thesis
    by (auto simp: exit_section_def Let_def finish_def split: if_splits prod.splits intro: replan_removal)
qed

lemma SetMin_removal:
  assumes "SetMin ord dn n (w_s w) = (s, rest)" "world_removal_ok w"
  shows "world_removal_ok (case rest of
          Act act \<Rightarrow> run_act act (s_lastCtx (w_s w)) (w\<lparr>w_s := s\<rparr>)
        | Maintain \<Rightarrow> w\<lparr>w_s := s, w_maintain := c # w_maintain w\<rparr>
        | _ \<Rightarrow> w\<lparr>w_s := s\<rparr>)"
proof -
  have "removal_ok ((w_s w)\<lparr>s_min := n\<rparr>) (w_removers w) (w_done w)"
    by (rule removal_ok_eq [OF assms(2)]) simp_all
  with assms show ?thesis
    by (auto simp: SetMin_def Let_def split: if_splits prod.splits
        dest: reconcileLocked_removal [where c = "s_lastCtx (w_s w)"])
qed

lemma sched_step_removal:
  assumes "sched_step lab w w'" "world_removal_ok w" shows "world_removal_ok w'"
  using assms
proof (induction rule: sched_step.induct)
  case (reconcile ord w c jobs s act)
  have "removal_ok ((w_s w)\<lparr>s_lastJobs := jobs, s_lastCtx := c, s_hasDesired := True,
     s_reconciles := s_reconciles (w_s w) + 1\<rparr>) (w_removers w) (w_done w)"
    by (rule removal_ok_eq [OF reconcile(3)]) simp_all
  from reconcileLocked_removal [OF reconcile(2) [unfolded Reconcile_def] this, of c]
  show ?case by (cases "a_startRemover act") simp_all
next
  case (set_min ord w n s rest c)
  then show ?case by (intro SetMin_removal)
next
  case (maintain w c cs s n)
  then have "removal_ok s (w_removers w) (w_done w)"
    by (auto simp: maintainMinimum_def Let_def commit_removal split: if_splits)
  then show ?case by simp
next
  case (mark_busy name w)
  then show ?case by (auto simp: MarkBusy_def intro: removal_ok_mput split: option.split)
next
  case (mark_completed name w)
  then show ?case by (auto simp: MarkCompleted_def intro: removal_ok_mput split: option.split)
next
  case (cancel_lost name w s b)
  have "removal_ok (cancel_handle name h (w_s w)) (w_removers w) (w_done w)"
    if "mlookup (s_active (w_s w)) name = Some h" for h
    by (rule removal_ok_frame [OF cancel_lost(2)]) (use that in \<open>auto simp: cancel_handle_def split: if_splits\<close>)
  with cancel_lost show ?case by (auto simp: CancelLost_def split: option.splits if_splits)
next
  case (watch w i l name)
  have "removal_ok (cancel_handle name h (w_s w)) (w_removers w) (w_done w)"
    if "mlookup (s_active (w_s w)) name = Some h" for h
    by (rule removal_ok_frame [OF watch(4)]) (use that in \<open>auto simp: cancel_handle_def split: if_splits\<close>)
  with watch show ?case by (auto simp: cancelIfIdle_def split: option.splits if_splits)
next
  case (ctx_ends c w)
  then show ?case by (auto simp: removal_ok_def)
next
  case (track_runner w i l name now)
  have "removal_ok (track name i now (w_s w)) (w_removers w) (w_done w)"
    by (rule removal_ok_frame [OF track_runner(3)]) (auto simp: track_def split: if_splits)
  then show ?case by simp
next
  case (exit_launch w i l name err s jobDone fin n)
  from exit_section_removal [OF exit_launch(3,4)] show ?case by simp
next
  case (defer_untrack w i l name)
  have "removal_ok (untrack name (w_s w)) (w_removers w) (w_done w)"
    by (rule removal_ok_frame [OF defer_untrack(3)]) (auto simp: untrack_def split: if_splits)
  then show ?case by simp
next
  case (defer_finish w i l s n)
  have "removal_ok ((w_s w)\<lparr>s_running := s_running (w_s w) - 1\<rparr>) (w_removers w) (w_done w)"
    by (rule removal_ok_eq [OF defer_finish(4)]) simp_all
  with defer_finish have "removal_ok s (w_removers w) (w_done w)"
    by (auto simp: finish_def Let_def split: if_splits intro: replan_removal)
  then show ?case by simp
next
  case (return w i l s n)
  then have "removal_ok s (w_removers w) (w_done w)"
    by (auto simp: maintainMinimum_def Let_def commit_removal split: if_splits)
  then show ?case by simp
next
  case (remover_next w c rs s r)
  have "removal_ok (w_s w) ((c, RHead) # rs) (w_done w)" using remover_next by simp
  from removeLoop_next_removal [OF remover_next(2) this] show ?case by auto
next
  case (remover_settle w c name rs err s again)
  have "removal_ok (w_s w) ((c, RCall name) # rs) (w_done w)" using remover_settle by simp
  from settleRemoval_removal [OF remover_settle(2) this] show ?case by (cases again) simp_all
next
  case (remover_retry w c name rs)
  then show ?case by (auto simp: removal_ok_def in_flight_def)
qed (auto simp: enter_def resetBackoff_def backoff_enter_def backoff_leave_def Drain_def Let_def
     intro: removal_ok_eq)

lemma init_removal: "init_world mx mn hr w \<Longrightarrow> world_removal_ok w"
  by (auto simp: init_world_def new_scheduler_def removal_ok_def none_removing_def queue_ok_def)

interpretation removal: invariant_system "init_world mx mn hr" sched_step world_removal_ok for mx mn hr
  by unfold_locales (auto intro: init_removal sched_step_removal)

end
