(* ===== verification/Sched_Props.thy ===== *)
theory Sched_Props
  imports Sched_Removal
begin

text \<open>
  What the scheduler promises: the theorems about single critical sections and about every world its
  goroutines can reach.
\<close>

section \<open>The counters\<close>

lemma countv_le_countv:
  "(\<And>k v. mlookup m k = Some v \<Longrightarrow> P v \<Longrightarrow> Q v) \<Longrightarrow> wf_map m \<Longrightarrow> countv P m \<le> countv Q m"
proof (induction m)
  case (Cons kv m)
  obtain a b where kv: "kv = (a, b)" by fastforce
  have wf: "wf_map m" and a: "a \<notin> set (keys m)"
    using Cons.prems(2) by (simp_all add: kv wf_map_def keys_def)
  have "mlookup (kv # m) k = Some v" if "mlookup m k = Some v" for k v
    using a that by (auto simp: kv set_keys_iff)
  then have "countv P m \<le> countv Q m" using Cons wf by blast
  moreover have "P b \<Longrightarrow> Q b" using Cons.prems(1) [of a b] by (simp add: kv)
  ultimately show ?case by (auto simp: kv)
qed simp

lemma countv_disjoint:
  "(\<And>k v. mlookup m k = Some v \<Longrightarrow> of_bool (P v) + of_bool (Q v) + of_bool (R v) \<le> (of_bool (S v) :: int)) \<Longrightarrow>
   wf_map m \<Longrightarrow> countv P m + countv Q m + countv R m \<le> countv S m"
proof (induction m)
  case (Cons kv m)
  obtain a b where kv: "kv = (a, b)" by fastforce
  have wf: "wf_map m" and a: "a \<notin> set (keys m)"
    using Cons.prems(2) by (simp_all add: kv wf_map_def keys_def)
  have "mlookup (kv # m) k = Some v" if "mlookup m k = Some v" for k v
    using a that by (auto simp: kv set_keys_iff)
  then have "countv P m + countv Q m + countv R m \<le> countv S m" using Cons wf by blast
  moreover have "of_bool (P b) + of_bool (Q b) + of_bool (R b) \<le> (of_bool (S b) :: int)"
    using Cons.prems(1) [of a b] by (simp add: kv)
  ultimately show ?case by (simp add: kv)
qed simp

text \<open>Launches that are pending, asleep or inside the provisioner are different launches, all running.\<close>

lemma world_ok_live:
  assumes "world_ok w"
  shows "s_pending (w_s w) \<le> live (w_s w)" "live (w_s w) \<le> s_running (w_s w)" "0 \<le> s_pending (w_s w)"
proof -
  note ok = world_okD [OF assms]
  have c: "counts_ok (w_s w) (w_launches w)" by (rule ok(3))
  have "countv (\<lambda>l. \<not> l_entered l \<and> \<not> l_finished l) (w_launches w)
          + countv (\<lambda>l. sleeping (l_pc l)) (w_launches w) + countv (\<lambda>l. launching (l_pc l)) (w_launches w)
        \<le> countv (\<lambda>l. \<not> l_finished l) (w_launches w)"
  proof (rule countv_disjoint [OF _ ok(2)])
    fix i l assume "mlookup (w_launches w) i = Some l"
    then have "launch_ok (s_vmDone (w_s w)) i l" by (rule ok(7))
    then show "of_bool (\<not> l_entered l \<and> \<not> l_finished l) + of_bool (sleeping (l_pc l)) + of_bool (launching (l_pc l))
      \<le> (of_bool (\<not> l_finished l) :: int)"
      by (cases "l_pc l") (auto simp: launch_ok_def)
  qed
  moreover have "countv (\<lambda>l. \<not> l_entered l) (w_launches w) \<le> countv (\<lambda>l. \<not> l_entered l \<and> \<not> l_finished l) (w_launches w)"
    by (rule countv_le_countv [OF _ ok(2)]) (use ok(7) in \<open>auto simp: launch_ok_def\<close>)
  moreover have "countv gone (s_active (w_s w)) \<le> int (length (s_active (w_s w)))"
    by (rule countv_le_length)
  ultimately show "s_pending (w_s w) \<le> live (w_s w)" "live (w_s w) \<le> s_running (w_s w)" "0 \<le> s_pending (w_s w)"
    using c countv_nonneg [of gone "s_active (w_s w)"]
      countv_nonneg [of "\<lambda>l. sleeping (l_pc l)" "w_launches w"]
      countv_nonneg [of "\<lambda>l. \<not> l_entered l" "w_launches w"]
    unfolding counts_ok_def live_def by linarith+
qed

section \<open>Who may be cancelled, and by whom\<close>

definition idle_cancel :: "scheduler \<Rightarrow> scheduler \<Rightarrow> bool" where
  "idle_cancel s t \<longleftrightarrow>
     (\<forall>i \<in> s_vmDone t - s_vmDone s.
        \<exists>n h. mlookup (s_active s) n = Some h \<and> h_cancel h = i \<and> \<not> h_busy h \<and> \<not> h_cancelled h)"

lemma idle_cancel_same: "s_vmDone t = s_vmDone s \<Longrightarrow> idle_cancel s t"
  by (simp add: idle_cancel_def)

lemma handles_only_cancels: "handles_only s t \<Longrightarrow> idle_cancel s t"
  unfolding handles_only_def idle_cancel_def by blast

lemma idle_cancel_via:
  assumes "handles_only s u" "s_active u' = s_active u" "s_vmDone u' = s_vmDone u" "handles_only u' t"
  shows "idle_cancel s t"
proof -
  have le: "active_le (s_active s) (s_active u)" using assms(1) by (simp add: handles_only_def)
  have "\<exists>n h. mlookup (s_active s) n = Some h \<and> h_cancel h = i \<and> \<not> h_busy h \<and> \<not> h_cancelled h"
    if i: "i \<in> s_vmDone t" "i \<notin> s_vmDone s" for i
  proof (cases "i \<in> s_vmDone u")
    case True
    with i handles_only_cancels [OF assms(1)] show ?thesis unfolding idle_cancel_def by blast
  next
    case False
    with i assms(3) have "i \<in> s_vmDone t - s_vmDone u'" by simp
    with handles_only_cancels [OF assms(4)] obtain n h' where
      h': "mlookup (s_active u) n = Some h'" "h_cancel h' = i" "\<not> h_busy h'" "\<not> h_cancelled h'"
      unfolding idle_cancel_def assms(2) by blast
    obtain h where h: "mlookup (s_active s) n = Some h" "handle_le h h'"
      using active_leD2 [OF le h'(1)] by blast
    have "h_cancel h = i \<and> \<not> h_busy h \<and> \<not> h_cancelled h"
      using h(2) h'(2-4) by (auto simp: handle_le_def)
    with h(1) show ?thesis by blast
  qed
  then show ?thesis by (simp add: idle_cancel_def)
qed

lemma reconcileLocked_cancels:
  assumes "reconcileLocked ord s = (t, act)" "s_running s \<le> s_max s"
  shows "idle_cancel s t"
  by (rule reconcileLocked_parts [OF assms])
     (rule idle_cancel_via, auto simp: commit_def)

lemma replan_vmDone: "replan dn c s = (t, n) \<Longrightarrow> s_vmDone t = s_vmDone s"
  by (auto simp: replan_def reclaimQueued_def Let_def commit_def split: if_splits prod.splits)

lemma maintain_vmDone: "maintainMinimum dn c s = (t, n) \<Longrightarrow> s_vmDone t = s_vmDone s"
  by (auto simp: maintainMinimum_def Let_def commit_def split: if_splits)

lemma scale_loop_gated: "scale_loop ord e p s = (t, k) \<Longrightarrow> s_hasRemover s \<Longrightarrow> s_vmDone t = s_vmDone s"
  by (induction ord arbitrary: e p s)
     (auto simp: scale_loop_Cons pick_def mark_removing_def Let_def split: if_splits)

lemma reclaimQueued_frame: "reclaimQueued d s = (t, r) \<Longrightarrow> s_vmDone t = s_vmDone s \<and> s_hasRemover t = s_hasRemover s"
  by (auto simp: reclaimQueued_def Let_def split: prod.splits)

lemma scaleDown_gated: "scaleDown ord d s = (t, k, b) \<Longrightarrow> s_hasRemover s \<Longrightarrow> s_vmDone t = s_vmDone s"
  unfolding scaleDown_def Let_def by (auto split: if_splits prod.splits dest: scale_loop_gated)

lemma reconcileLocked_gated:
  assumes "reconcileLocked ord s = (t, act)" "s_hasRemover s" "s_running s \<le> s_max s"
  shows "s_vmDone t = s_vmDone s"
proof (rule reconcileLocked_parts [OF assms(1,3)])
  fix u r n
  assume u: "reclaimQueued (desired s) s = (u, r)" and n: "0 < n \<Longrightarrow> t = commit n u" "0 \<le> n"
    "n = 0 \<Longrightarrow> \<exists>k. scaleDown ord (desired s) u = (t, k, a_startRemover act)"
  have f: "s_vmDone u = s_vmDone s" "s_hasRemover u" using reclaimQueued_frame [OF u] assms(2) by auto
  show ?thesis
  proof (cases "n = 0")
    case True
    with n(3) f scaleDown_gated show ?thesis by metis
  next
    case False
    with n(1,2) f show ?thesis by (simp add: commit_def)
  qed
qed

lemma finish_vmDone: "finish dn c j s = (t, n) \<Longrightarrow> s_vmDone t = s_vmDone s"
  using replan_vmDone [of dn c "s\<lparr>s_running := s_running s - 1\<rparr>" t n]
  by (cases j) (auto simp: finish_def)

lemma exit_vmDone:
  assumes "exit_section dn c i nm e s = (t, jd, fin, n)" shows "s_vmDone t = s_vmDone s"
proof (cases "e \<and> i \<notin> s_vmDone s")
  case True
  with assms show ?thesis by (auto simp: exit_section_def Let_def)
next
  case False
  with assms obtain j where "finish dn c j (s\<lparr>s_active := mdel nm (s_active s)\<rparr>) = (t, n)"
    by (auto simp: exit_section_def Let_def split: prod.splits)
  from finish_vmDone [OF this] show ?thesis by simp
qed

lemma settle_gated:
  "settleRemoval n e s = (t, b) \<Longrightarrow> e \<noteq> None \<Longrightarrow> s_vmDone t = s_vmDone s"
  by (auto simp: settleRemoval_def Let_def split: option.splits if_splits removal_error.splits)

text \<open>The labels that may cancel a VM when a \<open>Remover\<close> is configured.\<close>

fun may_cancel :: "label \<Rightarrow> bool" where
  "may_cancel (LSettle n e) = (e = None)"
| "may_cancel (LWatch i) = True"
| "may_cancel (LCancelLost n) = True"
| "may_cancel _ = False"

lemma step_cancels:
  assumes "sched_step lab w w'" "world_ok w"
  shows "idle_cancel (w_s w) (w_s w') \<and>
         (s_hasRemover (w_s w) \<longrightarrow> \<not> may_cancel lab \<longrightarrow> s_vmDone (w_s w') = s_vmDone (w_s w))"
  using assms
proof (induction rule: sched_step.induct)
  case (reconcile ord w c jobs s act)
  let ?s = "(w_s w)\<lparr>s_lastJobs := jobs, s_lastCtx := c, s_hasDesired := True,
     s_reconciles := s_reconciles (w_s w) + 1\<rparr>"
  have r: "reconcileLocked ord ?s = (s, act)" using reconcile(2) by (simp add: Reconcile_def)
  have "idle_cancel ?s s" using reconcileLocked_cancels [OF r] world_ok_max [OF reconcile(3)] by simp
  with reconcileLocked_gated [OF r] world_ok_max [OF reconcile(3)] show ?case by (simp add: idle_cancel_def)
next
  case (set_min ord w n s rest c)
  have "idle_cancel (w_s w) s \<and> (s_hasRemover (w_s w) \<longrightarrow> s_vmDone s = s_vmDone (w_s w))"
  proof (cases "\<exists>act. rest = Act act")
    case True
    let ?s = "(w_s w)\<lparr>s_min := n\<rparr>"
    from True set_min(2) obtain act where r: "reconcileLocked ord ?s = (s, act)"
      by (auto simp: SetMin_def Let_def split: if_splits prod.splits)
    have "idle_cancel ?s s" using reconcileLocked_cancels [OF r] world_ok_max [OF set_min(3)] by simp
    with reconcileLocked_gated [OF r] world_ok_max [OF set_min(3)] show ?thesis by (simp add: idle_cancel_def)
  qed (use set_min(2) in \<open>auto simp: SetMin_def Let_def idle_cancel_same split: if_splits prod.splits\<close>)
  then show ?case by (cases rest) simp_all
next
  case (maintain w c cs s n)
  from maintain_vmDone [OF maintain(2)] show ?case by (simp add: idle_cancel_same)
next
  case (mark_busy name w)
  have "s_vmDone (MarkBusy name (w_s w)) = s_vmDone (w_s w)" by (simp add: MarkBusy_def split: option.split)
  then show ?case by (simp add: idle_cancel_same)
next
  case (mark_completed name w)
  have "s_vmDone (MarkCompleted name (w_s w)) = s_vmDone (w_s w)"
    by (simp add: MarkCompleted_def split: option.split)
  then show ?case by (simp add: idle_cancel_same)
next
  case (cancel_lost name w s b)
  then show ?case by (simp add: handles_only_cancels [OF CancelLost_handles])
next
  case (watch w i l name)
  then show ?case by (simp add: handles_only_cancels [OF cancelIfIdle_handles])
next
  case (exit_launch w i l name err s jobDone fin n)
  from exit_vmDone [OF exit_launch(3)] show ?case by (simp add: idle_cancel_same)
next
  case (defer_finish w i l s n)
  have "s_vmDone s = s_vmDone (w_s w)"
    using defer_finish(3) by (cases "l_finished l") (auto dest: finish_vmDone)
  then show ?case by (simp add: idle_cancel_same)
next
  case (return w i l s n)
  from maintain_vmDone [OF return(3)] show ?case by (simp add: idle_cancel_same)
next
  case (remover_next w c rs s r)
  have "s_vmDone s = s_vmDone (w_s w)"
    using remover_next(2)
    by (auto simp: removeLoop_next_def nextRemoval_def split: if_splits prod.splits option.splits)
  then show ?case by (simp add: idle_cancel_same)
next
  case (remover_settle w c name rs err s again)
  then show ?case using settle_gated [OF remover_settle(2)]
    by (simp add: handles_only_cancels [OF settleRemoval_handles])
qed (auto simp: idle_cancel_same Drain_def enter_def track_def resetBackoff_def backoff_enter_def
      backoff_leave_def untrack_def Let_def)

section \<open>Draining\<close>

lemma start_launches_next: "w_next (start_launches n c w) = w_next w + nat n"
proof -
  have "w_next (add_launches k c w) = w_next w + k" for k by (induction k arbitrary: w) simp_all
  then show ?thesis by (simp add: start_launches_def)
qed

lemma run_act_next: "w_next (run_act act c w) = w_next w + nat (a_launch act)"
  by (simp add: run_act_def start_remover_def start_launches_next)

lemma set_launch_next [simp]: "w_next (set_launch i l w) = w_next w"
  by (simp add: set_launch_def)

lemma scaleDown_draining: "scaleDown ord d s = (t, k, b) \<Longrightarrow> s_draining t = s_draining s"
proof -
  have "s_draining t = s_draining s" if "scale_loop xs e p s = (t, q)" for xs e p q t
    using that by (induction xs arbitrary: e p s)
      (auto simp: scale_loop_Cons pick_def mark_removing_def cancel_handle_def Let_def split: if_splits)
  then show "scaleDown ord d s = (t, k, b) \<Longrightarrow> s_draining t = s_draining s"
    unfolding scaleDown_def Let_def by (auto split: if_splits prod.splits)
qed

lemma reconcileLocked_draining:
  assumes "reconcileLocked ord s = (t, act)" "s_draining s"
  shows "s_draining t \<and> a_launch act = 0"
proof -
  obtain u r where u: "reclaimQueued (desired s) s = (u, r)" by fastforce
  then have d: "s_draining u" using assms(2) by (auto simp: reclaimQueued_def Let_def split: prod.splits)
  obtain t' k b where sd: "scaleDown ord (desired s) (commit 0 u) = (t', k, b)" by (metis prod_cases3)
  have "(t, act) = (t', \<lparr>a_launch = 0, a_startRemover = b\<rparr>)"
    using assms(1) u d sd by (simp add: reconcileLocked_def Let_def)
  with scaleDown_draining [OF sd] d show ?thesis by (simp add: commit_def)
qed

lemma finish_draining: "finish dn c j s = (t, n) \<Longrightarrow> s_draining s \<Longrightarrow> s_draining t \<and> n = 0"
  by (cases j) (auto simp: finish_def replan_def)

lemma exit_draining: "exit_section dn c i nm e s = (t, jd, fin, n) \<Longrightarrow> s_draining s \<Longrightarrow> s_draining t \<and> n = 0"
  unfolding exit_section_def Let_def by (auto split: if_splits prod.splits dest!: finish_draining)

lemma maintain_draining: "maintainMinimum dn c s = (t, n) \<Longrightarrow> s_draining s \<Longrightarrow> s_draining t \<and> n = 0"
  by (auto simp: maintainMinimum_def Let_def commit_def split: if_splits)

lemma draining_step:
  assumes "sched_step lab w w'" "s_draining (w_s w)"
  shows "s_draining (w_s w') \<and> w_next w' = w_next w"
  using assms
proof (induction rule: sched_step.induct)
  case (reconcile ord w c jobs s act)
  from reconcileLocked_draining [OF reconcile(2) [unfolded Reconcile_def]] reconcile(3)
  show ?case by (simp add: run_act_next)
next
  case (set_min ord w n s rest c)
  then show ?case
    by (auto simp: SetMin_def Let_def run_act_next split: if_splits prod.splits
        dest!: reconcileLocked_draining)
next
  case (maintain w c cs s n)
  from maintain_draining [OF maintain(2,3)] show ?case by (simp add: start_launches_next)
next
  case (exit_launch w i l name err s jobDone fin n)
  from exit_draining [OF exit_launch(3,4)] show ?case by (simp add: start_launches_next)
next
  case (defer_finish w i l s n)
  have "s_draining s \<and> n = 0"
    using defer_finish(3,4) by (cases "l_finished l") (auto dest: finish_draining)
  then show ?case by (simp add: start_launches_next)
next
  case (return w i l s n)
  from maintain_draining [OF return(3,4)] show ?case by (simp add: start_launches_next)
next
  case (remover_next w c rs s r)
  then show ?case
    by (auto simp: removeLoop_next_def nextRemoval_def split: if_splits prod.splits option.splits)
next
  case (remover_settle w c name rs err s again)
  then show ?case
    by (auto simp: settleRemoval_def cancel_handle_def Let_def split: if_splits option.splits removal_error.splits)
qed (auto simp: MarkBusy_def MarkCompleted_def CancelLost_def cancelIfIdle_def cancel_handle_def Drain_def
      enter_def track_def resetBackoff_def backoff_enter_def backoff_leave_def untrack_def Let_def
      split: option.splits if_splits)

section \<open>Reconcile\<close>

lemma handles_only_keys: "handles_only s t \<Longrightarrow> range_order ord (s_active s) \<Longrightarrow> range_order ord (s_active t)"
  by (auto simp: range_order_def set_keys_iff handles_only_def active_le_None)

lemma reconcileLocked_live:
  assumes "reconcileLocked ord s = (t, act)" "handles_ok (s_active s)" "range_order ord (s_active s)"
    "s_running s \<le> s_max s" "\<not> s_draining s"
  shows "min (desired s) (live s + (s_max s - s_running s)) \<le> live t"
    and "a_launch act = s_running t - s_running s"
    and "0 \<le> a_launch act" "0 < a_launch act \<longrightarrow> live t \<le> desired s"
proof -
  obtain u r n where u: "reclaimQueued (desired s) s = (u, r)" "handles_only s u" "0 \<le> n"
    and a: "a_launch act = n" and t: "handles_only (commit n u) t"
    and n: "n = (if s_draining u then 0 else plan (desired s) (live u) (s_running u) (s_max u))"
    and launch: "0 < n \<Longrightarrow> t = commit n u"
    and down: "n = 0 \<Longrightarrow> \<exists>k. scaleDown ord (desired s) u = (t, k, a_startRemover act)"
    by (rule reconcileLocked_parts [OF assms(1,4)]) blast
  have wf: "wf_map (s_active s)" using assms(2) by (simp add: handles_ok_def)
  have dr: "\<not> s_draining u" using u(1) assms(5) by (auto simp: reclaimQueued_def Let_def split: prod.splits)
  have same: "s_running u = s_running s" "s_max u = s_max s"
    using u(2) by (simp_all add: handles_only_def same_counts_def)
  have l: "live s \<le> live u" by (rule reclaimQueued_live(1) [OF u(1) wf])
  have p: "n = plan (desired s) (live u) (s_running s) (s_max s)" using n dr same by simp
  have run: "s_running t = s_running s + n"
    using t same by (simp add: handles_only_def same_counts_def commit_def)
  show "a_launch act = s_running t - s_running s" "0 \<le> a_launch act" using run a u(3) by simp_all
  have "min (desired s) (live s + (s_max s - s_running s)) \<le> live t \<and> (0 < n \<longrightarrow> live t \<le> desired s)"
  proof (cases "n = 0")
    case True
    then obtain k where sd: "scaleDown ord (desired s) u = (t, k, a_startRemover act)" using down by blast
    have ok: "handles_ok (s_active u)" "range_order ord (s_active u)"
      using u(2) assms(2,3) handles_only_keys by (auto simp: handles_only_def intro: handles_ok_le)
    from scaleDown_live(1,2) [OF sd ok] l p True assms(4)
    show ?thesis by (auto simp: plan_eq Let_def)
  next
    case False
    then have "t = commit n u" using launch u(3) by simp
    then have "live t = live u + n" by (simp add: live_def commit_def)
    with l p False show ?thesis by (auto simp: plan_eq)
  qed
  then show "min (desired s) (live s + (s_max s - s_running s)) \<le> live t" "0 < a_launch act \<longrightarrow> live t \<le> desired s"
    using a by simp_all
qed

lemma Capacity_eq:
  assumes "world_ok w"
  shows "Capacity None (w_s w) = live (w_s w) + (s_max (w_s w) - s_running (w_s w))"
    and "0 \<le> f \<Longrightarrow> Capacity (Some f) (w_s w) =
           live (w_s w) - s_pending (w_s w) + min (s_pending (w_s w)) f
           + max 0 (min (s_max (w_s w) - s_running (w_s w)) (f - s_pendingAll (w_s w)))"
  using world_ok_live [OF assms] world_ok_max [OF assms] by (auto simp: Capacity_def Let_def)

end
