(* ===== verification/Sched_Claims.thy ===== *)
theory Sched_Claims
  imports Sched_Props
begin

text \<open>
  The properties of the scheduler, each with a concrete run in which its hypotheses hold.
\<close>

section \<open>A concrete run\<close>

text \<open>
  \<open>Max\<close> is 1 and \<open>Min\<close> 0.  GitHub asks for one runner; it is launched, registered as \<open>r\<close>, enters the
  provisioner and waits there, idle.  Then GitHub asks for none.
\<close>

definition demo_sched :: "bool \<Rightarrow> int \<Rightarrow> int \<Rightarrow> int \<Rightarrow> (string, vmHandle) gomap \<Rightarrow> int \<Rightarrow> nat \<Rightarrow> scheduler" where
  "demo_sched hr jobs run pend act pall recs =
     (new_scheduler 1 0 hr None)\<lparr>s_running := run, s_pending := pend, s_pendingAll := pall, s_active := act,
        s_lastJobs := jobs, s_hasDesired := (0 < recs), s_reconciles := recs\<rparr>"

definition demo_world :: "scheduler \<Rightarrow> (nat, launch) gomap \<Rightarrow> nat \<Rightarrow> world" where
  "demo_world s L k = \<lparr>w_s = s, w_launches = L, w_removers = [], w_maintain = [], w_done = {}, w_next = k\<rparr>"

definition demo_launch :: "lpc \<Rightarrow> bool \<Rightarrow> launch" where
  "demo_launch pc e = \<lparr>l_ctx = 0, l_pc = pc, l_entered = e, l_finished = False, l_jobDone = False\<rparr>"

definition demo_handle :: vmHandle where
  "demo_handle = \<lparr>h_cancel = 0, h_busy = False, h_since = 0, h_cancelled = False,
                  h_removing = False, h_completed = False, h_completedAt = 0\<rparr>"

definition demo0 :: "bool \<Rightarrow> world" where "demo0 hr = demo_world (demo_sched hr 0 0 0 [] 0 0) [] 0"
definition demo1 :: "bool \<Rightarrow> world" where
  "demo1 hr = demo_world (demo_sched hr 1 1 1 [] 1 1) [(0, demo_launch Committed False)] 1"
definition demo2 :: "bool \<Rightarrow> world" where
  "demo2 hr = demo_world (demo_sched hr 1 1 1 [] 1 1) [(0, demo_launch Generating False)] 1"
definition demo3 :: "bool \<Rightarrow> world" where
  "demo3 hr = demo_world (demo_sched hr 1 1 1 [] 1 1) [(0, demo_launch (Generated ''r'') False)] 1"
definition demo4 :: "bool \<Rightarrow> world" where
  "demo4 hr = demo_world (demo_sched hr 1 1 0 [] 0 1) [(0, demo_launch (Entered ''r'') True)] 1"
definition demo5 :: "bool \<Rightarrow> world" where
  "demo5 hr = demo_world (demo_sched hr 1 1 0 [(''r'', demo_handle)] 0 1)
                [(0, demo_launch (Launching ''r'') True)] 1"

text \<open>Without a Remover the idle VM is cancelled at once; with one it is queued for deregistration.\<close>

definition demo6 :: world where
  "demo6 = demo_world ((demo_sched False 0 1 0 [(''r'', demo_handle\<lparr>h_cancelled := True\<rparr>)] 0 2)\<lparr>s_vmDone := {0}\<rparr>)
             [(0, demo_launch (Launching ''r'') True)] 1"

definition demo7 :: world where
  "demo7 = (demo_world ((demo_sched True 0 1 0 [(''r'', demo_handle\<lparr>h_removing := True\<rparr>)] 0 2)
                \<lparr>s_removeQ := [''r''], s_removerActive := True\<rparr>)
             [(0, demo_launch (Launching ''r'') True)] 1)\<lparr>w_removers := [(0, RHead)]\<rparr>"

definition demo8 :: world where
  "demo8 = demo7\<lparr>w_s := (w_s demo7)\<lparr>s_removeQ := []\<rparr>, w_removers := [(0, RCall ''r'')]\<rparr>"

definition demo9 :: world where
  "demo9 = demo8\<lparr>w_s := cancel_handle ''r'' demo_handle (w_s demo8), w_removers := [(0, RHead)]\<rparr>"

lemmas demo_defs = demo_world_def demo_sched_def demo_launch_def demo_handle_def new_scheduler_def
lemmas plan_ops = Reconcile_def reconcileLocked_def reclaimQueued_def scaleDown_def scale_loop.simps
  mark_removing_def cancel_handle_def plan_def live_def desired_def commit_def gone_def Let_def
  run_act_def start_launches_def start_remover_def add_launches.simps numeral_2_eq_2

lemma demo_init: "init_world 1 0 hr (demo0 hr)"
  by (auto simp: init_world_def demo0_def demo_defs intro!: exI [of _ None])

lemma demo_steps:
  "sched_step (LReconcile 0 1) (demo0 hr) (demo1 hr)"
  "sched_step (LStart 0) (demo1 hr) (demo2 hr)"
  "sched_step (LGenerate 0 (Some ''r'')) (demo2 hr) (demo3 hr)"
  "sched_step (LEnter 0) (demo3 hr) (demo4 hr)"
  "sched_step (LTrack 0) (demo4 hr) (demo5 hr)"
  using reconcile [of "[]" "demo0 hr" 0 1] start [of "demo1 hr" 0 "demo_launch Committed False"]
    generate [of "demo2 hr" 0 "demo_launch Generating False" "Some ''r''"]
    enter_provisioner [of "demo3 hr" 0 "demo_launch (Generated ''r'') False" "''r''"]
    track_runner [of "demo4 hr" 0 "demo_launch (Entered ''r'') True" "''r''" 0]
  by (simp_all add: demo0_def demo1_def demo2_def demo3_def demo4_def demo5_def demo_defs plan_ops
      range_order_def keys_def set_launch_def name_used_def enter_def track_def)

lemma demo6_step: "sched_step (LReconcile 0 0) (demo5 False) demo6"
  using reconcile [of "[''r'']" "demo5 False" 0 0]
  by (simp add: demo5_def demo6_def demo_defs plan_ops range_order_def keys_def)

lemma demo7_step: "sched_step (LReconcile 0 0) (demo5 True) demo7"
  using reconcile [of "[''r'']" "demo5 True" 0 0]
  by (simp add: demo5_def demo7_def demo_defs plan_ops range_order_def keys_def)

lemma demo8_step: "sched_step LRemoverNext demo7 demo8"
  using remover_next [of demo7 0 "[]"]
  by (simp add: demo7_def demo8_def demo_defs removeLoop_next_def nextRemoval_def)

lemma demo9_step: "sched_step (LSettle ''r'' None) demo8 demo9"
  using remover_settle [of demo8 0 "''r''" "[]" None "w_s demo9" False]
  by (simp add: demo7_def demo8_def demo9_def demo_defs settleRemoval_def cancel_handle_def)

lemma demo5_reach: "reach (init_world 1 0 hr) sched_step (demo5 hr)"
proof -
  have r: "reach (init_world 1 0 hr) sched_step (demo0 hr)" by (rule reach_init) (rule demo_init)
  have r: "reach (init_world 1 0 hr) sched_step (demo1 hr)" using r demo_steps(1) by (rule reach_step)
  have r: "reach (init_world 1 0 hr) sched_step (demo2 hr)" using r demo_steps(2) by (rule reach_step)
  have r: "reach (init_world 1 0 hr) sched_step (demo3 hr)" using r demo_steps(3) by (rule reach_step)
  have r: "reach (init_world 1 0 hr) sched_step (demo4 hr)" using r demo_steps(4) by (rule reach_step)
  show ?thesis using r demo_steps(5) by (rule reach_step)
qed

lemma demo7_reach: "reach (init_world 1 0 True) sched_step demo7"
  using demo5_reach demo7_step by (rule reach_step)

lemma demo8_reach: "reach (init_world 1 0 True) sched_step demo8"
  using demo7_reach demo8_step by (rule reach_step)

section \<open>Properties\<close>

text \<open>
  C2.  In every reachable world the scheduler's counters are exact: \<open>running\<close> is the number of
  launches not yet taken out, \<open>pending\<close> of those that have not drawn their slot, \<open>backingOff\<close> of
  those asleep, the tracked handles are the launches inside the provisioner, and \<open>running\<close> never
  exceeds \<open>Max\<close>.
\<close>

theorem counters_exact:
  assumes "reach (init_world mx mn hr) sched_step w"
  shows "s_running (w_s w) = countv (\<lambda>l. \<not> l_finished l) (w_launches w) \<and>
         s_pending (w_s w) = countv (\<lambda>l. \<not> l_entered l) (w_launches w) \<and>
         s_backingOff (w_s w) = countv (\<lambda>l. sleeping (l_pc l)) (w_launches w) \<and>
         int (length (s_active (w_s w))) = countv (\<lambda>l. launching (l_pc l)) (w_launches w) \<and>
         s_running (w_s w) \<le> s_max (w_s w)"
  using sched.reach_inv [OF assms] by (simp add: world_ok_def counts_ok_def)

lemma counters_exact_witness:
  "s_running (w_s (demo5 True)) = 1 \<and> s_running (w_s (demo5 True)) \<le> s_max (w_s (demo5 True))"
  using counters_exact [OF demo5_reach [of True]] by (simp add: demo5_def demo_defs)

text \<open>
  C3.  The scheduler only ever cancels a VM that is idle at that moment: whatever step cancels launch
  \<open>i\<close>, its handle was tracked, not busy and not cancelled before, and the launch was inside the
  provisioner.  A runner whose job has been seen is never killed.
\<close>

theorem cancels_only_idle:
  assumes "reach (init_world mx mn hr) sched_step w" "sched_step lab w w'"
    and "i \<in> s_vmDone (w_s w')" "i \<notin> s_vmDone (w_s w)"
  shows "\<exists>n h l. mlookup (s_active (w_s w)) n = Some h \<and> h_cancel h = i \<and> \<not> h_busy h \<and> \<not> h_cancelled h \<and>
           mlookup (w_launches w) i = Some l \<and> l_pc l = Launching n"
proof -
  have ok: "world_ok w" by (rule sched.reach_inv [OF assms(1)])
  obtain n h where h: "mlookup (s_active (w_s w)) n = Some h" "h_cancel h = i" "\<not> h_busy h" "\<not> h_cancelled h"
    using step_cancels [OF assms(2) ok] assms(3,4) unfolding idle_cancel_def by blast
  from handles_matchD1 [OF world_okD(4) [OF ok] h(1)] h show ?thesis by blast
qed

lemma cancels_only_idle_witness:
  "(0::nat) \<in> s_vmDone (w_s demo6) \<and>
   (\<exists>n h l. mlookup (s_active (w_s (demo5 False))) n = Some h \<and> h_cancel h = 0 \<and> \<not> h_busy h \<and> \<not> h_cancelled h \<and>
      mlookup (w_launches (demo5 False)) 0 = Some l \<and> l_pc l = Launching n)"
  using cancels_only_idle [OF demo5_reach [of False] demo6_step, of 0]
  by (simp add: demo5_def demo6_def demo_defs)

text \<open>
  With a Remover configured, scaling down never cancels by itself: a VM is cancelled only when
  GitHub confirmed that its runner is deregistered, by the shutdown watcher of its launch, or because
  GitHub no longer lists it.
\<close>

theorem remover_gates_cancel:
  assumes "reach (init_world mx mn hr) sched_step w" "sched_step lab w w'" "s_hasRemover (w_s w)"
    and "s_vmDone (w_s w') \<noteq> s_vmDone (w_s w)"
  shows "(\<exists>n. lab = LSettle n None) \<or> (\<exists>i. lab = LWatch i) \<or> (\<exists>n. lab = LCancelLost n)"
  using step_cancels [OF assms(2) sched.reach_inv [OF assms(1)]] assms(3,4)
  by (cases lab) auto

lemma remover_gates_cancel_witness:
  "s_vmDone (w_s demo7) = s_vmDone (w_s (demo5 True)) \<and> s_vmDone (w_s demo9) \<noteq> s_vmDone (w_s demo8) \<and>
   ((\<exists>n. LSettle ''r'' None = LSettle n None) \<or> (\<exists>i. LSettle ''r'' None = LWatch i) \<or>
    (\<exists>n. LSettle ''r'' None = LCancelLost n))"
  using remover_gates_cancel [OF demo8_reach demo9_step]
  by (simp add: demo5_def demo7_def demo8_def demo9_def demo_defs cancel_handle_def)

text \<open>
  C6.  \<open>scaleDown\<close> converges: it takes out of the live count exactly as many VMs as are both in excess
  of \<open>max(desired, Min)\<close> and idle, so it never goes below that floor, and reaches it when enough VMs
  are idle, whatever order the map is visited in.
\<close>

theorem scaleDown_converges:
  assumes "handles_ok (s_active s)" "range_order ord (s_active s)" "scaleDown ord d s = (t, k, b)"
  shows "live t = (let floor = max d (s_min s) in
           if live s \<le> floor then live s else max floor (live s - countv idle (s_active s))) \<and>
         k = live s - live t"
  using scaleDown_live [OF assms(3,1,2)] by (auto simp: Let_def)

lemma scaleDown_converges_witness:
  "live (fst (scaleDown [''r''] 0 (w_s (demo5 True)))) = 0 \<and>
   fst (snd (scaleDown [''r''] 0 (w_s (demo5 True)))) = 1"
proof -
  have "handles_ok (s_active (w_s (demo5 True)))" "range_order [''r''] (s_active (w_s (demo5 True)))"
    by (simp_all add: demo5_def demo_defs handles_ok_def range_order_def keys_def wf_map_def)
  moreover obtain t k b where e: "scaleDown [''r''] 0 (w_s (demo5 True)) = (t, k, b)" by (metis prod_cases3)
  ultimately have "live t = 0 \<and> k = 1"
    using scaleDown_converges [OF _ _ e] by (simp add: demo5_def demo_defs live_def idle_def gone_def Let_def)
  with e show ?thesis by simp
qed

text \<open>
  The capacity a tier advertises is what \<open>Reconcile\<close> can serve: in a reachable world that is not
  draining, and without a shared slot pool, a count of jobs within \<open>Capacity\<close> (less the warm floor)
  leaves at least \<open>jobs + Min\<close> VMs live after \<open>Reconcile\<close>, and \<open>Capacity\<close> never exceeds \<open>Max\<close>.
\<close>

theorem capacity_is_served:
  assumes "reach (init_world mx mn hr) sched_step w" "\<not> s_draining (w_s w)"
    and "range_order ord (s_active (w_s w))" "jobs + s_min (w_s w) \<le> Capacity None (w_s w)"
    and "Reconcile ord c jobs (w_s w) = (t, act)"
  shows "jobs + s_min (w_s w) \<le> live t \<and> Capacity None (w_s w) \<le> s_max (w_s w) \<and>
         (0 < a_launch act \<longrightarrow> live t = jobs + s_min (w_s w))"
proof -
  have ok: "world_ok w" by (rule sched.reach_inv [OF assms(1)])
  let ?s = "(w_s w)\<lparr>s_lastJobs := jobs, s_lastCtx := c, s_hasDesired := True, s_reconciles := s_reconciles (w_s w) + 1\<rparr>"
  have r: "reconcileLocked ord ?s = (t, act)" using assms(5) by (simp add: Reconcile_def)
  have h: "handles_ok (s_active ?s)" "range_order ord (s_active ?s)" "s_running ?s \<le> s_max ?s" "\<not> s_draining ?s"
    using world_okD(1) [OF ok] world_ok_max [OF ok] assms(2,3) by simp_all
  note L = reconcileLocked_live [OF r h]
  have "live ?s = live (w_s w)" "desired ?s = jobs + s_min (w_s w)" by (simp_all add: live_def desired_def)
  with L(1,4) Capacity_eq(1) [OF ok] assms(4) world_ok_live(2) [OF ok] show ?thesis by auto
qed

lemma capacity_is_served_witness:
  "1 \<le> live (fst (Reconcile [] 0 1 (w_s (demo0 True)))) \<and> Capacity None (w_s (demo0 True)) \<le> 1"
proof -
  have r: "reach (init_world 1 0 True) sched_step (demo0 True)" by (rule reach_init) (rule demo_init)
  obtain t act where e: "Reconcile [] 0 1 (w_s (demo0 True)) = (t, act)" by fastforce
  have "1 \<le> live t \<and> Capacity None (w_s (demo0 True)) \<le> 1"
    using capacity_is_served [OF r _ _ _ e]
    by (simp add: demo0_def demo_defs range_order_def keys_def Capacity_def live_def)
  with e show ?thesis by simp
qed

text \<open>
  With a shared slot pool the advertised capacity is the unshared one cut to the slots: it is
  never negative, never more than without the pool, and the clamps the code puts around \<open>live\<close> and
  \<open>Max - running\<close> never take effect in a reachable world.
\<close>

theorem capacity_with_slots:
  assumes "reach (init_world mx mn hr) sched_step w" "0 \<le> free"
  shows "Capacity (Some free) (w_s w) =
           live (w_s w) - s_pending (w_s w) + min (s_pending (w_s w)) free
           + max 0 (min (s_max (w_s w) - s_running (w_s w)) (free - s_pendingAll (w_s w))) \<and>
         0 \<le> Capacity (Some free) (w_s w) \<and> Capacity (Some free) (w_s w) \<le> Capacity None (w_s w)"
proof -
  have ok: "world_ok w" by (rule sched.reach_inv [OF assms(1)])
  from Capacity_eq [OF ok] world_ok_live [OF ok] world_ok_max [OF ok] assms(2)
  show ?thesis by auto
qed

lemma capacity_with_slots_witness:
  "0 \<le> Capacity (Some 3) (w_s (demo5 True)) \<and> Capacity (Some 3) (w_s (demo5 True)) \<le> Capacity None (w_s (demo5 True))"
  using capacity_with_slots [OF demo5_reach [of True], of 3] by simp

text \<open>
  The backoff after the n-th consecutive failed boot is 500 ms doubled n - 1 times, cut at 30 s,
  for every count, however large.
\<close>

theorem backoff_doubles_to_cap:
  "backoffDelay n = min (30 * second) (500 * millisecond * 2 ^ nat (n - 1))"
  by (simp add: backoffDelay_eq backoffMax_def backoffBase_def)

text \<open>
  Once \<open>Drain\<close> has begun nothing launches: no step of any goroutine commits a launch, and the
  scheduler stays draining, so the wait is not extended by launches of its own.
\<close>

theorem drain_stops_launches:
  assumes "s_draining (w_s w)" "sched_step lab w w'"
  shows "w_next w' = w_next w \<and> s_draining (w_s w')"
  using draining_step [OF assms(2,1)] by simp

lemma drain_stops_launches_witness:
  "w_next ((demo2 True)\<lparr>w_s := Drain (Drain (w_s (demo2 True)))\<rparr>) = 1"
  using drain_stops_launches [of "(demo2 True)\<lparr>w_s := Drain (w_s (demo2 True))\<rparr>", OF _ drain]
  by (simp add: Drain_def demo2_def demo_world_def)

text \<open>
  C5.  A launch's exit re-plans: when its VM ran a job GitHub reported completed and a later \<open>Reconcile\<close>
  has run, the exit takes the launch out of \<open>running\<close> and commits at most one new launch, and exactly
  one when demand exceeds the live VMs, nothing is queued for removal and the scheduler is neither
  draining nor shutting down; so the place a finished job frees at \<open>Max\<close> is refilled at once.
\<close>

theorem exit_replans:
  assumes "exit_section dn c i name err s = (t, jobDone, fin, n)"
    and "mlookup (s_active s) name = Some h" "h_completed h" "h_completedAt h < s_reconciles s"
    and "\<not> (err \<and> i \<notin> s_vmDone s)" "wf_map (s_active s)"
  shows "jobDone \<and> fin \<and> (n = 0 \<or> n = 1) \<and> s_running t = s_running s - 1 + n \<and>
         (s_hasDesired s \<and> \<not> s_draining s \<and> \<not> dn c \<and> \<not> dn (s_lastCtx s) \<and> s_removeQ s = [] \<and>
          live s < desired s \<and> s_running s \<le> s_max s \<longrightarrow> n = 1 \<and> live t = live s + 1)"
proof -
  let ?s = "s\<lparr>s_active := mdel name (s_active s), s_running := s_running s - 1\<rparr>"
  have r: "replan dn c ?s = (t, n)" and j: "jobDone" "fin"
    using assms(1-5) by (auto simp: exit_section_def finish_def Let_def split: if_splits prod.splits)
  have l: "live ?s = live s"
    using assms(2,3,6) by (simp add: live_def countv_mdel gone_def)
  show ?thesis
  proof (cases "\<not> s_hasDesired s \<or> s_draining s \<or> dn c \<or> dn (s_lastCtx s)")
    case True
    then have "replan dn c ?s = (?s, 0)" by (simp add: replan_def)
    with r True j show ?thesis by auto
  next
    case False
    obtain u k where u: "reclaimQueued (desired ?s) ?s = (u, k)" by fastforce
    have same: "s_running u = s_running s - 1" "s_max u = s_max s" "s_lastJobs u = s_lastJobs s" "s_min u = s_min s"
      using u by (auto simp: reclaimQueued_def Let_def split: prod.splits)
    have q: "u = ?s \<and> k = 0" if "s_removeQ s = []"
      using u that by (cases s) (auto simp: reclaimQueued_def Let_def)
    show ?thesis
    proof (cases "0 < k")
      case True
      with r u False have "t = u" "n = 0" by (simp_all add: replan_def)
      with True q j same show ?thesis by auto
    next
      case k: False
      with r u False have t: "t = commit n u" and n: "n = min 1 (plan (desired u) (live u) (s_running u) (s_max u))"
        by (auto simp: replan_def Let_def)
      have "n = 1 \<and> live t = live s + 1" if "s_removeQ s = []" "live s < desired s" "s_running s \<le> s_max s"
      proof -
        have "n = 1" using n q [OF that(1)] that(2,3) l by (simp add: plan_eq desired_def)
        then show ?thesis using t q [OF that(1)] l by (simp add: live_def commit_def)
      qed
      moreover have "n = 0 \<or> n = 1" using plan_nonneg [of "desired u" "live u" "s_running u" "s_max u"] n by linarith
      ultimately show ?thesis using j t same by (auto simp: commit_def)
    qed
  qed
qed

lemma exit_replans_witness:
  "snd (snd (snd (exit_section (\<lambda>_. False) 0 0 ''r'' False
     ((demo_sched True 1 1 0 [(''r'', demo_handle\<lparr>h_busy := True, h_completed := True, h_completedAt := 1\<rparr>)] 0 2))))) = 1"
    (is "snd (snd (snd ?e)) = 1")
proof -
  obtain t j f n where e: "?e = (t, j, f, n)" by (metis prod_cases4)
  from exit_replans [OF e] have "n = 1"
    by (simp add: demo_sched_def new_scheduler_def demo_handle_def live_def gone_def desired_def wf_map_def keys_def)
  with e show ?thesis by simp
qed

text \<open>
  C4.  Deregistration loses no VM: at any time at most one \<open>removeLoop\<close> runs, exactly when
  \<open>removerActive\<close> says so, and as long as no shutdown has begun every VM that is marked removing and
  not cancelled waits in the queue or for GitHub's answer, with the loop running.
\<close>

theorem removal_not_stuck:
  assumes "reach (init_world mx mn hr) sched_step w"
  shows "length (w_removers w) = of_bool (s_removerActive (w_s w)) \<and>
         (w_done w = {} \<longrightarrow> mlookup (s_active (w_s w)) n = Some h \<longrightarrow> h_removing h \<longrightarrow> \<not> h_cancelled h \<longrightarrow>
            length (w_removers w) = 1 \<and>
            (n \<in> set (s_removeQ (w_s w)) \<or> (\<exists>c. (c, RCall n) \<in> set (w_removers w))))"
proof -
  have ok: "world_removal_ok w" by (rule removal.reach_inv [OF assms])
  have "length (w_removers w) = 1" if "n \<in> set (s_removeQ (w_s w)) \<or> (\<exists>c. (c, RCall n) \<in> set (w_removers w))"
    using that ok by (auto simp: removal_ok_def of_bool_def split: if_splits)
  with ok show ?thesis unfolding removal_ok_def queue_ok_def in_flight_def by blast
qed

lemma removal_not_stuck_witness:
  "length (w_removers demo7) = 1 \<and> ''r'' \<in> set (s_removeQ (w_s demo7))"
  using removal_not_stuck [OF demo7_reach, of "''r''" "demo_handle\<lparr>h_removing := True\<rparr>"]
  by (simp add: demo7_def demo_defs)

end
