(* ===== verification/Schedule.thy ===== *)
theory Schedule
  imports FR_Prelude
begin

text \<open>
  Sizing a tier by the clock (\<open>internal/schedule/schedule.go\<close>, \<open>follow.go\<close>): parsing a window, which
  moments it covers, the sizes for a moment, and the loop that applies them.

  The model starts from the decoded JSON: a \<open>Window\<close> with its four JSON fields.  A \<open>*time.Location\<close> is
  the function that gives a moment's offset from UTC in seconds; \<open>time.LoadLocation\<close> is the
  parameter \<open>load\<close>.  \<open>Weekday\<close> counts from Sunday, and day 0 of the Unix era was a Thursday.
\<close>

section \<open>The data\<close>

record Window =
  w_Days :: string
  w_Hours :: string
  w_Min :: "int option"
  w_Pool :: "int option"
  w_days :: "nat list"
  w_start :: nat
  w_end :: nat

record Sizes =
  sz_Min :: int
  sz_Pool :: int
  sz_Window :: string

type_synonym location = "time \<Rightarrow> int"

record Schedule =
  sc_TimeZone :: string
  sc_Windows :: "Window list"
  sc_loc :: location

datatype schedule_error =
    NoTimeZone | BadTimeZone string | NoWindows
  | NegativeSize | NoSize | NoDays | UnknownDay string | BadHours string | NotClock string | PastMidnight string

section \<open>Parsing\<close>

definition digits2 :: "string \<Rightarrow> bool" where
  "digits2 s \<longleftrightarrow> length s = 2 \<and> is_digit (s ! 0) \<and> is_digit (s ! 1)"

definition clock :: "string \<Rightarrow> bool \<Rightarrow> schedule_error + nat" where
  "clock s end_ok =
     (case cut CHR '':'' (trim_space s) of
        (h, m, ok) \<Rightarrow>
          (case (atoi h, atoi m) of
             (Some hh, Some mm) \<Rightarrow>
               if \<not> ok \<or> \<not> digits2 h \<or> \<not> digits2 m \<or> mm > 59 then Inl (NotClock s)
               else if hh > 23 \<and> \<not> (end_ok \<and> hh = 24 \<and> mm = 0) then Inl (PastMidnight s)
               else Inr (nat (hh * 60 + mm))
           | _ \<Rightarrow> Inl (NotClock s)))"

definition dayNames :: "(string \<times> nat) list" where
  "dayNames = [(''sun'', 0), (''mon'', 1), (''tue'', 2), (''wed'', 3), (''thu'', 4), (''fri'', 5), (''sat'', 6)]"

text \<open>The days from \<open>a\<close> to \<open>b\<close>, wrapping the week.\<close>

function day_range :: "nat \<Rightarrow> nat \<Rightarrow> nat list" where
  "day_range d b = (if d mod 7 = b mod 7 then [d] else d # day_range ((d + 1) mod 7) b)"
  by pat_completeness auto

lemma week_distance: "x < 7 \<Longrightarrow> y < 7 \<Longrightarrow> (y + 7 - x) mod 7 = (if x \<le> y then y - x else y + 7 - x)" for x y :: nat
proof (cases "x \<le> y")
  case True
  moreover assume "y < 7"
  ultimately have "y + 7 - x = (y - x) + 7" "y - x < 7" by simp_all
  then have "(y + 7 - x) mod 7 = y - x" by (metis mod_add_self2 mod_less)
  with True show ?thesis by simp
qed simp

lemma day_range_measure:
  assumes "d mod 7 \<noteq> b mod (7::nat)"
  shows "(b mod 7 + 7 - (d + 1) mod 7) mod 7 < (b mod 7 + 7 - d mod 7) mod 7"
proof -
  define x where "x = d mod 7"
  define y where "y = b mod 7"
  have xy: "x < 7" "y < 7" "x \<noteq> y" using assms by (simp_all add: x_def y_def)
  have e: "(d + 1) mod 7 = (if x = 6 then 0 else x + 1)" by (simp add: mod_Suc x_def)
  have "(y + 7 - (if x = 6 then 0 else x + 1)) mod 7 < (y + 7 - x) mod 7"
  proof (cases "x = 6")
    case True
    with xy week_distance [of 0 y] week_distance [of x y] show ?thesis by simp
  next
    case False
    with xy week_distance [of "x + 1" y] week_distance [of x y] show ?thesis
      by (simp split: if_splits)
  qed
  then show ?thesis by (simp only: e x_def [symmetric] y_def [symmetric])
qed

termination day_range
  by (relation "measure (\<lambda>(d, b). (b mod 7 + 7 - d mod 7) mod 7)")
     (simp_all add: day_range_measure [simplified])

declare day_range.simps [simp del]

definition parse_days :: "string \<Rightarrow> schedule_error + nat list" where
  "parse_days part =
     (case cut CHR ''-'' (trim_space part) of
        (from, to, isRange) \<Rightarrow>
          (case map_of dayNames from of
             None \<Rightarrow> Inl (UnknownDay from)
           | Some a \<Rightarrow>
               if isRange
               then (case map_of dayNames to of
                       None \<Rightarrow> Inl (UnknownDay to)
                     | Some b \<Rightarrow> Inr (day_range a b))
               else Inr (day_range a a)))"

fun parse_parts :: "string list \<Rightarrow> schedule_error + nat list" where
  "parse_parts [] = Inr []"
| "parse_parts (p # ps) =
     (case parse_days p of
        Inl e \<Rightarrow> Inl e
      | Inr ds \<Rightarrow> (case parse_parts ps of Inl e \<Rightarrow> Inl e | Inr es \<Rightarrow> Inr (ds @ es)))"

definition window_init :: "Window \<Rightarrow> schedule_error + Window" where
  "window_init w =
     (if (\<exists>n \<in> set_option (w_Min w). n < 0) \<or> (\<exists>n \<in> set_option (w_Pool w). n < 0) then Inl NegativeSize
      else if w_Min w = None \<and> w_Pool w = None then Inl NoSize
      else
        let days = to_lower (trim_space (w_Days w))
        in (case (if days = [] then Inl NoDays
                  else if days = ''daily'' \<or> days = ''*'' then Inr [0..<7]
                  else parse_parts (split_on CHR '','' days)) of
              Inl e \<Rightarrow> Inl e
            | Inr ds \<Rightarrow>
                (case cut CHR ''-'' (w_Hours w) of
                   (from, to, ok) \<Rightarrow>
                     if \<not> ok then Inl (BadHours (w_Hours w))
                     else (case clock from False of
                             Inl e \<Rightarrow> Inl e
                           | Inr st \<Rightarrow>
                               (case clock to True of
                                  Inl e \<Rightarrow> Inl e
                                | Inr en \<Rightarrow> Inr (w\<lparr>w_days := ds, w_start := st, w_end := en\<rparr>))))))"

fun init_windows :: "Window list \<Rightarrow> schedule_error + Window list" where
  "init_windows [] = Inr []"
| "init_windows (w # ws) =
     (case window_init w of
        Inl e \<Rightarrow> Inl e
      | Inr w' \<Rightarrow> (case init_windows ws of Inl e \<Rightarrow> Inl e | Inr ws' \<Rightarrow> Inr (w' # ws')))"

definition schedule_init :: "(string \<Rightarrow> location option) \<Rightarrow> Schedule \<Rightarrow> schedule_error + Schedule" where
  "schedule_init load s =
     (if sc_TimeZone s = [] then Inl NoTimeZone
      else (case load (sc_TimeZone s) of
              None \<Rightarrow> Inl (BadTimeZone (sc_TimeZone s))
            | Some loc \<Rightarrow>
                if sc_Windows s = [] then Inl NoWindows
                else (case init_windows (sc_Windows s) of
                        Inl e \<Rightarrow> Inl e
                      | Inr ws \<Rightarrow> Inr (s\<lparr>sc_loc := loc, sc_Windows := ws\<rparr>))))"

section \<open>Sizes for a moment\<close>

text \<open>The local clock: seconds since the local epoch, the minute of the day, the weekday.\<close>

definition local_secs :: "location \<Rightarrow> time \<Rightarrow> int" where
  "local_secs loc t = unix t + loc t"

definition local_minute :: "location \<Rightarrow> time \<Rightarrow> nat" where
  "local_minute loc t = nat (local_secs loc t mod 86400 div 60)"

definition local_day :: "location \<Rightarrow> time \<Rightarrow> int" where
  "local_day loc t = local_secs loc t div 86400"

definition weekday_of :: "int \<Rightarrow> nat" where
  "weekday_of day = nat ((day + 4) mod 7)"

definition covers :: "Window \<Rightarrow> location \<Rightarrow> time \<Rightarrow> bool" where
  "covers w loc t =
     (let now = local_minute loc t;
          day = weekday_of (local_day loc t)
      in if w_start w < w_end w
         then day \<in> set (w_days w) \<and> now \<ge> w_start w \<and> now < w_end w
         else (day \<in> set (w_days w) \<and> now \<ge> w_start w) \<or> ((day + 6) mod 7 \<in> set (w_days w) \<and> now < w_end w))"

definition window_name :: "Window \<Rightarrow> string" where
  "window_name w = w_Days w @ '' '' @ w_Hours w"

fun at_windows :: "Window list \<Rightarrow> location \<Rightarrow> time \<Rightarrow> Sizes \<Rightarrow> Sizes" where
  "at_windows [] loc t base = base"
| "at_windows (w # ws) loc t base =
     (if covers w loc t
      then base\<lparr>sz_Min := (case w_Min w of None \<Rightarrow> sz_Min base | Some n \<Rightarrow> n),
                sz_Pool := (case w_Pool w of None \<Rightarrow> sz_Pool base | Some n \<Rightarrow> n),
                sz_Window := window_name w\<rparr>
      else at_windows ws loc t base)"

definition At :: "Schedule \<Rightarrow> time \<Rightarrow> Sizes \<Rightarrow> Sizes" where
  "At s t base = at_windows (sc_Windows s) (sc_loc s) t (base\<lparr>sz_Window := []\<rparr>)"

fun max_of :: "(Window \<Rightarrow> int option) \<Rightarrow> int \<Rightarrow> Window list \<Rightarrow> int" where
  "max_of f n [] = n"
| "max_of f n (w # ws) = max_of f (case f w of None \<Rightarrow> n | Some k \<Rightarrow> max n k) ws"

definition MaxPool :: "Schedule \<Rightarrow> int" where
  "MaxPool s = max_of w_Pool 0 (sc_Windows s)"

definition MaxMin :: "Schedule \<Rightarrow> int" where
  "MaxMin s = max_of w_Min 0 (sc_Windows s)"

section \<open>Following the schedule\<close>

datatype follow_call = SetPoolCall int | SetMinCall int | AppliedCall Sizes

text \<open>One run of the closure \<open>apply\<close> at a moment: the calls it makes, and the new \<open>last\<close>.\<close>

definition follow_apply ::
  "(time \<Rightarrow> Sizes) \<Rightarrow> bool \<Rightarrow> bool \<Rightarrow> time \<Rightarrow> Sizes option \<Rightarrow> follow_call list \<times> Sizes option" where
  "follow_apply sizes hasPool hasApplied now prev =
     (let s = sizes now
      in if prev = Some s then ([], prev)
         else ((if hasPool then [SetPoolCall (sz_Pool s)] else [])
               @ [SetMinCall (sz_Min s)]
               @ (if hasApplied then [AppliedCall s] else []), Some s))"

text \<open>The loop over the moments of the start and of the ticks that fire before \<open>ctx\<close> ends.\<close>

fun follow :: "(time \<Rightarrow> Sizes) \<Rightarrow> bool \<Rightarrow> bool \<Rightarrow> time list \<Rightarrow> Sizes option \<Rightarrow> follow_call list" where
  "follow sizes hasPool hasApplied [] prev = []"
| "follow sizes hasPool hasApplied (now # ticks) prev =
     (case follow_apply sizes hasPool hasApplied now prev of
        (calls, prev') \<Rightarrow> calls @ follow sizes hasPool hasApplied ticks prev')"

end
