(* ===== verification/Schedule_Props.thy ===== *)
theory Schedule_Props
  imports Schedule
begin

text \<open>
  Properties of the schedule: what a parsed window is, that \<open>covers\<close> tests the periods the window
  describes (also across midnight), the range of the sizes, and the calls of the follower.
\<close>

section \<open>Parsing\<close>

lemma clock_range: "clock s e = Inr n \<Longrightarrow> n < 1440 \<or> (e \<and> n = 1440)"
proof -
  assume c: "clock s e = Inr n"
  obtain h m ok where hm: "cut CHR '':'' (trim_space s) = (h, m, ok)" by (metis prod_cases3)
  from c hm obtain hh mm where a: "atoi h = Some hh" "atoi m = Some mm"
    by (auto simp: clock_def split: option.splits)
  with c hm have "\<not> mm > 59" "\<not> (hh > 23 \<and> \<not> (e \<and> hh = 24 \<and> mm = 0))" "n = nat (hh * 60 + mm)"
    by (auto simp: clock_def split: if_splits)
  then show ?thesis by (cases "hh > 23") auto
qed

lemma day_range_table:
  "\<forall>a \<in> set [0..<7]. \<forall>b \<in> set [0..<7].
     set (day_range a b) = (if a \<le> b then set [a..<Suc b] else set [a..<7] \<union> set [0..<Suc b])"
  by code_simp

lemma day_range_set:
  "a < 7 \<Longrightarrow> b < 7 \<Longrightarrow> set (day_range a b) = (if a \<le> b then {a..b} else {a..6} \<union> {0..b})"
  using day_range_table by (auto simp: atLeastAtMost_def)

lemma dayNames_range: "map_of dayNames s = Some d \<Longrightarrow> d < 7"
  by (auto simp: dayNames_def split: if_splits)

lemma parse_days_range: "parse_days p = Inr ds \<Longrightarrow> set ds \<subseteq> {..<7} \<and> ds \<noteq> []"
proof -
  assume p: "parse_days p = Inr ds"
  obtain f t r where c: "cut CHR ''-'' (trim_space p) = (f, t, r)" by (metis prod_cases3)
  with p obtain a b where ab: "map_of dayNames f = Some a" "ds = day_range a b" "b < 7"
    by (auto simp: parse_days_def dest: dayNames_range split: option.splits if_splits)
  have "a < 7" using ab(1) by (rule dayNames_range)
  moreover have "a \<in> set (day_range a b)" by (subst day_range.simps) simp
  ultimately show ?thesis using ab day_range_set [of a b] by auto
qed

lemma parse_parts_range: "parse_parts ps = Inr ds \<Longrightarrow> set ds \<subseteq> {..<7} \<and> (ps \<noteq> [] \<longrightarrow> ds \<noteq> [])"
  by (induction ps arbitrary: ds) (fastforce split: sum.splits dest: parse_days_range)+

definition window_ok :: "Window \<Rightarrow> bool" where
  "window_ok w \<longleftrightarrow>
     w_start w < 1440 \<and> w_end w \<le> 1440 \<and> w_days w \<noteq> [] \<and> set (w_days w) \<subseteq> {..<7} \<and>
     (w_Min w \<noteq> None \<or> w_Pool w \<noteq> None) \<and>
     (\<forall>n \<in> set_option (w_Min w). 0 \<le> n) \<and> (\<forall>n \<in> set_option (w_Pool w). 0 \<le> n)"

lemma window_init_ok:
  assumes "window_init w = Inr w'" shows "window_ok w' \<and> w_Min w' = w_Min w \<and> w_Pool w' = w_Pool w"
proof -
  let ?days = "to_lower (trim_space (w_Days w))"
  have sizes: "\<not> ((\<exists>n \<in> set_option (w_Min w). n < 0) \<or> (\<exists>n \<in> set_option (w_Pool w). n < 0))"
    "\<not> (w_Min w = None \<and> w_Pool w = None)"
    using assms by (auto simp: window_init_def split: if_splits)
  obtain ds where ds: "(if ?days = [] then Inl NoDays
     else if ?days = ''daily'' \<or> ?days = ''*'' then Inr [0..<7]
     else parse_parts (split_on CHR '','' ?days)) = Inr ds"
    using assms sizes by (auto simp: window_init_def Let_def split: sum.splits)
  obtain fr to ok where c: "cut CHR ''-'' (w_Hours w) = (fr, to, ok)" by (metis prod_cases3)
  obtain st en where t: "clock fr False = Inr st" "clock to True = Inr en" "w' = w\<lparr>w_days := ds, w_start := st, w_end := en\<rparr>"
    using assms sizes ds c by (auto simp: window_init_def Let_def split: sum.splits if_splits)
  have "set ds \<subseteq> {..<7} \<and> ds \<noteq> []"
    using ds parse_parts_range [of "split_on CHR '','' ?days" ds] by (auto split: if_splits)
  with clock_range [OF t(1)] clock_range [OF t(2)] sizes t(3) show ?thesis
    by (auto simp: window_ok_def)
qed

lemma init_windows_ok:
  "init_windows ws = Inr ws' \<Longrightarrow>
     (\<forall>w \<in> set ws'. window_ok w) \<and> map w_Min ws' = map w_Min ws \<and> map w_Pool ws' = map w_Pool ws"
  by (induction ws arbitrary: ws') (fastforce split: sum.splits dest: window_init_ok)+

section \<open>Coverage\<close>

text \<open>The minutes a window lasts; an end at or before the start runs past midnight.\<close>

definition window_length :: "Window \<Rightarrow> nat" where
  "window_length w = (if w_start w < w_end w then w_end w - w_start w else 1440 + w_end w - w_start w)"

lemma local_minutes: "local_secs loc t div 60 = local_day loc t * 1440 + int (local_minute loc t)"
  and local_minute_less: "local_minute loc t < 1440"
proof -
  let ?s = "local_secs loc t"
  have "?s = ?s div 86400 * 86400 + ?s mod 86400" by simp
  then have "?s div 60 = (?s mod 86400 + (?s div 86400 * 1440) * 60) div 60"
    by (simp add: algebra_simps)
  also have "\<dots> = ?s div 86400 * 1440 + ?s mod 86400 div 60" by (subst div_mult_self1) simp_all
  finally show "?s div 60 = local_day loc t * 1440 + int (local_minute loc t)"
    by (simp add: local_day_def local_minute_def)
  have "?s mod 86400 < 86400" by simp
  then have "?s mod 86400 div 60 < 1440" by linarith
  then show "local_minute loc t < 1440" by (simp add: local_minute_def)
qed

lemma weekday_pred: "weekday_of (D - 1) = (weekday_of D + 6) mod 7"
proof -
  have "(D - 1 + 4) mod 7 = ((D + 4) mod 7 + 6) mod 7" by presburger
  then have "int (weekday_of (D - 1)) = int ((weekday_of D + 6) mod 7)"
    by (simp only: weekday_of_def zmod_int) simp
  then show ?thesis by simp
qed

lemma covers_days:
  assumes "w_start w < 1440" "w_end w \<le> 1440"
  shows "covers w loc t \<longleftrightarrow>
     (\<exists>D. weekday_of D \<in> set (w_days w) \<and>
        D * 1440 + int (w_start w) \<le> local_secs loc t div 60 \<and>
        local_secs loc t div 60 < D * 1440 + int (w_start w) + int (window_length w))"
    (is "_ \<longleftrightarrow> (\<exists>D. ?P D)")
proof -
  define L where "L = local_day loc t"
  define k where "k = int (local_minute loc t)"
  have m: "local_secs loc t div 60 = L * 1440 + k" and k: "0 \<le> k" "k < 1440"
    using local_minutes local_minute_less [of loc t] by (simp_all add: L_def k_def)
  have len: "int (window_length w) = (if w_start w < w_end w then int (w_end w) - int (w_start w)
     else 1440 + int (w_end w) - int (w_start w))"
    using assms by (simp add: window_length_def)
  have two: "D = L \<or> D = L - 1" if "?P D" for D
  proof -
    have "D * 1440 \<le> L * 1440 + k" "L * 1440 + k < D * 1440 + int (w_start w) + int (window_length w)"
      using that m by auto
    moreover have "int (w_start w) + int (window_length w) \<le> 2880" using assms len by auto
    ultimately have "D * 1440 < (L + 1) * 1440" "L * 1440 < (D + 2) * 1440" using k by simp_all
    then have "D < L + 1" "L < D + 2" by simp_all
    then show ?thesis by linarith
  qed
  have "?P L \<longleftrightarrow> weekday_of L \<in> set (w_days w) \<and> int (w_start w) \<le> k \<and> (w_start w < w_end w \<longrightarrow> k < int (w_end w))"
    using k assms by (auto simp: m len)
  moreover have "?P (L - 1) \<longleftrightarrow> (weekday_of L + 6) mod 7 \<in> set (w_days w) \<and> \<not> w_start w < w_end w \<and> k < int (w_end w)"
    using k assms by (auto simp: m len weekday_pred algebra_simps)
  moreover have "covers w loc t \<longleftrightarrow>
      (if w_start w < w_end w then weekday_of L \<in> set (w_days w) \<and> int (w_start w) \<le> k \<and> k < int (w_end w)
       else (weekday_of L \<in> set (w_days w) \<and> int (w_start w) \<le> k) \<or>
            ((weekday_of L + 6) mod 7 \<in> set (w_days w) \<and> k < int (w_end w)))"
    by (simp add: covers_def Let_def L_def k_def)
  moreover have "(\<exists>D. ?P D) \<longleftrightarrow> ?P L \<or> ?P (L - 1)" using two by blast
  ultimately show ?thesis by (simp only:) auto
qed

section \<open>Sizes\<close>

lemma max_of_ge: "n \<le> max_of f n ws"
proof (induction ws arbitrary: n)
  case (Cons w ws)
  show ?case
  proof (cases "f w")
    case (Some k)
    have "n \<le> max n k" by simp
    also have "\<dots> \<le> max_of f (max n k) ws" by (rule Cons.IH)
    finally show ?thesis using Some by simp
  qed (simp add: Cons.IH)
qed simp

lemma max_of_in: "w \<in> set ws \<Longrightarrow> f w = Some k \<Longrightarrow> k \<le> max_of f n ws"
proof (induction ws arbitrary: n)
  case (Cons a ws)
  show ?case
  proof (cases "a = w")
    case True
    have "k \<le> max n k" by simp
    also have "\<dots> \<le> max_of f (max n k) ws" by (rule max_of_ge)
    finally show ?thesis using True Cons.prems by simp
  qed (use Cons in \<open>auto split: option.splits\<close>)
qed simp

lemma at_windows_range:
  assumes "\<forall>w \<in> set ws. window_ok w" "0 \<le> sz_Min b" "0 \<le> sz_Pool b"
  shows "0 \<le> sz_Min (at_windows ws loc t b) \<and> 0 \<le> sz_Pool (at_windows ws loc t b) \<and>
         sz_Min (at_windows ws loc t b) \<le> max (sz_Min b) (max_of w_Min 0 ws) \<and>
         sz_Pool (at_windows ws loc t b) \<le> max (sz_Pool b) (max_of w_Pool 0 ws)"
proof -
  have "at_windows ws loc t b = b \<or>
    (\<exists>w \<in> set ws. at_windows ws loc t b = b\<lparr>sz_Min := (case w_Min w of None \<Rightarrow> sz_Min b | Some n \<Rightarrow> n),
                sz_Pool := (case w_Pool w of None \<Rightarrow> sz_Pool b | Some n \<Rightarrow> n), sz_Window := window_name w\<rparr>)"
    by (induction ws) auto
  then show ?thesis
  proof
    assume "\<exists>w \<in> set ws. at_windows ws loc t b = b\<lparr>sz_Min := (case w_Min w of None \<Rightarrow> sz_Min b | Some n \<Rightarrow> n),
                sz_Pool := (case w_Pool w of None \<Rightarrow> sz_Pool b | Some n \<Rightarrow> n), sz_Window := window_name w\<rparr>"
    then obtain w where w: "w \<in> set ws" "at_windows ws loc t b = b\<lparr>sz_Min := (case w_Min w of None \<Rightarrow> sz_Min b | Some n \<Rightarrow> n),
                sz_Pool := (case w_Pool w of None \<Rightarrow> sz_Pool b | Some n \<Rightarrow> n), sz_Window := window_name w\<rparr>" by blast
    with assms max_of_in [OF w(1), of w_Min] max_of_in [OF w(1), of w_Pool] show ?thesis
      by (cases "w_Min w"; cases "w_Pool w") (auto simp: window_ok_def max.coboundedI2)
  qed (use assms in simp)
qed

text \<open>The sizes of a schedule that \<open>init\<close> accepted.\<close>

lemma schedule_init_ok: "schedule_init load s = Inr s' \<Longrightarrow> \<forall>w \<in> set (sc_Windows s'). window_ok w"
  by (auto simp: schedule_init_def split: if_splits option.splits sum.splits dest: init_windows_ok)

lemma At_sizes:
  assumes "\<forall>w \<in> set (sc_Windows s). window_ok w" "0 \<le> sz_Min base" "0 \<le> sz_Pool base"
  shows "0 \<le> sz_Min (At s t base)" "sz_Min (At s t base) \<le> max (sz_Min base) (MaxMin s)"
    "0 \<le> sz_Pool (At s t base)" "sz_Pool (At s t base) \<le> max (sz_Pool base) (MaxPool s)"
  using at_windows_range [OF assms(1), of "base\<lparr>sz_Window := []\<rparr>" "sc_loc s" t] assms(2,3)
  by (simp_all add: At_def MaxMin_def MaxPool_def)

lemma max_of_le: "n \<le> k \<Longrightarrow> (\<And>w m. w \<in> set ws \<Longrightarrow> f w = Some m \<Longrightarrow> m \<le> k) \<Longrightarrow> max_of f n ws \<le> k"
proof (induction ws arbitrary: n)
  case (Cons w ws)
  show ?case
  proof (cases "f w")
    case None
    then have "max_of f n (w # ws) = max_of f n ws" by simp
    also have "\<dots> \<le> k" by (rule Cons.IH) (use Cons.prems in auto)
    finally show ?thesis .
  next
    case (Some m)
    then have "max_of f n (w # ws) = max_of f (max n m) ws" by simp
    also have "\<dots> \<le> k" by (rule Cons.IH) (use Cons.prems Some in auto)
    finally show ?thesis .
  qed
qed simp

section \<open>Following\<close>

definition follow_calls :: "bool \<Rightarrow> bool \<Rightarrow> Sizes \<Rightarrow> follow_call list" where
  "follow_calls hp ha s =
     (if hp then [SetPoolCall (sz_Pool s)] else []) @ [SetMinCall (sz_Min s)] @ (if ha then [AppliedCall s] else [])"

lemma follow_from:
  "follow sizes hp ha ticks (Some s) = concat (map (follow_calls hp ha) (tl (remdups_adj (s # map sizes ticks))))"
proof (induction ticks arbitrary: s)
  case (Cons t ticks)
  show ?case
  proof (cases "s = sizes t")
    case True
    with Cons [of s] show ?thesis by (simp add: follow_apply_def Let_def)
  next
    case False
    have hd: "remdups_adj (x # xs) \<noteq> []" "hd (remdups_adj (x # xs)) = x" for x :: Sizes and xs
      by (simp_all add: hd_remdups_adj)
    have "remdups_adj (sizes t # map sizes ticks) = sizes t # tl (remdups_adj (sizes t # map sizes ticks))"
      by (metis hd list.collapse)
    then have "concat (map (follow_calls hp ha) (remdups_adj (sizes t # map sizes ticks))) =
       follow_calls hp ha (sizes t) @ concat (map (follow_calls hp ha) (tl (remdups_adj (sizes t # map sizes ticks))))"
      by (metis concat.simps(2) list.simps(9))
    moreover have "follow_apply sizes hp ha t (Some s) = (follow_calls hp ha (sizes t), Some (sizes t))"
      using False by (simp add: follow_apply_def Let_def follow_calls_def)
    ultimately show ?thesis
      using False Cons [of "sizes t"] by simp
  qed
qed simp

section \<open>Properties\<close>

text \<open>
  C11.  \<open>covers\<close> is the period test the window describes: on each listed day \<open>D\<close> the window opens at its
  start minute and stays open for its length, past midnight when the end is at or before the start,
  and a moment is covered iff it lies in one of these periods; stated for every window that \<open>init\<close>
  accepts.
\<close>

theorem covers_periods:
  assumes "window_init w = Inr w'"
  shows "covers w' loc t \<longleftrightarrow>
     (\<exists>D. weekday_of D \<in> set (w_days w') \<and>
        D * 1440 + int (w_start w') \<le> local_secs loc t div 60 \<and>
        local_secs loc t div 60 < D * 1440 + int (w_start w') + int (window_length w'))"
  using window_init_ok [OF assms] by (intro covers_days) (simp_all add: window_ok_def)

definition night_window :: Window where
  "night_window = \<lparr>w_Days = ''fri-mon'', w_Hours = ''22:30-06:00'', w_Min = Some 2, w_Pool = None,
                   w_days = [], w_start = 0, w_end = 0\<rparr>"

lemma night_window_init:
  "window_init night_window = Inr (night_window\<lparr>w_days := [5, 6, 0, 1], w_start := 1350, w_end := 360\<rparr>)"
  by code_simp

definition night_window' :: Window where
  "night_window' = night_window\<lparr>w_days := [5, 6, 0, 1], w_start := 1350, w_end := 360\<rparr>"

lemma covers_periods_witness:
  "\<exists>D. weekday_of D \<in> {5, 6, 0, 1} \<and>
     D * 1440 + 1350 \<le> (3180::int) \<and> 3180 < D * 1440 + 1350 + (450::int)"
proof -
  have "covers night_window' (\<lambda>_. 28800) (162000 * second)" by code_simp
  moreover have "local_secs (\<lambda>_. 28800) (162000 * second) div 60 = 3180"
    by (simp add: local_secs_def unix_def)
  ultimately show ?thesis
    using covers_periods [OF night_window_init, of "\<lambda>_. 28800" "162000 * second"]
    by (simp add: night_window'_def window_length_def)
qed

text \<open>
  The sizes of a validated schedule are in range at every moment: not negative, and at most the
  base size or the largest size any window asks for (\<open>MaxMin\<close>, \<open>MaxPool\<close>), which is what the
  configuration checks before the tier starts.
\<close>

theorem At_in_range:
  assumes "schedule_init load s = Inr s'" "0 \<le> sz_Min base" "0 \<le> sz_Pool base"
  shows "0 \<le> sz_Min (At s' t base) \<and> sz_Min (At s' t base) \<le> max (sz_Min base) (MaxMin s') \<and>
         0 \<le> sz_Pool (At s' t base) \<and> sz_Pool (At s' t base) \<le> max (sz_Pool base) (MaxPool s')"
  using At_sizes [OF schedule_init_ok [OF assms(1)] assms(2,3)] by simp

lemma At_in_range_witness:
  "sz_Min (At \<lparr>sc_TimeZone = ''UTC'', sc_Windows = [night_window'], sc_loc = \<lambda>_. 0\<rparr> 0
      \<lparr>sz_Min = 0, sz_Pool = 1, sz_Window = []\<rparr>) \<le> 2"
proof -
  have "schedule_init (\<lambda>_. Some (\<lambda>_. 0)) \<lparr>sc_TimeZone = ''UTC'', sc_Windows = [night_window], sc_loc = \<lambda>_. 0\<rparr>
        = Inr \<lparr>sc_TimeZone = ''UTC'', sc_Windows = [night_window'], sc_loc = \<lambda>_. 0\<rparr>"
    by (simp add: schedule_init_def night_window_init night_window'_def)
  from At_in_range [OF this, of "\<lparr>sz_Min = 0, sz_Pool = 1, sz_Window = []\<rparr>" 0] show ?thesis
    by (simp add: MaxMin_def night_window'_def night_window_def)
qed

text \<open>
  The follower resizes exactly when the sizes change: over any sequence of ticks its calls are
  those for the sizes with adjacent repeats removed, the pool before the warm runners each time.
\<close>

theorem follow_changes_only:
  "follow sizes hp ha ticks None =
   concat (map (\<lambda>s. (if hp then [SetPoolCall (sz_Pool s)] else []) @ [SetMinCall (sz_Min s)] @
                    (if ha then [AppliedCall s] else [])) (remdups_adj (map sizes ticks)))"
proof (cases ticks)
  case (Cons t ts)
  have hd: "remdups_adj (x # xs) \<noteq> []" "hd (remdups_adj (x # xs)) = x" for x :: Sizes and xs
    by (simp_all add: hd_remdups_adj)
  have "remdups_adj (sizes t # map sizes ts) = sizes t # tl (remdups_adj (sizes t # map sizes ts))"
    by (metis hd list.collapse)
  then have "concat (map (follow_calls hp ha) (remdups_adj (sizes t # map sizes ts))) =
       follow_calls hp ha (sizes t) @ concat (map (follow_calls hp ha) (tl (remdups_adj (sizes t # map sizes ts))))"
    by (metis concat.simps(2) list.simps(9))
  moreover have "follow_apply sizes hp ha t None = (follow_calls hp ha (sizes t), Some (sizes t))"
    by (simp add: follow_apply_def Let_def follow_calls_def)
  ultimately have "follow sizes hp ha ticks None = concat (map (follow_calls hp ha) (remdups_adj (map sizes ticks)))"
    using Cons by (simp add: follow_from)
  then show ?thesis by (simp add: follow_calls_def [abs_def])
qed simp

end
