(* ===== verification/Network.thy ===== *)
theory Network
  imports FR_Prelude
begin

text \<open>
  Per-microVM networking (\<open>internal/provisioner/network.go\<close>): the names and addresses derived from a
  slot, the host commands that bring a slot's network up and down, and the pool of slots.

  The slot pool is used through the locale \<open>slot_pool\<close>: what a client may rely on when it acquires and
  releases slots, and that slots in use are then always distinct.
\<close>

section \<open>Addresses and names of a slot\<close>

definition hex_digit :: "nat \<Rightarrow> char" where
  "hex_digit d = (if d < 10 then char_of (48 + d) else char_of (87 + d))"

text \<open>\<open>%02x\<close>: at least two hexadecimal digits.\<close>

fun hex :: "nat \<Rightarrow> string" where
  "hex n = (if n < 16 then [hex_digit n] else hex (n div 16) @ [hex_digit (n mod 16)])"

declare hex.simps [simp del]

definition hex2 :: "nat \<Rightarrow> string" where
  "hex2 n = (if n < 16 then CHR ''0'' # hex n else hex n)"

definition vmCIDRFor :: "nat \<Rightarrow> string" where
  "vmCIDRFor netBase = ''172.'' @ show_nat netBase @ ''.0.0/16''"

record vmNet =
  n_slot :: nat
  n_tap :: string
  n_hostIP :: string
  n_guestIP :: string
  n_netmask :: string
  n_guestMAC :: string

definition slotNet :: "nat \<Rightarrow> string \<Rightarrow> nat \<Rightarrow> vmNet" where
  "slotNet slot tapPrefix netBase =
     \<lparr> n_slot = slot,
       n_tap = tapPrefix @ show_nat slot,
       n_hostIP = ''172.'' @ show_nat netBase @ ''.'' @ show_nat slot @ ''.1'',
       n_guestIP = ''172.'' @ show_nat netBase @ ''.'' @ show_nat slot @ ''.2'',
       n_netmask = ''255.255.255.252'',
       n_guestMAC = ''06:00:AC:'' @ hex2 netBase @ '':'' @ hex2 slot @ '':02'' \<rparr>"

definition composeBootArgs :: "string \<Rightarrow> vmNet \<Rightarrow> string" where
  "composeBootArgs base n =
     base @ '' ip='' @ n_guestIP n @ ''::'' @ n_hostIP n @ '':'' @ n_netmask n @ ''::eth0:off''"

definition tapUpCommands :: "vmNet \<Rightarrow> string list list" where
  "tapUpCommands n =
     [[''ip'', ''tuntap'', ''add'', ''dev'', n_tap n, ''mode'', ''tap''],
      [''ip'', ''addr'', ''add'', n_hostIP n @ ''/30'', ''dev'', n_tap n],
      [''ip'', ''link'', ''set'', n_tap n, ''up'']]"

definition tapDownCommands :: "string \<Rightarrow> string list list" where
  "tapDownCommands tap = [[''ip'', ''link'', ''del'', tap]]"

definition netnsName :: "nat \<Rightarrow> string \<Rightarrow> string" where
  "netnsName slot tapPrefix = tapPrefix @ ''ns'' @ show_nat slot"

record netnsSpec =
  ns_ns :: string
  ns_hostVeth :: string
  ns_nsVeth :: string
  ns_hostVIP :: string
  ns_nsVIP :: string
  ns_nsPath :: string

definition netnsRunDir :: string where "netnsRunDir = ''/var/run/netns''"

definition slotNetNS :: "vmNet \<Rightarrow> nat \<Rightarrow> string \<Rightarrow> netnsSpec" where
  "slotNetNS n netBase tapPrefix =
     \<lparr> ns_ns = netnsName (n_slot n) tapPrefix,
       ns_hostVeth = tapPrefix @ ''v'' @ show_nat (n_slot n) @ ''h'',
       ns_nsVeth = tapPrefix @ ''v'' @ show_nat (n_slot n) @ ''g'',
       ns_hostVIP = ''172.'' @ show_nat netBase @ ''.'' @ show_nat (n_slot n) @ ''.5'',
       ns_nsVIP = ''172.'' @ show_nat netBase @ ''.'' @ show_nat (n_slot n) @ ''.6'',
       ns_nsPath = netnsRunDir @ ''/'' @ netnsName (n_slot n) tapPrefix \<rparr>"

definition in_ns :: "netnsSpec \<Rightarrow> string list \<Rightarrow> string list" where
  "in_ns s cmd = [''ip'', ''netns'', ''exec'', ns_ns s] @ cmd"

definition netnsUpCommands :: "vmNet \<Rightarrow> netnsSpec \<Rightarrow> int \<Rightarrow> int \<Rightarrow> string list list" where
  "netnsUpCommands n s uid gid =
     (let u = show_int uid; g = show_int gid in
      [[''ip'', ''netns'', ''add'', ns_ns s],
       in_ns s [''ip'', ''link'', ''set'', ''lo'', ''up''],
       in_ns s [''ip'', ''tuntap'', ''add'', ''dev'', n_tap n, ''mode'', ''tap'', ''user'', u, ''group'', g],
       in_ns s [''ip'', ''addr'', ''add'', n_hostIP n @ ''/30'', ''dev'', n_tap n],
       in_ns s [''ip'', ''link'', ''set'', n_tap n, ''up''],
       [''ip'', ''link'', ''add'', ns_hostVeth s, ''type'', ''veth'', ''peer'', ''name'', ns_nsVeth s],
       [''ip'', ''link'', ''set'', ns_nsVeth s, ''netns'', ns_ns s],
       [''ip'', ''addr'', ''add'', ns_hostVIP s @ ''/30'', ''dev'', ns_hostVeth s],
       [''ip'', ''link'', ''set'', ns_hostVeth s, ''up''],
       in_ns s [''ip'', ''addr'', ''add'', ns_nsVIP s @ ''/30'', ''dev'', ns_nsVeth s],
       in_ns s [''ip'', ''link'', ''set'', ns_nsVeth s, ''up''],
       in_ns s [''ip'', ''route'', ''add'', ''default'', ''via'', ns_hostVIP s],
       in_ns s [''sysctl'', ''-q'', ''-w'', ''net.ipv4.ip_forward=1''],
       [''ip'', ''route'', ''add'', n_guestIP n @ ''/32'', ''via'', ns_nsVIP s]])"

section \<open>The slot pool\<close>

type_synonym ipam = "nat list"

definition newIPAM :: "nat \<Rightarrow> ipam" where
  "newIPAM sz = [0..<sz]"

text \<open>The last free slot is taken; a slot that comes back is appended.\<close>

definition acquire :: "ipam \<Rightarrow> nat option \<times> ipam" where
  "acquire p = (if p = [] then (None, p) else (Some (last p), butlast p))"

definition available :: "ipam \<Rightarrow> nat" where
  "available p = length p"

definition release :: "nat \<Rightarrow> ipam \<Rightarrow> ipam" where
  "release slot p = p @ [slot]"

locale slot_pool =
  fixes acq :: "'p \<Rightarrow> nat option \<times> 'p"
    and rel :: "nat \<Rightarrow> 'p \<Rightarrow> 'p"
    and avail :: "'p \<Rightarrow> nat"
    and free_set :: "'p \<Rightarrow> nat set"
    and ok :: "'p \<Rightarrow> bool"
  assumes acq_None: "ok p \<Longrightarrow> acq p = (None, p') \<Longrightarrow> free_set p = {} \<and> p' = p"
    and acq_Some: "ok p \<Longrightarrow> acq p = (Some n, p') \<Longrightarrow>
       ok p' \<and> n \<in> free_set p \<and> free_set p' = free_set p - {n}"
    and rel_ok: "ok p \<Longrightarrow> n \<notin> free_set p \<Longrightarrow> ok (rel n p) \<and> free_set (rel n p) = insert n (free_set p)"
    and avail_card: "ok p \<Longrightarrow> finite (free_set p) \<and> avail p = card (free_set p)"
begin

text \<open>
  A client's run: it acquires slots, gives back slots it holds, and may keep one for good (a
  quarantine) by doing neither.  The second component is the list of slots held.
\<close>

inductive run :: "'p \<Rightarrow> nat list \<Rightarrow> 'p \<Rightarrow> nat list \<Rightarrow> bool" where
  run_refl: "run p h p h"
| run_acq: "run p h q k \<Longrightarrow> acq q = (Some n, r) \<Longrightarrow> run p h r (n # k)"
| run_rel: "run p h q k \<Longrightarrow> n \<in> set k \<Longrightarrow> run p h (rel n q) (remove1 n k)"

lemma run_disjoint:
  assumes "run p h q k" "ok p" "distinct h" "set h \<inter> free_set p = {}"
  shows "ok q \<and> distinct k \<and> set k \<inter> free_set q = {} \<and> set k \<union> free_set q = set h \<union> free_set p"
  using assms
proof (induction rule: run.induct)
  case (run_acq p h q k n r)
  then have IH: "ok q" "distinct k" "set k \<inter> free_set q = {}" "set k \<union> free_set q = set h \<union> free_set p" by auto
  from acq_Some [OF IH(1) run_acq(2)] IH show ?case by auto
next
  case (run_rel p h q k n)
  then have IH: "ok q" "distinct k" "set k \<inter> free_set q = {}" "set k \<union> free_set q = set h \<union> free_set p" by auto
  with run_rel(2) have "n \<notin> free_set q" by blast
  from rel_ok [OF IH(1) this] IH run_rel(2) show ?case by auto
qed auto

text \<open>Every slot is held or free: the free count plus the held ones is the pool's size.\<close>

lemma run_count:
  assumes "run p [] q k" "ok p"
  shows "avail q + length k = avail p"
proof -
  have d: "ok q" "distinct k" "set k \<inter> free_set q = {}" "set k \<union> free_set q = free_set p"
    using run_disjoint [OF assms(1,2)] by auto
  have "card (set k \<union> free_set q) = card (set k) + card (free_set q)"
    using d(3) avail_card [OF d(1)] by (intro card_Un_disjoint) auto
  then show ?thesis
    using d avail_card [OF d(1)] avail_card [OF assms(2)] by (simp add: distinct_card)
qed

end

lemma acquire_Some: "acquire p = (Some n, p') \<longleftrightarrow> p = p' @ [n]"
  by (cases p rule: rev_cases) (auto simp: acquire_def)

lemma acquire_None: "acquire p = (None, p') \<longleftrightarrow> p = [] \<and> p' = []"
  by (auto simp: acquire_def)

interpretation ipam: slot_pool acquire release available set distinct
proof unfold_locales
  fix p p' n
  show "distinct p \<Longrightarrow> acquire p = (None, p') \<Longrightarrow> set p = {} \<and> p' = p"
    by (auto simp: acquire_None)
  show "distinct p \<Longrightarrow> acquire p = (Some n, p') \<Longrightarrow> distinct p' \<and> n \<in> set p \<and> set p' = set p - {n}"
    by (auto simp: acquire_Some)
  show "distinct p \<Longrightarrow> n \<notin> set p \<Longrightarrow> distinct (release n p) \<and> set (release n p) = insert n (set p)"
    by (auto simp: release_def)
  show "distinct p \<Longrightarrow> finite (set p) \<and> available p = card (set p)"
    by (simp add: available_def distinct_card)
qed

section \<open>Slots do not collide\<close>

lemma dotted_eq:
  assumes "show_nat a @ CHR ''.'' # show_nat b @ CHR ''.'' # r = show_nat c @ CHR ''.'' # show_nat d @ CHR ''.'' # r'"
  shows "a = c \<and> b = d \<and> r = r'"
proof -
  have dot: "\<not> is_digit CHR ''.''" by code_simp
  have "a = c \<and> CHR ''.'' # show_nat b @ CHR ''.'' # r = CHR ''.'' # show_nat d @ CHR ''.'' # r'"
    by (rule show_nat_append_eq [OF _ _ assms]) (simp_all add: dot)
  then have "a = c" "show_nat b @ CHR ''.'' # r = show_nat d @ CHR ''.'' # r'" by simp_all
  moreover have "b = d \<and> CHR ''.'' # r = CHR ''.'' # r'"
    by (rule show_nat_append_eq [OF _ _ calculation(2)]) (simp_all add: dot)
  ultimately show ?thesis by simp
qed

lemma guestIP_inj:
  "n_guestIP (slotNet s p b) = n_guestIP (slotNet s' p' b') \<longleftrightarrow> s = s' \<and> b = b'"
  using dotted_eq [of b s "''2''" b' s' "''2''"] by (auto simp: slotNet_def)

lemma hostVeth_inj:
  "ns_hostVeth (slotNetNS n b p) = ns_hostVeth (slotNetNS n' b' p) \<longleftrightarrow> n_slot n = n_slot n'"
proof -
  have "\<not> is_digit CHR ''h''" by code_simp
  then have "show_nat s @ ''h'' = show_nat s' @ ''h'' \<longleftrightarrow> s = s'" for s s'
    using show_nat_append_eq [of "''h''" "''h''" s s'] by auto
  then show ?thesis by (simp add: slotNetNS_def)
qed

lemma tap_inj: "n_tap (slotNet s p b) = n_tap (slotNet s' p b') \<longleftrightarrow> s = s'"
  by (simp add: slotNet_def show_nat_inj)

lemma of_char_hex_digit: "d < 16 \<Longrightarrow> (of_char (hex_digit d) :: nat) = (if d < 10 then 48 + d else 87 + d)"
  by (simp add: hex_digit_def)

lemma hex_digit_inj: "c < 16 \<Longrightarrow> d < 16 \<Longrightarrow> hex_digit c = hex_digit d \<Longrightarrow> c = d"
proof -
  assume c: "c < 16" and d: "d < 16" and e: "hex_digit c = hex_digit d"
  have "(if c < 10 then 48 + c else 87 + c) = (if d < 10 then 48 + d else 87 + d)"
    unfolding of_char_hex_digit [OF c, symmetric] of_char_hex_digit [OF d, symmetric] by (simp only: e)
  with c d show "c = d" by (simp split: if_splits)
qed

lemma zero_char: "CHR ''0'' = char_of (48 :: nat)"
  by code_simp

lemma hex2_eq: "m < 256 \<Longrightarrow> hex2 m = [hex_digit (m div 16), hex_digit (m mod 16)]"
proof (cases "m < 16")
  case True
  then show ?thesis by (simp add: hex2_def hex.simps [of m] hex_digit_def zero_char)
next
  case False
  moreover assume "m < 256"
  then have "m div 16 < 16" by (simp add: less_mult_imp_div_less)
  ultimately show ?thesis by (simp add: hex2_def hex.simps [of m] hex.simps [of "m div 16"])
qed

lemma hex2_inj: "m < 256 \<Longrightarrow> n < 256 \<Longrightarrow> hex2 m = hex2 n \<Longrightarrow> m = n"
proof -
  assume a: "m < 256" "n < 256" "hex2 m = hex2 n"
  have "m div 16 < 16" "n div 16 < 16" using a by (simp_all add: less_mult_imp_div_less)
  then have "m div 16 = n div 16" "m mod 16 = n mod 16"
    using a(3) by (auto simp: hex2_eq [OF a(1)] hex2_eq [OF a(2)] intro: hex_digit_inj)
  then show "m = n" by (metis div_mult_mod_eq)
qed

lemma hex2_length: "m < 256 \<Longrightarrow> length (hex2 m) = 2"
  by (simp add: hex2_eq)

lemma guestMAC_inj:
  assumes "s < 256" "s' < 256" "b < 256" "b' < 256"
    "n_guestMAC (slotNet s p b) = n_guestMAC (slotNet s' p' b')"
  shows "s = s' \<and> b = b'"
proof -
  have "hex2 b @ '':'' @ hex2 s @ '':02'' = hex2 b' @ '':'' @ hex2 s' @ '':02''"
    using assms(5) by (simp add: slotNet_def)
  then have "hex2 b = hex2 b'" "hex2 s = hex2 s'"
    using assms by (auto simp: append_eq_append_conv hex2_length)
  with assms hex2_inj show ?thesis by blast
qed

end
