(* ===== verification/Egress.thy ===== *)
theory Egress
  imports Network "HOL-Library.Word"
begin

text \<open>
  What microVM guests may reach (\<open>internal/provisioner/egress.go\<close>): the categories of the
  configuration, the selection of GitHub's published ranges, and the nftables ruleset.

  \<open>buildNFTRuleset\<close> is modelled to the byte.  Its rules are written as values of \<open>rule\<close> and printed by
  \<open>show_rule\<close>, so that the same rules can also be given nftables' meaning: \<open>verdict\<close> runs a packet
  through a chain with policy accept, where the first rule that matches decides.
\<close>

section \<open>Addresses and prefixes\<close>

type_synonym ip4 = "32 word"

definition ip4_of :: "nat list \<Rightarrow> ip4" where
  "ip4_of os = of_nat (fold (\<lambda>x a. 256 * a + x) os 0)"

text \<open>\<open>netip.ParseAddr\<close> on a dotted address: four decimal fields up to 255, no leading zeros.\<close>

definition parse_field :: "string \<Rightarrow> nat option" where
  "parse_field f =
     (if length f > 1 \<and> hd f = CHR ''0'' then None
      else (case parse_nat f of Some n \<Rightarrow> if n \<le> 255 then Some n else None | None \<Rightarrow> None))"

fun parse_fields :: "string list \<Rightarrow> nat list option" where
  "parse_fields [] = Some []"
| "parse_fields (f # fs) =
     (case (parse_field f, parse_fields fs) of (Some n, Some ns) \<Rightarrow> Some (n # ns) | _ \<Rightarrow> None)"

definition parse_addr4 :: "string \<Rightarrow> nat list option" where
  "parse_addr4 s =
     (case parse_fields (split_on CHR ''.'' s) of
        Some os \<Rightarrow> if length os = 4 then Some os else None
      | None \<Rightarrow> None)"

text \<open>
  \<open>netip.ParsePrefix\<close>, IPv4 only (an IPv6 prefix is as invalid to the callers as no prefix).  A second
  slash makes the address or the bit count unparsable, so cutting at the first one is the same.
\<close>

definition parse_prefix4 :: "string \<Rightarrow> (nat list \<times> nat) option" where
  "parse_prefix4 s =
     (case cut CHR ''/'' s of
        (a, b, True) \<Rightarrow>
          if length b > 1 \<and> hd b = CHR ''0'' then None
          else (case (parse_addr4 a, parse_nat b) of
                  (Some os, Some n) \<Rightarrow> if n \<le> 32 then Some (os, n) else None
                | _ \<Rightarrow> None)
      | _ \<Rightarrow> None)"

definition in_prefix :: "nat list \<times> nat \<Rightarrow> ip4 \<Rightarrow> bool" where
  "in_prefix p a \<longleftrightarrow> (case p of (os, n) \<Rightarrow> drop_bit (32 - n) a = drop_bit (32 - n) (ip4_of os))"

definition in_cidr :: "string \<Rightarrow> ip4 \<Rightarrow> bool" where
  "in_cidr s a = (case parse_prefix4 s of Some p \<Rightarrow> in_prefix p a | None \<Rightarrow> False)"

definition is_addr :: "string \<Rightarrow> ip4 \<Rightarrow> bool" where
  "is_addr s a = (case parse_addr4 s of Some os \<Rightarrow> a = ip4_of os | None \<Rightarrow> False)"

section \<open>The configuration\<close>

definition natTable :: string where "natTable = ''firerunner''"

definition metaCategories :: "string list" where
  "metaCategories = [''api'', ''actions'', ''git'', ''packages'']"

record EgressConfig =
  e_Categories :: "string list"
  e_DNSServers :: "string list"
  e_RefreshInterval :: duration

definition egress_has :: "EgressConfig \<Rightarrow> string \<Rightarrow> bool" where
  "egress_has e category \<longleftrightarrow> list_ex (\<lambda>c. equal_fold c category) (e_Categories e)"

definition egress_open :: "EgressConfig \<Rightarrow> bool" where
  "egress_open e = egress_has e ''open''"

definition metaCats :: "EgressConfig \<Rightarrow> string list" where
  "metaCats e = map to_lower (filter (\<lambda>c. to_lower c \<in> set metaCategories) (e_Categories e))"

text \<open>
  The part of \<open>fetchMetaCIDRs\<close> after the response was decoded: a category whose value is not a list of
  strings is \<open>Some None\<close>.  \<open>sort.Strings\<close> is the parameter \<open>sorted_strings\<close>.
\<close>

fun collect_ranges :: "string list \<Rightarrow> string list \<Rightarrow> string list" where
  "collect_ranges seen [] = seen"
| "collect_ranges seen (c # cs) =
     (if CHR '':'' \<in> set c \<or> c \<in> set seen then collect_ranges seen cs
      else collect_ranges (seen @ [c]) cs)"

fun collect_cats ::
  "(string \<Rightarrow> string list option option) \<Rightarrow> string list \<Rightarrow> string list \<Rightarrow> string list option" where
  "collect_cats meta seen [] = Some seen"
| "collect_cats meta seen (cat # cats) =
     (case meta cat of
        None \<Rightarrow> collect_cats meta seen cats
      | Some None \<Rightarrow> None
      | Some (Some l) \<Rightarrow> collect_cats meta (collect_ranges seen l) cats)"

definition meta_CIDRs ::
  "(string list \<Rightarrow> string list) \<Rightarrow> (string \<Rightarrow> string list option option) \<Rightarrow> string list \<Rightarrow> string list option" where
  "meta_CIDRs sorted_strings meta cats = map_option sorted_strings (collect_cats meta [] cats)"

record egressRuleset =
  r_MaxVMs :: int
  r_NetNS :: bool
  r_Table :: string
  r_IfacePrefix :: string
  r_ExtIface :: string
  r_VMCidr :: string
  r_Allowed :: "string list"
  r_DNSServers :: "string list"
  r_CachePort :: int
  r_AllowDNS :: bool
  r_AllowNTP :: bool
  r_Open :: bool

definition nonPublicNets :: "string list" where
  "nonPublicNets =
     [''0.0.0.0/8'', ''10.0.0.0/8'', ''100.64.0.0/10'', ''127.0.0.0/8'', ''169.254.0.0/16'',
      ''172.16.0.0/12'', ''192.0.0.0/24'', ''192.0.2.0/24'', ''192.168.0.0/16'', ''198.18.0.0/15'',
      ''198.51.100.0/24'', ''203.0.113.0/24'', ''224.0.0.0/4'', ''240.0.0.0/4'']"

definition mailPorts :: "nat list" where "mailPorts = [25, 465, 587, 2525]"

section \<open>Rules\<close>

datatype nset = Nonpublic | AllowedSet | DnsSet

datatype nmatch =
    Iif string | SaddrNot string | NotBound | CtEstablished | Saddr string | Daddr string | DaddrIn nset
  | TcpDport int | UdpDport int | TcpDports "nat list" | NotDnat | Oif string

datatype action = Accept | Drop | CountDrop | Masquerade

type_synonym rule = "nmatch list \<times> action"

fun show_nset :: "nset \<Rightarrow> string" where
  "show_nset Nonpublic = ''nonpublic''"
| "show_nset AllowedSet = ''allowed''"
| "show_nset DnsSet = ''dns''"

definition dq :: string where "dq = [CHR 0x22]"
definition nl :: string where "nl = [CHR 0x0A]"
definition tab :: string where "tab = [CHR 0x09]"

definition quoted :: "string \<Rightarrow> string" where "quoted s = dq @ s @ dq"

fun show_match :: "nmatch \<Rightarrow> string" where
  "show_match (Iif p) = ''iifname '' @ quoted (p @ ''*'')"
| "show_match (SaddrNot c) = ''ip saddr != '' @ c"
| "show_match NotBound = ''iifname . ip saddr != @guest_sources''"
| "show_match CtEstablished = ''ct state established,related''"
| "show_match (Saddr c) = ''ip saddr '' @ c"
| "show_match (Daddr c) = ''ip daddr '' @ c"
| "show_match (DaddrIn s) = ''ip daddr @'' @ show_nset s"
| "show_match (TcpDport n) = ''tcp dport '' @ show_int n"
| "show_match (UdpDport n) = ''udp dport '' @ show_int n"
| "show_match (TcpDports ns) = ''tcp dport { '' @ join '', '' (map show_nat ns) @ '' }''"
| "show_match NotDnat = ''ct status & dnat == 0''"
| "show_match (Oif s) = ''oifname '' @ quoted s"

fun show_action :: "action \<Rightarrow> string" where
  "show_action Accept = ''accept''"
| "show_action Drop = ''drop''"
| "show_action CountDrop = ''counter name guest_spoof_drop drop''"
| "show_action Masquerade = ''masquerade''"

definition show_rule :: "rule \<Rightarrow> string" where
  "show_rule r = tab @ tab @ join '' '' (map show_match (fst r) @ [show_action (snd r)]) @ nl"

definition show_rules :: "rule list \<Rightarrow> string" where
  "show_rules rs = concat (map show_rule rs)"

text \<open>The rules that hold in every egress mode.\<close>

definition guestEgressGuards :: "string \<Rightarrow> rule list" where
  "guestEgressGuards vmCidr =
     [([Saddr vmCidr, DaddrIn Nonpublic, NotDnat], Drop),
      ([Saddr vmCidr, TcpDports mailPorts], Drop)]"

definition spoof_rules :: "egressRuleset \<Rightarrow> rule list" where
  "spoof_rules cfg =
     [([Iif (r_IfacePrefix cfg), SaddrNot (r_VMCidr cfg)], Drop),
      ([Iif (r_IfacePrefix cfg), NotBound], CountDrop)]"

definition input_rules :: "egressRuleset \<Rightarrow> rule list" where
  "input_rules cfg =
     spoof_rules cfg
     @ [([Iif (r_IfacePrefix cfg), CtEstablished], Accept)]
     @ (if r_CachePort cfg > 0
        then [([Iif (r_IfacePrefix cfg), Daddr (r_VMCidr cfg), TcpDport (r_CachePort cfg)], Accept)] else [])
     @ [([Iif (r_IfacePrefix cfg)], Drop)]"

definition forward_rules :: "egressRuleset \<Rightarrow> rule list" where
  "forward_rules cfg =
     (if r_IfacePrefix cfg \<noteq> [] then spoof_rules cfg else [])
     @ (if \<not> r_Open cfg
        then [([Saddr (r_VMCidr cfg), CtEstablished], Accept)]
             @ (if r_AllowDNS cfg \<and> r_DNSServers cfg \<noteq> []
                then [([Saddr (r_VMCidr cfg), UdpDport 53, DaddrIn DnsSet], Accept),
                      ([Saddr (r_VMCidr cfg), TcpDport 53, DaddrIn DnsSet], Accept)] else [])
             @ guestEgressGuards (r_VMCidr cfg)
             @ [([Saddr (r_VMCidr cfg), DaddrIn AllowedSet], Accept)]
             @ (if r_AllowNTP cfg then [([Saddr (r_VMCidr cfg), UdpDport 123], Accept)] else [])
             @ [([Saddr (r_VMCidr cfg)], Drop)]
        else ([Saddr (r_VMCidr cfg), Daddr (r_VMCidr cfg)], Drop) # guestEgressGuards (r_VMCidr cfg))"

definition postrouting_rules :: "egressRuleset \<Rightarrow> rule list" where
  "postrouting_rules cfg = [([Saddr (r_VMCidr cfg), Oif (r_ExtIface cfg)], Masquerade)]"

text \<open>The interfaces of the pool's slots with the one source address each may use.\<close>

definition pool_size :: "egressRuleset \<Rightarrow> nat" where
  "pool_size cfg = (if r_MaxVMs cfg \<le> 0 then 256 else nat (r_MaxVMs cfg))"

definition slot_iface :: "egressRuleset \<Rightarrow> nat \<Rightarrow> nat \<Rightarrow> string" where
  "slot_iface cfg base slot =
     (let n = slotNet slot (r_IfacePrefix cfg) base
      in if r_NetNS cfg then ns_hostVeth (slotNetNS n base (r_IfacePrefix cfg)) else n_tap n)"

definition guest_sources :: "egressRuleset \<Rightarrow> (string \<times> string) list" where
  "guest_sources cfg =
     (case parse_prefix4 (r_VMCidr cfg) of
        Some (os, bits) \<Rightarrow>
          if bits = 16 \<and> pool_size cfg \<le> 256
          then map (\<lambda>slot. (slot_iface cfg (os ! 1) slot, n_guestIP (slotNet slot (r_IfacePrefix cfg) (os ! 1))))
                 [0..<pool_size cfg]
          else []
      | None \<Rightarrow> [])"

section \<open>The ruleset\<close>

definition binding_valid :: "egressRuleset \<Rightarrow> bool" where
  "binding_valid cfg \<longleftrightarrow>
     (case parse_prefix4 (r_VMCidr cfg) of
        Some (os, bits) \<Rightarrow>
          bits = 16 \<and> os ! 2 = 0 \<and> os ! 3 = 0 \<and> os ! 0 = 172 \<and> 0 \<le> r_MaxVMs cfg \<and> r_MaxVMs cfg \<le> 256
      | None \<Rightarrow> False)"

definition elements :: "string list \<Rightarrow> string" where
  "elements xs = tab @ tab @ ''elements = { '' @ join '', '' xs @ '' }'' @ nl"

definition show_chain :: "string \<Rightarrow> string \<Rightarrow> string \<Rightarrow> string" where
  "show_chain name head body =
     tab @ ''chain '' @ name @ '' {'' @ nl @ tab @ tab @ head @ nl @ body @ tab @ ''}'' @ nl"

definition filter_head :: "string \<Rightarrow> string" where
  "filter_head hook = ''type filter hook '' @ hook @ '' priority 0; policy accept;''"

text \<open>A valid binding has a pool of at most 256 slots, so the elements are always printed.\<close>

definition show_sources :: "egressRuleset \<Rightarrow> string" where
  "show_sources cfg =
     tab @ ''counter guest_spoof_drop { }'' @ nl @ tab @ ''set guest_sources {'' @ nl
     @ tab @ tab @ ''type ifname . ipv4_addr'' @ nl
     @ elements (map (\<lambda>(i, a). quoted i @ '' . '' @ a) (guest_sources cfg))
     @ tab @ ''}'' @ nl"

definition show_sets :: "egressRuleset \<Rightarrow> string" where
  "show_sets cfg =
     tab @ ''set nonpublic {'' @ nl @ tab @ tab @ ''type ipv4_addr'' @ nl @ tab @ tab @ ''flags interval'' @ nl
     @ elements nonPublicNets @ tab @ ''}'' @ nl
     @ (if r_Open cfg then []
        else tab @ ''set allowed {'' @ nl @ tab @ tab @ ''type ipv4_addr'' @ nl
             @ tab @ tab @ ''flags interval'' @ nl @ tab @ tab @ ''auto-merge'' @ nl
             @ (if r_Allowed cfg \<noteq> [] then elements (r_Allowed cfg) else [])
             @ tab @ ''}'' @ nl
             @ (if r_AllowDNS cfg \<and> r_DNSServers cfg \<noteq> []
                then tab @ ''set dns {'' @ nl @ tab @ tab @ ''type ipv4_addr'' @ nl
                     @ elements (r_DNSServers cfg) @ tab @ ''}'' @ nl
                else []))"

definition show_ip6 :: "string \<Rightarrow> string \<Rightarrow> string" where
  "show_ip6 table pre =
     (let r = show_rule ([Iif pre], Drop)
      in ''add table ip6 '' @ table @ nl @ ''delete table ip6 '' @ table @ nl @ ''table ip6 '' @ table @ '' {'' @ nl
         @ show_chain ''input'' (filter_head ''input'') r
         @ show_chain ''forward'' (filter_head ''forward'') r
         @ ''}'' @ nl)"

definition buildNFTRuleset :: "egressRuleset \<Rightarrow> string option" where
  "buildNFTRuleset cfg =
     (let guarded = (r_IfacePrefix cfg \<noteq> []);
          table = (if r_Table cfg = [] then natTable else r_Table cfg)
      in if guarded \<and> \<not> binding_valid cfg then None
         else Some
           (''add table ip '' @ table @ nl @ ''delete table ip '' @ table @ nl @ ''table ip '' @ table @ '' {'' @ nl
            @ (if guarded then show_sources cfg else [])
            @ show_sets cfg
            @ (if guarded then show_chain ''input'' (filter_head ''input'') (show_rules (input_rules cfg)) else [])
            @ show_chain ''forward'' (filter_head ''forward'') (show_rules (forward_rules cfg))
            @ show_chain ''postrouting'' ''type nat hook postrouting priority srcnat; policy accept;''
                (show_rules (postrouting_rules cfg))
            @ ''}'' @ nl
            @ (if guarded then show_ip6 table (r_IfacePrefix cfg) else [])))"

section \<open>What the rules mean\<close>

datatype proto = TCP | UDP | OtherProto

record packet =
  p_iif :: string
  p_oif :: string
  p_saddr :: ip4
  p_daddr :: ip4
  p_proto :: proto
  p_dport :: nat
  p_established :: bool
  p_dnat :: bool

definition bound_source :: "egressRuleset \<Rightarrow> packet \<Rightarrow> bool" where
  "bound_source cfg p \<longleftrightarrow> list_ex (\<lambda>(i, a). i = p_iif p \<and> is_addr a (p_saddr p)) (guest_sources cfg)"

definition in_nset :: "egressRuleset \<Rightarrow> nset \<Rightarrow> ip4 \<Rightarrow> bool" where
  "in_nset cfg s a =
     (case s of
        Nonpublic \<Rightarrow> list_ex (\<lambda>c. in_cidr c a) nonPublicNets
      | AllowedSet \<Rightarrow> list_ex (\<lambda>c. in_cidr c a) (r_Allowed cfg)
      | DnsSet \<Rightarrow> list_ex (\<lambda>c. is_addr c a) (r_DNSServers cfg))"

fun matches :: "egressRuleset \<Rightarrow> packet \<Rightarrow> nmatch \<Rightarrow> bool" where
  "matches cfg p (Iif pre) = has_prefix (p_iif p) pre"
| "matches cfg p (SaddrNot c) = (\<not> in_cidr c (p_saddr p))"
| "matches cfg p NotBound = (\<not> bound_source cfg p)"
| "matches cfg p CtEstablished = p_established p"
| "matches cfg p (Saddr c) = in_cidr c (p_saddr p)"
| "matches cfg p (Daddr c) = in_cidr c (p_daddr p)"
| "matches cfg p (DaddrIn s) = in_nset cfg s (p_daddr p)"
| "matches cfg p (TcpDport n) = (p_proto p = TCP \<and> int (p_dport p) = n)"
| "matches cfg p (UdpDport n) = (p_proto p = UDP \<and> int (p_dport p) = n)"
| "matches cfg p (TcpDports ns) = (p_proto p = TCP \<and> p_dport p \<in> set ns)"
| "matches cfg p NotDnat = (\<not> p_dnat p)"
| "matches cfg p (Oif s) = (p_oif p = s)"

fun verdict :: "egressRuleset \<Rightarrow> packet \<Rightarrow> rule list \<Rightarrow> bool" where
  "verdict cfg p [] = True"
| "verdict cfg p ((ms, a) # rs) =
     (if list_all (matches cfg p) ms then a \<noteq> Drop \<and> a \<noteq> CountDrop else verdict cfg p rs)"

end
