(* ===== verification/Firecracker.thy ===== *)
theory Firecracker
  imports Egress
begin

text \<open>
  The direct-Firecracker provisioner (\<open>internal/provisioner/firecracker.go\<close>): one microVM from the
  slot to the teardown, the host firewall rules outside firerunner's own table, the console scanner
  and the connect watchdog.

  What the host does is a \<open>host\<close>: given the actions performed so far and the next one, whether it
  succeeds.  A function that acts on the host takes the log of actions and returns it extended, so
  that order and cleanup can be read off it.  The clock readings that are only logged are left out,
  and \<open>filepath.Join\<close> is taken on clean paths.
\<close>

section \<open>Configuration\<close>

record FirecrackerConfig =
  f_hasJobs :: bool
  f_Binary :: string
  f_KernelImage :: string
  f_GoldenRootFS :: string
  f_BootArgs :: string
  f_WorkDir :: string
  f_TapPrefix :: string
  f_NetBase :: nat
  f_NFTTable :: string
  f_ExtIface :: string
  f_Egress :: EgressConfig
  f_LogDir :: string
  f_MaxVMs :: int
  f_Jailer :: bool
  f_JailerBin :: string
  f_ChrootBase :: string
  f_JailUID :: int
  f_JailGID :: int
  f_CgroupLimits :: "string list"
  f_NetNS :: bool
  f_ToolCacheImage :: string
  f_CachePort :: int
  f_CacheURL :: string
  f_MaxVMLifetime :: duration
  f_ConnectTimeout :: duration

record RunnerSpec =
  rs_VCPU :: int
  rs_MemMiB :: int
  rs_RootFS :: string
  rs_ToolCache :: string

definition DefaultBootArgs :: string where
  "DefaultBootArgs =
     ''console=ttyS0 reboot=k panic=1 pci=off i8042.noaux i8042.nomux i8042.nopnp i8042.dumbkbd''"

definition or_default :: "string \<Rightarrow> string \<Rightarrow> string" where
  "or_default s d = (if s = [] then d else s)"

definition with_defaults :: "FirecrackerConfig \<Rightarrow> FirecrackerConfig" where
  "with_defaults cfg =
     cfg\<lparr>f_Binary := or_default (f_Binary cfg) ''firecracker'',
         f_BootArgs := or_default (f_BootArgs cfg) DefaultBootArgs,
         f_WorkDir := or_default (f_WorkDir cfg) ''/var/tmp/firerunner'',
         f_TapPrefix := or_default (f_TapPrefix cfg) ''fr'',
         f_NetBase := (if f_NetBase cfg = 0 then 16 else f_NetBase cfg),
         f_NFTTable := or_default (f_NFTTable cfg) natTable,
         f_JailerBin := or_default (f_JailerBin cfg) ''jailer'',
         f_ChrootBase := or_default (f_ChrootBase cfg) ''/srv/jailer'',
         f_MaxVMs := (if f_MaxVMs cfg < 1 then 64 else f_MaxVMs cfg)\<rparr>"

definition NewFirecracker :: "FirecrackerConfig \<Rightarrow> FirecrackerConfig \<times> ipam" where
  "NewFirecracker cfg = (let cfg = with_defaults cfg in (cfg, newIPAM (nat (f_MaxVMs cfg))))"

section \<open>The host\<close>

datatype host_act =
    Run "string list"
  | RunOut "string list"
  | Register string string
  | ReleaseJob string
  | SetupNetworkOnce
  | MkdirAll string
  | WriteFile string string
  | Chown string
  | RemoveAll string
  | RemoveDir string
  | OpenConsole string
  | CloseConsole
  | StartVMM "string list"
  | WaitForSocket string
  | PutAPI string
  | KillVMM
  | ReapVMM
  | ReleaseSlot nat

type_synonym log = "host_act list"
type_synonym host = "log \<Rightarrow> host_act \<Rightarrow> bool"

text \<open>Perform one action; perform it without looking at the outcome; perform actions until one fails.\<close>

definition act :: "host \<Rightarrow> host_act \<Rightarrow> log \<Rightarrow> bool \<times> log" where
  "act h a l = (h l a, l @ [a])"

definition note_act :: "host_act \<Rightarrow> log \<Rightarrow> log" where
  "note_act a l = l @ [a]"

fun acts :: "host \<Rightarrow> host_act list \<Rightarrow> log \<Rightarrow> bool \<times> log" where
  "acts h [] l = (True, l)"
| "acts h (a # as) l = (case act h a l of (False, l) \<Rightarrow> (False, l) | (True, l) \<Rightarrow> acts h as l)"

definition path_join :: "string list \<Rightarrow> string" where
  "path_join ps = join ''/'' (filter (\<lambda>p. p \<noteq> []) ps)"

section \<open>Per-VM networking\<close>

definition setup_commands :: "FirecrackerConfig \<Rightarrow> vmNet \<Rightarrow> string list list" where
  "setup_commands cfg n =
     (if f_NetNS cfg
      then netnsUpCommands n (slotNetNS n (f_NetBase cfg) (f_TapPrefix cfg)) (f_JailUID cfg) (f_JailGID cfg)
      else tapUpCommands n)"

definition setupNet :: "host \<Rightarrow> FirecrackerConfig \<Rightarrow> vmNet \<Rightarrow> log \<Rightarrow> bool \<times> log" where
  "setupNet h cfg n l = acts h (map Run (setup_commands cfg n)) l"

definition teardownNet :: "host \<Rightarrow> FirecrackerConfig \<Rightarrow> vmNet \<Rightarrow> log \<Rightarrow> bool \<times> log" where
  "teardownNet h cfg n l =
     (if f_NetNS cfg
      then let s = slotNetNS n (f_NetBase cfg) (f_TapPrefix cfg);
               (ok, l) = act h (Run [''ip'', ''netns'', ''del'', ns_ns s]) l;
               l = note_act (Run [''ip'', ''link'', ''del'', ns_hostVeth s]) l;
               l = note_act (Run [''ip'', ''route'', ''del'', n_guestIP n @ ''/32'']) l
           in (ok, l)
      else acts h (map Run (tapDownCommands (n_tap n))) l)"

section \<open>The Firecracker API\<close>

datatype json = JStr string | JInt int | JBool bool | JArr "json list" | JObj "(string \<times> json) list"

type_synonym apiStep = "string \<times> json"

definition cacheMMDS :: "FirecrackerConfig \<Rightarrow> (string \<times> json) list" where
  "cacheMMDS cfg =
     (if f_CacheURL cfg \<noteq> [] then [(''url'', JStr (f_CacheURL cfg))]
      else if f_CachePort cfg \<noteq> 0 then [(''port'', JStr (show_int (f_CachePort cfg)))]
      else [])"

definition buildAPISteps ::
  "string \<Rightarrow> string \<Rightarrow> string \<Rightarrow> string \<Rightarrow> string \<Rightarrow> string \<Rightarrow> string \<Rightarrow> (string \<times> json) list \<Rightarrow> RunnerSpec
     \<Rightarrow> apiStep list" where
  "buildAPISteps kernelImage bootArgs rootfs toolcache tap guestMAC jit cache spec =
     [(''/boot-source'', JObj [(''kernel_image_path'', JStr kernelImage), (''boot_args'', JStr bootArgs)]),
      (''/drives/rootfs'', JObj [(''drive_id'', JStr ''rootfs''), (''path_on_host'', JStr rootfs),
                                (''is_root_device'', JBool True), (''is_read_only'', JBool False)])]
     @ (if toolcache \<noteq> []
        then [(''/drives/toolcache'', JObj [(''drive_id'', JStr ''toolcache''), (''path_on_host'', JStr toolcache),
                                (''is_root_device'', JBool False), (''is_read_only'', JBool True)])] else [])
     @ [(''/machine-config'', JObj [(''vcpu_count'', JInt (rs_VCPU spec)), (''mem_size_mib'', JInt (rs_MemMiB spec))]),
        (''/network-interfaces/eth0'', JObj [(''iface_id'', JStr ''eth0''), (''host_dev_name'', JStr tap),
                                (''guest_mac'', JStr guestMAC)]),
        (''/mmds/config'', JObj [(''version'', JStr ''V2''), (''network_interfaces'', JArr [JStr ''eth0'']),
                                (''ipv4_address'', JStr ''169.254.169.254'')]),
        (''/mmds'', JObj ((''jitconfig'', JStr jit) # (if cache \<noteq> [] then [(''cache'', JObj cache)] else []))),
        (''/actions'', JObj [(''action_type'', JStr ''InstanceStart'')])]"

definition toolCacheImage :: "FirecrackerConfig \<Rightarrow> RunnerSpec \<Rightarrow> string" where
  "toolCacheImage cfg spec = (if rs_ToolCache spec \<noteq> [] then rs_ToolCache spec else f_ToolCacheImage cfg)"

definition fcToolCachePath :: "FirecrackerConfig \<Rightarrow> RunnerSpec \<Rightarrow> string" where
  "fcToolCachePath cfg spec =
     (let img = toolCacheImage cfg spec
      in if img = [] then [] else if f_Jailer cfg then ''/toolcache.ext4'' else img)"

definition configure ::
  "host \<Rightarrow> FirecrackerConfig \<Rightarrow> string \<Rightarrow> string \<Rightarrow> string \<Rightarrow> vmNet \<Rightarrow> string \<Rightarrow> string \<Rightarrow> RunnerSpec \<Rightarrow> log
     \<Rightarrow> bool \<times> log" where
  "configure h cfg kernelPath rootfs toolcache n bootArgs jit spec l =
     acts h (map (PutAPI \<circ> fst)
        (buildAPISteps kernelPath bootArgs rootfs toolcache (n_tap n) (n_guestMAC n) jit (cacheMMDS cfg) spec)) l"

section \<open>Staging the VMM\<close>

definition jailChrootRoot :: "string \<Rightarrow> string \<Rightarrow> string" where
  "jailChrootRoot base ident = path_join [base, ''firecracker'', ident, ''root'']"

definition cgroupV2Mount :: string where "cgroupV2Mount = ''/sys/fs/cgroup''"

definition base_name :: "string \<Rightarrow> string" where
  "base_name p = last (split_on CHR ''/'' p)"

definition jailCgroupDir :: "string \<Rightarrow> string \<Rightarrow> string" where
  "jailCgroupDir binary ident = path_join [cgroupV2Mount, base_name binary, ident]"

definition buildJailerArgs :: "FirecrackerConfig \<Rightarrow> string \<Rightarrow> string \<Rightarrow> string list" where
  "buildJailerArgs cfg ident nsPath =
     [''--id'', ident, ''--exec-file'', f_Binary cfg, ''--uid'', show_int (f_JailUID cfg),
      ''--gid'', show_int (f_JailGID cfg), ''--cgroup-version'', ''2'',
      ''--chroot-base-dir'', f_ChrootBase cfg, ''--new-pid-ns'']
     @ (if nsPath \<noteq> [] then [''--netns'', nsPath] else [])
     @ concat (map (\<lambda>c. [''--cgroup'', c]) (f_CgroupLimits cfg))"

definition reflink :: "string \<Rightarrow> string \<Rightarrow> host_act" where
  "reflink from to = Run [''cp'', ''--reflink=auto'', from, to]"

record prepared =
  pr_argv :: "string list"
  pr_sock :: string
  pr_kernel :: string
  pr_rootfs :: string

text \<open>The directories the \<open>cleanup\<close> that \<open>prepare\<close> returns removes.\<close>

definition cleanup :: "FirecrackerConfig \<Rightarrow> string \<Rightarrow> log \<Rightarrow> log" where
  "cleanup cfg name l =
     (if f_Jailer cfg
      then let l = note_act (RemoveAll (path_join [f_ChrootBase cfg, ''firecracker'', name])) l
           in if f_CgroupLimits cfg \<noteq> [] then note_act (RemoveDir (jailCgroupDir (f_Binary cfg) name)) l else l
      else note_act (RemoveAll (path_join [f_WorkDir cfg, name])) l)"

definition prepare ::
  "host \<Rightarrow> FirecrackerConfig \<Rightarrow> string \<Rightarrow> vmNet \<Rightarrow> RunnerSpec \<Rightarrow> log \<Rightarrow> prepared option \<times> log" where
  "prepare h cfg name vnet spec l =
     (if f_Jailer cfg
      then let root = jailChrootRoot (f_ChrootBase cfg) name;
               kernel = path_join [root, ''vmlinux''];
               rootfs = path_join [root, ''rootfs.ext4''];
               img = toolCacheImage cfg spec;
               tc = path_join [root, ''toolcache.ext4'']
           in case act h (MkdirAll root) l of
                (False, l) \<Rightarrow> (None, l)
              | (True, l) \<Rightarrow>
                  (case acts h ([reflink (f_KernelImage cfg) kernel, reflink (rs_RootFS spec) rootfs,
                                 Chown kernel, Chown rootfs]
                                @ (if img \<noteq> [] then [reflink img tc, Chown tc] else [])) l of
                     (False, l) \<Rightarrow> (None, cleanup cfg name l)
                   | (True, l) \<Rightarrow>
                       let nsPath = (if f_NetNS cfg
                                     then ns_nsPath (slotNetNS vnet (f_NetBase cfg) (f_TapPrefix cfg)) else [])
                       in (Some \<lparr>pr_argv = f_JailerBin cfg # buildJailerArgs cfg name nsPath,
                                 pr_sock = path_join [root, ''run'', ''firecracker.socket''],
                                 pr_kernel = ''/vmlinux'', pr_rootfs = ''/rootfs.ext4''\<rparr>, l))
      else let jobDir = path_join [f_WorkDir cfg, name];
               rootfs = path_join [jobDir, ''rootfs.ext4''];
               sock = path_join [jobDir, ''fc.sock'']
           in case act h (MkdirAll jobDir) l of
                (False, l) \<Rightarrow> (None, l)
              | (True, l) \<Rightarrow>
                  (case act h (reflink (rs_RootFS spec) rootfs) l of
                     (False, l) \<Rightarrow> (None, cleanup cfg name l)
                   | (True, l) \<Rightarrow>
                       (Some \<lparr>pr_argv = [f_Binary cfg, ''--api-sock'', sock, ''--id'', name], pr_sock = sock,
                              pr_kernel = f_KernelImage cfg, pr_rootfs = rootfs\<rparr>, l)))"

section \<open>The end of a microVM\<close>

datatype wait_error = ExitError | WaitFailed

datatype launch_error =
    NoFreeSlot | RegisterFailed | NetworkFailed | ConsoleFailed | PrepareFailed | StartFailed
  | SocketTimeout | ConfigureFailed | NeverConnected | BootFailed | WaitError

definition minBootRuntime :: duration where "minBootRuntime = 3 * second"

text \<open>None is a nil error; a failed boot and an error of \<open>Wait\<close> itself are kept apart.\<close>

definition classifyLaunchExit ::
  "wait_error option \<Rightarrow> bool \<Rightarrow> duration \<Rightarrow> duration \<Rightarrow> launch_error option" where
  "classifyLaunchExit waitErr ctxErr ranFor minRuntime =
     (case waitErr of
        None \<Rightarrow> None
      | Some e \<Rightarrow>
          if ctxErr then None
          else (case e of
                  ExitError \<Rightarrow> if ranFor \<ge> minRuntime then None else Some BootFailed
                | WaitFailed \<Rightarrow> Some WaitError))"

text \<open>How the VMM's run ended: the inputs of \<open>Launch\<close>'s decision once \<open>cmd.Wait\<close> has returned.\<close>

record vm_end =
  e_wait :: "wait_error option"
  e_ctxErr :: bool
  e_ranFor :: duration
  e_connectKilled :: bool
  e_lifetimeKilled :: bool

definition launch_result :: "vm_end \<Rightarrow> launch_error option" where
  "launch_result e =
     (if e_connectKilled e then Some NeverConnected
      else if e_lifetimeKilled e then None
      else classifyLaunchExit (e_wait e) (e_ctxErr e) (e_ranFor e) minBootRuntime)"

section \<open>Launch\<close>

text \<open>From \<open>cmd.Start\<close> to the VMM's exit; a VMM that cannot be configured is killed and reaped.\<close>

definition run_vmm ::
  "host \<Rightarrow> FirecrackerConfig \<Rightarrow> vmNet \<Rightarrow> string \<Rightarrow> RunnerSpec \<Rightarrow> vm_end \<Rightarrow> prepared \<Rightarrow> log
     \<Rightarrow> launch_error option \<times> log" where
  "run_vmm h cfg vnet jit spec e pr l =
     (case act h (StartVMM (pr_argv pr)) l of
        (False, l) \<Rightarrow> (Some StartFailed, l)
      | (True, l) \<Rightarrow>
          (case act h (WaitForSocket (pr_sock pr)) l of
             (False, l) \<Rightarrow> (Some SocketTimeout, note_act ReapVMM (note_act KillVMM l))
           | (True, l) \<Rightarrow>
               (case configure h cfg (pr_kernel pr) (pr_rootfs pr) (fcToolCachePath cfg spec) vnet
                       (composeBootArgs (f_BootArgs cfg) vnet) jit spec l of
                  (False, l) \<Rightarrow> (Some ConfigureFailed, note_act ReapVMM (note_act KillVMM l))
                | (True, l) \<Rightarrow>
                    (launch_result e,
                     note_act ReapVMM (if e_connectKilled e \<or> e_lifetimeKilled e then note_act KillVMM l else l)))))"

text \<open>What runs between a successful \<open>setupNet\<close> and its deferred \<open>teardownNet\<close>.\<close>

definition run_console ::
  "host \<Rightarrow> FirecrackerConfig \<Rightarrow> string \<Rightarrow> vmNet \<Rightarrow> string \<Rightarrow> RunnerSpec \<Rightarrow> vm_end \<Rightarrow> log
     \<Rightarrow> launch_error option \<times> log" where
  "run_console h cfg name vnet jit spec e l =
     (case act h (OpenConsole name) l of
        (False, l) \<Rightarrow> (Some ConsoleFailed, l)
      | (True, l) \<Rightarrow>
          (case prepare h cfg name vnet spec l of
             (None, l) \<Rightarrow> (Some PrepareFailed, note_act CloseConsole l)
           | (Some pr, l) \<Rightarrow>
               (case run_vmm h cfg vnet jit spec e pr l of
                  (res, l) \<Rightarrow> (res, note_act CloseConsole (cleanup cfg name l)))))"

definition run_net ::
  "host \<Rightarrow> FirecrackerConfig \<Rightarrow> string \<Rightarrow> vmNet \<Rightarrow> string \<Rightarrow> RunnerSpec \<Rightarrow> vm_end \<Rightarrow> log
     \<Rightarrow> launch_error option \<times> log" where
  "run_net h cfg name vnet jit spec e l =
     (case act h SetupNetworkOnce l of
        (False, l) \<Rightarrow> (Some NetworkFailed, l)
      | (True, l) \<Rightarrow>
          (case setupNet h cfg vnet l of
             (False, l) \<Rightarrow> (Some NetworkFailed, l)
           | (True, l) \<Rightarrow>
               (case run_console h cfg name vnet jit spec e l of
                  (res, l) \<Rightarrow> (res, snd (teardownNet h cfg vnet l)))))"

text \<open>The deferred give-back of the slot: kept for good when the VM's identity cannot be revoked.\<close>

definition give_back :: "host \<Rightarrow> string \<Rightarrow> nat \<Rightarrow> bool \<Rightarrow> ipam \<Rightarrow> log \<Rightarrow> ipam \<times> log" where
  "give_back h name slot registered pool l =
     (if registered
      then (case act h (ReleaseJob name) l of
              (False, l) \<Rightarrow> (pool, l)
            | (True, l) \<Rightarrow> (release slot pool, note_act (ReleaseSlot slot) l))
      else (release slot pool, note_act (ReleaseSlot slot) l))"

definition Launch ::
  "host \<Rightarrow> FirecrackerConfig \<Rightarrow> ipam \<Rightarrow> string \<Rightarrow> string \<Rightarrow> RunnerSpec \<Rightarrow> vm_end
     \<Rightarrow> launch_error option \<times> ipam \<times> log" where
  "Launch h cfg pool name jit spec e =
     (case acquire pool of
        (None, pool) \<Rightarrow> (Some NoFreeSlot, pool, [])
      | (Some slot, pool) \<Rightarrow>
          let vnet = slotNet slot (f_TapPrefix cfg) (f_NetBase cfg)
          in (case (if f_hasJobs cfg then act h (Register name (n_guestIP vnet)) [] else (True, [])) of
                (False, l) \<Rightarrow> (Some RegisterFailed, give_back h name slot False pool l)
              | (True, l) \<Rightarrow>
                  (case run_net h cfg name vnet jit spec e l of
                     (res, l) \<Rightarrow> (res, give_back h name slot (f_hasJobs cfg) pool l))))"

section \<open>Leftovers of a previous run\<close>

definition CleanupStale ::
  "host \<Rightarrow> FirecrackerConfig \<Rightarrow> (string \<Rightarrow> bool) \<Rightarrow> string list \<Rightarrow> string list \<Rightarrow> (string \<times> bool) list \<Rightarrow> log \<Rightarrow> log" where
  "CleanupStale h cfg present jobDirs jails cgroups l =
     (let l = fold (\<lambda>slot l.
                let vnet = slotNet slot (f_TapPrefix cfg) (f_NetBase cfg);
                    there = (if f_NetNS cfg
                             then present (ns_nsPath (slotNetNS vnet (f_NetBase cfg) (f_TapPrefix cfg)))
                             else present (n_tap vnet))
                in if there then snd (teardownNet h cfg vnet l) else l) [0..<nat (f_MaxVMs cfg)] l;
          l = fold (\<lambda>d. note_act (RemoveAll d)) jobDirs l;
          l = (if f_Jailer cfg then fold (\<lambda>d. note_act (RemoveAll d)) jails l else l)
      in if f_Jailer cfg \<and> f_CgroupLimits cfg \<noteq> []
         then fold (\<lambda>(d, isDir) l. if isDir then note_act (RemoveDir d) l else l) cgroups l else l)"

end
