(* ===== verification/Firecracker_Host.thy ===== *)
theory Firecracker_Host
  imports Firecracker
begin

text \<open>
  The rest of \<open>internal/provisioner/firecracker.go\<close>: applying the egress policy, the accept rules in the
  host's own filter chains, the scanner of the guest console and the connect watchdog.

  The output of \<open>nft list\<close> is a parameter: \<open>listing l c\<close> is what command \<open>c\<close> prints after the actions
  \<open>l\<close>, None when it fails.
\<close>

type_synonym listing = "log \<Rightarrow> string list \<Rightarrow> string option"

section \<open>Accept rules in the host's chains\<close>

definition forwardComment :: "string \<Rightarrow> string" where
  "forwardComment tapPrefix = ''firerunner-egress-'' @ tapPrefix"

definition hostForwardScript :: "string \<Rightarrow> string \<Rightarrow> string" where
  "hostForwardScript extIface tapPrefix =
     (let tap = tapPrefix @ ''*''; comment = forwardComment tapPrefix
      in ''insert rule ip filter FORWARD iifname '' @ quoted extIface @ '' oifname '' @ quoted tap
         @ '' ct state established,related counter accept comment '' @ quoted comment @ nl
         @ ''insert rule ip filter FORWARD iifname '' @ quoted tap @ '' oifname '' @ quoted extIface
         @ '' counter accept comment '' @ quoted comment @ nl)"

definition ensureHostForward :: "host \<Rightarrow> listing \<Rightarrow> FirecrackerConfig \<Rightarrow> log \<Rightarrow> bool \<times> log" where
  "ensureHostForward h out cfg l =
     (let c = [''nft'', ''list'', ''chain'', ''ip'', ''filter'', ''FORWARD'']
      in case out l c of
           None \<Rightarrow> (True, l @ [RunOut c])
         | Some txt \<Rightarrow>
             let l = l @ [RunOut c];
                 path = path_join [f_WorkDir cfg, ''firerunner-forward.nft'']
             in if contains txt (forwardComment (f_TapPrefix cfg)) then (True, l)
                else if \<not> contains txt ''policy drop'' then (True, l)
                else acts h [WriteFile path (hostForwardScript (f_ExtIface cfg) (f_TapPrefix cfg)),
                             Run [''nft'', ''-f'', path]] l)"

definition cacheInputComment :: "string \<Rightarrow> int \<Rightarrow> string" where
  "cacheInputComment tapPrefix port = ''firerunner-cache-'' @ tapPrefix @ ''-'' @ show_int port"

definition cacheInputCommentPrefix :: "string \<Rightarrow> string" where
  "cacheInputCommentPrefix tapPrefix = ''firerunner-cache-'' @ tapPrefix @ ''-''"

definition cacheInputScript :: "string \<Rightarrow> int \<Rightarrow> string" where
  "cacheInputScript tapPrefix port =
     ''insert rule ip filter INPUT iifname '' @ quoted (tapPrefix @ ''*'') @ '' tcp dport '' @ show_int port
     @ '' ct state new,established,related counter accept comment ''
     @ quoted (cacheInputComment tapPrefix port) @ nl"

text \<open>What follows the last occurrence of a marker.\<close>

fun after_last :: "string \<Rightarrow> string \<Rightarrow> string option" where
  "after_last m [] = (if m = [] then Some [] else None)"
| "after_last m (c # cs) =
     (case after_last m cs of
        Some r \<Rightarrow> Some r
      | None \<Rightarrow> if prefix m (c # cs) then Some (drop (length m) (c # cs)) else None)"

definition parseNFTHandle :: "string \<Rightarrow> string" where
  "parseNFTHandle line =
     (case after_last ''# handle '' line of None \<Rightarrow> [] | Some r \<Rightarrow> trim_space r)"

definition stale_line :: "FirecrackerConfig \<Rightarrow> string \<Rightarrow> bool" where
  "stale_line cfg line \<longleftrightarrow>
     (contains line (cacheInputCommentPrefix (f_TapPrefix cfg)) \<and>
      \<not> contains line (cacheInputComment (f_TapPrefix cfg) (f_CachePort cfg))) \<or>
     contains line (quoted (''firerunner-cache-'' @ f_TapPrefix cfg))"

fun remove_lines :: "host \<Rightarrow> FirecrackerConfig \<Rightarrow> string list \<Rightarrow> log \<Rightarrow> bool \<times> log" where
  "remove_lines h cfg [] l = (True, l)"
| "remove_lines h cfg (line # ls) l =
     (if \<not> stale_line cfg line \<or> parseNFTHandle line = [] then remove_lines h cfg ls l
      else (case act h (Run [''nft'', ''delete'', ''rule'', ''ip'', ''filter'', ''INPUT'', ''handle'',
                             parseNFTHandle line]) l of
              (False, l) \<Rightarrow> (False, l)
            | (True, l) \<Rightarrow> remove_lines h cfg ls l))"

definition removeStaleCacheInput :: "host \<Rightarrow> FirecrackerConfig \<Rightarrow> string \<Rightarrow> log \<Rightarrow> bool \<times> log" where
  "removeStaleCacheInput h cfg txt l = remove_lines h cfg (split_on (CHR 0x0A) txt) l"

definition ensureHostCacheInput :: "host \<Rightarrow> listing \<Rightarrow> FirecrackerConfig \<Rightarrow> log \<Rightarrow> bool \<times> log" where
  "ensureHostCacheInput h out cfg l =
     (if f_CachePort cfg = 0 then (True, l)
      else let c = [''nft'', ''-a'', ''list'', ''chain'', ''ip'', ''filter'', ''INPUT'']
           in case out l c of
                None \<Rightarrow> (True, l @ [RunOut c])
              | Some txt \<Rightarrow>
                  (case removeStaleCacheInput h cfg txt (l @ [RunOut c]) of
                     (False, l) \<Rightarrow> (False, l)
                   | (True, l) \<Rightarrow>
                       let path = path_join [f_WorkDir cfg, ''firerunner-cache-input.nft'']
                       in if contains txt (cacheInputComment (f_TapPrefix cfg) (f_CachePort cfg)) then (True, l)
                          else if \<not> contains txt ''policy drop'' then (True, l)
                          else acts h [WriteFile path (cacheInputScript (f_TapPrefix cfg) (f_CachePort cfg)),
                                       Run [''nft'', ''-f'', path]] l))"

section \<open>Applying the egress policy\<close>

definition ruleset_of :: "FirecrackerConfig \<Rightarrow> string list \<Rightarrow> egressRuleset" where
  "ruleset_of cfg allowed =
     \<lparr> r_MaxVMs = f_MaxVMs cfg, r_NetNS = f_NetNS cfg, r_Table = f_NFTTable cfg,
       r_IfacePrefix = f_TapPrefix cfg, r_ExtIface = f_ExtIface cfg, r_VMCidr = vmCIDRFor (f_NetBase cfg),
       r_Allowed = allowed, r_DNSServers = e_DNSServers (f_Egress cfg), r_CachePort = f_CachePort cfg,
       r_AllowDNS = egress_has (f_Egress cfg) ''dns'', r_AllowNTP = egress_has (f_Egress cfg) ''ntp'',
       r_Open = egress_open (f_Egress cfg) \<rparr>"

text \<open>\<open>fetch\<close> is \<open>fetchMetaCIDRs\<close> on GitHub's answer: the ranges for the categories, None on an error.\<close>

definition applyNetwork ::
  "host \<Rightarrow> listing \<Rightarrow> (string list \<Rightarrow> string list option) \<Rightarrow> FirecrackerConfig \<Rightarrow> log \<Rightarrow> bool \<times> log" where
  "applyNetwork h out fetch cfg l =
     (if f_ExtIface cfg = [] then (False, l)
      else case (if egress_open (f_Egress cfg) then Some [] else fetch (metaCats (f_Egress cfg))) of
        None \<Rightarrow> (False, l)
      | Some cidrs \<Rightarrow>
          (case buildNFTRuleset (ruleset_of cfg cidrs) of
             None \<Rightarrow> (False, l)
           | Some rules \<Rightarrow>
               let path = path_join [f_WorkDir cfg, ''firerunner.nft'']
               in (case acts h [Run [''sysctl'', ''-w'', ''net.ipv4.ip_forward=1''], MkdirAll (f_WorkDir cfg),
                                WriteFile path rules, Run [''nft'', ''-f'', path]] l of
                     (False, l) \<Rightarrow> (False, l)
                   | (True, l) \<Rightarrow>
                       (case ensureHostForward h out cfg l of
                          (False, l) \<Rightarrow> (False, l)
                        | (True, l) \<Rightarrow> ensureHostCacheInput h out cfg l))))"

section \<open>Scanning the console\<close>

record markerDetector =
  d_markers :: "string list"
  d_fired :: bool
  d_tail :: string
  d_keep :: nat

definition newMarkerDetector :: "string list \<Rightarrow> markerDetector" where
  "newMarkerDetector markers =
     \<lparr> d_markers = markers, d_fired = False, d_tail = [],
       d_keep = fold (\<lambda>m k. if length m - 1 > k then length m - 1 else k) markers 0 \<rparr>"

definition busyMarker :: string where "busyMarker = ''Running job:''"
definition connectedMarker :: string where "connectedMarker = ''Listening for Jobs''"

definition newBusyDetector :: markerDetector where
  "newBusyDetector = newMarkerDetector [busyMarker]"

definition newConnectDetector :: markerDetector where
  "newConnectDetector = newMarkerDetector [connectedMarker, busyMarker]"

text \<open>One \<open>Write\<close>: the detector after it, and whether it called \<open>onHit\<close>.\<close>

definition detector_Write :: "string \<Rightarrow> markerDetector \<Rightarrow> markerDetector \<times> bool" where
  "detector_Write p d =
     (if d_fired d then (d, False)
      else let buf = d_tail d @ p
           in if list_ex (\<lambda>m. contains buf m) (d_markers d)
              then (d\<lparr>d_fired := True, d_tail := []\<rparr>, True)
              else (d\<lparr>d_tail := (if length buf > d_keep d then drop (length buf - d_keep d) buf else buf)\<rparr>, False))"

fun detector_feed :: "string list \<Rightarrow> markerDetector \<Rightarrow> markerDetector \<times> nat" where
  "detector_feed [] d = (d, 0)"
| "detector_feed (p # ps) d =
     (case detector_Write p d of
        (d, hit) \<Rightarrow> (case detector_feed ps d of (d, n) \<Rightarrow> (d, (if hit then 1 else 0) + n)))"

section \<open>The connect watchdog\<close>

record connectWatchdog =
  wd_timer :: bool
  wd_fired :: bool
  wd_connected :: bool
  wd_stopped :: bool
  wd_killed :: bool
  wd_kills :: nat

definition new_watchdog :: connectWatchdog where
  "new_watchdog = \<lparr>wd_timer = False, wd_fired = False, wd_connected = False, wd_stopped = False,
                   wd_killed = False, wd_kills = 0\<rparr>"

definition wd_arm :: "duration \<Rightarrow> connectWatchdog \<Rightarrow> connectWatchdog" where
  "wd_arm timeout w =
     (if timeout \<le> 0 \<or> wd_connected w \<or> wd_stopped w \<or> wd_timer w then w else w\<lparr>wd_timer := True\<rparr>)"

text \<open>
  The timer's callback, which may run once at any time after \<open>arm\<close>, a call of \<open>Stop\<close> that came too
  late notwithstanding; \<open>wd_kills\<close> counts the calls of \<open>kill\<close>.
\<close>

definition wd_callback :: "connectWatchdog \<Rightarrow> connectWatchdog" where
  "wd_callback w =
     (let w = w\<lparr>wd_fired := True\<rparr>
      in if wd_connected w \<or> wd_stopped w then w else w\<lparr>wd_killed := True, wd_kills := Suc (wd_kills w)\<rparr>)"

definition wd_markConnected :: "connectWatchdog \<Rightarrow> connectWatchdog" where
  "wd_markConnected w = w\<lparr>wd_connected := True\<rparr>"

definition wd_stop :: "connectWatchdog \<Rightarrow> connectWatchdog" where
  "wd_stop w = w\<lparr>wd_stopped := True\<rparr>"

definition wd_didKill :: "connectWatchdog \<Rightarrow> bool" where
  "wd_didKill w = wd_killed w"

datatype wd_label = Arm duration | Callback | MarkConnected | StopWatchdog

inductive wd_step :: "wd_label \<Rightarrow> connectWatchdog \<Rightarrow> connectWatchdog \<Rightarrow> bool" where
  "wd_step (Arm timeout) w (wd_arm timeout w)"
| "wd_timer w \<Longrightarrow> \<not> wd_fired w \<Longrightarrow> wd_step Callback w (wd_callback w)"
| "wd_step MarkConnected w (wd_markConnected w)"
| "wd_step StopWatchdog w (wd_stop w)"

inductive_cases wd_stepE: "wd_step lab w w'"

definition wd_ok :: "connectWatchdog \<Rightarrow> bool" where
  "wd_ok w \<longleftrightarrow>
     wd_kills w = of_bool (wd_killed w) \<and> (wd_killed w \<longrightarrow> wd_fired w) \<and> (wd_fired w \<longrightarrow> wd_timer w)"

lemma wd_ok_step: "wd_ok w \<Longrightarrow> wd_step lab w w' \<Longrightarrow> wd_ok w'"
  by (erule wd_stepE)
     (auto simp: wd_ok_def wd_arm_def wd_callback_def wd_markConnected_def wd_stop_def Let_def)

interpretation watchdog: invariant_system "\<lambda>w. w = new_watchdog" wd_step wd_ok
  by unfold_locales (simp add: wd_ok_def new_watchdog_def, erule (1) wd_ok_step)

end
