(* ===== verification/Egress_Props.thy ===== *)
theory Egress_Props
  imports Egress
begin

unbundle bit_operations_syntax

text \<open>
  What the firewall rules achieve, in nftables' reading of them: source addresses cannot be forged,
  the exact decision on a guest's forwarded packet and on its packets to the host, isolation of
  guests from each other, and that slots never share a name or an address.
\<close>

section \<open>Addresses printed and parsed\<close>

lemma show_nat_hd: "0 < n \<Longrightarrow> hd (show_nat n) \<noteq> CHR ''0''"
proof (induction n rule: show_nat.induct)
  case (1 n)
  show ?case
  proof (cases "n < 10")
    case True
    have "digit_char n \<noteq> CHR ''0''"
    proof
      assume "digit_char n = CHR ''0''"
      then have "(of_char (digit_char n) :: nat) = 48" by simp
      with True \<open>0 < n\<close> show False by (simp add: of_char_digit_char)
    qed
    with True show ?thesis by (simp add: show_nat.simps [of n])
  next
    case False
    then have "0 < n div 10" by (simp add: div_greater_zero_iff)
    with False 1 have "hd (show_nat (n div 10)) \<noteq> CHR ''0''" by simp
    with False show ?thesis by (simp add: show_nat.simps [of n])
  qed
qed

lemma parse_field_show: "n \<le> 255 \<Longrightarrow> parse_field (show_nat n) = Some n"
proof (cases "n = 0")
  case True
  have "length (show_nat 0) = 1" by (simp add: show_nat.simps [of 0])
  with True show ?thesis by (simp add: parse_field_def parse_show_nat)
next
  case False
  moreover assume "n \<le> 255"
  ultimately show ?thesis using show_nat_hd [of n] by (simp add: parse_field_def parse_show_nat)
qed

lemma parse_field_le: "parse_field f = Some n \<Longrightarrow> n \<le> 255"
  by (auto simp: parse_field_def split: if_splits option.splits)

lemma split_on_append: "c \<notin> set a \<Longrightarrow> split_on c (a @ c # b) = a # split_on c b"
  by (induction a) auto

lemma dot_not_digit: "\<not> is_digit CHR ''.''"
  by code_simp

lemma parse_dotted:
  assumes "a \<le> 255" "b \<le> 255" "c \<le> 255" "d \<le> 255"
  shows "parse_addr4 (show_nat a @ ''.'' @ show_nat b @ ''.'' @ show_nat c @ ''.'' @ show_nat d) = Some [a, b, c, d]"
  using assms
  by (simp add: parse_addr4_def split_on_append split_on_none show_nat_no dot_not_digit parse_field_show)

lemma show_small: "show_nat 172 = ''172''" "show_nat 0 = ''0''" "show_nat 1 = ''1''" "show_nat 2 = ''2''"
  by code_simp+

lemma parse_guestIP: "b \<le> 255 \<Longrightarrow> s \<le> 255 \<Longrightarrow> parse_addr4 (n_guestIP (slotNet s p b)) = Some [172, b, s, 2]"
  using parse_dotted [of 172 b s 2] by (simp add: slotNet_def show_small)

lemma parse_vmCIDR: "b \<le> 255 \<Longrightarrow> parse_prefix4 (vmCIDRFor b) = Some ([172, b, 0, 0], 16)"
proof -
  assume b: "b \<le> 255"
  have slash: "\<not> is_digit CHR ''/''" by code_simp
  let ?a = "''172.'' @ show_nat b @ ''.0.0''"
  have no: "CHR ''/'' \<notin> set ?a" using show_nat_no [OF slash] by simp
  have c: "cut CHR ''/'' (x @ CHR ''/'' # y) = (x, y, True)" if "CHR ''/'' \<notin> set x" for x y
    using that by (induction x) auto
  have "parse_addr4 ?a = Some [172, b, 0, 0]"
    using parse_dotted [of 172 b 0 0] b by (simp add: show_small)
  moreover have "parse_nat ''16'' = Some 16" by code_simp
  ultimately show ?thesis using c [OF no, of "''16''"]
    by (simp add: parse_prefix4_def vmCIDRFor_def)
qed

section \<open>Words\<close>

lemma drop_bit_of_nat: "k < 2 ^ 32 \<Longrightarrow> drop_bit n (of_nat k :: 32 word) = of_nat (k div 2 ^ n)"
proof -
  assume k: "k < 2 ^ 32"
  have "k div 2 ^ n < 2 ^ 32" using k by (metis div_le_dividend le_less_trans)
  then have r: "unat (of_nat (k div 2 ^ n) :: 32 word) = k div 2 ^ n"
    by (simp add: unsigned_of_nat take_bit_nat_eq_self)
  have u: "unat (of_nat k :: 32 word) = k"
    using k by (simp add: unsigned_of_nat take_bit_nat_eq_self)
  have "unat (drop_bit n (of_nat k :: 32 word)) = drop_bit n (unat (of_nat k :: 32 word))"
    by (simp only: unsigned_drop_bit_eq) (use k in \<open>simp add: unsigned_of_nat take_bit_nat_eq_self\<close>)
  then have "unat (drop_bit n (of_nat k :: 32 word)) = unat (of_nat (k div 2 ^ n) :: 32 word)"
    by (simp only: r u drop_bit_eq_div)
  then show ?thesis by (simp only: word_unat_eq_iff)
qed

lemma ip4_of_four: "ip4_of [a, b, c, d] = of_nat (((a * 256 + b) * 256 + c) * 256 + d)"
  by (simp add: ip4_of_def algebra_simps)

lemma in_vm_net:
  assumes "b \<le> 255"
  shows "in_prefix ([172, b, 0, 0], 16) a \<longleftrightarrow> drop_bit 16 a = of_nat (172 * 256 + b)"
  using drop_bit_of_nat [of "((172 * 256 + b) * 256 + 0) * 256 + 0" 16] assms
  by (simp add: in_prefix_def ip4_of_four)

lemma guest_in_vm_net:
  assumes "b \<le> 255" "s \<le> 255" shows "in_prefix ([172, b, 0, 0], 16) (ip4_of [172, b, s, 2])"
proof -
  have "((172 * 256 + b) * 256 + s) * 256 + 2 = (s * 256 + 2) + (172 * 256 + b) * 65536" by simp
  then have "(((172 * 256 + b) * 256 + s) * 256 + 2) div 65536 = 172 * 256 + b"
    using assms by simp
  then show ?thesis
    using assms drop_bit_of_nat [of "((172 * 256 + b) * 256 + s) * 256 + 2" 16]
    by (simp only: in_vm_net ip4_of_four) simp
qed

text \<open>Bases 16 to 31 lie in 172.16.0.0/12, one of the non-public networks.\<close>

lemma vm_net_nonpublic:
  assumes "16 \<le> b" "b \<le> 31" "in_prefix ([172, b, 0, 0], 16) a"
  shows "list_ex (\<lambda>c. in_cidr c a) nonPublicNets"
proof -
  have "drop_bit 16 a = of_nat (172 * 256 + b)" using assms in_vm_net [of b a] by simp
  then have "drop_bit 20 a = drop_bit 4 (of_nat (172 * 256 + b) :: 32 word)"
    using drop_bit_drop_bit [of 4 16 a] by simp
  also have "\<dots> = of_nat ((172 * 256 + b) div 16)"
    using drop_bit_of_nat [of "172 * 256 + b" 4] assms by simp
  also have "(172 * 256 + b) div 16 = 2753"
    using assms by (intro div_nat_eqI) simp_all
  finally have "drop_bit 20 a = 2753" by simp
  moreover have "parse_prefix4 ''172.16.0.0/12'' = Some ([172, 16, 0, 0], 12)" by code_simp
  moreover have "drop_bit 20 (ip4_of [172, 16, 0, 0]) = 2753"
    using drop_bit_of_nat [of "((172 * 256 + 16) * 256 + 0) * 256 + 0" 20] by (simp add: ip4_of_four)
  ultimately have "in_cidr ''172.16.0.0/12'' a" by (simp add: in_cidr_def in_prefix_def)
  then show ?thesis by (simp add: nonPublicNets_def)
qed

section \<open>Bound sources\<close>

lemma parse_fields_le: "parse_fields fs = Some ns \<Longrightarrow> n \<in> set ns \<Longrightarrow> n \<le> 255"
  by (induction fs arbitrary: ns) (auto split: option.splits dest: parse_field_le)

lemma parse_prefix4_octets:
  "parse_prefix4 s = Some (os, n) \<Longrightarrow> length os = 4 \<and> (\<forall>x \<in> set os. x \<le> 255)"
  by (auto simp: parse_prefix4_def parse_addr4_def split: prod.splits bool.splits if_splits option.splits
      dest: parse_fields_le)

lemma binding_valid_base:
  assumes "binding_valid cfg"
  obtains b where "b \<le> 255" "parse_prefix4 (r_VMCidr cfg) = Some ([172, b, 0, 0], 16)" "pool_size cfg \<le> 256"
    "guest_sources cfg = map (\<lambda>s. (slot_iface cfg b s, n_guestIP (slotNet s (r_IfacePrefix cfg) b))) [0..<pool_size cfg]"
proof -
  obtain os n where p: "parse_prefix4 (r_VMCidr cfg) = Some (os, n)"
    using assms by (auto simp: binding_valid_def split: option.splits)
  obtain w x y z where os: "os = [w, x, y, z]"
    using parse_prefix4_octets [OF p] by (auto simp: numeral_eq_Suc length_Suc_conv)
  have "x \<le> 255" using parse_prefix4_octets [OF p] os by simp
  moreover have "n = 16" "w = 172" "y = 0" "z = 0" and mx: "0 \<le> r_MaxVMs cfg" "r_MaxVMs cfg \<le> 256"
    using assms p by (auto simp: binding_valid_def os)
  moreover have "pool_size cfg \<le> 256" using mx by (simp add: pool_size_def nat_le_iff)
  ultimately show ?thesis
    using p by (intro that [of x]) (simp_all add: os guest_sources_def)
qed

lemma slot_iface_prefix: "has_prefix (slot_iface cfg b s) (r_IfacePrefix cfg)"
  by (simp add: slot_iface_def slotNet_def slotNetNS_def Let_def)

lemma bound_source_iff:
  assumes "binding_valid cfg"
  obtains b where "b \<le> 255" "parse_prefix4 (r_VMCidr cfg) = Some ([172, b, 0, 0], 16)" "pool_size cfg \<le> 256"
    "\<forall>p. bound_source cfg p \<longleftrightarrow>
       (\<exists>s < pool_size cfg. p_iif p = slot_iface cfg b s \<and> p_saddr p = ip4_of [172, b, s, 2])"
proof (rule binding_valid_base [OF assms])
  fix b
  assume b: "b \<le> 255" "parse_prefix4 (r_VMCidr cfg) = Some ([172, b, 0, 0], 16)" "pool_size cfg \<le> 256"
    and g: "guest_sources cfg = map (\<lambda>s. (slot_iface cfg b s, n_guestIP (slotNet s (r_IfacePrefix cfg) b))) [0..<pool_size cfg]"
  have "bound_source cfg p \<longleftrightarrow>
       (\<exists>s < pool_size cfg. p_iif p = slot_iface cfg b s \<and> p_saddr p = ip4_of [172, b, s, 2])" for p
  proof -
    have "is_addr (n_guestIP (slotNet s (r_IfacePrefix cfg) b)) a \<longleftrightarrow> a = ip4_of [172, b, s, 2]"
      if "s < pool_size cfg" for s a
      using parse_guestIP [of b s "r_IfacePrefix cfg"] b that by (simp add: is_addr_def)
    then show ?thesis by (auto simp: bound_source_def g list_ex_iff)
  qed
  then show ?thesis by (intro that [OF b]) blast
qed

lemma bound_source_guest:
  assumes "binding_valid cfg" "bound_source cfg p"
  shows "has_prefix (p_iif p) (r_IfacePrefix cfg)" "in_cidr (r_VMCidr cfg) (p_saddr p)"
proof -
  obtain b where b: "b \<le> 255" "parse_prefix4 (r_VMCidr cfg) = Some ([172, b, 0, 0], 16)" "pool_size cfg \<le> 256"
    and iff: "\<forall>p. bound_source cfg p \<longleftrightarrow>
       (\<exists>s < pool_size cfg. p_iif p = slot_iface cfg b s \<and> p_saddr p = ip4_of [172, b, s, 2])"
    by (rule bound_source_iff [OF assms(1)])
  from assms(2) iff obtain s where s: "s < pool_size cfg" "p_iif p = slot_iface cfg b s" "p_saddr p = ip4_of [172, b, s, 2]"
    by blast
  show "has_prefix (p_iif p) (r_IfacePrefix cfg)" by (simp add: s(2) slot_iface_prefix)
  show "in_cidr (r_VMCidr cfg) (p_saddr p)"
    using guest_in_vm_net [of b s] b s(1) by (simp add: in_cidr_def s(3))
qed

section \<open>The chains\<close>

lemma verdict_spoof:
  "verdict cfg p (spoof_rules cfg @ rs) =
     (if has_prefix (p_iif p) (r_IfacePrefix cfg)
      then in_cidr (r_VMCidr cfg) (p_saddr p) \<and> bound_source cfg p \<and> verdict cfg p rs
      else verdict cfg p rs)"
  by (simp add: spoof_rules_def)

definition wants_mail :: "packet \<Rightarrow> bool" where
  "wants_mail p \<longleftrightarrow> p_proto p = TCP \<and> p_dport p \<in> {25, 465, 587, 2525}"

definition to_nonpublic :: "egressRuleset \<Rightarrow> packet \<Rightarrow> bool" where
  "to_nonpublic cfg p \<longleftrightarrow> in_nset cfg Nonpublic (p_daddr p) \<and> \<not> p_dnat p"

definition to_resolver :: "egressRuleset \<Rightarrow> packet \<Rightarrow> bool" where
  "to_resolver cfg p \<longleftrightarrow>
     r_AllowDNS cfg \<and> r_DNSServers cfg \<noteq> [] \<and> (p_proto p = UDP \<or> p_proto p = TCP) \<and> p_dport p = 53 \<and>
     in_nset cfg DnsSet (p_daddr p)"

lemma verdict_forward:
  assumes "in_cidr (r_VMCidr cfg) (p_saddr p)"
  shows "verdict cfg p (forward_rules cfg) =
     ((r_IfacePrefix cfg \<noteq> [] \<and> has_prefix (p_iif p) (r_IfacePrefix cfg) \<longrightarrow> bound_source cfg p) \<and>
      (if r_Open cfg
       then \<not> in_cidr (r_VMCidr cfg) (p_daddr p) \<and> \<not> to_nonpublic cfg p \<and> \<not> wants_mail p
       else p_established p \<or> to_resolver cfg p \<or>
            (\<not> to_nonpublic cfg p \<and> \<not> wants_mail p \<and>
             (in_nset cfg AllowedSet (p_daddr p) \<or> (r_AllowNTP cfg \<and> p_proto p = UDP \<and> p_dport p = 123)))))"
  using assms
  by (cases "p_proto p"; cases "r_Open cfg"; cases "r_IfacePrefix cfg = []";
      cases "has_prefix (p_iif p) (r_IfacePrefix cfg)")
     (auto simp: forward_rules_def verdict_spoof guestEgressGuards_def mailPorts_def to_nonpublic_def
        wants_mail_def to_resolver_def split: if_splits)

lemma forward_prefix: "\<exists>rs. forward_rules cfg = (if r_IfacePrefix cfg \<noteq> [] then spoof_rules cfg @ rs else rs)"
  unfolding forward_rules_def by auto

lemma verdict_input:
  "verdict cfg p (input_rules cfg) =
     (has_prefix (p_iif p) (r_IfacePrefix cfg) \<longrightarrow>
        in_cidr (r_VMCidr cfg) (p_saddr p) \<and> bound_source cfg p \<and>
        (p_established p \<or>
         (r_CachePort cfg > 0 \<and> in_cidr (r_VMCidr cfg) (p_daddr p) \<and> p_proto p = TCP \<and> int (p_dport p) = r_CachePort cfg)))"
  by (auto simp: input_rules_def verdict_spoof)

lemma built_valid: "buildNFTRuleset cfg \<noteq> None \<Longrightarrow> r_IfacePrefix cfg \<noteq> [] \<Longrightarrow> binding_valid cfg"
  by (auto simp: buildNFTRuleset_def Let_def split: if_splits)

section \<open>A concrete ruleset\<close>

definition demo_rs :: egressRuleset where
  "demo_rs = \<lparr> r_MaxVMs = 2, r_NetNS = True, r_Table = [], r_IfacePrefix = ''fr'', r_ExtIface = ''eth0'',
     r_VMCidr = ''172.16.0.0/16'', r_Allowed = [''140.82.112.0/20''], r_DNSServers = [''1.1.1.1''],
     r_CachePort = 8080, r_AllowDNS = True, r_AllowNTP = True, r_Open = False \<rparr>"

definition demo_packet :: packet where
  "demo_packet = \<lparr> p_iif = ''frv1h'', p_oif = ''eth0'', p_saddr = ip4_of [172, 16, 1, 2],
     p_daddr = ip4_of [10, 0, 0, 1], p_proto = TCP, p_dport = 25, p_established = False, p_dnat = False \<rparr>"

lemma demo_rs_cidr: "parse_prefix4 (r_VMCidr demo_rs) = Some ([172, 16, 0, 0], 16)"
  by code_simp

lemma demo_rs_built: "buildNFTRuleset demo_rs \<noteq> None" "r_IfacePrefix demo_rs \<noteq> []"
  using demo_rs_cidr by (simp_all add: buildNFTRuleset_def binding_valid_def demo_rs_def Let_def)

lemma demo_sources: "guest_sources demo_rs = [(''frv0h'', ''172.16.0.2''), (''frv1h'', ''172.16.1.2'')]"
  by code_simp

lemma demo_bound: "bound_source demo_rs demo_packet"
proof -
  have "parse_addr4 ''172.16.1.2'' = Some [172, 16, 1, 2]" by code_simp
  then show ?thesis by (simp add: bound_source_def demo_sources demo_packet_def is_addr_def)
qed

section \<open>Properties\<close>

text \<open>
  C7.  No forged source: whenever the ruleset was built, a packet from a guest interface that the input
  or the forward chain lets through came from the interface of some slot of the pool and carries
  exactly that slot's address.
\<close>

theorem guests_cannot_spoof:
  assumes "buildNFTRuleset cfg \<noteq> None" "r_IfacePrefix cfg \<noteq> []" "has_prefix (p_iif p) (r_IfacePrefix cfg)"
    and "verdict cfg p (input_rules cfg) \<or> verdict cfg p (forward_rules cfg)"
  shows "\<exists>b s. parse_prefix4 (r_VMCidr cfg) = Some ([172, b, 0, 0], 16) \<and> s < pool_size cfg \<and>
           p_iif p = slot_iface cfg b s \<and> p_saddr p = ip4_of [172, b, s, 2]"
proof -
  have v: "binding_valid cfg" by (rule built_valid [OF assms(1,2)])
  obtain rs where f: "forward_rules cfg = spoof_rules cfg @ rs" using forward_prefix assms(2) by metis
  have "bound_source cfg p"
    using assms(3,4) by (auto simp: verdict_input f verdict_spoof)
  with bound_source_iff [OF v] show ?thesis by metis
qed

lemma guests_cannot_spoof_witness:
  "has_prefix (p_iif demo_packet) ''fr'' \<and>
   (\<exists>b s. parse_prefix4 (r_VMCidr demo_rs) = Some ([172, b, 0, 0], 16) \<and> s < pool_size demo_rs \<and>
      p_iif (demo_packet\<lparr>p_established := True\<rparr>) = slot_iface demo_rs b s \<and>
      p_saddr (demo_packet\<lparr>p_established := True\<rparr>) = ip4_of [172, b, s, 2])"
proof -
  have c: "in_cidr (r_VMCidr demo_rs) (p_saddr demo_packet)"
    using guest_in_vm_net [of 16 1] by (simp add: in_cidr_def demo_rs_cidr demo_packet_def)
  have "bound_source demo_rs (demo_packet\<lparr>p_established := True\<rparr>)"
    using demo_bound by (simp add: bound_source_def)
  with c have "verdict demo_rs (demo_packet\<lparr>p_established := True\<rparr>) (input_rules demo_rs)"
    by (simp add: verdict_input)
  with guests_cannot_spoof [OF demo_rs_built, of "demo_packet\<lparr>p_established := True\<rparr>"] show ?thesis
    by (simp add: demo_packet_def demo_rs_def)
qed

text \<open>
  C8.  What a guest may send out, exactly.  With open egress: anything but other VMs, non-public
  networks the host itself did not rewrite the packet to, and mail ports.  With an allowlist:
  replies on established connections, the configured resolvers on port 53, and, outside non-public
  networks and mail ports, the allowed ranges and time sync; everything else is dropped.
\<close>

theorem guest_forward_decision:
  assumes "buildNFTRuleset cfg \<noteq> None" "r_IfacePrefix cfg \<noteq> []" "bound_source cfg p"
  shows "verdict cfg p (forward_rules cfg) \<longleftrightarrow>
     (if r_Open cfg
      then \<not> in_cidr (r_VMCidr cfg) (p_daddr p) \<and> \<not> to_nonpublic cfg p \<and> \<not> wants_mail p
      else p_established p \<or> to_resolver cfg p \<or>
           (\<not> to_nonpublic cfg p \<and> \<not> wants_mail p \<and>
            (in_nset cfg AllowedSet (p_daddr p) \<or> (r_AllowNTP cfg \<and> p_proto p = UDP \<and> p_dport p = 123))))"
  using verdict_forward [OF bound_source_guest(2) [OF built_valid [OF assms(1,2)] assms(3)]] assms(3)
  by simp

lemma guest_forward_decision_witness:
  "\<not> verdict demo_rs demo_packet (forward_rules demo_rs)"
  using guest_forward_decision [OF demo_rs_built demo_bound]
  by (simp add: demo_packet_def to_resolver_def wants_mail_def demo_rs_def)

text \<open>
  Guests are isolated from each other: a new connection from a guest to any address of the VM
  range is dropped by the forward chain, with open egress for every network base, and with an
  allowlist for the bases 16 to 31, unless that address is a configured resolver.
\<close>

theorem guests_isolated:
  assumes "buildNFTRuleset cfg \<noteq> None" "r_IfacePrefix cfg \<noteq> []" "bound_source cfg p"
    and "in_cidr (r_VMCidr cfg) (p_daddr p)" "\<not> p_established p" "\<not> p_dnat p"
    and "r_Open cfg \<or> (parse_prefix4 (r_VMCidr cfg) = Some ([172, b, 0, 0], 16) \<and> 16 \<le> b \<and> b \<le> 31 \<and>
                        \<not> in_nset cfg DnsSet (p_daddr p))"
  shows "\<not> verdict cfg p (forward_rules cfg)"
proof (cases "r_Open cfg")
  case True
  with guest_forward_decision [OF assms(1-3)] assms(4) show ?thesis by simp
next
  case False
  with assms(7) have b: "parse_prefix4 (r_VMCidr cfg) = Some ([172, b, 0, 0], 16)" "16 \<le> b" "b \<le> 31"
    "\<not> in_nset cfg DnsSet (p_daddr p)" by simp_all
  have "in_prefix ([172, b, 0, 0], 16) (p_daddr p)" using assms(4) b(1) by (simp add: in_cidr_def)
  then have "to_nonpublic cfg p"
    using vm_net_nonpublic [OF b(2,3)] assms(6) by (simp add: to_nonpublic_def in_nset_def)
  with guest_forward_decision [OF assms(1-3)] assms(5) b(4) False show ?thesis
    by (simp add: to_resolver_def)
qed

lemma guests_isolated_witness:
  "\<not> verdict demo_rs (demo_packet\<lparr>p_daddr := ip4_of [172, 16, 0, 2]\<rparr>) (forward_rules demo_rs)"
proof -
  let ?p = "demo_packet\<lparr>p_daddr := ip4_of [172, 16, 0, 2]\<rparr>"
  have a: "bound_source demo_rs ?p" using demo_bound by (simp add: bound_source_def)
  have c: "in_cidr (r_VMCidr demo_rs) (p_daddr ?p)"
    using guest_in_vm_net [of 16 0] by (simp add: in_cidr_def demo_rs_cidr)
  have "parse_addr4 ''1.1.1.1'' = Some [1, 1, 1, 1]" by code_simp
  then have "\<not> in_nset demo_rs DnsSet (p_daddr ?p)"
    by (simp add: in_nset_def demo_rs_def is_addr_def ip4_of_four)
  with guests_isolated [OF demo_rs_built a c, where b = 16] demo_rs_cidr show ?thesis by (simp add: demo_packet_def)
qed

text \<open>
  The input chain protects the host and only that: a packet that does not come from a guest
  interface is accepted, a guest's packet is accepted exactly when its source is its own and it
  belongs to an established connection or goes to the cache port on an address of the VM range.
\<close>

theorem host_input_decision:
  assumes "buildNFTRuleset cfg \<noteq> None" "r_IfacePrefix cfg \<noteq> []"
  shows "verdict cfg p (input_rules cfg) \<longleftrightarrow>
     \<not> has_prefix (p_iif p) (r_IfacePrefix cfg) \<or>
     (bound_source cfg p \<and>
      (p_established p \<or>
       (r_CachePort cfg > 0 \<and> in_cidr (r_VMCidr cfg) (p_daddr p) \<and> p_proto p = TCP \<and> int (p_dport p) = r_CachePort cfg)))"
  using bound_source_guest(2) [OF built_valid [OF assms]] by (auto simp: verdict_input)

lemma host_input_decision_witness:
  "\<not> verdict demo_rs demo_packet (input_rules demo_rs)"
  using host_input_decision [OF demo_rs_built, of demo_packet]
  by (simp add: demo_packet_def demo_rs_def)

text \<open>
  Slots never collide: for slots and bases below 256 the tap, the veth, the guest address and the
  MAC address of two different slots differ, and any client that only returns slots it holds never
  holds a slot twice and never loses one.
\<close>

theorem slots_distinct:
  assumes "s < 256" "s' < 256" "b < 256" "s \<noteq> s'"
  shows "n_tap (slotNet s p b) \<noteq> n_tap (slotNet s' p b) \<and>
         n_guestIP (slotNet s p b) \<noteq> n_guestIP (slotNet s' p b) \<and>
         n_guestMAC (slotNet s p b) \<noteq> n_guestMAC (slotNet s' p b) \<and>
         ns_hostVeth (slotNetNS (slotNet s p b) b p) \<noteq> ns_hostVeth (slotNetNS (slotNet s' p b) b p) \<and>
         (ipam.run (newIPAM k) [] q held \<longrightarrow> distinct held \<and> set held \<subseteq> {..<k} \<and> available q + length held = k)"
proof -
  have "distinct held \<and> set held \<subseteq> {..<k} \<and> available q + length held = k" if r: "ipam.run (newIPAM k) [] q held"
  proof -
    have d: "distinct (newIPAM k)" by (simp add: newIPAM_def)
    from ipam.run_disjoint [OF r d] ipam.run_count [OF r d] show ?thesis
      by (auto simp: newIPAM_def available_def)
  qed
  moreover have "n_slot (slotNet s p b) \<noteq> n_slot (slotNet s' p b)" using assms(4) by (simp add: slotNet_def)
  ultimately show ?thesis
    using assms tap_inj guestIP_inj guestMAC_inj [of s s' b b p p] hostVeth_inj by metis
qed

lemma slots_distinct_witness:
  "n_guestIP (slotNet 3 ''fr'' 16) \<noteq> n_guestIP (slotNet 4 ''fr'' 16)"
  using slots_distinct [of 3 4 16 "''fr''"] by simp

end
