(* ===== verification/Firecracker_Props.thy ===== *)
theory Firecracker_Props
  imports Firecracker_Host Egress_Props
begin

text \<open>
  Properties of the Firecracker provisioner: how a launch ends and gives back what it took, the order
  of the API calls, the console scanner against a search of the whole stream, and the watchdog.
\<close>

section \<open>Logs\<close>

lemma acts_log:
  "acts h as l = (ok, l') \<Longrightarrow> \<exists>bs. l' = l @ bs \<and> (\<exists>cs. as = bs @ cs \<and> (ok \<longrightarrow> cs = [])) \<and>
     (\<forall>i. i < length bs - 1 \<longrightarrow> h (l @ take i bs) (bs ! i)) \<and> (ok \<longrightarrow> (\<forall>i < length bs. h (l @ take i bs) (bs ! i)))"
proof (induction as arbitrary: l)
  case (Cons a as)
  show ?case
  proof (cases "h l a")
    case True
    with Cons.prems have "acts h as (l @ [a]) = (ok, l')" by (simp add: act_def)
    from Cons.IH [OF this] obtain bs cs where b: "l' = (l @ [a]) @ bs" "as = bs @ cs" "ok \<longrightarrow> cs = []"
      "\<forall>i. i < length bs - 1 \<longrightarrow> h ((l @ [a]) @ take i bs) (bs ! i)"
      "ok \<longrightarrow> (\<forall>i < length bs. h ((l @ [a]) @ take i bs) (bs ! i))" by blast
    have "h (l @ take i (a # bs)) ((a # bs) ! i)" if "i < length (a # bs) - 1" for i
      using that True b(4) by (cases i) auto
    moreover have "h (l @ take i (a # bs)) ((a # bs) ! i)" if "ok" "i < length (a # bs)" for i
      using that True b(5) by (cases i) auto
    ultimately show ?thesis using b by (intro exI [of _ "a # bs"]) auto
  next
    case False
    with Cons.prems have "\<not> ok" "l' = l @ [a]" by (auto simp: act_def)
    then show ?thesis by (intro exI [of _ "[a]"]) auto
  qed
qed simp

lemma acts_extends: "acts h as l = (ok, l') \<Longrightarrow> \<exists>bs. l' = l @ bs \<and> set bs \<subseteq> set as"
  by (drule acts_log) auto

definition teardown_acts :: "FirecrackerConfig \<Rightarrow> vmNet \<Rightarrow> host_act list" where
  "teardown_acts cfg n =
     (if f_NetNS cfg
      then let s = slotNetNS n (f_NetBase cfg) (f_TapPrefix cfg)
           in [Run [''ip'', ''netns'', ''del'', ns_ns s], Run [''ip'', ''link'', ''del'', ns_hostVeth s],
               Run [''ip'', ''route'', ''del'', n_guestIP n @ ''/32'']]
      else [Run [''ip'', ''link'', ''del'', n_tap n]])"

lemma teardown_log: "snd (teardownNet h cfg n l) = l @ teardown_acts cfg n"
  by (simp add: teardownNet_def teardown_acts_def act_def note_act_def tapDownCommands_def Let_def
      split: bool.split)

definition cleanup_acts :: "FirecrackerConfig \<Rightarrow> string \<Rightarrow> host_act list" where
  "cleanup_acts cfg name =
     (if f_Jailer cfg
      then RemoveAll (path_join [f_ChrootBase cfg, ''firecracker'', name])
           # (if f_CgroupLimits cfg \<noteq> [] then [RemoveDir (jailCgroupDir (f_Binary cfg) name)] else [])
      else [RemoveAll (path_join [f_WorkDir cfg, name])])"

lemma cleanup_log: "cleanup cfg name l = l @ cleanup_acts cfg name"
  by (simp add: cleanup_def cleanup_acts_def note_act_def)

text \<open>Actions that are not a start of the VMM.\<close>

definition no_start :: "log \<Rightarrow> bool" where
  "no_start l \<longleftrightarrow> (\<forall>argv. StartVMM argv \<notin> set l)"

lemma no_start_append [simp]: "no_start (a @ b) \<longleftrightarrow> no_start a \<and> no_start b"
  by (auto simp: no_start_def)

lemma no_start_Run [simp]: "no_start (map Run cs)"
  by (auto simp: no_start_def)

lemma prepare_log: "prepare h cfg name vnet spec l = (r, l') \<Longrightarrow> \<exists>bs. l' = l @ bs \<and> no_start bs"
proof -
  assume p: "prepare h cfg name vnet spec l = (r, l')"
  have ns: "no_start (cleanup_acts cfg name)" by (auto simp: no_start_def cleanup_acts_def)
  have A: "\<exists>bs. l2 = l1 @ bs \<and> no_start bs" if "acts h as l1 = (ok, l2)" "no_start as" for as l1 l2 ok
    using acts_extends [OF that(1)] that(2) by (auto simp: no_start_def)
  show ?thesis
  proof (cases "f_Jailer cfg")
    case True
    let ?m = "MkdirAll (jailChrootRoot (f_ChrootBase cfg) name)"
    define as where "as = (let root = jailChrootRoot (f_ChrootBase cfg) name;
         kernel = path_join [root, ''vmlinux'']; rootfs = path_join [root, ''rootfs.ext4''];
         img = toolCacheImage cfg spec; tc = path_join [root, ''toolcache.ext4'']
       in [reflink (f_KernelImage cfg) kernel, reflink (rs_RootFS spec) rootfs, Chown kernel, Chown rootfs]
          @ (if img \<noteq> [] then [reflink img tc, Chown tc] else []))"
    have as: "no_start as" by (auto simp: as_def Let_def no_start_def reflink_def)
    obtain ok l2 where a: "acts h as (l @ [?m]) = (ok, l2)" by fastforce
    from A [OF a as] obtain bs where bs: "l2 = (l @ [?m]) @ bs" "no_start bs" by blast
    have m: "no_start [?m]" by (simp add: no_start_def)
    show ?thesis
    proof (cases "h l ?m")
      case False
      with p True have "l' = l @ [?m]" by (simp add: prepare_def act_def Let_def)
      with m show ?thesis by blast
    next
      case h: True
      have "l' = l2 \<or> l' = l2 @ cleanup_acts cfg name"
        using p True h a by (cases ok) (auto simp: prepare_def act_def Let_def as_def cleanup_log)
      then have "l' = l @ ([?m] @ bs) \<or> l' = l @ ([?m] @ bs @ cleanup_acts cfg name)"
        using bs(1) by auto
      moreover have "no_start ([?m] @ bs)" "no_start ([?m] @ bs @ cleanup_acts cfg name)"
        using m bs(2) ns by (simp_all only: no_start_append)
      ultimately show ?thesis by blast
    qed
  next
    case False
    then show ?thesis
      using p ns by (auto simp: prepare_def act_def Let_def cleanup_log no_start_def reflink_def split: bool.splits)
  qed
qed

lemma configure_log: "configure h cfg k r t n b j spec l = (ok, l') \<Longrightarrow> \<exists>bs. l' = l @ bs \<and> no_start bs"
proof -
  assume "configure h cfg k r t n b j spec l = (ok, l')"
  then obtain as where "acts h (map PutAPI as) l = (ok, l')" by (auto simp: configure_def simp flip: map_map)
  from acts_extends [OF this] show ?thesis by (auto simp: no_start_def)
qed

text \<open>A VMM that was started is reaped, whatever happens next.\<close>

lemma run_vmm_log:
  assumes "run_vmm h cfg vnet jit spec e pr l = (res, l')"
  shows "\<exists>bs. l' = l @ StartVMM (pr_argv pr) # bs \<and> no_start bs \<and> (h l (StartVMM (pr_argv pr)) \<longrightarrow> ReapVMM \<in> set bs)"
proof (cases "h l (StartVMM (pr_argv pr)) \<and> h (l @ [StartVMM (pr_argv pr)]) (WaitForSocket (pr_sock pr))")
  case True
  let ?l = "l @ [StartVMM (pr_argv pr), WaitForSocket (pr_sock pr)]"
  obtain ok l2 where c: "configure h cfg (pr_kernel pr) (pr_rootfs pr) (fcToolCachePath cfg spec) vnet
       (composeBootArgs (f_BootArgs cfg) vnet) jit spec ?l = (ok, l2)" by fastforce
  obtain bs where bs: "l2 = ?l @ bs" "no_start bs" using configure_log [OF c] by blast
  have "\<exists>cs. l' = l2 @ cs \<and> no_start cs \<and> ReapVMM \<in> set cs"
    using assms True c by (cases ok) (auto simp: run_vmm_def act_def note_act_def no_start_def)
  then obtain cs where "l' = l2 @ cs" "no_start cs" "ReapVMM \<in> set cs" by blast
  with bs show ?thesis
    by (intro exI [of _ "WaitForSocket (pr_sock pr) # bs @ cs"]) (auto simp: no_start_def)
next
  case False
  with assms show ?thesis
    by (auto simp: run_vmm_def act_def note_act_def no_start_def split: bool.splits)
qed

lemma run_console_log:
  assumes "run_console h cfg name vnet jit spec e l = (res, l')"
  shows "\<exists>bs. l' = l @ bs \<and> (no_start bs \<or>
     (\<exists>A argv B. bs = A @ StartVMM argv # B @ cleanup_acts cfg name @ [CloseConsole] \<and> no_start A \<and> no_start B \<and>
        (h (l @ A) (StartVMM argv) \<longrightarrow> ReapVMM \<in> set B)))"
proof (cases "h l (OpenConsole name)")
  case False
  with assms show ?thesis by (auto simp: run_console_def act_def no_start_def)
next
  case True
  obtain r l2 where p: "prepare h cfg name vnet spec (l @ [OpenConsole name]) = (r, l2)" by fastforce
  obtain bs where bs: "l2 = (l @ [OpenConsole name]) @ bs" "no_start bs" using prepare_log [OF p] by blast
  show ?thesis
  proof (cases r)
    case None
    with assms True p have "l' = l2 @ [CloseConsole]" by (simp add: run_console_def act_def note_act_def)
    with bs show ?thesis by (intro exI [of _ "OpenConsole name # bs @ [CloseConsole]"]) (auto simp: no_start_def)
  next
    case (Some pr)
    obtain res2 l3 where v: "run_vmm h cfg vnet jit spec e pr l2 = (res2, l3)" by fastforce
    obtain B where B: "l3 = l2 @ StartVMM (pr_argv pr) # B" "no_start B"
      "h l2 (StartVMM (pr_argv pr)) \<longrightarrow> ReapVMM \<in> set B" using run_vmm_log [OF v] by blast
    have "l' = l3 @ cleanup_acts cfg name @ [CloseConsole]"
      using assms True p Some v by (simp add: run_console_def act_def note_act_def cleanup_log)
    with B bs show ?thesis
      by (intro exI [of _ "(OpenConsole name # bs) @ StartVMM (pr_argv pr) # B @ cleanup_acts cfg name @ [CloseConsole]"]
            conjI disjI2 exI [of _ "OpenConsole name # bs"] exI [of _ "pr_argv pr"] exI [of _ B])
         (auto simp: no_start_def)
  qed
qed

lemma run_net_log:
  assumes "run_net h cfg name vnet jit spec e l = (res, l')"
  shows "\<exists>bs. l' = l @ bs \<and> (no_start bs \<or>
     (\<exists>A argv B. bs = A @ StartVMM argv # B @ cleanup_acts cfg name @ [CloseConsole] @ teardown_acts cfg vnet \<and>
        no_start A \<and> no_start B \<and> (h (l @ A) (StartVMM argv) \<longrightarrow> ReapVMM \<in> set B)))"
proof (cases "h l SetupNetworkOnce")
  case False
  with assms show ?thesis by (auto simp: run_net_def act_def no_start_def)
next
  case True
  let ?l = "l @ [SetupNetworkOnce]"
  obtain ok l2 where s: "setupNet h cfg vnet ?l = (ok, l2)" by fastforce
  obtain bs where bs: "l2 = ?l @ bs" "no_start bs"
    using acts_extends [OF s [unfolded setupNet_def]] by (fastforce simp: no_start_def)
  show ?thesis
  proof (cases ok)
    case False
    with assms True s have "l' = l2" by (simp add: run_net_def act_def)
    with bs show ?thesis by (intro exI [of _ "SetupNetworkOnce # bs"]) (auto simp: no_start_def)
  next
    case ok: True
    obtain res2 l3 where c: "run_console h cfg name vnet jit spec e l2 = (res2, l3)" by fastforce
    have l': "l' = l3 @ teardown_acts cfg vnet"
      using assms True s ok c by (simp add: run_net_def act_def teardown_log)
    have t: "no_start (teardown_acts cfg vnet)" by (auto simp: no_start_def teardown_acts_def Let_def)
    obtain cs where cs: "l3 = l2 @ cs" "no_start cs \<or>
     (\<exists>A argv B. cs = A @ StartVMM argv # B @ cleanup_acts cfg name @ [CloseConsole] \<and> no_start A \<and> no_start B \<and>
        (h (l2 @ A) (StartVMM argv) \<longrightarrow> ReapVMM \<in> set B))" using run_console_log [OF c] by blast
    let ?pre = "SetupNetworkOnce # bs"
    have pre: "no_start ?pre" using bs(2) by (simp add: no_start_def)
    from cs(2) show ?thesis
    proof
      assume "no_start cs"
      with pre t have "no_start (?pre @ cs @ teardown_acts cfg vnet)" by (simp only: no_start_append)
      moreover have "l' = l @ (?pre @ cs @ teardown_acts cfg vnet)" using l' cs(1) bs(1) by simp
      ultimately show ?thesis by blast
    next
      assume "\<exists>A argv B. cs = A @ StartVMM argv # B @ cleanup_acts cfg name @ [CloseConsole] \<and> no_start A \<and> no_start B \<and>
        (h (l2 @ A) (StartVMM argv) \<longrightarrow> ReapVMM \<in> set B)"
      then obtain A argv B where ab: "cs = A @ StartVMM argv # B @ cleanup_acts cfg name @ [CloseConsole]"
        "no_start A" "no_start B" "h (l2 @ A) (StartVMM argv) \<longrightarrow> ReapVMM \<in> set B" by blast
      let ?bs = "(?pre @ A) @ StartVMM argv # B @ cleanup_acts cfg name @ [CloseConsole] @ teardown_acts cfg vnet"
      have "l' = l @ ?bs" using l' cs(1) bs(1) ab(1) by simp
      moreover have "no_start (?pre @ A)" using pre ab(2) by (simp only: no_start_append)
      moreover have "h (l @ ?pre @ A) (StartVMM argv) \<longrightarrow> ReapVMM \<in> set B" using ab(4) bs(1) by simp
      ultimately show ?thesis using ab(3) by blast
    qed
  qed
qed

section \<open>The console scanner\<close>

text \<open>A marker that is not in the stream so far ends, if it appears, in the new chunk, so the last
  \<open>keep\<close> bytes are all the scanner needs of the past.\<close>

lemma straddle:
  assumes "\<not> sublist m s" "length m - 1 \<le> k" "m \<noteq> []"
  shows "sublist m (s @ p) \<longleftrightarrow> sublist m (drop (length s - k) s @ p)"
proof
  assume "sublist m (drop (length s - k) s @ p)"
  then obtain a b where "drop (length s - k) s @ p = a @ m @ b" by (auto simp: sublist_def)
  then have "s @ p = (take (length s - k) s @ a) @ m @ b"
    by (metis append.assoc append_take_drop_id)
  then show "sublist m (s @ p)" unfolding sublist_def by blast
next
  assume "sublist m (s @ p)"
  then obtain a b where ab: "s @ p = a @ m @ b" by (auto simp: sublist_def)
  show "sublist m (drop (length s - k) s @ p)"
  proof (cases "length s - k \<le> length a")
    case True
    have "drop (length s - k) (s @ p) = drop (length s - k) s @ p" by simp
    moreover have "drop (length s - k) (a @ m @ b) = drop (length s - k) a @ m @ b" using True by simp
    ultimately have "drop (length s - k) s @ p = drop (length s - k) a @ m @ b" using ab by metis
    then show ?thesis by (auto simp: sublist_def)
  next
    case False
    with assms(2,3) have "length (a @ m) \<le> length s" by (cases m) auto
    moreover have "take (length (a @ m)) (s @ p) = a @ m" using ab by simp
    ultimately have "take (length (a @ m)) s = a @ m" by (simp del: take_append add: take_append)
    then have "s = a @ m @ drop (length (a @ m)) s" by (metis append.assoc append_take_drop_id)
    then have "sublist m s" by (auto simp: sublist_def)
    with assms(1) show ?thesis by simp
  qed
qed

definition scanned :: "string list \<Rightarrow> nat \<Rightarrow> string \<Rightarrow> markerDetector \<Rightarrow> bool" where
  "scanned ms k s d \<longleftrightarrow>
     d_markers d = ms \<and> d_keep d = k \<and> \<not> d_fired d \<and> d_tail d = drop (length s - k) s \<and>
     (\<forall>m \<in> set ms. \<not> sublist m s)"

lemma feed_fired: "d_fired d \<Longrightarrow> detector_feed ps d = (d, 0)"
  by (induction ps) (simp_all add: detector_Write_def)

lemma feed_scanned:
  assumes "scanned ms k s d" "[] \<notin> set ms" "\<forall>m \<in> set ms. length m - 1 \<le> k"
  shows "snd (detector_feed ps d) = of_bool (\<exists>m \<in> set ms. sublist m (s @ concat ps))"
  using assms(1)
proof (induction ps arbitrary: s d)
  case Nil
  then show ?case by (simp add: scanned_def)
next
  case (Cons p ps)
  let ?buf = "drop (length s - k) s @ p"
  have same: "sublist m (s @ p) \<longleftrightarrow> sublist m ?buf" if "m \<in> set ms" for m
    using that assms(2,3) Cons.prems by (intro straddle) (auto simp: scanned_def)
  show ?case
  proof (cases "\<exists>m \<in> set ms. sublist m ?buf")
    case True
    then have w: "detector_Write p d = (d\<lparr>d_fired := True, d_tail := []\<rparr>, True)"
      using Cons.prems by (simp add: detector_Write_def scanned_def list_ex_iff)
    from True same obtain m where m: "m \<in> set ms" "sublist m (s @ p)" by blast
    have "sublist m (s @ concat (p # ps))"
      using m(2) unfolding sublist_def by (metis append.assoc concat.simps(2))
    with m(1) w feed_fired [of "d\<lparr>d_fired := True, d_tail := []\<rparr>" ps] show ?thesis by auto
  next
    case False
    let ?d = "d\<lparr>d_tail := drop (length (s @ p) - k) (s @ p)\<rparr>"
    have t: "(if length ?buf > k then drop (length ?buf - k) ?buf else ?buf) = drop (length (s @ p) - k) (s @ p)"
      by (cases "length s \<le> k") (auto simp: drop_append add.commute)
    have "detector_Write p d = (d\<lparr>d_tail := (if length ?buf > k then drop (length ?buf - k) ?buf else ?buf)\<rparr>, False)"
      using False Cons.prems by (simp add: detector_Write_def scanned_def list_ex_iff)
    then have w: "detector_Write p d = (?d, False)" unfolding t .
    have "scanned ms k (s @ p) ?d"
      using Cons.prems False same by (simp add: scanned_def)
    from Cons.IH [OF this] w show ?thesis by (simp split: prod.splits)
  qed
qed

lemma keep_fold:
  "k \<le> fold (\<lambda>m k. if length m - 1 > k then length m - 1 else k) ms k \<and>
   (\<forall>m \<in> set ms. length m - 1 \<le> fold (\<lambda>m k. if length m - 1 > k then length m - 1 else k) ms (k::nat))"
proof (induction ms arbitrary: k)
  case (Cons m ms)
  let ?k = "if length m - 1 > k then length m - 1 else k"
  from Cons.IH [of ?k] show ?case by auto
qed simp

section \<open>A concrete host\<close>

definition fc_demo :: FirecrackerConfig where
  "fc_demo = with_defaults
     \<lparr> f_hasJobs = True, f_Binary = [], f_KernelImage = ''k'', f_GoldenRootFS = [], f_BootArgs = ''b'', f_WorkDir = ''w'', f_TapPrefix = [],
       f_NetBase = 0, f_NFTTable = [], f_ExtIface = ''eth0'', f_Egress = \<lparr>e_Categories = [''open''], e_DNSServers = [],
       e_RefreshInterval = 0\<rparr>, f_LogDir = [], f_MaxVMs = 2, f_Jailer = False, f_JailerBin = [], f_ChrootBase = [],
       f_JailUID = 0, f_JailGID = 0, f_CgroupLimits = [], f_NetNS = False, f_ToolCacheImage = [], f_CachePort = 0,
       f_CacheURL = [], f_MaxVMLifetime = 0, f_ConnectTimeout = 0 \<rparr>"

definition spec_demo :: RunnerSpec where
  "spec_demo = \<lparr>rs_VCPU = 2, rs_MemMiB = 512, rs_RootFS = ''g'', rs_ToolCache = []\<rparr>"

definition end_demo :: vm_end where
  "end_demo = \<lparr>e_wait = Some ExitError, e_ctxErr = False, e_ranFor = 60 * second, e_connectKilled = False,
               e_lifetimeKilled = False\<rparr>"

abbreviation good_host :: host where "good_host \<equiv> \<lambda>_ _. True"

lemmas launch_eval = Launch_def run_net_def run_console_def run_vmm_def prepare_def setupNet_def setup_commands_def
  configure_def buildAPISteps_def give_back_def act_def note_act_def cleanup_def teardownNet_def tapUpCommands_def
  tapDownCommands_def cacheMMDS_def fcToolCachePath_def toolCacheImage_def reflink_def launch_result_def
  classifyLaunchExit_def minBootRuntime_def acquire_def release_def Let_def

lemma fc_demo_fields: "f_NetNS fc_demo = False" "f_Jailer fc_demo = False" "f_hasJobs fc_demo = True"
  "f_CachePort fc_demo = 0" "f_CacheURL fc_demo = []" "f_ToolCacheImage fc_demo = []"
  by (simp_all add: fc_demo_def with_defaults_def)

section \<open>Properties\<close>

lemma Launch_parts:
  assumes "Launch h cfg pool name jit spec e = (res, pool', l)" "acquire pool = (Some slot, p)"
  obtains bs reg where "(pool', l) = give_back h name slot reg p bs" "reg \<longrightarrow> f_hasJobs cfg"
    "no_start bs \<or> (\<exists>A argv B. bs = A @ StartVMM argv # B @ cleanup_acts cfg name @ [CloseConsole]
          @ teardown_acts cfg (slotNet slot (f_TapPrefix cfg) (f_NetBase cfg)) \<and>
        no_start A \<and> no_start B \<and> (h A (StartVMM argv) \<longrightarrow> ReapVMM \<in> set B))"
proof -
  let ?vnet = "slotNet slot (f_TapPrefix cfg) (f_NetBase cfg)"
  obtain ok l0 where r: "(if f_hasJobs cfg then act h (Register name (n_guestIP ?vnet)) [] else (True, [])) = (ok, l0)"
    by fastforce
  have l0: "no_start l0" using r by (auto simp: act_def no_start_def split: if_splits)
  show ?thesis
  proof (cases ok)
    case False
    with assms r have "(pool', l) = give_back h name slot False p l0" by (simp add: Launch_def Let_def)
    with l0 show ?thesis by (intro that [of False l0]) simp_all
  next
    case True
    obtain res2 l1 where n: "run_net h cfg name ?vnet jit spec e l0 = (res2, l1)" by fastforce
    have g: "(pool', l) = give_back h name slot (f_hasJobs cfg) p l1"
      using assms r True n by (simp add: Launch_def Let_def)
    obtain bs where bs: "l1 = l0 @ bs" "no_start bs \<or>
     (\<exists>A argv B. bs = A @ StartVMM argv # B @ cleanup_acts cfg name @ [CloseConsole] @ teardown_acts cfg ?vnet \<and>
        no_start A \<and> no_start B \<and> (h (l0 @ A) (StartVMM argv) \<longrightarrow> ReapVMM \<in> set B))"
      using run_net_log [OF n] by blast
    from bs(2) show ?thesis
    proof
      assume "no_start bs"
      with g l0 bs(1) show ?thesis by (intro that [of "f_hasJobs cfg" l1]) simp_all
    next
      assume "\<exists>A argv B. bs = A @ StartVMM argv # B @ cleanup_acts cfg name @ [CloseConsole] @ teardown_acts cfg ?vnet \<and>
        no_start A \<and> no_start B \<and> (h (l0 @ A) (StartVMM argv) \<longrightarrow> ReapVMM \<in> set B)"
      then obtain A argv B where ab: "bs = A @ StartVMM argv # B @ cleanup_acts cfg name @ [CloseConsole] @ teardown_acts cfg ?vnet"
        "no_start A" "no_start B" "h (l0 @ A) (StartVMM argv) \<longrightarrow> ReapVMM \<in> set B" by blast
      have "l1 = (l0 @ A) @ StartVMM argv # B @ cleanup_acts cfg name @ [CloseConsole] @ teardown_acts cfg ?vnet"
        using bs(1) ab(1) by simp
      moreover have "no_start (l0 @ A)" using l0 ab(2) by simp
      ultimately show ?thesis using g ab(3,4) by (intro that [of "f_hasJobs cfg" l1]) blast+
    qed
  qed
qed

text \<open>
  \<open>Launch\<close> gives its slot back as its last act, on every path; the one exception is a VM whose
  identity could not be revoked, whose slot (and so whose address) is never handed out again.
\<close>

theorem launch_gives_back:
  assumes "Launch h cfg pool name jit spec e = (res, pool', l)" "acquire pool = (Some slot, p)"
  shows "(pool' = release slot p \<and> (\<exists>l0. l = l0 @ [ReleaseSlot slot])) \<or>
         (pool' = p \<and> f_hasJobs cfg \<and> (\<exists>l0. l = l0 @ [ReleaseJob name] \<and> \<not> h l0 (ReleaseJob name)))"
  by (rule Launch_parts [OF assms])
     (auto simp: give_back_def act_def note_act_def split: if_splits bool.splits)

lemma launch_gives_back_witness:
  "fst (snd (Launch good_host fc_demo [0, 1] ''r'' ''j'' spec_demo end_demo)) = [0, 1]"
proof -
  obtain res pool' l where e: "Launch good_host fc_demo [0, 1] ''r'' ''j'' spec_demo end_demo = (res, pool', l)"
    by (metis prod_cases3)
  have "acquire [0, 1] = (Some 1, [0])" by (simp add: acquire_def)
  from launch_gives_back [OF e this] have "pool' = [0, 1]" by (auto simp: release_def)
  with e show ?thesis by simp
qed

text \<open>
  C9.  Nothing outlives a launch: once the VMM was started it is reaped, its staged files are removed,
  the console is closed and the VM's network torn down, in this order and whatever failed in
  between; only then is the VM's identity revoked and the slot returned.
\<close>

theorem launch_cleans_up:
  assumes "Launch h cfg pool name jit spec e = (res, pool', l)" "acquire pool = (Some slot, p)"
    and "StartVMM argv \<in> set l"
  shows "\<exists>A B G. l = A @ StartVMM argv # B @ cleanup_acts cfg name @ [CloseConsole]
             @ teardown_acts cfg (slotNet slot (f_TapPrefix cfg) (f_NetBase cfg)) @ G \<and>
           no_start A \<and> no_start B \<and> (h A (StartVMM argv) \<longrightarrow> ReapVMM \<in> set B) \<and>
           G \<in> {[ReleaseSlot slot], [ReleaseJob name], [ReleaseJob name, ReleaseSlot slot]}"
proof (rule Launch_parts [OF assms(1,2)])
  fix bs reg
  let ?vnet = "slotNet slot (f_TapPrefix cfg) (f_NetBase cfg)"
  assume g: "(pool', l) = give_back h name slot reg p bs" and "reg \<longrightarrow> f_hasJobs cfg"
    and bs: "no_start bs \<or> (\<exists>A argv B. bs = A @ StartVMM argv # B @ cleanup_acts cfg name @ [CloseConsole]
          @ teardown_acts cfg ?vnet \<and> no_start A \<and> no_start B \<and> (h A (StartVMM argv) \<longrightarrow> ReapVMM \<in> set B))"
  obtain G where G: "l = bs @ G" "G \<in> {[ReleaseSlot slot], [ReleaseJob name], [ReleaseJob name, ReleaseSlot slot]}"
    using g by (auto simp: give_back_def act_def note_act_def split: if_splits bool.splits)
  have st: "StartVMM argv \<in> set bs" using assms(3) G by auto
  then have "\<not> no_start bs" by (auto simp: no_start_def)
  with bs obtain A argv' B where ab: "bs = A @ StartVMM argv' # B @ cleanup_acts cfg name @ [CloseConsole]
          @ teardown_acts cfg ?vnet" "no_start A" "no_start B" "h A (StartVMM argv') \<longrightarrow> ReapVMM \<in> set B" by blast
  have "no_start (cleanup_acts cfg name)" "no_start (teardown_acts cfg ?vnet)"
    by (auto simp: no_start_def cleanup_acts_def teardown_acts_def Let_def)
  with st ab(1-3) have "argv' = argv" by (auto simp: no_start_def)
  have "l = A @ StartVMM argv # B @ cleanup_acts cfg name @ [CloseConsole] @ teardown_acts cfg ?vnet @ G"
    using G(1) ab(1) \<open>argv' = argv\<close> by simp
  with ab(2-4) G(2) \<open>argv' = argv\<close> show ?thesis by blast
qed

lemma launch_cleans_up_witness:
  "\<exists>A B G. snd (snd (Launch good_host fc_demo [0] ''r'' ''j'' spec_demo end_demo))
      = A @ StartVMM [f_Binary fc_demo, ''--api-sock'', ''w/r/fc.sock'', ''--id'', ''r''] # B @ G \<and> ReapVMM \<in> set B"
proof -
  have w: "f_WorkDir fc_demo = ''w''" by (simp add: fc_demo_def with_defaults_def or_default_def)
  have p: "path_join [path_join [''w'', ''r''], ''fc.sock''] = ''w/r/fc.sock''" by (simp add: path_join_def)
  let ?argv = "[f_Binary fc_demo, ''--api-sock'', ''w/r/fc.sock'', ''--id'', ''r'']"
  obtain res pool' l where e: "Launch good_host fc_demo [0] ''r'' ''j'' spec_demo end_demo = (res, pool', l)"
    by (metis prod_cases3)
  have "StartVMM ?argv \<in> set l"
    using e by (auto simp: launch_eval fc_demo_fields w p spec_demo_def)
  moreover have "acquire [0] = (Some 0, [])" by (simp add: acquire_def)
  ultimately obtain A B G where "l = A @ StartVMM ?argv # B @ G" "ReapVMM \<in> set B"
    using launch_cleans_up [OF e] by blast
  with e show ?thesis by auto
qed

text \<open>
  The guest starts last and with its secret in place: the configuration's API calls end with the
  MMDS data, which carries the runner's JIT configuration, and \<open>InstanceStart\<close>, the only action; and
  the start is attempted only if the host accepted every call before it.
\<close>

theorem instance_starts_last:
  assumes "configure h cfg kimg rootfs toolcache n bootArgs jit spec l = (ok, l')" "PutAPI ''/actions'' \<in> set (drop (length l) l')"
  shows "\<exists>pre more. buildAPISteps kimg bootArgs rootfs toolcache (n_tap n) (n_guestMAC n) jit (cacheMMDS cfg) spec =
            pre @ [(''/mmds'', JObj ((''jitconfig'', JStr jit) # more)), (''/actions'', JObj [(''action_type'', JStr ''InstanceStart'')])] \<and>
          ''/actions'' \<notin> fst ` set pre \<and> ''/mmds'' \<notin> fst ` set pre \<and>
          l' = l @ map (PutAPI \<circ> fst) pre @ [PutAPI ''/mmds'', PutAPI ''/actions''] \<and>
          (\<forall>i \<le> length pre. h (take (length l + i) l') (l' ! (length l + i)))"
proof -
  obtain pre more where b: "buildAPISteps kimg bootArgs rootfs toolcache (n_tap n) (n_guestMAC n) jit (cacheMMDS cfg) spec =
      pre @ [(''/mmds'', JObj ((''jitconfig'', JStr jit) # more)), (''/actions'', JObj [(''action_type'', JStr ''InstanceStart'')])]"
    "''/actions'' \<notin> fst ` set pre" "''/mmds'' \<notin> fst ` set pre"
    by (cases "toolcache = []") (force simp: buildAPISteps_def)+
  let ?as = "map (PutAPI \<circ> fst) pre @ [PutAPI ''/mmds'', PutAPI ''/actions'']"
  have "acts h ?as l = (ok, l')" using assms(1) b(1) by (simp add: configure_def)
  from acts_log [OF this] obtain bs cs where bs: "l' = l @ bs" "?as = bs @ cs" "ok \<longrightarrow> cs = []"
    "\<forall>i. i < length bs - 1 \<longrightarrow> h (l @ take i bs) (bs ! i)" by blast
  have "PutAPI ''/actions'' \<in> set bs" using assms(2) bs(1) by simp
  have "cs = []"
  proof (rule ccontr)
    assume "cs \<noteq> []"
    then have "set bs \<subseteq> set (butlast ?as)" using bs(2) by (simp add: butlast_append)
    with \<open>PutAPI ''/actions'' \<in> set bs\<close> b(2) show False by (auto simp: butlast_append image_iff)
  qed
  then have bs': "bs = ?as" using bs(2) by simp
  have "h (take (length l + i) l') (l' ! (length l + i))" if "i \<le> length pre" for i
    using bs(4) that by (simp add: bs(1) bs' nth_append)
  with b bs(1) bs' show ?thesis by blast
qed

lemma instance_starts_last_witness:
  "PutAPI ''/actions'' \<in> set (snd (configure good_host fc_demo ''k'' ''r'' [] (slotNet 0 ''fr'' 16) ''b'' ''j'' spec_demo []))"
proof -
  obtain ok l where e: "configure good_host fc_demo ''k'' ''r'' [] (slotNet 0 ''fr'' 16) ''b'' ''j'' spec_demo [] = (ok, l)" by fastforce
  then have "PutAPI ''/actions'' \<in> set (drop (length []) l)"
    by (auto simp: launch_eval fc_demo_fields)
  from instance_starts_last [OF e this] e show ?thesis by auto
qed

text \<open>
  C10.  The console scanner is exact: however the console output is cut into writes, the callback fires
  exactly once if a marker occurs anywhere in the output, and never otherwise.
\<close>

theorem detector_exact:
  assumes "[] \<notin> set markers"
  shows "snd (detector_feed chunks (newMarkerDetector markers)) =
         of_bool (\<exists>m \<in> set markers. contains (concat chunks) m)"
proof -
  have "scanned markers (d_keep (newMarkerDetector markers)) [] (newMarkerDetector markers)"
    using assms by (auto simp: scanned_def newMarkerDetector_def)
  moreover have "\<forall>m \<in> set markers. length m - 1 \<le> d_keep (newMarkerDetector markers)"
    using keep_fold [of 0 markers] by (simp add: newMarkerDetector_def)
  ultimately show ?thesis using feed_scanned [OF _ assms] by force
qed

lemma detector_exact_witness:
  "snd (detector_feed [''xxRunning j'', ''ob: b'', ''Running job: c''] newBusyDetector) = 1"
proof -
  have "contains (concat [''xxRunning j'', ''ob: b'', ''Running job: c'']) busyMarker" by code_simp
  moreover have "[] \<notin> set [busyMarker]" by (simp add: busyMarker_def)
  ultimately show ?thesis
    using detector_exact [of "[busyMarker]" "[''xxRunning j'', ''ob: b'', ''Running job: c'']"]
    by (simp add: newBusyDetector_def)
qed

text \<open>
  The connect watchdog kills at most once, and never a VM that has connected or whose launch is
  unwinding: in every reachable state the recorded kill is exactly the number of kills, and once the
  runner connected or the watchdog was stopped no later step kills, a timer that already fired
  notwithstanding.
\<close>

theorem watchdog_kills_once:
  assumes "reach (\<lambda>w. w = new_watchdog) wd_step w" "wd_step lab w w'"
  shows "wd_kills w = of_bool (wd_didKill w) \<and> wd_kills w' \<le> 1 \<and>
         (wd_connected w \<or> wd_stopped w \<longrightarrow>
            wd_kills w' = wd_kills w \<and> (wd_connected w' \<or> wd_stopped w'))"
proof -
  have ok: "wd_ok w" "wd_ok w'" using watchdog.reach_inv_step [OF assms] by simp_all
  have "wd_connected w \<or> wd_stopped w \<Longrightarrow> wd_kills w' = wd_kills w \<and> (wd_connected w' \<or> wd_stopped w')"
    using assms(2) by (auto simp: wd_arm_def wd_callback_def wd_markConnected_def wd_stop_def Let_def elim: wd_stepE)
  with ok show ?thesis by (auto simp: wd_ok_def wd_didKill_def)
qed

lemma watchdog_kills_once_witness:
  "wd_kills (wd_stop (wd_arm 5 new_watchdog)) = 0 \<and> wd_kills (wd_callback (wd_stop (wd_arm 5 new_watchdog))) = 0"
proof -
  have s: "wd_step (Arm 5) new_watchdog (wd_arm 5 new_watchdog)"
    "wd_step StopWatchdog (wd_arm 5 new_watchdog) (wd_stop (wd_arm 5 new_watchdog))"
    by (rule wd_step.intros)+
  have "reach (\<lambda>w. w = new_watchdog) wd_step new_watchdog" by (rule reach_init) simp
  then have "reach (\<lambda>w. w = new_watchdog) wd_step (wd_arm 5 new_watchdog)" using s(1) by (rule reach_step)
  then have r: "reach (\<lambda>w. w = new_watchdog) wd_step (wd_stop (wd_arm 5 new_watchdog))" using s(2) by (rule reach_step)
  have "wd_step Callback (wd_stop (wd_arm 5 new_watchdog)) (wd_callback (wd_stop (wd_arm 5 new_watchdog)))"
    by (rule wd_step.intros) (simp_all add: wd_stop_def wd_arm_def new_watchdog_def)
  from watchdog_kills_once [OF r this] show ?thesis
    by (simp add: wd_stop_def wd_arm_def new_watchdog_def wd_didKill_def)
qed

text \<open>
  A launch reports success, so that the scheduler does not back off, exactly when the connect
  watchdog did not kill the VM and it was killed for its lifetime, or ended cleanly, or was cancelled
  by us, or exited non-zero after at least three seconds (the guest's reboot).
\<close>

theorem launch_success_iff:
  "launch_result e = None \<longleftrightarrow>
     \<not> e_connectKilled e \<and>
     (e_lifetimeKilled e \<or> e_wait e = None \<or> e_ctxErr e \<or>
      (e_wait e = Some ExitError \<and> 3 * second \<le> e_ranFor e))"
  by (auto simp: launch_result_def classifyLaunchExit_def minBootRuntime_def
      split: option.splits wait_error.splits if_splits)

text \<open>
  Changing the cache port to one whose decimal digits begin the old port's has no effect on the
  host's INPUT chain: the rule left for the old port is taken for the current one, so it is not
  removed and no rule for the new port is inserted.
\<close>

theorem cache_port_prefix_kept:
  assumes "f_CachePort cfg \<noteq> 0" "show_int old = show_int (f_CachePort cfg) @ digits"
    and "out l [''nft'', ''-a'', ''list'', ''chain'', ''ip'', ''filter'', ''INPUT''] = Some line"
    and "line = before @ quoted (cacheInputComment (f_TapPrefix cfg) old) @ after" "CHR 0x0A \<notin> set line"
    and "\<not> contains line (quoted (''firerunner-cache-'' @ f_TapPrefix cfg))"
  shows "ensureHostCacheInput h out cfg l = (True, l @ [RunOut [''nft'', ''-a'', ''list'', ''chain'', ''ip'', ''filter'', ''INPUT'']])"
proof -
  have "line = (before @ dq) @ cacheInputComment (f_TapPrefix cfg) (f_CachePort cfg) @ (digits @ dq @ after)"
    by (simp add: assms(4) quoted_def cacheInputComment_def assms(2))
  then have c: "contains line (cacheInputComment (f_TapPrefix cfg) (f_CachePort cfg))"
    unfolding sublist_def by blast
  have "split_on (CHR 0x0A) line = [line]" using assms(5) by (rule split_on_none)
  moreover have "\<not> stale_line cfg line" using c assms(6) by (simp add: stale_line_def)
  ultimately have "removeStaleCacheInput h cfg line l' = (True, l')" for l'
    by (simp add: removeStaleCacheInput_def)
  with assms(1,3) c show ?thesis by (simp add: ensureHostCacheInput_def Let_def)
qed

lemma cache_port_prefix_kept_witness:
  "ensureHostCacheInput good_host
     (\<lambda>_ _. Some (''comment '' @ quoted ''firerunner-cache-fr-8080'' @ '' #''))
     (fc_demo\<lparr>f_TapPrefix := ''fr'', f_CachePort := 80\<rparr>) []
   = (True, [RunOut [''nft'', ''-a'', ''list'', ''chain'', ''ip'', ''filter'', ''INPUT'']])"
proof -
  let ?cfg = "fc_demo\<lparr>f_TapPrefix := ''fr'', f_CachePort := 80\<rparr>"
  have d: "show_int 80 = ''80''" "show_int 8080 = ''80'' @ ''80''" by (simp_all add: show_eval)
  have n: "CHR 0x0A \<notin> set (''comment '' @ quoted ''firerunner-cache-fr-8080'' @ '' #'')"
    by (simp add: quoted_def dq_def)
  have s: "\<not> contains (''comment '' @ quoted ''firerunner-cache-fr-8080'' @ '' #'')
            (quoted (''firerunner-cache-'' @ ''fr''))"
    by (simp only: quoted_def dq_def append_Cons append_Nil sublist_code) simp
  show ?thesis
    using cache_port_prefix_kept [of ?cfg 8080 "''80''"
        "\<lambda>_ _. Some (''comment '' @ quoted ''firerunner-cache-fr-8080'' @ '' #'')" "[]"
        "''comment '' @ quoted ''firerunner-cache-fr-8080'' @ '' #''"
        "''comment ''" "'' #''" good_host] d n s
    by (simp add: cacheInputComment_def)
qed

text \<open>
  A failed network setup leaks: when a command after the first fails, what the earlier ones
  created (the tap, or the namespace) is not torn down, yet the slot goes back on top of the pool,
  so the next launch draws the same slot and meets the leftover device.
\<close>

theorem failed_setup_leaks:
  assumes "acquire pool = (Some slot, p)" "\<not> f_hasJobs cfg"
    and "setup_commands cfg (slotNet slot (f_TapPrefix cfg) (f_NetBase cfg)) = c1 # c2 # cs"
    and "h [] SetupNetworkOnce" "h [SetupNetworkOnce] (Run c1)" "\<not> h [SetupNetworkOnce, Run c1] (Run c2)"
  shows "Launch h cfg pool name jit spec e =
           (Some NetworkFailed, pool, [SetupNetworkOnce, Run c1, Run c2, ReleaseSlot slot])"
proof -
  have "release slot p = pool" using assms(1) by (simp add: acquire_Some release_def)
  with assms show ?thesis
    by (simp add: Launch_def run_net_def setupNet_def give_back_def act_def note_act_def Let_def)
qed

lemma failed_setup_leaks_witness:
  "Launch (\<lambda>l a. length l < 2) (fc_demo\<lparr>f_hasJobs := False\<rparr>) [0, 1] ''r'' ''j'' spec_demo end_demo =
     (Some NetworkFailed, [0, 1],
      [SetupNetworkOnce, Run [''ip'', ''tuntap'', ''add'', ''dev'', ''fr1'', ''mode'', ''tap''],
       Run [''ip'', ''addr'', ''add'', ''172.16.1.1/30'', ''dev'', ''fr1''], ReleaseSlot 1])"
proof -
  have d: "show_nat (Suc 0) = ''1''" "show_nat 16 = ''16''" by code_simp+
  have f: "f_TapPrefix fc_demo = ''fr''" "f_NetBase fc_demo = 16"
    by (simp_all add: fc_demo_def with_defaults_def or_default_def)
  show ?thesis
    using failed_setup_leaks [of "[0, 1]" 1 "[0]" "fc_demo\<lparr>f_hasJobs := False\<rparr>", where h = "\<lambda>l a. length l < 2"]
    by (simp add: acquire_def setup_commands_def fc_demo_fields tapUpCommands_def slotNet_def f d)
qed

end
