(* ===== verification/JobIdentity.thy ===== *)
theory JobIdentity
  imports Egress
begin

text \<open>
  The job records of \<open>internal/jobidentity/identity.go\<close>: which repository and refs the job of a VM may
  read and write, the checks a record must pass, and the reader a cache server looks records up with.

  The reader's view of the file system is an argument: what \<open>Lstat\<close> answers for the directory and for
  a path, and what opening the path and \<open>Stat\<close> on the descriptor give, which may be another file.  A
  file's content is the record it decodes to, or nothing when it does not decode.  Of the spellings of
  an IPv4-mapped address \<open>netip.ParseAddr\<close> takes, the dotted one is modelled.
\<close>

unbundle bit_operations_syntax

section \<open>Records\<close>

record Job =
  jWorkflowRef :: string
  jRunner :: string
  jRepository :: string
  jEvent :: string
  jRunID :: int
  jJobID :: string

record Identity =
  IP :: string
  Runner :: string
  Generation :: string
  Repository :: string
  Event :: string
  WriteRef :: string
  ReadRefs :: "string list"
  Fork :: bool
  RunID :: int
  JobID :: string
  ExpiresAt :: int
  Unresolved :: bool

definition noIdentity :: Identity where
  "noIdentity =
     \<lparr>IP = [], Runner = [], Generation = [], Repository = [], Event = [], WriteRef = [], ReadRefs = [],
      Fork = False, RunID = 0, JobID = [], ExpiresAt = 0, Unresolved = False\<rparr>"

definition badRefChars :: string where
  "badRefChars =
     [CHR 0x00, CHR 0x0D, CHR 0x0A, CHR '' '', CHR 0x5C, CHR ''~'', CHR 0x5E, CHR '':'', CHR ''?'',
      CHR ''*'', CHR ''['']"

definition ValidRef :: "string \<Rightarrow> bool" where
  "ValidRef ref \<longleftrightarrow>
     (has_prefix ref ''refs/heads/'' \<or> has_prefix ref ''refs/tags/'' \<or> has_prefix ref ''refs/pull/'') \<and>
     length ref \<le> 1024 \<and> \<not> has_suffix ref ''/'' \<and> \<not> contains_any ref badRefChars \<and>
     \<not> contains ref ''..'' \<and> \<not> contains ref ''//'' \<and> \<not> contains ref [CHR ''@'', CHR 0x7B]"

definition repoChar :: "char \<Rightarrow> bool" where
  "repoChar c \<longleftrightarrow>
     (let n = (of_char c :: nat) in
      (97 \<le> n \<and> n \<le> 122) \<or> (65 \<le> n \<and> n \<le> 90) \<or> (48 \<le> n \<and> n \<le> 57) \<or>
      c = CHR ''-'' \<or> c = CHR ''_'' \<or> c = CHR ''.'')"

definition ValidRepository :: "string \<Rightarrow> bool" where
  "ValidRepository repo \<longleftrightarrow>
     (let p = split_on CHR ''/'' repo in
      length p = 2 \<and>
      list_all (\<lambda>s. s \<noteq> '''' \<and> s \<noteq> ''.'' \<and> s \<noteq> ''..'' \<and> list_all repoChar s) p)"

datatype identity_error =
    UnresolvedJob | MissingOrExpired | InvalidWriteRef | InvalidReadRefs | InvalidReadRef | NotOwnScope
  | InvalidAddress | NoDirectory | DirNotPrivate | NoRecord | RecordNotPrivate | RecordChanged
  | BadRecord | AddressMismatch

definition Validate :: "Identity \<Rightarrow> time \<Rightarrow> identity_error option" where
  "Validate i now =
     (if Unresolved i then Some UnresolvedJob
      else if \<not> ValidRepository (Repository i) \<or> Runner i = [] \<or> Generation i = [] \<or> JobID i = [] \<or>
        RunID i \<le> 0 \<or> ExpiresAt i \<le> unix now then Some MissingOrExpired
      else if WriteRef i \<noteq> [] \<and> \<not> ValidRef (WriteRef i) then Some InvalidWriteRef
      else if ReadRefs i = [] \<or> length (ReadRefs i) > 3 then Some InvalidReadRefs
      else if \<not> list_all ValidRef (ReadRefs i) then Some InvalidReadRef
      else if WriteRef i \<noteq> [] \<and> ReadRefs i ! 0 \<noteq> WriteRef i then Some NotOwnScope
      else None)"

definition Pending :: "Identity \<Rightarrow> time \<Rightarrow> bool" where
  "Pending i now \<longleftrightarrow>
     Generation i \<noteq> [] \<and> \<not> Unresolved i \<and> ExpiresAt i > unix now \<and> WriteRef i = [] \<and> ReadRefs i = []"

definition CanRead :: "Identity \<Rightarrow> string \<Rightarrow> bool" where
  "CanRead i ref \<longleftrightarrow> ref \<noteq> [] \<and> list_ex (\<lambda>allowed. ref = allowed) (ReadRefs i)"

text \<open>The rights of a record: what a cache server can grant on it.\<close>

definition has_rights :: "Identity \<Rightarrow> bool" where
  "has_rights i \<longleftrightarrow> WriteRef i \<noteq> [] \<or> ReadRefs i \<noteq> []"

section \<open>The reader\<close>

datatype file_kind = Directory | RegularFile | OtherFile

record file_stat =
  fkind :: file_kind
  fuid :: int
  fperm :: nat

record job_view =
  dir_stat :: "file_stat option"
  rec_stat :: "string \<Rightarrow> file_stat option"
  rec_open :: "string \<Rightarrow> (file_stat \<times> bool \<times> Identity option) option"

definition trusted :: "int \<Rightarrow> file_stat \<Rightarrow> bool" where
  "trusted uid st \<longleftrightarrow> fuid st = uid \<and> fperm st AND 23 = 0"

definition Check :: "int \<Rightarrow> file_stat option \<Rightarrow> bool \<Rightarrow> bool \<Rightarrow> bool" where
  "Check uid st access list_ok \<longleftrightarrow>
     (case st of None \<Rightarrow> False | Some d \<Rightarrow> fkind d = Directory \<and> trusted uid d \<and> access \<and> list_ok)"

text \<open>\<open>ParseAddr\<close>, \<open>Unmap().Is4()\<close> and \<open>Unmap().String()\<close>.\<close>

definition unmap4 :: "string \<Rightarrow> string option" where
  "unmap4 s =
     (let t = (if has_prefix (to_lower s) ''::ffff:'' then drop 7 s else s) in
      map_option (\<lambda>_. t) (parse_addr4 t))"

definition record_path :: "string \<Rightarrow> string" where
  "record_path ip = ip @ ''.json''"

text \<open>The record comes back with an error too: a pending lease keeps its trusted generation.\<close>

definition Lookup :: "int \<Rightarrow> job_view \<Rightarrow> time \<Rightarrow> string \<Rightarrow> Identity \<times> identity_error option" where
  "Lookup uid v now host =
     (case unmap4 host of
        None \<Rightarrow> (noIdentity, Some InvalidAddress)
      | Some ip \<Rightarrow>
      (case dir_stat v of
         None \<Rightarrow> (noIdentity, Some NoDirectory)
       | Some d \<Rightarrow>
         if fkind d \<noteq> Directory \<or> \<not> trusted uid d then (noIdentity, Some DirNotPrivate) else
      (case rec_stat v (record_path ip) of
         None \<Rightarrow> (noIdentity, Some NoRecord)
       | Some st \<Rightarrow>
         if fkind st \<noteq> RegularFile \<or> \<not> trusted uid st then (noIdentity, Some RecordNotPrivate) else
      (case rec_open v (record_path ip) of
         None \<Rightarrow> (noIdentity, Some NoRecord)
       | Some (opened, same, content) \<Rightarrow>
         if \<not> same \<or> \<not> trusted uid opened then (noIdentity, Some RecordChanged) else
      (case content of
         None \<Rightarrow> (noIdentity, Some BadRecord)
       | Some i \<Rightarrow>
         if IP i \<noteq> ip then (noIdentity, Some AddressMismatch)
         else (i, Validate i now))))))"

section \<open>What the checks give\<close>

lemma Validate_None:
  "Validate i now = None \<longleftrightarrow>
     \<not> Unresolved i \<and> ValidRepository (Repository i) \<and> Runner i \<noteq> [] \<and> Generation i \<noteq> [] \<and>
     JobID i \<noteq> [] \<and> 0 < RunID i \<and> unix now < ExpiresAt i \<and>
     ReadRefs i \<noteq> [] \<and> length (ReadRefs i) \<le> 3 \<and> list_all ValidRef (ReadRefs i) \<and>
     (WriteRef i \<noteq> [] \<longrightarrow> ValidRef (WriteRef i) \<and> ReadRefs i ! 0 = WriteRef i)"
  by (auto simp: Validate_def)

lemma Pending_not_valid: "Pending i now \<Longrightarrow> Validate i now \<noteq> None"
  by (simp add: Pending_def Validate_None)

lemma valid_writes_own_scope:
  "Validate i now = None \<Longrightarrow> WriteRef i \<noteq> [] \<Longrightarrow> CanRead i (WriteRef i)"
  by (auto simp: Validate_None CanRead_def list_ex_iff in_set_conv_nth)

lemma CanRead_iff: "CanRead i ref \<longleftrightarrow> ref \<noteq> [] \<and> ref \<in> set (ReadRefs i)"
  by (auto simp: CanRead_def list_ex_iff)

lemma noIdentity_rights [simp]:
  "Generation noIdentity = []" "WriteRef noIdentity = []" "ReadRefs noIdentity = []"
  "\<not> Unresolved noIdentity"   "Repository noIdentity = []" "\<not> CanRead noIdentity ref" "\<not> has_rights noIdentity"
  by (simp_all add: noIdentity_def CanRead_def has_rights_def)

lemma Lookup_cases:
  assumes "Lookup uid v now host = (i, e)"
  obtains "i = noIdentity" "e \<noteq> None"
  | ip d st opened where "unmap4 host = Some ip" "dir_stat v = Some d" "fkind d = Directory"
      "trusted uid d" "rec_stat v (record_path ip) = Some st" "fkind st = RegularFile" "trusted uid st"
      "rec_open v (record_path ip) = Some (opened, True, Some i)" "trusted uid opened" "IP i = ip"
      "e = Validate i now"
  using assms unfolding Lookup_def
  by (auto split: option.splits if_splits prod.splits)

text \<open>
  A record with a generation, granted or not, comes from a private regular file of the daemon that is
  the one the path named, and is bound to the address that asked.
\<close>

lemma Lookup_trusted:
  assumes "Lookup uid v now host = (i, e)" "Generation i \<noteq> []"
  shows "unmap4 host = Some (IP i) \<and>
    (\<exists>opened. rec_open v (record_path (IP i)) = Some (opened, True, Some i) \<and> trusted uid opened) \<and>
    e = Validate i now"
  using assms(1)
proof (cases rule: Lookup_cases)
  case 1
  then show ?thesis using assms(2) by simp
qed auto

lemma of_char_lower:
  "(of_char (lower_char c) :: nat) =
     (if 65 \<le> (of_char c :: nat) \<and> (of_char c :: nat) \<le> 90 then of_char c + 32 else of_char c)"
  by (simp add: lower_char_def Let_def)

lemma lower_char_punct:
  assumes "(of_char d :: nat) < 65"
  shows "lower_char c = d \<longleftrightarrow> c = d"
  using of_char_eq_iff [of "lower_char c" d, where 'a = nat] of_char_eq_iff [of c d, where 'a = nat] assms
  by (auto simp: of_char_lower split: if_splits)

lemma lower_char_slash [simp]: "lower_char c = CHR ''/'' \<longleftrightarrow> c = CHR ''/''"
  by (rule lower_char_punct) simp

lemma lower_char_dot [simp]: "lower_char c = CHR ''.'' \<longleftrightarrow> c = CHR ''.''"
  by (rule lower_char_punct) simp

lemma lower_char_dash [simp]: "lower_char c = CHR ''-'' \<longleftrightarrow> c = CHR ''-''"
  by (rule lower_char_punct) simp

lemma lower_char_id: "\<not> (65 \<le> (of_char c :: nat) \<and> (of_char c :: nat) \<le> 90) \<Longrightarrow> lower_char c = c"
  by (auto simp: lower_char_def Let_def)

lemma repoChar_lower: "repoChar c \<Longrightarrow> repoChar (lower_char c)"
  by (cases "65 \<le> (of_char c :: nat) \<and> (of_char c :: nat) \<le> 90")
    (simp add: repoChar_def Let_def of_char_lower, simp add: lower_char_id)

lemma split_on_lower: "split_on CHR ''/'' (to_lower s) = map to_lower (split_on CHR ''/'' s)"
  by (induction s) (auto simp: to_lower_def lower_char_slash split: list.splits)

lemma to_lower_idem [simp]: "to_lower (to_lower s) = to_lower s"
  by (simp add: to_lower_def) (simp add: lower_char_def Let_def)

lemma to_lower_dots [simp]:
  "to_lower s = [] \<longleftrightarrow> s = []" "to_lower s = ''.'' \<longleftrightarrow> s = ''.''" "to_lower s = ''..'' \<longleftrightarrow> s = ''..''"
  by (auto simp: to_lower_def map_eq_Cons_conv)

lemma repoChars_lower: "list_all repoChar s \<Longrightarrow> list_all repoChar (to_lower s)"
  by (simp add: to_lower_def list.pred_map o_def list_all_iff repoChar_lower)

lemma ValidRepository_lower:
  assumes "ValidRepository r"
  shows "ValidRepository (to_lower r)"
proof -
  have "list_all (\<lambda>s. s \<noteq> [] \<and> s \<noteq> ''.'' \<and> s \<noteq> ''..'' \<and> list_all repoChar s)
      (map to_lower (split_on CHR ''/'' r))"
    using assms unfolding ValidRepository_def Let_def list.pred_map o_def to_lower_dots
    by (auto elim!: list.pred_mono_strong intro: repoChars_lower simp del: to_lower_dots)
  with assms show ?thesis
    by (simp add: ValidRepository_def Let_def split_on_lower)
qed

end
