(* ===== verification/Registry.thy ===== *)
theory Registry
  imports JobIdentity
begin

text \<open>
  The daemon's registry of job records (\<open>internal/jobidentity/registry.go\<close>): one lease per VM, one
  record file per address.  Every operation holds the registry's mutex, so each is one step; the
  goroutine \<open>Start\<close> spawns takes its second step (\<open>resolved\<close>) when the resolver has answered.

  The \<open>files\<close> field is the directory, by address.  Writes are atomic (a temporary file renamed over the
  record) and may fail; whether each succeeds is an argument.  \<open>lptr\<close> stands for the identity of a
  \<open>*lease\<close> pointer, \<open>lcancel\<close> for the cancel function together with the job its goroutine resolves.
\<close>

section \<open>State and operations\<close>

definition leaseTTL :: duration where "leaseTTL = 90 * second"

record lease =
  identity :: Identity
  lcancel :: "Job option"
  lptr :: nat

record Registry =
  leases :: "(string, lease) gomap"
  files :: "(string, Identity) gomap"
  nextptr :: nat
  inflight :: "(nat \<times> Job) list"

definition NewRegistry :: Registry where
  "NewRegistry = \<lparr>leases = [], files = [], nextptr = 0, inflight = []\<rparr>"

definition write_record :: "bool \<Rightarrow> time \<Rightarrow> Identity \<Rightarrow> (string, Identity) gomap \<Rightarrow> (string, Identity) gomap" where
  "write_record ok now i fs =
     (if ok then mput (IP i) (i\<lparr>ExpiresAt := unix (now + leaseTTL)\<rparr>) fs else fs)"

datatype register_error = InvalidVM | RunnerRegistered | AddressRegistered | NoRandomness | WriteFailed

definition Register ::
  "string \<Rightarrow> string \<Rightarrow> string option \<Rightarrow> bool \<Rightarrow> time \<Rightarrow> Registry \<Rightarrow> Registry \<times> register_error option" where
  "Register runner ip rnd ok now r =
     (if parse_addr4 ip = None \<or> runner = [] then (r, Some InvalidVM)
      else if mlookup (leases r) runner \<noteq> None then (r, Some RunnerRegistered)
      else if list_ex (\<lambda>kv. IP (identity (snd kv)) = ip) (leases r) then (r, Some AddressRegistered)
      else (case rnd of
              None \<Rightarrow> (r, Some NoRandomness)
            | Some g \<Rightarrow>
                let i = noIdentity\<lparr>IP := ip, Runner := runner, Generation := g\<rparr> in
                if \<not> ok then (r, Some WriteFailed)
                else (r\<lparr>files := write_record True now i (files r),
                        leases := mput runner \<lparr>identity = i, lcancel = None, lptr = nextptr r\<rparr> (leases r),
                        nextptr := Suc (nextptr r)\<rparr>, None)))"

text \<open>
  The removal's result is an argument; an absent file counts as removed.  The cancellation of the
  lease's context shows in what its goroutine's step is told.
\<close>

definition Release :: "string \<Rightarrow> bool \<Rightarrow> Registry \<Rightarrow> Registry \<times> bool" where
  "Release runner removed r =
     (case mlookup (leases r) runner of
        None \<Rightarrow> (r, True)
      | Some l \<Rightarrow>
          (r\<lparr>leases := mdel runner (leases r),
             files := (if removed then mdel (IP (identity l)) (files r) else files r)\<rparr>,
           removed \<or> mlookup (files r) (IP (identity l)) = None))"

definition Start :: "Job \<Rightarrow> bool \<Rightarrow> time \<Rightarrow> Registry \<Rightarrow> Registry" where
  "Start j ok now r =
     (case mlookup (leases r) (jRunner j) of
        None \<Rightarrow> r
      | Some l \<Rightarrow>
          if lcancel l \<noteq> None then r
          else
            let i = (identity l)\<lparr>Repository := jRepository j, Event := jEvent j,
                                 RunID := jRunID j, JobID := jJobID j\<rparr> in
            r\<lparr>leases := mput (jRunner j) (l\<lparr>identity := i, lcancel := Some j\<rparr>) (leases r),
              files := write_record ok now i (files r),
              inflight := (lptr l, j) # inflight r\<rparr>)"

text \<open>The three attempts: the answer of each, and whether the context is done after it.\<close>

fun attempts :: "(nat \<Rightarrow> Identity option) \<Rightarrow> (nat \<Rightarrow> bool) \<Rightarrow> nat list \<Rightarrow> Identity option" where
  "attempts answer ctx_done [] = None"
| "attempts answer ctx_done (k # ks) =
     (if answer k \<noteq> None \<or> ctx_done k \<or> ks = [] then answer k else attempts answer ctx_done ks)"

text \<open>
  The goroutine's last section.  \<open>expired\<close> is \<open>ctx.Err() \<noteq> nil\<close> at that point; \<open>t1\<close>, \<open>t2\<close>, \<open>t3\<close> are
  the clock at the expiry, the validation and the write; \<open>ok1\<close> and \<open>ok2\<close> the results of the writes.
\<close>

definition granted :: "lease \<Rightarrow> Job \<Rightarrow> time \<Rightarrow> Identity \<Rightarrow> Identity" where
  "granted l j now a =
     a\<lparr>IP := IP (identity l), Runner := jRunner j, Generation := Generation (identity l),
       ExpiresAt := unix (now + leaseTTL)\<rparr>"

definition resolved ::
  "nat \<Rightarrow> Job \<Rightarrow> Identity option \<Rightarrow> bool \<Rightarrow> time \<times> time \<times> time \<Rightarrow> bool \<Rightarrow> bool \<Rightarrow> Registry \<Rightarrow> Registry" where
  "resolved p j answer expired ts ok1 ok2 r =
     (case mlookup (leases r) (jRunner j) of
        None \<Rightarrow> r
      | Some l \<Rightarrow>
          if lptr l \<noteq> p then r
          else
            case ts of (t1, t2, t3) \<Rightarrow>
            let unresolved =
              (let u = (identity l)\<lparr>Unresolved := True\<rparr> in
               r\<lparr>leases := mput (jRunner j) (l\<lparr>identity := u\<rparr>) (leases r),
                 files := write_record ok2 t3 u (files r)\<rparr>) in
            case answer of
              None \<Rightarrow> unresolved
            | Some a \<Rightarrow>
                if expired then unresolved
                else
                  let i = granted l j t1 a in
                  if Validate i t2 = None \<and> ok1
                  then r\<lparr>leases := mput (jRunner j) (l\<lparr>identity := i\<rparr>) (leases r),
                         files := write_record True t3 i (files r)\<rparr>
                  else unresolved)"

fun refresh_files :: "(string \<Rightarrow> bool) \<Rightarrow> time \<Rightarrow> (string, lease) gomap \<Rightarrow> (string, Identity) gomap \<Rightarrow> (string, Identity) gomap" where
  "refresh_files ok now [] fs = fs"
| "refresh_files ok now ((name, l) # ls) fs = refresh_files ok now ls (write_record (ok name) now (identity l) fs)"

definition refresh :: "(string \<Rightarrow> bool) \<Rightarrow> time \<Rightarrow> Registry \<Rightarrow> Registry" where
  "refresh ok now r = r\<lparr>files := refresh_files ok now (leases r) (files r)\<rparr>"

fun close_files :: "(string \<Rightarrow> bool) \<Rightarrow> (string, lease) gomap \<Rightarrow> (string, Identity) gomap \<Rightarrow> (string, Identity) gomap" where
  "close_files removed [] fs = fs"
| "close_files removed ((name, l) # ls) fs =
     close_files removed ls (if removed name then mdel (IP (identity l)) fs else fs)"

definition Close :: "(string \<Rightarrow> bool) \<Rightarrow> Registry \<Rightarrow> Registry" where
  "Close removed r = r\<lparr>files := close_files removed (leases r) (files r), leases := []\<rparr>"

section \<open>The transition system\<close>

text \<open>
  \<open>resolves j i\<close> says that the resolver may answer the record \<open>i\<close> for the job \<open>j\<close>.
\<close>

datatype registry_event =
    RegisterEv string string "string option" bool time
  | ReleaseEv string bool
  | StartEv Job bool time
  | ResolvedEv nat Job "nat \<Rightarrow> Identity option" "nat \<Rightarrow> bool" bool "time \<times> time \<times> time" bool bool
  | RefreshEv "string \<Rightarrow> bool" time
  | CloseEv "string \<Rightarrow> bool"

inductive registry_step ::
  "(Job \<Rightarrow> Identity \<Rightarrow> bool) \<Rightarrow> registry_event \<Rightarrow> Registry \<Rightarrow> Registry \<Rightarrow> bool"
  for resolves :: "Job \<Rightarrow> Identity \<Rightarrow> bool" where
  step_register: "(\<And>g. rnd = Some g \<Longrightarrow> g \<noteq> []) \<Longrightarrow>
     registry_step resolves (RegisterEv runner ip rnd ok now) r (fst (Register runner ip rnd ok now r))"
| step_release: "registry_step resolves (ReleaseEv runner removed) r (fst (Release runner removed r))"
| step_start: "registry_step resolves (StartEv j ok now) r (Start j ok now r)"
| step_resolved: "(p, j) \<in> set (inflight r) \<Longrightarrow>
     (\<And>k i. k < 3 \<Longrightarrow> answer k = Some i \<Longrightarrow> resolves j i) \<Longrightarrow>
     registry_step resolves (ResolvedEv p j answer ctx_done expired ts ok1 ok2) r
       ((resolved p j (attempts answer ctx_done [0, 1, 2]) expired ts ok1 ok2 r)
          \<lparr>inflight := remove1 (p, j) (inflight r)\<rparr>)"
| step_refresh: "registry_step resolves (RefreshEv ok now) r (refresh ok now r)"
| step_close: "registry_step resolves (CloseEv rm) r (Close rm r)"

definition registry_init :: "Registry \<Rightarrow> bool" where
  "registry_init r \<longleftrightarrow> r = NewRegistry"

section \<open>The invariant\<close>

text \<open>A record is \<open>for\<close> a job when it names the job the control plane announced.\<close>

definition for_job :: "Job \<Rightarrow> Identity \<Rightarrow> bool" where
  "for_job j i \<longleftrightarrow> RunID i = jRunID j \<and> JobID i = jJobID j \<and> equal_fold (Repository i) (jRepository j)"

definition file_ok :: "string \<Rightarrow> lease \<Rightarrow> Identity \<Rightarrow> bool" where
  "file_ok n l f \<longleftrightarrow>
     Runner f = n \<and> Generation f = Generation (identity l) \<and>
     (has_rights f \<longrightarrow> (\<exists>j. lcancel l = Some j \<and> for_job j f))"

definition lease_ok :: "string \<Rightarrow> lease \<Rightarrow> bool" where
  "lease_ok n l \<longleftrightarrow>
     n \<noteq> [] \<and> file_ok n l (identity l) \<and> Generation (identity l) \<noteq> [] \<and>
     (\<forall>j. lcancel l = Some j \<longrightarrow> jRunner j = n \<and> for_job j (identity l))"

text \<open>Leases and the records on file under their addresses; addresses and pointers; goroutines.\<close>

definition leases_in_order :: "(string, lease) gomap \<Rightarrow> (string, Identity) gomap \<Rightarrow> nat \<Rightarrow> bool" where
  "leases_in_order ls fs next \<longleftrightarrow>
     (\<forall>n l. mlookup ls n = Some l \<longrightarrow> lease_ok n l \<and> lptr l < next \<and>
        (\<forall>f. mlookup fs (IP (identity l)) = Some f \<longrightarrow> file_ok n l f))"

definition leases_apart :: "(string, lease) gomap \<Rightarrow> bool" where
  "leases_apart ls \<longleftrightarrow>
     (\<forall>n m l k. mlookup ls n = Some l \<longrightarrow> mlookup ls m = Some k \<longrightarrow>
        IP (identity l) = IP (identity k) \<or> lptr l = lptr k \<longrightarrow> n = m)"

definition inflight_ok :: "(nat \<times> Job) list \<Rightarrow> (string, lease) gomap \<Rightarrow> nat \<Rightarrow> bool" where
  "inflight_ok fl ls next \<longleftrightarrow>
     (\<forall>p j. (p, j) \<in> set fl \<longrightarrow> p < next \<and>
        (\<forall>n l. mlookup ls n = Some l \<longrightarrow> lptr l = p \<longrightarrow> lcancel l = Some j))"

definition registry_inv :: "Registry \<Rightarrow> bool" where
  "registry_inv r \<longleftrightarrow>
     wf_map (leases r) \<and> leases_in_order (leases r) (files r) (nextptr r) \<and> leases_apart (leases r) \<and>
     inflight_ok (inflight r) (leases r) (nextptr r)"

text \<open>What the registry relies on: a resolver answers for the job it was asked about.\<close>

locale job_resolver =
  fixes resolves :: "Job \<Rightarrow> Identity \<Rightarrow> bool"
  assumes answers_job: "resolves j i \<Longrightarrow> for_job j i"

lemma attempts_answer: "attempts answer d ks = Some i \<Longrightarrow> \<exists>k \<in> set ks. answer k = Some i"
  by (induction ks) (auto split: if_splits)

lemma mput_cases:
  assumes "mlookup (mput n v m) k = Some u"
  obtains "k = n" "u = v" | "k \<noteq> n" "mlookup m k = Some u"
  using assms by (auto split: if_splits)

text \<open>Replacing the record of one lease, and perhaps its file, by records that are in order.\<close>

lemma leases_in_order_update:
  assumes ord: "leases_in_order ls fs next" and ap: "leases_apart ls" and l: "mlookup ls n = Some l"
    and l': "lease_ok n l'" "lptr l' = lptr l" "IP (identity l') = IP (identity l)"
    and old: "\<And>g. file_ok n l g \<Longrightarrow> file_ok n l' g"
    and f: "fs' = fs \<or> (\<exists>g. fs' = mput (IP (identity l)) g fs \<and> file_ok n l' g)"
  shows "leases_in_order (mput n l' ls) fs' next"
  unfolding leases_in_order_def
proof (intro allI impI)
  fix m k assume "mlookup (mput n l' ls) m = Some k"
  then show "lease_ok m k \<and> lptr k < next \<and> (\<forall>g. mlookup fs' (IP (identity k)) = Some g \<longrightarrow> file_ok m k g)"
  proof (cases rule: mput_cases)
    case 1
    have "lptr l < next" "\<And>g. mlookup fs (IP (identity l)) = Some g \<Longrightarrow> file_ok n l g"
      using ord l unfolding leases_in_order_def by blast+
    with 1 l' old f show ?thesis by auto
  next
    case 2
    have "lease_ok m k" "lptr k < next" "\<And>g. mlookup fs (IP (identity k)) = Some g \<Longrightarrow> file_ok m k g"
      using ord 2 unfolding leases_in_order_def by blast+
    moreover have "IP (identity k) \<noteq> IP (identity l)"
      using ap l 2 unfolding leases_apart_def by metis
    ultimately show ?thesis using f by auto
  qed
qed

lemma leases_apart_update:
  assumes ap: "leases_apart ls" and l: "mlookup ls n = Some l"
    and l': "lptr l' = lptr l" "IP (identity l') = IP (identity l)"
  shows "leases_apart (mput n l' ls)"
  unfolding leases_apart_def
proof (intro allI impI)
  fix a b u v
  assume u: "mlookup (mput n l' ls) a = Some u" and v: "mlookup (mput n l' ls) b = Some v"
    and s: "IP (identity u) = IP (identity v) \<or> lptr u = lptr v"
  obtain u' where u': "mlookup ls a = Some u'" "lptr u' = lptr u" "IP (identity u') = IP (identity u)"
    using u l l' by (cases rule: mput_cases) auto
  obtain v' where v': "mlookup ls b = Some v'" "lptr v' = lptr v" "IP (identity v') = IP (identity v)"
    using v l l' by (cases rule: mput_cases) auto
  from ap u' v' s show "a = b" unfolding leases_apart_def by metis
qed

lemma inflight_ok_update:
  assumes fl: "inflight_ok fl ls next" and ord: "leases_in_order ls fs next" and ap: "leases_apart ls"
    and l: "mlookup ls n = Some l" and l': "lptr l' = lptr l"
    and c: "lcancel l' = lcancel l \<or> lcancel l = None"
    and new: "\<And>p j. (p, j) \<in> set fl' \<Longrightarrow> (p, j) \<in> set fl \<or> (p = lptr l \<and> lcancel l' = Some j)"
  shows "inflight_ok fl' (mput n l' ls) next"
  unfolding inflight_ok_def
proof (intro allI impI)
  fix p j assume "(p, j) \<in> set fl'"
  from new [OF this] show "p < next \<and> (\<forall>m k. mlookup (mput n l' ls) m = Some k \<longrightarrow> lptr k = p \<longrightarrow> lcancel k = Some j)"
  proof
    assume "(p, j) \<in> set fl"
    then have p: "p < next" and old: "\<And>m k. mlookup ls m = Some k \<Longrightarrow> lptr k = p \<Longrightarrow> lcancel k = Some j"
      using fl unfolding inflight_ok_def by blast+
    have "lcancel k = Some j" if "mlookup (mput n l' ls) m = Some k" "lptr k = p" for m k
      using that(1)
    proof (cases rule: mput_cases)
      case 1
      then have "lcancel l = Some j" using old [OF l] l' that(2) by simp
      with 1 c show ?thesis by simp
    qed (use old that(2) in blast)
    with p show ?thesis by blast
  next
    assume p: "p = lptr l \<and> lcancel l' = Some j"
    have "lcancel k = Some j" if "mlookup (mput n l' ls) m = Some k" "lptr k = p" for m k
      using that(1)
    proof (cases rule: mput_cases)
      case 2
      then have "m = n" using ap l p that(2) unfolding leases_apart_def by metis
      with 2 show ?thesis by simp
    qed (use p in simp)
    moreover have "p < next" using ord l p unfolding leases_in_order_def by blast
    ultimately show ?thesis by blast
  qed
qed

lemma registry_inv_update:
  assumes inv: "registry_inv r" and l: "mlookup (leases r) n = Some l"
    and l': "lease_ok n l'" "lptr l' = lptr l" "IP (identity l') = IP (identity l)"
      "Generation (identity l') = Generation (identity l)"
    and c: "lcancel l' = lcancel l \<or> lcancel l = None"
    and f: "fs = files r \<or> (\<exists>g. fs = mput (IP (identity l)) g (files r) \<and> file_ok n l' g)"
    and fl: "\<And>p j. (p, j) \<in> set fl \<Longrightarrow> (p, j) \<in> set (inflight r) \<or> (p = lptr l \<and> lcancel l' = Some j)"
  shows "registry_inv (r\<lparr>leases := mput n l' (leases r), files := fs, inflight := fl\<rparr>)"
proof -
  have old: "file_ok n l' g" if "file_ok n l g" for g
    using that l' c unfolding file_ok_def by auto
  have wf: "wf_map (leases r)" and ord: "leases_in_order (leases r) (files r) (nextptr r)"
    and ap: "leases_apart (leases r)" and fo: "inflight_ok (inflight r) (leases r) (nextptr r)"
    using inv by (simp_all add: registry_inv_def)
  have "leases_in_order (mput n l' (leases r)) fs (nextptr r)"
    by (rule leases_in_order_update [OF ord ap l l'(1-3) old f])
  moreover have "leases_apart (mput n l' (leases r))"
    by (rule leases_apart_update [OF ap l l'(2,3)])
  moreover have "inflight_ok fl (mput n l' (leases r)) (nextptr r)"
    by (rule inflight_ok_update [OF fo ord ap l l'(2) c fl])
  ultimately show ?thesis using wf by (simp add: registry_inv_def)
qed

end
