(* ===== verification/GitHub.thy ===== *)
theory GitHub
  imports Registry
begin

text \<open>
  How a job's cache rights are resolved (\<open>internal/jobidentity/github.go\<close>), from authenticated answers
  of GitHub's REST API only.

  The API is an argument, \<open>github_api\<close>: one function per kind of answer, from the request path the code
  builds and the token it sends to the decoded response or the error.  The token the daemon holds for a
  repository and the value \<open>url.Parse\<close> and \<open>Query().Get\<close> find in a link are arguments too.  A number that
  does not fit Go's \<open>int\<close> fails to decode.
\<close>

section \<open>Answers\<close>

datatype api_error = Status int | OtherError

record repository =
  FullName :: string
  DefaultBranch :: string

record pull =
  Number :: int
  HeadRef :: string
  HeadRepo :: string
  BaseRef :: string
  BaseRepo :: string

record workflowRun =
  wID :: int
  wEvent :: string
  HeadBranch :: string
  HeadSHA :: string
  wRepository :: string
  HeadRepository :: string
  PullRequests :: "pull list"

record activity =
  actRef :: string
  actAfter :: string
  actType :: string

type_synonym 'a answer = "string \<Rightarrow> string \<Rightarrow> api_error + 'a"

record github_api =
  token :: "string \<Rightarrow> string option"
  run_at :: "workflowRun answer"
  repo_at :: "repository answer"
  pulls_at :: "pull list answer"
  pull_at :: "pull answer"
  tags_at :: "string list answer"
  branch_at :: "(string \<times> string) answer"
  compare_at :: "string answer"
  activity_at :: "(string \<times> activity list) answer"
  after_of :: "string \<Rightarrow> string option"

datatype resolve_error =
    Api api_error | InvalidJob | RunMismatch | NoDefaultBranch | PRAmbiguous | InvalidPRBase
  | ForeignHead | InvalidBranchRef | TagAmbiguous | BranchUnavailable | ContextDone

definition ebind :: "'e + 'a \<Rightarrow> ('a \<Rightarrow> 'e + 'b) \<Rightarrow> 'e + 'b" where
  "ebind m f = (case m of Inl e \<Rightarrow> Inl e | Inr x \<Rightarrow> f x)"

definition via_api :: "api_error + 'a \<Rightarrow> resolve_error + 'a" where
  "via_api m = (case m of Inl e \<Rightarrow> Inl (Api e) | Inr x \<Rightarrow> Inr x)"

text \<open>\<open>getPage\<close>: the token is scoped to the repository the path names.\<close>

fun split_n :: "nat \<Rightarrow> char \<Rightarrow> string \<Rightarrow> string list" where
  "split_n 0 c s = []"
| "split_n (Suc 0) c s = [s]"
| "split_n (Suc (Suc n)) c s = (case cut c s of (a, b, found) \<Rightarrow> if found then a # split_n (Suc n) c b else [a])"

definition token_repo :: "string \<Rightarrow> string option" where
  "token_repo path =
     (let parts = split_n 3 CHR ''/'' (trim_prefix path ''/repos/'') in
      if length parts < 2 then None else Some (to_lower (parts ! 0 @ ''/'' @ parts ! 1)))"

definition get_page :: "github_api \<Rightarrow> 'a answer \<Rightarrow> string \<Rightarrow> api_error + 'a" where
  "get_page A f path =
     (case token_repo path of
        None \<Rightarrow> Inl OtherError
      | Some repo \<Rightarrow>
          (case if ValidRepository repo then token A repo else None of
             None \<Rightarrow> Inl OtherError
           | Some t \<Rightarrow> f t path))"

definition go_int :: "int \<Rightarrow> bool" where
  "go_int n \<longleftrightarrow> - (2 ^ 63) \<le> n \<and> n < 2 ^ 63"

definition decoded :: "('a \<Rightarrow> bool) \<Rightarrow> api_error + 'a \<Rightarrow> api_error + 'a" where
  "decoded P m = ebind m (\<lambda>x. if P x then Inr x else Inl OtherError)"

section \<open>Paths\<close>

definition upper_hex :: "nat \<Rightarrow> char" where
  "upper_hex d = (if d < 10 then char_of (48 + d) else char_of (55 + d))"

definition pct :: "char \<Rightarrow> string" where
  "pct c = [CHR ''%'', upper_hex (of_char c div 16), upper_hex (of_char c mod 16)]"

definition unreserved :: "char \<Rightarrow> bool" where
  "unreserved c \<longleftrightarrow> repoChar c \<or> c = CHR ''~''"

definition PathEscape :: "string \<Rightarrow> string" where
  "PathEscape s = concat (map (\<lambda>c. if unreserved c \<or> c \<in> set ''$&+:=@'' then [c] else pct c) s)"

definition QueryEscape :: "string \<Rightarrow> string" where
  "QueryEscape s = concat (map (\<lambda>c. if c = CHR '' '' then ''+'' else if unreserved c then [c] else pct c) s)"

text \<open>Preserve slashes in branch names; escape each path segment separately.\<close>

definition escapeRefPath :: "string \<Rightarrow> string" where
  "escapeRefPath ref = join ''/'' (map PathEscape (split_on CHR ''/'' ref))"

function unslash :: "string \<Rightarrow> string" where
  "unslash [] = []"
| "unslash (c # s) = (if has_prefix (c # s) ''%2F'' then CHR ''/'' # unslash (drop 2 s) else c # unslash s)"
  by pat_completeness auto
termination by (relation "measure length") auto

section \<open>Refs and the resolution\<close>

definition headsRef :: "string \<Rightarrow> string" where
  "headsRef branch = ''refs/heads/'' @ branch"

definition mergeRef :: "int \<Rightarrow> string" where
  "mergeRef n = ''refs/pull/'' @ show_int n @ ''/merge''"

fun add_refs :: "string list \<Rightarrow> string list \<Rightarrow> string list" where
  "add_refs out [] = out"
| "add_refs out (ref # rs) =
     (if ref = [] then add_refs out rs
      else if list_ex (\<lambda>r. r = ref) out then add_refs out rs
      else add_refs (out @ [ref]) rs)"

definition refs :: "string \<Rightarrow> string \<Rightarrow> string \<Rightarrow> string list" where
  "refs own base def = add_refs [] [own, base, def]"

text \<open>The candidates that match the run; a number seen before is not asked for again.\<close>

fun match_pulls ::
  "github_api \<Rightarrow> string \<Rightarrow> workflowRun \<Rightarrow> repository \<Rightarrow> int list \<Rightarrow> pull list \<Rightarrow> pull list \<Rightarrow> resolve_error + pull list" where
  "match_pulls A root run repo seen matched [] = Inr matched"
| "match_pulls A root run repo seen matched (c # cs) =
     (if Number c \<le> 0 \<or> Number c \<in> set seen then match_pulls A root run repo seen matched cs
      else
        ebind (via_api (decoded (\<lambda>p. go_int (Number p)) (get_page A (pull_at A) (root @ ''/pulls/'' @ show_int (Number c)))))
          (\<lambda>p. match_pulls A root run repo (Number c # seen)
             (if Number p = Number c \<and> HeadRef p = HeadBranch run \<and>
                 equal_fold (HeadRepo p) (HeadRepository run) \<and> equal_fold (BaseRepo p) (FullName repo)
              then matched @ [p] else matched) cs))"

fun pr_base :: "pull list \<Rightarrow> pull \<Rightarrow> string \<Rightarrow> string" where
  "pr_base [] p base = base"
| "pr_base (a # as) p base =
     (if Number a \<noteq> Number p then pr_base as p base
      else if BaseRef a \<noteq> BaseRef p then []
      else pr_base as p (headsRef (BaseRef a)))"

definition activityPages :: nat where "activityPages = 10"

definition push_types :: "string list" where
  "push_types = [''push'', ''force_push'', ''pr_merge'', ''merge_queue_merge'', ''branch_creation'']"

fun next_cursor :: "(string \<Rightarrow> string option) \<Rightarrow> string list \<Rightarrow> string" where
  "next_cursor after [] = []"
| "next_cursor after (part # ps) =
     (case cut CHR '';'' part of (target, rel, ok) \<Rightarrow>
        if \<not> ok \<or> \<not> contains rel (''rel='' @ quoted ''next'') then next_cursor after ps
        else
          (let strip = dropWhile (\<lambda>c. c \<in> set ''<>'');
               link = rev (strip (rev (strip (trim_space target)))) in
           case after link of None \<Rightarrow> [] | Some v \<Rightarrow> v))"

definition nextCursor :: "github_api \<Rightarrow> string \<Rightarrow> string" where
  "nextCursor A link = next_cursor (after_of A) (split_on CHR '','' link)"

definition activity_query :: "string \<Rightarrow> string" where
  "activity_query ref = ''ref='' @ unslash (QueryEscape ref) @ ''&time_period=month&per_page=100''"

fun pushed_pages :: "github_api \<Rightarrow> string \<Rightarrow> string \<Rightarrow> string \<Rightarrow> nat \<Rightarrow> string \<Rightarrow> api_error + bool" where
  "pushed_pages A root ref sha 0 query = Inr False"
| "pushed_pages A root ref sha (Suc n) query =
     ebind (get_page A (activity_at A) (root @ ''/activity?'' @ query))
       (\<lambda>(link, acts).
          if list_ex (\<lambda>a. actType a \<in> set push_types \<and> actRef a = ref \<and> actAfter a = sha) acts then Inr True
          else if nextCursor A link = [] then Inr False
          else pushed_pages A root ref sha n (activity_query ref @ ''&after='' @ QueryEscape (nextCursor A link)))"

definition pushedTo :: "github_api \<Rightarrow> string \<Rightarrow> string \<Rightarrow> string \<Rightarrow> api_error + bool" where
  "pushedTo A root ref sha = pushed_pages A root ref sha activityPages (activity_query ref)"

definition commitOnBranch :: "github_api \<Rightarrow> string \<Rightarrow> workflowRun \<Rightarrow> string \<Rightarrow> string \<Rightarrow> api_error + bool" where
  "commitOnBranch A root run own tip =
     (let found = pushedTo A root own (HeadSHA run) in
      if wEvent run = ''push'' \<and> found \<noteq> Inl (Status 404) then found
      else if tip = HeadSHA run then Inr True
      else ebind (get_page A (compare_at A)
             (root @ ''/compare/'' @ PathEscape (HeadSHA run) @ ''...'' @ escapeRefPath (trim_prefix own ''refs/heads/'')))
             (\<lambda>status. Inr (status = ''identical'' \<or> status = ''ahead'')))"

definition resolve_pull ::
  "github_api \<Rightarrow> string \<Rightarrow> workflowRun \<Rightarrow> repository \<Rightarrow> string \<Rightarrow> Identity \<Rightarrow> resolve_error + Identity" where
  "resolve_pull A root run repo def i =
     ebind (if PullRequests run = []
            then via_api (decoded (list_all (\<lambda>p. go_int (Number p)))
                   (get_page A (pulls_at A) (root @ ''/commits/'' @ PathEscape (HeadSHA run) @ ''/pulls?per_page=100'')))
            else Inr (PullRequests run))
     (\<lambda>candidates.
        if candidates = [] \<or> length candidates > 8 then Inl PRAmbiguous
        else
          ebind (match_pulls A root run repo [] [] candidates)
            (\<lambda>matched. case matched of
                 [p] \<Rightarrow>
                   if \<not> ValidRef (headsRef (BaseRef p)) then Inl InvalidPRBase
                   else
                     (let own = mergeRef (Number p) in
                      Inr (i\<lparr>WriteRef := own, ReadRefs := refs own (pr_base (PullRequests run) p []) def\<rparr>))
               | _ \<Rightarrow> Inl PRAmbiguous))"

definition resolve_branch ::
  "github_api \<Rightarrow> string \<Rightarrow> workflowRun \<Rightarrow> string \<Rightarrow> Identity \<Rightarrow> resolve_error + Identity" where
  "resolve_branch A root run def i =
     (if Fork i then Inl ForeignHead
      else
        let own = headsRef (HeadBranch run) in
        if \<not> ValidRef own then Inl InvalidBranchRef
        else
          ebind (via_api (get_page A (tags_at A) (root @ ''/git/matching-refs/tags/'' @ escapeRefPath (HeadBranch run))))
          (\<lambda>tags. if list_ex (\<lambda>t. t = ''refs/tags/'' @ HeadBranch run) tags then Inl TagAmbiguous
             else
               ebind (via_api (get_page A (branch_at A) (root @ ''/git/ref/heads/'' @ escapeRefPath (HeadBranch run))))
               (\<lambda>(bref, sha). if bref \<noteq> own then Inl BranchUnavailable
                  else
                    ebind (via_api (commitOnBranch A root run own sha))
                    (\<lambda>onBranch. if \<not> onBranch then Inr i
                       else Inr (i\<lparr>WriteRef := own, ReadRefs := refs own [] def\<rparr>)))))"

definition branch_events :: "string list" where
  "branch_events = [''push'', ''workflow_dispatch'', ''schedule'', ''repository_dispatch'']"

definition valid_job :: "Job \<Rightarrow> bool" where
  "valid_job j \<longleftrightarrow> ValidRepository (jRepository j) \<and> 0 < jRunID j \<and> jJobID j \<noteq> []"

definition go_run :: "workflowRun \<Rightarrow> bool" where
  "go_run run \<longleftrightarrow> go_int (wID run) \<and> list_all (\<lambda>p. go_int (Number p)) (PullRequests run)"

definition default_identity :: "Job \<Rightarrow> workflowRun \<Rightarrow> repository \<Rightarrow> Identity" where
  "default_identity j run repo =
     noIdentity\<lparr>Repository := to_lower (FullName repo), Event := wEvent run, RunID := jRunID j, JobID := jJobID j,
       ReadRefs := [headsRef (DefaultBranch repo)],
       Fork := \<not> equal_fold (HeadRepository run) (FullName repo)\<rparr>"

definition resolve :: "github_api \<Rightarrow> Job \<Rightarrow> resolve_error + Identity" where
  "resolve A j =
     (if \<not> valid_job j then Inl InvalidJob
      else
        let root = ''/repos/'' @ jRepository j in
        ebind (via_api (decoded go_run (get_page A (run_at A) (root @ ''/actions/runs/'' @ show_int (jRunID j)))))
        (\<lambda>run.
           if wID run \<noteq> jRunID j \<or> wEvent run \<noteq> jEvent j \<or> \<not> equal_fold (wRepository run) (jRepository j) \<or>
              HeadSHA run = [] then Inl RunMismatch
           else
             ebind (via_api (get_page A (repo_at A) root))
             (\<lambda>repo.
                let def = headsRef (DefaultBranch repo); i = default_identity j run repo in
                if \<not> equal_fold (FullName repo) (jRepository j) \<or> \<not> ValidRef def then Inl NoDefaultBranch
                else if wEvent run = ''pull_request'' then resolve_pull A root run repo def i
                else if wEvent run \<in> set branch_events then resolve_branch A root run def i
                else Inr i)))"

section \<open>Memoised policies\<close>

type_synonym memo = "(string, Identity \<times> time) gomap"

definition run_key :: "Job \<Rightarrow> string" where
  "run_key j = to_lower (jRepository j) @ ''/'' @ show_int (jRunID j) @ ''/'' @ jEvent j"

text \<open>
  A caller whose run another goroutine is resolving waits and starts over, so its effect is that of the
  iteration that returns.  \<open>victim\<close> is the key the map's \<open>range\<close> visits first.
\<close>

definition Resolve ::
  "github_api \<Rightarrow> bool \<Rightarrow> time \<Rightarrow> time \<Rightarrow> string \<Rightarrow> Job \<Rightarrow> memo \<Rightarrow> (resolve_error + Identity) \<times> memo" where
  "Resolve A ctx_done t1 t2 victim j m =
     (if \<not> valid_job j then (Inl InvalidJob, m)
      else if ctx_done then (Inl ContextDone, m)
      else
        let fresh =
          (case resolve A j of
             Inl e \<Rightarrow> (Inl e, m)
           | Inr i \<Rightarrow>
               (Inr i, mput (run_key j) (i\<lparr>JobID := []\<rparr>, t2 + 2 * minute)
                         (if length m \<ge> 1024 then mdel victim m else m))) in
        case mlookup m (run_key j) of
          None \<Rightarrow> fresh
        | Some (i, expiry) \<Rightarrow> if t1 < expiry then (Inr (i\<lparr>JobID := jJobID j\<rparr>), m) else fresh)"

section \<open>Routing and tokens\<close>

text \<open>\<open>NewGitHub\<close>, from the parsed URL's scheme and host.\<close>

definition NewGitHub :: "(string \<times> string) option \<Rightarrow> bool \<Rightarrow> string option" where
  "NewGitHub url forceGHES =
     (case url of
        None \<Rightarrow> None
      | Some (scheme, rawhost) \<Rightarrow>
          if scheme \<noteq> ''https'' \<or> rawhost = [] then None
          else
            let host = to_lower rawhost in
            Some (if \<not> forceGHES \<and> (host = ''github.com'' \<or> host = ''www.github.com'' \<or> host = ''github.localhost'' \<or>
                    has_suffix host ''.ghe.com'')
                  then ''https://api.'' @ (if host = ''www.github.com'' then ''github.com'' else host)
                  else scheme @ ''://'' @ host @ ''/api/v3''))"

text \<open>
  \<open>auth\<close>: the personal token, a cached installation token good for more than a minute, or a new one,
  which \<open>mint\<close> gives for a repository (\<open>None\<close> when signing or the request fails).
\<close>

definition auth ::
  "string \<Rightarrow> (string \<Rightarrow> (string \<times> time) option) \<Rightarrow> time \<Rightarrow> string \<Rightarrow> (string, string \<times> time) gomap \<Rightarrow>
   string option \<times> (string, string \<times> time) gomap" where
  "auth pat mint now repo tokens =
     (if \<not> ValidRepository repo then (None, tokens)
      else if pat \<noteq> [] then (Some pat, tokens)
      else
        let fresh =
          (case mint repo of
             None \<Rightarrow> (None, tokens)
           | Some (v, expiry) \<Rightarrow>
               if v = [] \<or> \<not> now + minute < expiry then (None, tokens)
               else (Some v, mput repo (v, expiry) tokens)) in
        case mlookup tokens repo of
          None \<Rightarrow> fresh
        | Some (v, expiry) \<Rightarrow> if v \<noteq> [] \<and> expiry - now > minute then (Some v, tokens) else fresh)"

end
