(* ===== verification/Registry_Props.thy ===== *)
theory Registry_Props
  imports Registry
begin

text \<open>
  The registry keeps its invariant, and what follows for the records in the directory: whoever resolves
  jobs, a record found under a VM's address carries that VM's generation, and rights only for the job
  the control plane started on that VM.
\<close>

section \<open>Every operation keeps the invariant\<close>

lemma write_record_lookup:
  "mlookup (write_record ok now i fs) ip =
     (if ok \<and> ip = IP i then Some (i\<lparr>ExpiresAt := unix (now + leaseTTL)\<rparr>) else mlookup fs ip)"
  by (simp add: write_record_def)

lemma file_ok_expiry [simp]: "file_ok n l (f\<lparr>ExpiresAt := e\<rparr>) = file_ok n l f"
  by (simp add: file_ok_def has_rights_def for_job_def)

lemma registry_inv_new: "registry_inv NewRegistry"
  by (simp add: registry_inv_def NewRegistry_def leases_in_order_def leases_apart_def inflight_ok_def)

lemma registry_inv_register:
  assumes inv: "registry_inv r" and rnd: "\<And>g. rnd = Some g \<Longrightarrow> g \<noteq> []"
  shows "registry_inv (fst (Register runner ip rnd ok now r))"
proof (cases "snd (Register runner ip rnd ok now r)")
  case (Some e)
  then have "fst (Register runner ip rnd ok now r) = r"
    by (auto simp: Register_def Let_def split: option.splits if_splits)
  with inv show ?thesis by simp
next
  case None
  then obtain g where g: "rnd = Some g" and ok: "ok" and run: "runner \<noteq> []"
    and new: "mlookup (leases r) runner = None"
    and ip: "\<not> list_ex (\<lambda>kv. IP (identity (snd kv)) = ip) (leases r)"
    by (auto simp: Register_def Let_def split: option.splits if_splits)
  let ?i = "noIdentity\<lparr>IP := ip, Runner := runner, Generation := g\<rparr>"
  let ?l = "\<lparr>identity = ?i, lcancel = None, lptr = nextptr r\<rparr>"
  have reg: "fst (Register runner ip rnd ok now r) =
      r\<lparr>files := write_record True now ?i (files r), leases := mput runner ?l (leases r), nextptr := Suc (nextptr r)\<rparr>"
    using None by (auto simp: Register_def Let_def g split: option.splits if_splits)
  have other: "IP (identity l) \<noteq> ip" if "mlookup (leases r) n = Some l" for n l
    using ip map_of_SomeD [OF that] by (auto simp: list_ex_iff)
  have nl: "lease_ok runner ?l"
    using rnd [OF g] run by (simp add: lease_ok_def file_ok_def has_rights_def)
  have nf: "file_ok runner ?l ?i" by (simp add: file_ok_def has_rights_def)
  have ord: "leases_in_order (leases r) (files r) (nextptr r)" and ap: "leases_apart (leases r)"
    and fo: "inflight_ok (inflight r) (leases r) (nextptr r)" and wf: "wf_map (leases r)"
    using inv by (simp_all add: registry_inv_def)
  have "leases_in_order (mput runner ?l (leases r)) (write_record True now ?i (files r)) (Suc (nextptr r))"
    unfolding leases_in_order_def
  proof (intro allI impI)
    fix n l assume "mlookup (mput runner ?l (leases r)) n = Some l"
    then show "lease_ok n l \<and> lptr l < Suc (nextptr r) \<and>
        (\<forall>f. mlookup (write_record True now ?i (files r)) (IP (identity l)) = Some f \<longrightarrow> file_ok n l f)"
    proof (cases rule: mput_cases)
      case 1
      then show ?thesis using nl nf by (simp add: write_record_lookup)
    next
      case 2
      then have "lease_ok n l" "lptr l < nextptr r" "\<And>f. mlookup (files r) (IP (identity l)) = Some f \<Longrightarrow> file_ok n l f"
        using ord unfolding leases_in_order_def by blast+
      with other [OF 2(2)] show ?thesis by (simp add: write_record_lookup)
    qed
  qed
  moreover have "leases_apart (mput runner ?l (leases r))"
    unfolding leases_apart_def
  proof (intro allI impI)
    fix a b u v
    assume u: "mlookup (mput runner ?l (leases r)) a = Some u" and v: "mlookup (mput runner ?l (leases r)) b = Some v"
      and s: "IP (identity u) = IP (identity v) \<or> lptr u = lptr v"
    have old: "lptr w \<noteq> nextptr r \<and> IP (identity w) \<noteq> ip" if "mlookup (leases r) c = Some w" for c w
    proof -
      have "lptr w < nextptr r" using ord that unfolding leases_in_order_def by blast
      with other [OF that] show ?thesis by simp
    qed
    from u show "a = b"
    proof (cases rule: mput_cases)
      case 1
      from v show ?thesis
      proof (cases rule: mput_cases)
        case 2
        from old [OF 2(2)] 1 s show ?thesis by simp
      qed (use 1 in simp)
    next
      case 2
      from v show ?thesis
      proof (cases rule: mput_cases)
        case 2
        with \<open>mlookup (leases r) a = Some u\<close> s ap show ?thesis unfolding leases_apart_def by metis
      next
        case 1
        from old [OF 2(2)] 1 s show ?thesis by auto
      qed
    qed
  qed
  moreover have "inflight_ok (inflight r) (mput runner ?l (leases r)) (Suc (nextptr r))"
    using fo unfolding inflight_ok_def by (auto simp: less_Suc_eq)
  ultimately show ?thesis using wf by (simp add: registry_inv_def reg)
qed

lemma registry_inv_release:
  assumes "registry_inv r"
  shows "registry_inv (fst (Release runner removed r))"
  using assms
  by (auto simp: Release_def registry_inv_def leases_in_order_def leases_apart_def inflight_ok_def
      split: option.splits)

lemma registry_inv_start:
  assumes inv: "registry_inv r"
  shows "registry_inv (Start j ok now r)"
proof (cases "mlookup (leases r) (jRunner j)")
  case None
  with inv show ?thesis by (simp add: Start_def)
next
  case (Some l)
  let ?i = "(identity l)\<lparr>Repository := jRepository j, Event := jEvent j, RunID := jRunID j, JobID := jJobID j\<rparr>"
  show ?thesis
  proof (cases "lcancel l")
    case None
    have lo: "lease_ok (jRunner j) l"
      using inv Some unfolding registry_inv_def leases_in_order_def by blast
    then have norights: "\<not> has_rights (identity l)" using None by (simp add: lease_ok_def file_ok_def)
    have li: "lease_ok (jRunner j) (l\<lparr>identity := ?i, lcancel := Some j\<rparr>)"
      using lo None norights by (simp add: lease_ok_def file_ok_def has_rights_def for_job_def)
    have "registry_inv (r\<lparr>leases := mput (jRunner j) (l\<lparr>identity := ?i, lcancel := Some j\<rparr>) (leases r),
        files := write_record ok now ?i (files r), inflight := (lptr l, j) # inflight r\<rparr>)"
      by (rule registry_inv_update [OF inv Some li])
        (use None li in \<open>auto simp: write_record_def lease_ok_def\<close>)
    then show ?thesis using None Some by (simp add: Start_def Let_def)
  qed (use inv Some in \<open>simp add: Start_def\<close>)
qed

lemma registry_inv_finish:
  assumes "registry_inv r"
  shows "registry_inv (r\<lparr>inflight := remove1 (p, j) (inflight r)\<rparr>)"
proof -
  have "set (remove1 (p, j) (inflight r)) \<subseteq> set (inflight r)" by (rule set_remove1_subset)
  with assms show ?thesis unfolding registry_inv_def inflight_ok_def by auto
qed

lemma resolved_cases:
  obtains "\<forall>l. mlookup (leases r) (jRunner j) = Some l \<longrightarrow> lptr l \<noteq> p"
      "resolved p j answer expired ts ok1 ok2 r = r"
  | l where "mlookup (leases r) (jRunner j) = Some l" "lptr l = p"
      "resolved p j answer expired ts ok1 ok2 r =
         r\<lparr>leases := mput (jRunner j) (l\<lparr>identity := (identity l)\<lparr>Unresolved := True\<rparr>\<rparr>) (leases r),
           files := write_record ok2 (snd (snd ts)) ((identity l)\<lparr>Unresolved := True\<rparr>) (files r)\<rparr>"
  | l a where "mlookup (leases r) (jRunner j) = Some l" "lptr l = p" "answer = Some a" "\<not> expired"
      "Validate (granted l j (fst ts) a) (fst (snd ts)) = None" "ok1"
      "resolved p j answer expired ts ok1 ok2 r =
         r\<lparr>leases := mput (jRunner j) (l\<lparr>identity := granted l j (fst ts) a\<rparr>) (leases r),
           files := write_record True (snd (snd ts)) (granted l j (fst ts) a) (files r)\<rparr>"
proof (cases "mlookup (leases r) (jRunner j)")
  case None
  then show thesis by (intro that(1)) (simp_all add: resolved_def)
next
  case (Some l)
  obtain t1 t2 t3 where ts: "ts = (t1, t2, t3)" by (cases ts)
  consider "lptr l \<noteq> p"
    | a where "lptr l = p" "answer = Some a" "\<not> expired" "Validate (granted l j t1 a) t2 = None" "ok1"
    | "lptr l = p" "\<And>a. answer = Some a \<Longrightarrow> \<not> expired \<Longrightarrow> \<not> (Validate (granted l j t1 a) t2 = None \<and> ok1)"
    by (cases "lptr l = p"; cases answer) blast+
  then show thesis
  proof cases
    case 1
    then show thesis by (intro that(1)) (simp_all add: resolved_def Some)
  next
    case (2 a)
    then show thesis by (intro that(3) [of l a]) (simp_all add: resolved_def Some ts Let_def)
  next
    case 3
    then show thesis
      by (intro that(2) [of l]) (auto simp: resolved_def Some ts Let_def split: option.splits)
  qed
qed

context job_resolver
begin

lemma registry_inv_resolved:
  assumes inv: "registry_inv r" and fl: "(p, j) \<in> set (inflight r)"
    and ans: "\<And>a. answer = Some a \<Longrightarrow> resolves j a"
  shows "registry_inv (resolved p j answer expired ts ok1 ok2 r)"
proof (cases p j answer expired ts ok1 ok2 r rule: resolved_cases)
  case 1
  with inv show ?thesis by simp
next
  case (2 l)
  have lo: "lease_ok (jRunner j) l"
    using inv 2(1) unfolding registry_inv_def leases_in_order_def by blast
  let ?l = "l\<lparr>identity := (identity l)\<lparr>Unresolved := True\<rparr>\<rparr>"
  have li: "lease_ok (jRunner j) ?l"
    using lo by (simp add: lease_ok_def file_ok_def has_rights_def for_job_def)
  have "registry_inv (r\<lparr>leases := mput (jRunner j) ?l (leases r),
      files := write_record ok2 (snd (snd ts)) ((identity l)\<lparr>Unresolved := True\<rparr>) (files r), inflight := inflight r\<rparr>)"
    by (rule registry_inv_update [OF inv 2(1) li])
      (use li in \<open>auto simp: write_record_def lease_ok_def\<close>)
  then show ?thesis by (simp add: 2(3))
next
  case (3 l a)
  let ?i = "granted l j (fst ts) a"
  have lo: "lease_ok (jRunner j) l"
    using inv 3(1) unfolding registry_inv_def leases_in_order_def by blast
  have can: "lcancel l = Some j"
    using inv fl 3(1,2) unfolding registry_inv_def inflight_ok_def by blast
  have job: "for_job j ?i"
    using answers_job [OF ans [OF 3(3)]] by (simp add: granted_def for_job_def)
  let ?l = "l\<lparr>identity := ?i\<rparr>"
  have li: "lease_ok (jRunner j) ?l"
    using lo can job by (simp add: lease_ok_def file_ok_def granted_def)
  have "registry_inv (r\<lparr>leases := mput (jRunner j) ?l (leases r),
      files := write_record True (snd (snd ts)) ?i (files r), inflight := inflight r\<rparr>)"
    by (rule registry_inv_update [OF inv 3(1) li])
      (use li in \<open>auto simp: write_record_def lease_ok_def granted_def\<close>)
  then show ?thesis by (simp add: 3(7))
qed

end

lemma refresh_files_lookup:
  "mlookup (refresh_files ok now ls fs) ip = Some g \<Longrightarrow>
   mlookup fs ip = Some g \<or>
   (\<exists>(n, l) \<in> set ls. IP (identity l) = ip \<and> g = (identity l)\<lparr>ExpiresAt := unix (now + leaseTTL)\<rparr>)"
  by (induction ls arbitrary: fs) (fastforce simp: write_record_lookup split: if_splits)+

lemma registry_inv_refresh:
  assumes inv: "registry_inv r"
  shows "registry_inv (refresh ok now r)"
proof -
  have "file_ok n l g" if l: "mlookup (leases r) n = Some l"
    and g: "mlookup (refresh_files ok now (leases r) (files r)) (IP (identity l)) = Some g" for n l g
    using refresh_files_lookup [OF g]
  proof
    assume "mlookup (files r) (IP (identity l)) = Some g"
    with inv l show ?thesis unfolding registry_inv_def leases_in_order_def by blast
  next
    assume "\<exists>(m, k) \<in> set (leases r). IP (identity k) = IP (identity l) \<and> g = (identity k)\<lparr>ExpiresAt := unix (now + leaseTTL)\<rparr>"
    then obtain m k where k: "(m, k) \<in> set (leases r)" "IP (identity k) = IP (identity l)"
      "g = (identity k)\<lparr>ExpiresAt := unix (now + leaseTTL)\<rparr>" by auto
    then have mk: "mlookup (leases r) m = Some k"
      using inv by (simp add: registry_inv_def mlookup_in_set)
    then have "m = n" using inv l k(2) unfolding registry_inv_def leases_apart_def by metis
    with mk l k(3) inv show ?thesis
      unfolding registry_inv_def leases_in_order_def lease_ok_def by auto
  qed
  with inv show ?thesis
    unfolding registry_inv_def leases_in_order_def refresh_def by simp
qed

lemma registry_inv_close: "registry_inv r \<Longrightarrow> registry_inv (Close rm r)"
  by (auto simp: Close_def registry_inv_def leases_in_order_def leases_apart_def inflight_ok_def)

sublocale job_resolver \<subseteq> registry: invariant_system registry_init "registry_step resolves" registry_inv
proof
  fix s assume "registry_init s"
  then show "registry_inv s" by (simp add: registry_init_def registry_inv_new)
next
  fix s l t assume inv: "registry_inv s" and st: "registry_step resolves l s t"
  from st show "registry_inv t"
  proof cases
    case (step_register rnd runner ip ok now)
    with inv show ?thesis by (simp add: registry_inv_register)
  next
    case (step_resolved p j answer ctx_done expired ts ok1 ok2)
    have "resolves j a" if a: "attempts answer ctx_done [0, 1, 2] = Some a" for a
    proof -
      from attempts_answer [OF a] obtain k :: nat where "k \<in> {0, 1, 2}" "answer k = Some a" by auto
      then show ?thesis by (intro step_resolved(4) [of k a]) auto
    qed
    then have "registry_inv (resolved p j (attempts answer ctx_done [0, 1, 2]) expired ts ok1 ok2 s)"
      using registry_inv_resolved [OF inv step_resolved(3)] by blast
    moreover have "inflight (resolved p j a expired ts ok1 ok2 s) = inflight s" for a
      by (cases p j a expired ts ok1 ok2 s rule: resolved_cases) auto
    ultimately show ?thesis
      using registry_inv_finish [of "resolved p j (attempts answer ctx_done [0, 1, 2]) expired ts ok1 ok2 s" p j]
      by (simp add: step_resolved(2))
  qed (use inv in \<open>simp_all add: registry_inv_release registry_inv_start registry_inv_refresh registry_inv_close\<close>)
qed

context job_resolver
begin

lemma record_rights:
  assumes r: "reach registry_init (registry_step resolves) r"
    and l: "mlookup (leases r) n = Some l" and f: "mlookup (files r) (IP (identity l)) = Some f"
  shows "file_ok n l f"
  using registry.reach_inv [OF r] l f unfolding registry_inv_def leases_in_order_def by blast

end

end
