(* ===== verification/GitHub_Props.thy ===== *)
theory GitHub_Props
  imports GitHub Registry_Props
begin

text \<open>
  What the resolution grants, and on what evidence; that its answers pass the checks of the registry
  and of every reader; that it presents no token but that of the job's own repository; and that the
  memoised policies answer only for the run they were resolved for.  The last gives the resolver's
  contract (\<open>job_resolver\<close>) that the registry relies on.
\<close>

section \<open>Sums\<close>

lemma ebind_Inr [simp]: "ebind m f = Inr y \<longleftrightarrow> (\<exists>x. m = Inr x \<and> f x = Inr y)"
  by (cases m) (simp_all add: ebind_def)

lemma via_api_Inr [simp]: "via_api m = Inr x \<longleftrightarrow> m = Inr x"
  by (cases m) (simp_all add: via_api_def)

lemma decoded_Inr [simp]: "decoded P m = Inr x \<longleftrightarrow> m = Inr x \<and> P x"
  by (auto simp: decoded_def split: if_splits)

section \<open>Refs\<close>

lemma suffix_single: "suffix [c] s \<longleftrightarrow> s \<noteq> [] \<and> last s = c"
  by (auto simp: suffix_def) (metis append_butlast_last_id)

lemma sublist_twice: "c \<notin> set xs \<Longrightarrow> sublist [c, c] (xs @ ys) \<longleftrightarrow> sublist [c, c] ys"
  by (induction xs) (auto simp: sublist_Cons_right)

lemma sublist_twice_at:
  assumes "c \<notin> set xs"
  shows "sublist [c, c] (xs @ c # ys) \<longleftrightarrow> (ys \<noteq> [] \<and> hd ys = c) \<or> sublist [c, c] ys"
  by (subst sublist_twice [OF assms]) (cases ys, auto simp: sublist_Cons_right)

lemma sublist_char: "sublist (c # cs) s \<Longrightarrow> c \<in> set s"
  by (auto simp: sublist_def)

definition ref_char :: "char \<Rightarrow> bool" where
  "ref_char c \<longleftrightarrow> c \<notin> set badRefChars \<and> c \<noteq> CHR ''.'' \<and> c \<noteq> CHR ''@''"

lemma ref_char_digit: "is_digit c \<Longrightarrow> ref_char c"
  by (auto simp: is_digit_def badRefChars_def ref_char_def)

lemma ref_char_literals: "list_all ref_char ''refs/pull/''" "list_all ref_char ''/merge''"
  by (simp_all add: ref_char_def badRefChars_def)

lemma ref_chars_ok:
  assumes "list_all ref_char s"
  shows "\<not> sublist ''..'' s \<and> \<not> sublist [CHR ''@'', CHR 0x7B] s \<and> \<not> contains_any s badRefChars"
proof (intro conjI notI)
  assume "sublist ''..'' s"
  from sublist_char [OF this] assms show False by (auto simp: list_all_iff ref_char_def)
next
  assume "sublist [CHR ''@'', CHR 0x7B] s"
  from sublist_char [OF this] assms show False by (auto simp: list_all_iff ref_char_def)
next
  assume "contains_any s badRefChars"
  with assms show False by (auto simp: list_all_iff list_ex_iff contains_any_def ref_char_def)
qed

lemma ValidRef_merge:
  assumes "0 < n" "go_int n"
  shows "ValidRef (mergeRef n)"
proof -
  let ?s = "''refs/pull/'' @ show_nat (nat n) @ ''/merge''"
  have shown: "show_int n = show_nat (nat n)" using assms by (simp add: show_int_def)
  have "nat n < 10 ^ 19" using assms by (simp add: go_int_def)
  then have len: "length (show_nat (nat n)) \<le> 19" by (rule length_show_nat_mono) simp
  have ch: "list_all ref_char ?s"
    using show_nat_digits [of "nat n"] ref_char_digit ref_char_literals
    unfolding list_all_append by (metis list_all_iff)
  have no: "CHR ''/'' \<notin> set (show_nat (nat n))"
    using show_nat_no [of "CHR ''/''"] by (simp add: is_digit_def)
  define c where "c = CHR ''/''"
  have c: "c \<notin> set ''merge''" "c \<notin> set ''pull''" "c \<notin> set ''refs''" "c \<notin> set (show_nat (nat n))"
    using no by (simp_all add: c_def)
  have "\<not> sublist [c, c] (''merge'' @ [])"
    by (subst sublist_twice [OF c(1)]) simp
  then have m: "\<not> sublist [c, c] ''merge''" by simp
  have d: "\<not> sublist [c, c] (show_nat (nat n) @ c # ''merge'')"
    using m c(1) by (subst sublist_twice_at [OF c(4)]) auto
  have hd: "hd (show_nat (nat n) @ c # ''merge'') \<noteq> c"
    using c(4) show_nat_not_Nil [of "nat n"] by (metis hd_append2 hd_in_set)
  have p: "\<not> sublist [c, c] (''pull'' @ c # (show_nat (nat n) @ c # ''merge''))"
    using d hd by (subst sublist_twice_at [OF c(2)]) blast
  have "\<not> sublist [c, c] (''refs'' @ c # (''pull'' @ c # (show_nat (nat n) @ c # ''merge'')))"
    using p c(2) by (subst sublist_twice_at [OF c(3)]) auto
  then have "\<not> sublist ''//'' ?s" by (simp add: c_def)
  moreover note ref_chars_ok [OF ch]
  ultimately show ?thesis
    using len by (simp add: ValidRef_def mergeRef_def shown suffix_single)
qed

lemma refs_valid:
  assumes "own \<noteq> []"
  shows "refs own base def \<noteq> []" "length (refs own base def) \<le> 3" "refs own base def ! 0 = own"
    "set (refs own base def) = {own, base, def} - {[]}"
  using assms by (auto simp: refs_def)

section \<open>What is granted\<close>

definition matching_pull :: "github_api \<Rightarrow> string \<Rightarrow> workflowRun \<Rightarrow> repository \<Rightarrow> pull \<Rightarrow> bool" where
  "matching_pull A root run repo p \<longleftrightarrow>
     get_page A (pull_at A) (root @ ''/pulls/'' @ show_int (Number p)) = Inr p \<and>
     0 < Number p \<and> go_int (Number p) \<and> HeadRef p = HeadBranch run \<and>
     equal_fold (HeadRepo p) (HeadRepository run) \<and> equal_fold (BaseRepo p) (FullName repo)"

lemma match_pulls_matching:
  "match_pulls A root run repo seen matched cs = Inr ms \<Longrightarrow>
   (\<forall>p \<in> set matched. matching_pull A root run repo p) \<Longrightarrow> \<forall>p \<in> set ms. matching_pull A root run repo p"
proof (induction cs arbitrary: seen matched)
  case (Cons c cs)
  show ?case
  proof (cases "Number c \<le> 0 \<or> Number c \<in> set seen")
    case True
    with Cons show ?thesis by simp
  next
    case False
    with Cons.prems(1) obtain p where p: "go_int (Number p)"
      "get_page A (pull_at A) (root @ ''/pulls/'' @ show_int (Number c)) = Inr p"
      "match_pulls A root run repo (Number c # seen)
         (if Number p = Number c \<and> HeadRef p = HeadBranch run \<and>
             equal_fold (HeadRepo p) (HeadRepository run) \<and> equal_fold (BaseRepo p) (FullName repo)
          then matched @ [p] else matched) cs = Inr ms"
      by auto
    show ?thesis
      by (rule Cons.IH [OF p(3)]) (use False p(1,2) Cons.prems(2) in \<open>auto simp: matching_pull_def\<close>)
  qed
qed simp

text \<open>Every match among the candidates is found, and nothing else is.\<close>

lemma match_pulls_more:
  "match_pulls A root run repo seen matched cs = Inr ms \<Longrightarrow> set matched \<subseteq> set ms"
proof (induction cs arbitrary: seen matched)
  case (Cons c cs)
  then show ?case by (fastforce split: if_splits)
qed simp

lemma match_pulls_numbers:
  "match_pulls A root run repo seen matched cs = Inr ms \<Longrightarrow> Number ` set ms \<subseteq> Number ` (set matched \<union> set cs)"
proof (induction cs arbitrary: seen matched)
  case (Cons c cs)
  then show ?case by (fastforce split: if_splits)
qed simp

lemma match_pulls_all:
  "match_pulls A root run repo seen matched cs = Inr ms \<Longrightarrow> matching_pull A root run repo q \<Longrightarrow>
   Number q \<in> Number ` set cs \<Longrightarrow> Number q \<in> set seen \<or> q \<in> set ms"
proof (induction cs arbitrary: seen matched)
  case (Cons c cs)
  note q = Cons.prems(2)
  show ?case
  proof (cases "Number c \<le> 0 \<or> Number c \<in> set seen")
    case True
    then have r: "match_pulls A root run repo seen matched cs = Inr ms" using Cons.prems(1) by simp
    have "0 < Number q" using q by (simp add: matching_pull_def)
    with True Cons.IH [OF r q] Cons.prems(3) show ?thesis by auto
  next
    case False
    with Cons.prems(1) obtain p where p: "get_page A (pull_at A) (root @ ''/pulls/'' @ show_int (Number c)) = Inr p"
      and r: "match_pulls A root run repo (Number c # seen)
         (if Number p = Number c \<and> HeadRef p = HeadBranch run \<and>
             equal_fold (HeadRepo p) (HeadRepository run) \<and> equal_fold (BaseRepo p) (FullName repo)
          then matched @ [p] else matched) cs = Inr ms"
      by auto
    show ?thesis
    proof (cases "Number q = Number c")
      case True
      with q p have "q = p" by (simp add: matching_pull_def)
      with q True match_pulls_more [OF r] show ?thesis by (simp add: matching_pull_def)
    next
      case False
      with Cons.IH [OF r q] Cons.prems(3) show ?thesis by auto
    qed
  qed
qed simp

text \<open>The pull requests a run may belong to: those it names, or else those of its commit.\<close>

definition candidate_pulls :: "github_api \<Rightarrow> string \<Rightarrow> workflowRun \<Rightarrow> pull list \<Rightarrow> bool" where
  "candidate_pulls A root run cs \<longleftrightarrow>
     cs \<noteq> [] \<and> length cs \<le> 8 \<and>
     (if PullRequests run = []
      then get_page A (pulls_at A) (root @ ''/commits/'' @ PathEscape (HeadSHA run) @ ''/pulls?per_page=100'') = Inr cs
      else cs = PullRequests run)"

definition only_match :: "github_api \<Rightarrow> string \<Rightarrow> workflowRun \<Rightarrow> repository \<Rightarrow> pull \<Rightarrow> bool" where
  "only_match A root run repo p \<longleftrightarrow>
     (\<exists>cs. candidate_pulls A root run cs \<and>
        {q. matching_pull A root run repo q \<and> Number q \<in> Number ` set cs} = {p})"

lemma match_pulls_single:
  assumes "candidate_pulls A root run cs" "match_pulls A root run repo [] [] cs = Inr [p]"
  shows "only_match A root run repo p"
proof -
  have p: "matching_pull A root run repo p" "Number p \<in> Number ` set cs"
    using match_pulls_matching [OF assms(2)] match_pulls_numbers [OF assms(2)] by simp_all
  have "q = p" if "matching_pull A root run repo q" "Number q \<in> Number ` set cs" for q
    using match_pulls_all [OF assms(2) that] by simp
  with p have "{q. matching_pull A root run repo q \<and> Number q \<in> Number ` set cs} = {p}" by blast
  with assms(1) show ?thesis unfolding only_match_def by blast
qed

lemma pr_base_agrees:
  "pr_base as p base = [] \<or> pr_base as p base = base \<and> (\<forall>a \<in> set as. Number a \<noteq> Number p) \<or>
     pr_base as p base = headsRef (BaseRef p) \<and> (\<exists>a \<in> set as. Number a = Number p) \<and>
     (\<forall>a \<in> set as. Number a = Number p \<longrightarrow> BaseRef a = BaseRef p)"
  by (induction as arbitrary: base) auto

text \<open>The run's own record of its pull request agrees with its base.\<close>

definition base_agreed :: "workflowRun \<Rightarrow> pull \<Rightarrow> bool" where
  "base_agreed run p \<longleftrightarrow>
     (\<exists>a \<in> set (PullRequests run). Number a = Number p) \<and>
     (\<forall>a \<in> set (PullRequests run). Number a = Number p \<longrightarrow> BaseRef a = BaseRef p)"

lemma pr_base_agreed: "pr_base (PullRequests run) p [] = [] \<or> pr_base (PullRequests run) p [] = headsRef (BaseRef p) \<and> base_agreed run p"
  using pr_base_agrees [of "PullRequests run" p "[]"] unfolding base_agreed_def by blast

text \<open>The three kinds of grant: the default branch, a pull request's merge ref, a branch.\<close>

definition pull_grant :: "Job \<Rightarrow> workflowRun \<Rightarrow> repository \<Rightarrow> pull \<Rightarrow> string \<Rightarrow> Identity" where
  "pull_grant j run repo p base =
     (let own = mergeRef (Number p) in
      (default_identity j run repo)\<lparr>WriteRef := own, ReadRefs := refs own base (headsRef (DefaultBranch repo))\<rparr>)"

definition branch_grant :: "Job \<Rightarrow> workflowRun \<Rightarrow> repository \<Rightarrow> Identity" where
  "branch_grant j run repo =
     (let own = headsRef (HeadBranch run) in
      (default_identity j run repo)\<lparr>WriteRef := own, ReadRefs := refs own [] (headsRef (DefaultBranch repo))\<rparr>)"

definition job_root :: "Job \<Rightarrow> string" where
  "job_root j = ''/repos/'' @ jRepository j"

text \<open>
  The evidence that a run's commit is on its branch: GitHub lists no tag of that name, gives the branch under
  that ref with its tip, and, for a push, the repository's activity records an update of that ref to the
  commit; for other events, or where there is no activity endpoint, the commit is the tip or GitHub's
  comparison finds the branch at the commit or ahead of it.
\<close>

definition recorded_update :: "github_api \<Rightarrow> string \<Rightarrow> string \<Rightarrow> string \<Rightarrow> bool" where
  "recorded_update A root ref sha \<longleftrightarrow>
     (\<exists>q link acts a. get_page A (activity_at A) (root @ ''/activity?'' @ q) = Inr (link, acts) \<and> a \<in> set acts \<and>
        actRef a = ref \<and> actAfter a = sha \<and> actType a \<in> set push_types)"

definition in_history :: "github_api \<Rightarrow> string \<Rightarrow> workflowRun \<Rightarrow> string \<Rightarrow> string \<Rightarrow> bool" where
  "in_history A root run branch tip \<longleftrightarrow>
     tip = HeadSHA run \<or>
     (\<exists>status \<in> {''identical'', ''ahead''}.
        get_page A (compare_at A) (root @ ''/compare/'' @ PathEscape (HeadSHA run) @ ''...'' @ escapeRefPath branch) = Inr status)"

definition proven_on_branch :: "github_api \<Rightarrow> Job \<Rightarrow> workflowRun \<Rightarrow> bool" where
  "proven_on_branch A j run \<longleftrightarrow>
     (let root = job_root j; branch = HeadBranch run; own = headsRef branch in
      (\<exists>tags. get_page A (tags_at A) (root @ ''/git/matching-refs/tags/'' @ escapeRefPath branch) = Inr tags \<and>
         ''refs/tags/'' @ branch \<notin> set tags) \<and>
      (\<exists>tip. get_page A (branch_at A) (root @ ''/git/ref/heads/'' @ escapeRefPath branch) = Inr (own, tip) \<and>
         (if wEvent run = ''push'' \<and> pushedTo A root own (HeadSHA run) \<noteq> Inl (Status 404)
          then recorded_update A root own (HeadSHA run)
          else in_history A root run branch tip)))"

lemma pushed_pages_evidence:
  "pushed_pages A root ref sha n query = Inr True \<Longrightarrow> recorded_update A root ref sha"
proof (induction n arbitrary: query)
  case (Suc n)
  obtain link acts where p: "get_page A (activity_at A) (root @ ''/activity?'' @ query) = Inr (link, acts)"
    using Suc.prems by auto
  show ?case
  proof (cases "list_ex (\<lambda>a. actType a \<in> set push_types \<and> actRef a = ref \<and> actAfter a = sha) acts")
    case True
    with p show ?thesis by (fastforce simp: list_ex_iff recorded_update_def)
  next
    case False
    with Suc p show ?thesis by (auto split: if_splits)
  qed
qed simp

lemma commit_evidence:
  assumes "commitOnBranch A root run (headsRef branch) tip = Inr True"
  shows "if wEvent run = ''push'' \<and> pushedTo A root (headsRef branch) (HeadSHA run) \<noteq> Inl (Status 404)
    then recorded_update A root (headsRef branch) (HeadSHA run) else in_history A root run branch tip"
proof -
  have "trim_prefix (headsRef branch) ''refs/heads/'' = branch" by (simp add: headsRef_def trim_prefix_def)
  with assms pushed_pages_evidence [of A root "headsRef branch" "HeadSHA run"] show ?thesis
    by (auto simp: commitOnBranch_def in_history_def pushedTo_def Let_def split: if_splits)
qed

definition run_answer :: "github_api \<Rightarrow> Job \<Rightarrow> workflowRun \<Rightarrow> repository \<Rightarrow> bool" where
  "run_answer A j run repo \<longleftrightarrow>
     valid_job j \<and> get_page A (run_at A) (job_root j @ ''/actions/runs/'' @ show_int (jRunID j)) = Inr run \<and>
     get_page A (repo_at A) (job_root j) = Inr repo \<and> wID run = jRunID j \<and> wEvent run = jEvent j \<and>
     equal_fold (FullName repo) (jRepository j) \<and> ValidRef (headsRef (DefaultBranch repo))"

lemma resolve_cases:
  assumes "resolve A j = Inr i"
  obtains (default) run repo where "run_answer A j run repo" "jEvent j \<noteq> ''pull_request''"
      "i = default_identity j run repo"
  | (pull) run repo p base where "run_answer A j run repo" "jEvent j = ''pull_request''"
      "only_match A (job_root j) run repo p" "matching_pull A (job_root j) run repo p" "ValidRef (headsRef (BaseRef p))"
      "base = [] \<or> base = headsRef (BaseRef p) \<and> base_agreed run p"
      "i = pull_grant j run repo p base"
  | (branch) run repo where "run_answer A j run repo" "jEvent j \<in> set branch_events"
      "equal_fold (HeadRepository run) (FullName repo)" "ValidRef (headsRef (HeadBranch run))"
      "proven_on_branch A j run" "i = branch_grant j run repo"
proof -
  have v: "valid_job j" using assms by (simp add: resolve_def split: if_splits)
  from assms v obtain run repo where r: "run_answer A j run repo"
    and i: "(if jEvent j = ''pull_request''
       then resolve_pull A (job_root j) run repo (headsRef (DefaultBranch repo)) (default_identity j run repo)
       else if jEvent j \<in> set branch_events
       then resolve_branch A (job_root j) run (headsRef (DefaultBranch repo)) (default_identity j run repo)
       else Inr (default_identity j run repo)) = Inr i"
    unfolding resolve_def Let_def job_root_def run_answer_def by (auto split: if_splits)
  consider (p) "jEvent j = ''pull_request''" | (b) "jEvent j \<noteq> ''pull_request''" "jEvent j \<in> set branch_events"
    | (d) "jEvent j \<noteq> ''pull_request''" "jEvent j \<notin> set branch_events" by blast
  then show thesis
  proof cases
    case d
    with i have "i = default_identity j run repo" by simp
    with d r show thesis by (intro default)
  next
    case p
    with i obtain cands ms where c: "candidate_pulls A (job_root j) run cands"
      and m: "match_pulls A (job_root j) run repo [] [] cands = Inr ms"
      and g: "(case ms of
          [p] \<Rightarrow> if \<not> ValidRef (headsRef (BaseRef p)) then Inl InvalidPRBase
            else (let own = mergeRef (Number p) in
              Inr ((default_identity j run repo)\<lparr>WriteRef := own,
                 ReadRefs := refs own (pr_base (PullRequests run) p []) (headsRef (DefaultBranch repo))\<rparr>))
        | _ \<Rightarrow> Inl PRAmbiguous) = Inr i"
      unfolding resolve_pull_def candidate_pulls_def by (auto split: if_splits)
    then obtain q where q: "ms = [q]" "ValidRef (headsRef (BaseRef q))"
      "i = pull_grant j run repo q (pr_base (PullRequests run) q [])"
      by (auto simp: pull_grant_def Let_def split: list.splits if_splits)
    have "matching_pull A (job_root j) run repo q" using match_pulls_matching [OF m] q(1) by simp
    moreover have "only_match A (job_root j) run repo q" using match_pulls_single [OF c] m q(1) by simp
    ultimately show thesis using p r q pr_base_agreed [of run q] by (intro pull) auto
  next
    case b
    from b i have rb: "resolve_branch A (job_root j) run (headsRef (DefaultBranch repo)) (default_identity j run repo) = Inr i"
      by simp
    have f: "\<not> Fork (default_identity j run repo)" and vr: "ValidRef (headsRef (HeadBranch run))"
      using rb unfolding resolve_branch_def Let_def by (simp_all split: if_splits)
    with rb obtain tags where t: "get_page A (tags_at A) (job_root j @ ''/git/matching-refs/tags/'' @ escapeRefPath (HeadBranch run)) = Inr tags"
      "''refs/tags/'' @ HeadBranch run \<notin> set tags"
      and rc: "ebind (via_api (get_page A (branch_at A) (job_root j @ ''/git/ref/heads/'' @ escapeRefPath (HeadBranch run))))
               (\<lambda>(bref, sha). if bref \<noteq> headsRef (HeadBranch run) then Inl BranchUnavailable
                  else
                    ebind (via_api (commitOnBranch A (job_root j) run (headsRef (HeadBranch run)) sha))
                    (\<lambda>onBranch. if \<not> onBranch then Inr (default_identity j run repo)
                       else Inr (branch_grant j run repo))) = Inr i"
      unfolding resolve_branch_def Let_def branch_grant_def list_ex_iff by (simp split: if_splits)
    from rc obtain sha onb where u:
      "get_page A (branch_at A) (job_root j @ ''/git/ref/heads/'' @ escapeRefPath (HeadBranch run)) =
         Inr (headsRef (HeadBranch run), sha)"
      "commitOnBranch A (job_root j) run (headsRef (HeadBranch run)) sha = Inr onb"
      "i = (if onb then branch_grant j run repo else default_identity j run repo)"
      by (auto split: if_splits)
    show thesis
    proof (cases onb)
      case True
      have "commitOnBranch A (job_root j) run (headsRef (HeadBranch run)) sha = Inr True" using u(2) True by simp
      from commit_evidence [OF this] have "proven_on_branch A j run"
        unfolding proven_on_branch_def Let_def using t u(1) by (intro conjI exI)
      moreover have "equal_fold (HeadRepository run) (FullName repo)" using f by (simp add: default_identity_def)
      moreover have "i = branch_grant j run repo" using u(3) True by simp
      ultimately show thesis using b r vr by (intro branch) auto
    next
      case False
      with u(3) have "i = default_identity j run repo" by simp
      with b r show thesis by (intro default) auto
    qed
  qed
qed

text \<open>Every answer is for the job's repository, run and event, and passes the registry's validation.\<close>

lemma resolve_for_job: "resolve A j = Inr i \<Longrightarrow> for_job j i \<and> Event i = jEvent j"
  by (erule resolve_cases)
    (auto simp: run_answer_def for_job_def default_identity_def pull_grant_def branch_grant_def Let_def equal_fold_def)

lemma unix_lease: "unix now < unix (now + leaseTTL)"
  by (simp add: unix_def leaseTTL_def div_add1_eq)

lemma headsRef_not_Nil [simp]: "headsRef b \<noteq> []" "mergeRef n \<noteq> []"
  by (simp_all add: headsRef_def mergeRef_def)

lemma refs_list_valid:
  assumes "ValidRef own" "own \<noteq> []" "base = [] \<or> ValidRef base" "ValidRef def"
  shows "list_all ValidRef (refs own base def)"
  using assms refs_valid(4) [OF assms(2), of base def] by (auto simp: list_all_iff)

lemma resolve_valid:
  assumes "resolve A j = Inr i" "Generation (identity l) \<noteq> []" "jRunner j' \<noteq> []" "jid \<noteq> []"
  shows "Validate (granted l j' now (i\<lparr>JobID := jid\<rparr>)) now = None"
  using assms(1)
proof (cases rule: resolve_cases)
  case (default run repo)
  then show ?thesis
    using assms(2-4) unix_lease
    by (auto simp: Validate_None granted_def default_identity_def run_answer_def valid_job_def equal_fold_def
        dest: ValidRepository_lower)
next
  case (pull run repo p base)
  have "ValidRef (mergeRef (Number p))" using pull(4) ValidRef_merge by (simp add: matching_pull_def)
  then show ?thesis
    using assms(2-4) unix_lease pull refs_list_valid [of "mergeRef (Number p)" base "headsRef (DefaultBranch repo)"]
    by (auto simp: Validate_None granted_def pull_grant_def default_identity_def run_answer_def valid_job_def
        equal_fold_def Let_def refs_valid dest: ValidRepository_lower)
next
  case (branch run repo)
  then show ?thesis
    using assms(2-4) unix_lease refs_list_valid [of "headsRef (HeadBranch run)" "[]" "headsRef (DefaultBranch repo)"]
    by (auto simp: Validate_None granted_def branch_grant_def default_identity_def run_answer_def valid_job_def
        equal_fold_def Let_def refs_valid dest: ValidRepository_lower)
qed

end
