(* ===== verification/GitHub_Claims.thy ===== *)
theory GitHub_Claims
  imports GitHub_Props
begin

text \<open>
  Token scoping, the memo of resolved policies, the resolver's contract for the registry, and the
  properties of the job identities that follow.
\<close>

section \<open>Tokens\<close>

definition only_token :: "string \<Rightarrow> github_api \<Rightarrow> github_api" where
  "only_token repo A = A\<lparr>token := (\<lambda>r. if r = repo then token A r else None)\<rparr>"

lemma only_token_fields [simp]:
  "run_at (only_token r A) = run_at A" "repo_at (only_token r A) = repo_at A"
  "pulls_at (only_token r A) = pulls_at A" "pull_at (only_token r A) = pull_at A"
  "tags_at (only_token r A) = tags_at A" "branch_at (only_token r A) = branch_at A"
  "compare_at (only_token r A) = compare_at A" "activity_at (only_token r A) = activity_at A"
  "nextCursor (only_token r A) = nextCursor A"
  by (simp_all add: only_token_def nextCursor_def fun_eq_iff)

lemma cut_at: "c \<notin> set a \<Longrightarrow> cut c (a @ c # b) = (a, b, True)"
  by (induction a) auto

lemma cut_no: "c \<notin> set a \<Longrightarrow> cut c a = (a, [], False)"
  by (induction a) auto

lemma ValidRepository_parts:
  assumes "ValidRepository repo"
  obtains a b where "repo = a @ CHR ''/'' # b" "CHR ''/'' \<notin> set a" "CHR ''/'' \<notin> set b"
proof -
  obtain a b where s: "split_on CHR ''/'' repo = [a, b]"
    using assms by (auto simp: ValidRepository_def Let_def length_Suc_conv numeral_2_eq_2)
  have "repo = join ''/'' [a, b]" using join_split_on [of "CHR ''/''" repo] s by simp
  then have "repo = a @ CHR ''/'' # b" by simp
  moreover have "CHR ''/'' \<notin> set a" "CHR ''/'' \<notin> set b"
    using split_on_no_sep [of _ "CHR ''/''" repo] s by auto
  ultimately show thesis by (rule that)
qed

lemma token_repo_root:
  assumes "ValidRepository repo" "rest = [] \<or> hd rest = CHR ''/''"
  shows "token_repo (''/repos/'' @ repo @ rest) = Some (to_lower repo)"
proof -
  obtain a b where r: "repo = a @ CHR ''/'' # b" "CHR ''/'' \<notin> set a" "CHR ''/'' \<notin> set b"
    using ValidRepository_parts [OF assms(1)] .
  have "trim_prefix (''/repos/'' @ repo @ rest) ''/repos/'' = repo @ rest"
    by (simp add: trim_prefix_def)
  moreover have "split_n 3 CHR ''/'' (repo @ rest) = a # (if rest = [] then [b] else [b, tl rest])"
    using r assms(2) by (cases rest) (auto simp: numeral_3_eq_3 cut_at cut_no)
  ultimately show ?thesis
    by (simp add: token_repo_def Let_def r(1))
qed

lemma get_page_only:
  assumes "ValidRepository (jRepository j)" "rest = [] \<or> hd rest = CHR ''/''"
  shows "get_page (only_token (to_lower (jRepository j)) A) f (job_root j @ rest) = get_page A f (job_root j @ rest)"
  using token_repo_root [OF assms] by (simp add: get_page_def job_root_def only_token_def)

text \<open>The two APIs give the same along the whole resolution.\<close>

lemma match_pulls_only:
  assumes "ValidRepository (jRepository j)"
  shows "match_pulls (only_token (to_lower (jRepository j)) A) (job_root j) run repo seen matched cs =
    match_pulls A (job_root j) run repo seen matched cs"
proof (induction cs arbitrary: seen matched)
  case (Cons c cs)
  have "get_page (only_token (to_lower (jRepository j)) A) (pull_at A) (job_root j @ ''/pulls/'' @ show_int (Number c)) =
      get_page A (pull_at A) (job_root j @ ''/pulls/'' @ show_int (Number c))"
    by (rule get_page_only [OF assms]) simp
  with Cons.IH show ?case by simp
qed simp

lemma pushed_pages_only:
  assumes "ValidRepository (jRepository j)"
  shows "pushed_pages (only_token (to_lower (jRepository j)) A) (job_root j) ref sha n query =
    pushed_pages A (job_root j) ref sha n query"
proof (induction n arbitrary: query)
  case (Suc n)
  have "get_page (only_token (to_lower (jRepository j)) A) (activity_at A) (job_root j @ ''/activity?'' @ query) =
      get_page A (activity_at A) (job_root j @ ''/activity?'' @ query)"
    by (rule get_page_only [OF assms]) simp
  with Suc.IH show ?case by (simp add: case_prod_unfold cong del: if_weak_cong)
qed simp

lemma commitOnBranch_only:
  assumes "ValidRepository (jRepository j)"
  shows "commitOnBranch (only_token (to_lower (jRepository j)) A) (job_root j) run own tip =
    commitOnBranch A (job_root j) run own tip"
proof -
  have "get_page (only_token (to_lower (jRepository j)) A) (compare_at A) (job_root j @ ''/compare/'' @ rest) =
      get_page A (compare_at A) (job_root j @ ''/compare/'' @ rest)" for rest
    by (rule get_page_only [OF assms]) simp
  then show ?thesis
    by (simp add: commitOnBranch_def pushedTo_def pushed_pages_only [OF assms] cong del: if_weak_cong)
qed

lemma resolve_pull_only:
  assumes "ValidRepository (jRepository j)"
  shows "resolve_pull (only_token (to_lower (jRepository j)) A) (job_root j) run repo def i =
    resolve_pull A (job_root j) run repo def i"
proof -
  have "get_page (only_token (to_lower (jRepository j)) A) (pulls_at A) (job_root j @ ''/commits/'' @ rest) =
      get_page A (pulls_at A) (job_root j @ ''/commits/'' @ rest)" for rest
    by (rule get_page_only [OF assms]) simp
  then show ?thesis
    by (simp add: resolve_pull_def match_pulls_only [OF assms] cong del: if_weak_cong)
qed

lemma resolve_branch_only:
  assumes "ValidRepository (jRepository j)"
  shows "resolve_branch (only_token (to_lower (jRepository j)) A) (job_root j) run def i =
    resolve_branch A (job_root j) run def i"
proof -
  have "get_page (only_token (to_lower (jRepository j)) A) (tags_at A) (job_root j @ ''/git/'' @ rest) =
      get_page A (tags_at A) (job_root j @ ''/git/'' @ rest)"
    "get_page (only_token (to_lower (jRepository j)) A) (branch_at A) (job_root j @ ''/git/'' @ rest) =
      get_page A (branch_at A) (job_root j @ ''/git/'' @ rest)" for rest
    by (rule get_page_only [OF assms], simp)+
  then show ?thesis
    unfolding resolve_branch_def Let_def
    by (simp add: commitOnBranch_only [OF assms] case_prod_unfold cong del: if_weak_cong)
qed

text \<open>
  C14. Resolving a job presents no token but the one of the job's own repository: with every other
  token taken away, the answer, grant or error, is the same.
\<close>

theorem resolve_token_scope:
  "resolve (only_token (to_lower (jRepository j)) A) j = resolve A j"
proof (cases "valid_job j")
  case True
  then have v: "ValidRepository (jRepository j)" by (simp add: valid_job_def)
  have r: "get_page (only_token (to_lower (jRepository j)) A) (repo_at A) (job_root j) = get_page A (repo_at A) (job_root j)"
    using get_page_only [OF v, of "[]"] by simp
  have w: "get_page (only_token (to_lower (jRepository j)) A) (run_at A) (job_root j @ ''/actions/runs/'' @ rest) =
      get_page A (run_at A) (job_root j @ ''/actions/runs/'' @ rest)" for rest
    by (rule get_page_only [OF v]) simp
  show ?thesis
    using True r w resolve_pull_only [OF v] resolve_branch_only [OF v]
    unfolding resolve_def Let_def job_root_def [symmetric] by (simp cong del: if_weak_cong)
qed (simp add: resolve_def)

section \<open>The memo\<close>

text \<open>An answer for a job: what the resolution of some job of the same run and event once gave.\<close>

definition github_answer :: "Job \<Rightarrow> Identity \<Rightarrow> bool" where
  "github_answer j i \<longleftrightarrow>
     valid_job j \<and> (\<exists>A k i'. run_key k = run_key j \<and> resolve A k = Inr i' \<and> i = i'\<lparr>JobID := jJobID j\<rparr>)"

lemma append_sep_eq:
  fixes c :: char
  assumes "c \<notin> set a" "c \<notin> set a'" "a @ c # x = a' @ c # x'"
  shows "a = a' \<and> x = x'"
proof -
  have "cut c (a @ c # x) = cut c (a' @ c # x')" by (rule arg_cong [OF assms(3)])
  then show ?thesis unfolding cut_at [OF assms(1)] cut_at [OF assms(2)] by simp
qed

lemma run_key_inj:
  assumes "valid_job j" "valid_job k" "run_key j = run_key k"
  shows "to_lower (jRepository j) = to_lower (jRepository k) \<and> jRunID j = jRunID k \<and> jEvent j = jEvent k"
proof -
  obtain a b where j: "to_lower (jRepository j) = a @ CHR ''/'' # b" "CHR ''/'' \<notin> set a" "CHR ''/'' \<notin> set b"
    using ValidRepository_parts ValidRepository_lower assms(1) unfolding valid_job_def by metis
  obtain a' b' where k: "to_lower (jRepository k) = a' @ CHR ''/'' # b'" "CHR ''/'' \<notin> set a'" "CHR ''/'' \<notin> set b'"
    using ValidRepository_parts ValidRepository_lower assms(2) unfolding valid_job_def by metis
  have n: "CHR ''/'' \<notin> set (show_int m)" if "0 < m" for m
    using that show_nat_no [of "CHR ''/''"] by (simp add: show_int_def is_digit_def)
  have "a @ CHR ''/'' # (b @ CHR ''/'' # (show_int (jRunID j) @ CHR ''/'' # jEvent j)) =
      a' @ CHR ''/'' # (b' @ CHR ''/'' # (show_int (jRunID k) @ CHR ''/'' # jEvent k))"
    using assms(3) by (simp add: run_key_def j(1) k(1))
  from append_sep_eq [OF j(2) k(2) this]
  have ab: "a = a'" "b @ CHR ''/'' # (show_int (jRunID j) @ CHR ''/'' # jEvent j) =
      b' @ CHR ''/'' # (show_int (jRunID k) @ CHR ''/'' # jEvent k)" by blast+
  from append_sep_eq [OF j(3) k(3) ab(2)]
  have bb: "b = b'" "show_int (jRunID j) @ CHR ''/'' # jEvent j = show_int (jRunID k) @ CHR ''/'' # jEvent k" by blast+
  have pos: "0 < jRunID j" "0 < jRunID k" using assms(1,2) by (simp_all add: valid_job_def)
  have "show_int (jRunID j) = show_int (jRunID k) \<and> jEvent j = jEvent k"
    by (rule append_sep_eq [OF n [OF pos(1)] n [OF pos(2)] bb(2)])
  moreover from this have "jRunID j = jRunID k"
    using pos by (auto simp: show_int_def show_nat_inj)
  ultimately show ?thesis using ab(1) bb(1) j(1) k(1) by simp
qed

lemma resolve_valid_job: "resolve A j = Inr i \<Longrightarrow> valid_job j"
  by (simp add: resolve_def split: if_splits)

lemma github_answer_for_job: "github_answer j i \<Longrightarrow> for_job j i \<and> Event i = jEvent j"
proof -
  assume "github_answer j i"
  then obtain A k i' where v: "valid_job j" and k: "run_key k = run_key j" "resolve A k = Inr i'"
    and i: "i = i'\<lparr>JobID := jJobID j\<rparr>"
    by (auto simp: github_answer_def)
  from run_key_inj [OF resolve_valid_job [OF k(2)] v k(1)] resolve_for_job [OF k(2)] i
  show "for_job j i \<and> Event i = jEvent j" by (simp add: for_job_def equal_fold_def)
qed

lemma github_answer_valid:
  "github_answer j i \<Longrightarrow> Generation (identity l) \<noteq> [] \<Longrightarrow> jRunner j \<noteq> [] \<Longrightarrow>
   Validate (granted l j now i) now = None"
proof -
  assume "github_answer j i" and l: "Generation (identity l) \<noteq> []" "jRunner j \<noteq> []"
  then obtain A k i' where v: "valid_job j" and r: "resolve A k = Inr i'" and i: "i = i'\<lparr>JobID := jJobID j\<rparr>"
    by (auto simp: github_answer_def)
  then show "Validate (granted l j now i) now = None"
    using resolve_valid [OF r l, of "jJobID j"] by (simp add: valid_job_def)
qed

interpretation github: job_resolver github_answer
  by unfold_locales (simp add: github_answer_for_job)

definition memo_ok :: "memo \<Rightarrow> bool" where
  "memo_ok m \<longleftrightarrow>
     wf_map m \<and> length m \<le> 1024 \<and>
     (\<forall>k i e. mlookup m k = Some (i, e) \<longrightarrow>
        (\<exists>A j i'. run_key j = k \<and> resolve A j = Inr i' \<and> i = i'\<lparr>JobID := []\<rparr>))"

inductive memo_step :: "unit \<Rightarrow> memo \<Rightarrow> memo \<Rightarrow> bool" where
  "victim \<in> set (keys m) \<or> m = [] \<Longrightarrow> memo_step () m (snd (Resolve A ctx_done t1 t2 victim j m))"

lemma memo_ok_put:
  assumes m: "memo_ok m" and r: "resolve A j = Inr i" and v: "victim \<in> set (keys m) \<or> m = []"
  shows "memo_ok (mput (run_key j) (i\<lparr>JobID := []\<rparr>, e) (if length m \<ge> 1024 then mdel victim m else m))"
    (is "memo_ok (mput ?k ?v ?m)")
proof -
  have l: "length ?m < 1024"
    using m v length_mdel [of m victim] by (auto simp: memo_ok_def set_keys_iff)
  have "length (mput ?k ?v ?m) \<le> 1024"
    using l length_mput [of ?k ?v ?m] by simp
  moreover have "wf_map (mput ?k ?v ?m)"
    using m by (simp add: memo_ok_def)
  moreover have "\<exists>A j i'. run_key j = k \<and> resolve A j = Inr i' \<and> u = i'\<lparr>JobID := []\<rparr>"
    if "mlookup (mput ?k ?v ?m) k = Some (u, e')" for k u e'
  proof (cases "k = ?k")
    case True
    with that r show ?thesis by (intro exI [of _ A] exI [of _ j] exI [of _ i]) simp
  next
    case False
    with that have "mlookup m k = Some (u, e')" by (simp split: if_splits)
    with m show ?thesis unfolding memo_ok_def by blast
  qed
  ultimately show ?thesis unfolding memo_ok_def by blast
qed

lemma Resolve_cases:
  obtains e where "Resolve A cd t1 t2 victim j m = (Inl e, m)"
  | i e where "valid_job j" "mlookup m (run_key j) = Some (i, e)" "t1 < e"
      "Resolve A cd t1 t2 victim j m = (Inr (i\<lparr>JobID := jJobID j\<rparr>), m)"
  | i where "resolve A j = Inr i"
      "Resolve A cd t1 t2 victim j m =
         (Inr i, mput (run_key j) (i\<lparr>JobID := []\<rparr>, t2 + 2 * minute) (if length m \<ge> 1024 then mdel victim m else m))"
proof (cases "\<not> valid_job j \<or> cd")
  case True
  then show thesis
    by (intro that(1) [of "if valid_job j then ContextDone else InvalidJob"]) (auto simp: Resolve_def)
next
  case False
  show thesis
  proof (cases "\<exists>i e. mlookup m (run_key j) = Some (i, e) \<and> t1 < e")
    case True
    with False show thesis by (auto simp: Resolve_def Let_def intro: that(2))
  next
    case no: False
    show thesis
    proof (cases "resolve A j")
      case (Inl e)
      with False no show thesis
        by (intro that(1) [of e]) (auto simp: Resolve_def Let_def split: option.splits)
    next
      case (Inr i)
      with False no show thesis
        by (intro that(3) [of i]) (auto simp: Resolve_def Let_def split: option.splits)
    qed
  qed
qed

interpretation memo: invariant_system "\<lambda>m. m = []" memo_step memo_ok
proof
  fix m :: memo assume "m = []"
  then show "memo_ok m" by (simp add: memo_ok_def)
next
  fix m l m' assume m: "memo_ok m" and "memo_step l m m'"
  then obtain victim A cd t1 t2 j where m': "m' = snd (Resolve A cd t1 t2 victim j m)"
    and v: "victim \<in> set (keys m) \<or> m = []" by (auto elim: memo_step.cases)
  show "memo_ok m'"
    by (cases A cd t1 t2 victim j m rule: Resolve_cases) (use m v m' memo_ok_put in simp_all)
qed

lemma Resolve_answer:
  assumes m: "memo_ok m" and r: "fst (Resolve A cd t1 t2 victim j m) = Inr i"
  shows "github_answer j i"
proof (cases A cd t1 t2 victim j m rule: Resolve_cases)
  case (1 e)
  with r show ?thesis by simp
next
  case (2 i' e)
  with m obtain A' k i0 where "run_key k = run_key j" "resolve A' k = Inr i0" "i' = i0\<lparr>JobID := []\<rparr>"
    unfolding memo_ok_def by blast
  with 2 r show ?thesis by (auto simp: github_answer_def)
next
  case (3 i')
  with r have "resolve A j = Inr i" by simp
  moreover from this have "i = i\<lparr>JobID := jJobID j\<rparr>"
    using resolve_for_job by (simp add: for_job_def)
  ultimately show ?thesis
    using resolve_valid_job unfolding github_answer_def by blast
qed

section \<open>A concrete API\<close>

text \<open>A push to \<open>main\<close> of \<open>o/r\<close>, recorded in the repository's activity.\<close>

definition demo_job :: Job where
  "demo_job = \<lparr>jWorkflowRef = [], jRunner = ''w'', jRepository = ''o/r'', jEvent = ''push'', jRunID = 7, jJobID = ''b''\<rparr>"

definition demo_run :: workflowRun where
  "demo_run = \<lparr>wID = 7, wEvent = ''push'', HeadBranch = ''dev'', HeadSHA = ''c'', wRepository = ''o/r'',
     HeadRepository = ''o/r'', PullRequests = []\<rparr>"

definition demo_api :: github_api where
  "demo_api =
     \<lparr>token = (\<lambda>_. Some ''t''), run_at = (\<lambda>_ _. Inr demo_run),
      repo_at = (\<lambda>_ _. Inr \<lparr>FullName = ''O/r'', DefaultBranch = ''main''\<rparr>), pulls_at = (\<lambda>_ _. Inr []),
      pull_at = (\<lambda>_ _. Inl OtherError), tags_at = (\<lambda>_ _. Inr []),
      branch_at = (\<lambda>_ _. Inr (''refs/heads/dev'', ''d'')), compare_at = (\<lambda>_ _. Inl OtherError),
      activity_at = (\<lambda>_ _. Inr ([], [\<lparr>actRef = ''refs/heads/dev'', actAfter = ''c'', actType = ''push''\<rparr>])),
      after_of = (\<lambda>_. None)\<rparr>"

definition demo_identity :: Identity where
  "demo_identity = noIdentity\<lparr>Repository := ''o/r'', Event := ''push'', RunID := 7, JobID := ''b'',
     WriteRef := ''refs/heads/dev'', ReadRefs := [''refs/heads/dev'', ''refs/heads/main'']\<rparr>"

lemma demo_resolve: "resolve demo_api demo_job = Inr demo_identity"
  by code_simp

end
