(* ===== verification/Identity_Claims.thy ===== *)
theory Identity_Claims
  imports GitHub_Claims
begin

text \<open>
  The properties of job identities: the evidence behind each grant, what the memo may answer, whose
  rights the record under an address carries, and how a resolution ends.
\<close>

section \<open>The evidence behind a grant\<close>

text \<open>
  C12. A resolved identity is for the job's repository, run and event.  It can write only the merge ref
  of the pull request that alone, among those the run or its commit names, the API confirmed for the run,
  and then reads its base only where the run's own record gives that base; or, when the run's head is in
  the repository itself, the branch the commit is proven to be on, by the recorded update for a push and
  by the branch's actual tip for the other events; without such a scope it reads one default branch.
\<close>

theorem resolve_authority:
  assumes "resolve A j = Inr i"
  shows "for_job j i \<and> Event i = jEvent j \<and>
    (\<exists>run repo. run_answer A j run repo \<and>
      (WriteRef i = [] \<and> ReadRefs i = [headsRef (DefaultBranch repo)] \<or>
       jEvent j = ''pull_request'' \<and>
         (\<exists>p. only_match A (job_root j) run repo p \<and> WriteRef i = mergeRef (Number p) \<and>
              ValidRef (headsRef (BaseRef p)) \<and>
              set (ReadRefs i) \<subseteq> {WriteRef i, headsRef (DefaultBranch repo)} \<union>
                (if base_agreed run p then {headsRef (BaseRef p)} else {})) \<or>
       jEvent j \<in> set branch_events \<and> \<not> Fork i \<and> WriteRef i = headsRef (HeadBranch run) \<and>
         proven_on_branch A j run \<and> set (ReadRefs i) \<subseteq> {WriteRef i, headsRef (DefaultBranch repo)}))"
  using assms
proof (cases rule: resolve_cases)
  case (default run repo)
  then show ?thesis
    using resolve_for_job [OF assms] by (auto simp: default_identity_def)
next
  case (pull run repo p base)
  then have "WriteRef i = mergeRef (Number p)"
    "set (ReadRefs i) \<subseteq> {WriteRef i, headsRef (DefaultBranch repo)} \<union>
       (if base_agreed run p then {headsRef (BaseRef p)} else {})"
    by (auto simp: pull_grant_def Let_def refs_valid(4))
  with pull resolve_for_job [OF assms] show ?thesis by blast
next
  case (branch run repo)
  then have "WriteRef i = headsRef (HeadBranch run)" "\<not> Fork i"
    "set (ReadRefs i) \<subseteq> {WriteRef i, headsRef (DefaultBranch repo)}"
    by (auto simp: branch_grant_def default_identity_def Let_def refs_valid(4))
  with branch resolve_for_job [OF assms] show ?thesis by blast
qed

lemma resolve_authority_witness:
  "for_job demo_job demo_identity \<and> Event demo_identity = jEvent demo_job \<and>
    (\<exists>run repo. run_answer demo_api demo_job run repo \<and>
      (WriteRef demo_identity = [] \<and> ReadRefs demo_identity = [headsRef (DefaultBranch repo)] \<or>
       jEvent demo_job = ''pull_request'' \<and>
         (\<exists>p. only_match demo_api (job_root demo_job) run repo p \<and> WriteRef demo_identity = mergeRef (Number p) \<and>
              ValidRef (headsRef (BaseRef p)) \<and>
              set (ReadRefs demo_identity) \<subseteq> {WriteRef demo_identity, headsRef (DefaultBranch repo)} \<union>
                (if base_agreed run p then {headsRef (BaseRef p)} else {})) \<or>
       jEvent demo_job \<in> set branch_events \<and> \<not> Fork demo_identity \<and> WriteRef demo_identity = headsRef (HeadBranch run) \<and>
         proven_on_branch demo_api demo_job run \<and> set (ReadRefs demo_identity) \<subseteq> {WriteRef demo_identity, headsRef (DefaultBranch repo)}))"
  by (rule resolve_authority [OF demo_resolve])

text \<open>
  In every state of the memo, at most 1024 policies are held, and an answer, memoised or fresh, is
  for the job's own repository, run, event and job id, and passes the registry's validation.
\<close>

theorem memo_serves_own_run:
  assumes "reach (\<lambda>m. m = []) memo_step m"
    and "fst (Resolve A ctx_done t1 t2 victim j m) = Inr i"
    and "Generation (identity l) \<noteq> []" "jRunner j \<noteq> []"
  shows "length m \<le> 1024 \<and> for_job j i \<and> Event i = jEvent j \<and> Validate (granted l j now i) now = None"
proof -
  have m: "memo_ok m" by (rule memo.reach_inv [OF assms(1)])
  have "github_answer j i" by (rule Resolve_answer [OF m assms(2)])
  with m assms(3,4) show ?thesis
    using github_answer_for_job github_answer_valid unfolding memo_ok_def by blast
qed

lemma demo_memo:
  "reach (\<lambda>m. m = []) memo_step (snd (Resolve demo_api False 0 0 [] demo_job []))"
  by (rule reach_step [OF reach_init]) (auto intro: memo_step.intros)

lemma demo_memo_hit:
  "fst (Resolve demo_api False 5 5 [] (demo_job\<lparr>jJobID := ''z''\<rparr>)
     (snd (Resolve demo_api False 0 0 [] demo_job []))) = Inr (demo_identity\<lparr>JobID := ''z''\<rparr>)"
proof -
  have v: "valid_job demo_job" "valid_job (demo_job\<lparr>jJobID := ''z''\<rparr>)" by code_simp+
  have k: "run_key (demo_job\<lparr>jJobID := ''z''\<rparr>) = run_key demo_job" by (simp add: run_key_def)
  have "Resolve demo_api False 0 0 [] demo_job [] =
      (Inr demo_identity, [(run_key demo_job, demo_identity\<lparr>JobID := []\<rparr>, 2 * minute)])"
    by (simp add: Resolve_def v demo_resolve)
  then show ?thesis by (simp add: Resolve_def v k)
qed

lemma memo_serves_own_run_witness:
  "for_job (demo_job\<lparr>jJobID := ''z''\<rparr>) (demo_identity\<lparr>JobID := ''z''\<rparr>)"
proof -
  let ?l = "\<lparr>identity = noIdentity\<lparr>Generation := ''g''\<rparr>, lcancel = None, lptr = 0\<rparr>"
  show ?thesis
    using memo_serves_own_run [OF demo_memo demo_memo_hit, of ?l 0] by (simp add: demo_job_def)
qed

section \<open>Records and addresses\<close>

text \<open>
  C13. In every state of the registry, the record found under the address of a VM's lease names that VM
  and its generation, and carries rights only if the control plane has started a job on that VM, and
  then those of that job's repository, run and job id.
\<close>

theorem record_is_the_tenants:
  assumes "reach registry_init (registry_step github_answer) r"
    and "mlookup (leases r) n = Some l" "mlookup (files r) (IP (identity l)) = Some f"
  shows "Runner f = n \<and> Generation f = Generation (identity l) \<and>
    (\<not> has_rights f \<or> (\<exists>j. lcancel l = Some j \<and> jRunner j = n \<and> for_job j f))"
proof -
  have "lease_ok n l"
    using github.registry.reach_inv [OF assms(1)] assms(2) unfolding registry_inv_def leases_in_order_def by blast
  with github.record_rights [OF assms] show ?thesis
    unfolding file_ok_def lease_ok_def by blast
qed

definition demo_reg1 :: Registry where
  "demo_reg1 = fst (Register ''w'' ''10.0.0.2'' (Some ''g'') True 0 NewRegistry)"

definition demo_reg2 :: Registry where "demo_reg2 = Start demo_job True 0 demo_reg1"

definition demo_reg3 :: Registry where
  "demo_reg3 = (resolved 0 demo_job (Some demo_identity) False (0, 0, 0) True True demo_reg2)
     \<lparr>inflight := remove1 (0, demo_job) (inflight demo_reg2)\<rparr>"

lemma demo_regs:
  "inflight demo_reg2 = [(0, demo_job)]"
  "mlookup (leases demo_reg2) ''w'' =
     Some \<lparr>identity = noIdentity\<lparr>IP := ''10.0.0.2'', Runner := ''w'', Generation := ''g'', Repository := ''o/r'',
             Event := ''push'', RunID := 7, JobID := ''b''\<rparr>, lcancel = Some demo_job, lptr = 0\<rparr>"
  "mlookup (files demo_reg3) ''10.0.0.2'' =
     Some (demo_identity\<lparr>IP := ''10.0.0.2'', Runner := ''w'', Generation := ''g'', ExpiresAt := 90\<rparr>)"
  "mlookup (leases demo_reg3) ''w'' =
     Some \<lparr>identity = demo_identity\<lparr>IP := ''10.0.0.2'', Runner := ''w'', Generation := ''g'', ExpiresAt := 90\<rparr>,
           lcancel = Some demo_job, lptr = 0\<rparr>"
  by code_simp+

lemma demo_reach1: "reach registry_init (registry_step github_answer) demo_reg1"
  unfolding demo_reg1_def
  by (rule reach_step, rule reach_init, simp add: registry_init_def, rule step_register, simp)

lemma demo_reach2: "reach registry_init (registry_step github_answer) demo_reg2"
  unfolding demo_reg2_def by (rule reach_step [OF demo_reach1 step_start])

lemma demo_answer: "github_answer demo_job demo_identity"
proof -
  have "valid_job demo_job" "demo_identity = demo_identity\<lparr>JobID := jJobID demo_job\<rparr>" by code_simp+
  with demo_resolve show ?thesis unfolding github_answer_def by blast
qed

lemma demo_reach3: "reach registry_init (registry_step github_answer) demo_reg3"
proof -
  have "registry_step github_answer
      (ResolvedEv 0 demo_job (\<lambda>_. Some demo_identity) (\<lambda>_. False) False (0, 0, 0) True True) demo_reg2
      ((resolved 0 demo_job (attempts (\<lambda>_. Some demo_identity) (\<lambda>_. False) [0, 1, 2]) False (0, 0, 0) True True demo_reg2)
         \<lparr>inflight := remove1 (0, demo_job) (inflight demo_reg2)\<rparr>)"
    by (rule step_resolved) (simp_all add: demo_regs demo_answer)
  then have "registry_step github_answer
      (ResolvedEv 0 demo_job (\<lambda>_. Some demo_identity) (\<lambda>_. False) False (0, 0, 0) True True) demo_reg2 demo_reg3"
    by (simp add: demo_reg3_def)
  then show ?thesis by (rule reach_step [OF demo_reach2])
qed

lemma record_is_the_tenants_witness:
  "\<exists>l f. mlookup (leases demo_reg3) ''w'' = Some l \<and> mlookup (files demo_reg3) (IP (identity l)) = Some f \<and>
     WriteRef f = ''refs/heads/dev'' \<and> Generation f = Generation (identity l)"
proof -
  obtain l f where l: "mlookup (leases demo_reg3) ''w'' = Some l" and f: "mlookup (files demo_reg3) (IP (identity l)) = Some f"
    and w: "WriteRef f = ''refs/heads/dev''"
    using demo_regs(3,4) by (auto simp: demo_identity_def)
  from record_is_the_tenants [OF demo_reach3 l f] l f w show ?thesis by blast
qed

text \<open>
  Once its lease is released, a goroutine's pointer is held by no lease, ever again.
\<close>

definition released :: "nat \<Rightarrow> Registry \<Rightarrow> bool" where
  "released p r \<longleftrightarrow> p < nextptr r \<and> (\<forall>n l. mlookup (leases r) n = Some l \<longrightarrow> lptr l \<noteq> p)"

lemma released_resolved: "released p r \<Longrightarrow> released p (resolved q j a ex ts o1 o2 r)"
  by (cases q j a ex ts o1 o2 r rule: resolved_cases) (auto simp: released_def)

lemma released_step:
  assumes "released p r" "registry_step resolves l r r'"
  shows "released p r'"
  using assms(2)
proof cases
  case (step_register rnd runner ip ok now)
  with assms(1) show ?thesis
    by (auto simp: Register_def released_def Let_def split: option.splits)
next
  case (step_release runner removed)
  with assms(1) show ?thesis
    by (auto simp: Release_def released_def split: option.splits if_splits)
next
  case (step_start j ok now)
  with assms(1) show ?thesis
    by (auto simp: Start_def released_def Let_def split: option.splits)
next
  case (step_resolved q j answer ctx_done ex ts o1 o2)
  with released_resolved [OF assms(1), of q j "attempts answer ctx_done [0, 1, 2]" ex ts o1 o2]
  show ?thesis by (simp add: released_def)
next
  case (step_refresh ok now)
  with assms(1) show ?thesis by (simp add: refresh_def released_def)
next
  case (step_close rm)
  with assms(1) show ?thesis by (simp add: Close_def released_def)
qed

text \<open>
  After a VM's lease is released, whatever the registry does next, a registration of the same
  address included, the answer that goroutine still brings changes nothing.
\<close>

theorem late_answer_harmless:
  assumes "reach registry_init (registry_step github_answer) r" and "mlookup (leases r) n = Some l"
    and "reach (\<lambda>s. s = fst (Release n removed r)) (registry_step github_answer) s"
  shows "resolved (lptr l) j answer expired ts ok1 ok2 s = s"
proof -
  have inv: "registry_inv r" by (rule github.registry.reach_inv [OF assms(1)])
  have "released (lptr l) (fst (Release n removed r))"
    using inv assms(2)
    unfolding registry_inv_def leases_in_order_def leases_apart_def released_def Release_def
    by (auto split: if_splits)
  with assms(3) have "released (lptr l) s"
    by (induction rule: reach.induct) (auto intro: released_step)
  then show ?thesis
    by (auto simp: resolved_def released_def split: option.splits)
qed

lemma late_answer_harmless_witness:
  "(let s = fst (Register ''x'' ''10.0.0.2'' (Some ''h'') True 0 (fst (Release ''w'' True demo_reg2))) in
    mlookup (files s) ''10.0.0.2'' \<noteq> None \<and> resolved 0 demo_job (Some demo_identity) False (0, 0, 0) True True s = s)"
proof -
  let ?s = "fst (Register ''x'' ''10.0.0.2'' (Some ''h'') True 0 (fst (Release ''w'' True demo_reg2)))"
  have s: "reach (\<lambda>s. s = fst (Release ''w'' True demo_reg2)) (registry_step github_answer) ?s"
    by (rule reach_step, rule reach_init, rule refl, rule step_register, simp)
  have "mlookup (files ?s) ''10.0.0.2'' \<noteq> None" by code_simp
  with late_answer_harmless [OF demo_reach2 demo_regs(2) s, of demo_job "Some demo_identity" False "(0, 0, 0)" True True]
  show ?thesis by (simp add: Let_def)
qed

text \<open>
  A resolution settles: when the goroutine of a live lease takes its last step and the record it
  writes reaches the directory, the record under the VM's address is no longer pending, at any time.
\<close>

theorem resolution_settles:
  assumes "mlookup (leases r) (jRunner j) = Some l" "lptr l = p" "ok2"
  shows "\<exists>f. mlookup (files (resolved p j answer expired ts ok1 ok2 r)) (IP (identity l)) = Some f \<and> \<not> Pending f now"
proof (cases p j answer expired ts ok1 ok2 r rule: resolved_cases)
  case 1
  with assms show ?thesis by simp
next
  case (2 k)
  then show ?thesis using assms by (auto simp: write_record_lookup Pending_def)
next
  case (3 k a)
  then show ?thesis using assms
    by (auto simp: write_record_lookup granted_def Pending_def Validate_None)
qed

lemma resolution_settles_witness:
  "\<exists>f. mlookup (files (resolved 0 demo_job None False (0, 0, 0) True True demo_reg2)) ''10.0.0.2'' = Some f \<and>
     \<not> Pending f 0"
  using resolution_settles [of demo_reg2 demo_job, OF _ _ TrueI, of _ 0 None False "(0, 0, 0)" True 0] demo_regs(2)
  by (simp add: demo_job_def)

end
