(* ===== verification/Cache_Server.thy ===== *)
theory Cache_Server
  imports JobIdentity
begin

text \<open>
  The cache server's state and operations (\<open>internal/cacheserver/cacheserver.go\<close> and \<open>scope.go\<close>).

  The disk is part of the state: \<open>blobs\<close> for the files under \<open>blobs/\<close>, \<open>blocks\<close> for the directories under
  \<open>tmp/\<close>, \<open>index_file\<close> for \<open>index.json\<close>.  A block's file name is the hexadecimal form of its id, which is
  injective, so blocks are kept under their ids.  Removing a file succeeds; whether a write succeeds is an
  argument of the operation, and a directory that cannot be made counts as a failed write.  A block's file and
  its count in \<open>staged\<close> are written in one step.  The \<open>range\<close> loops that pick an entry visit the map in an order that does
  not matter, as the properties show.

  A handler is a function of the decoded request (\<open>None\<close> when it does not decode), of \<open>who\<close>, which is
  \<open>s.identity(r)\<close> at that point, and of the clock; its sections under \<open>s.mu\<close> are separate definitions where
  the handler leaves the lock.
\<close>

section \<open>State\<close>

definition maxIncompleteAge :: duration where "maxIncompleteAge = 30 * minute"

record Entry =
  eRef :: string
  eGeneration :: string
  eJobID :: string
  eRunID :: int
  eID :: nat
  eSig :: string
  eRepoID :: string
  eKey :: string
  eVersion :: string
  eSize :: int
  eComplete :: bool
  eCreatedAt :: int
  eUsedAt :: int

record Server =
  entries :: "(nat, Entry) gomap"
  nextID :: nat
  maxSize :: int
  maxEntry :: int
  staged :: "(nat, int) gomap"
  identityDenied :: "(string, nat) gomap"
  identityFailures :: "string list"
  identityWait :: duration
  identityWaits :: nat
  hits :: nat
  misses :: nat
  saves :: nat
  evictions :: nat
  blobs :: "(nat, string) gomap"
  blocks :: "(nat, (string, string) gomap) gomap"
  index_file :: "Entry list option"

definition mget :: "'k \<Rightarrow> 'v \<Rightarrow> ('k, 'v) gomap \<Rightarrow> 'v" where
  "mget k d m = (case mlookup m k of None \<Rightarrow> d | Some v \<Rightarrow> v)"

definition SetMaxSize :: "int \<Rightarrow> Server \<Rightarrow> Server" where "SetMaxSize n s = s\<lparr>maxSize := n\<rparr>"
definition SetMaxEntrySize :: "int \<Rightarrow> Server \<Rightarrow> Server" where "SetMaxEntrySize n s = s\<lparr>maxEntry := n\<rparr>"
definition SetIdentityWait :: "duration \<Rightarrow> Server \<Rightarrow> Server" where
  "SetIdentityWait d s = s\<lparr>identityWait := (if d < 0 then 0 else d)\<rparr>"

text \<open>\<open>defaultIdentityWait\<close> and the fields \<open>New\<close> sets before it loads the index.\<close>

definition DefaultIdentityWait :: duration where "DefaultIdentityWait = 60 * second"

definition emptyServer :: Server where
  "emptyServer =
     \<lparr>entries = [], nextID = 1, maxSize = 0, maxEntry = 0, staged = [], identityDenied = [], identityFailures = [],
      identityWait = DefaultIdentityWait, identityWaits = 0, hits = 0, misses = 0, saves = 0, evictions = 0,
      blobs = [], blocks = [], index_file = None\<rparr>"

section \<open>Who is asking\<close>

text \<open>\<open>SplitHostPort\<close> of the remote address, and the generation bound to the connection.\<close>

record visitor =
  vhost :: "string option"
  vbound :: "string option"

type_synonym lookup = "time \<Rightarrow> string \<Rightarrow> Identity \<times> identity_error option"

definition bindGeneration :: "lookup option \<Rightarrow> time \<Rightarrow> string option \<Rightarrow> string" where
  "bindGeneration look now host =
     (case (host, look) of (Some h, Some l) \<Rightarrow> Generation (fst (l now h)) | _ \<Rightarrow> [])"

definition ServeHTTP_bind :: "lookup option \<Rightarrow> time \<Rightarrow> visitor \<Rightarrow> visitor" where
  "ServeHTTP_bind look now v =
     (if vbound v = None then v\<lparr>vbound := Some (bindGeneration look now (vhost v))\<rparr> else v)"

definition denyMissing :: string where "denyMissing = ''missing''"
definition denyPending :: string where "denyPending = ''pending''"
definition denyUnresolved :: string where "denyUnresolved = ''unresolved''"
definition denyExpired :: string where "denyExpired = ''expired''"
definition denyInvalid :: string where "denyInvalid = ''invalid''"
definition denyGeneration :: string where "denyGeneration = ''generation''"

definition denyReasons :: "string list" where
  "denyReasons = [denyMissing, denyPending, denyUnresolved, denyExpired, denyInvalid, denyGeneration]"

definition denialReason :: "Identity \<Rightarrow> time \<Rightarrow> string" where
  "denialReason i now =
     (if Generation i = [] then denyMissing
      else if Unresolved i then denyUnresolved
      else if ExpiresAt i \<le> unix now then denyExpired
      else denyInvalid)"

definition identityPoll :: duration where "identityPoll = 250 * millisecond"

text \<open>
  One iteration per poll.  A poll is the time of the lookup and the time read after it.  The list holds
  the polls still to come; when it ends, the client has gone away while the timer ran.
\<close>

fun awaitIdentity ::
  "lookup \<Rightarrow> string option \<Rightarrow> string \<Rightarrow> time \<Rightarrow> bool \<Rightarrow> time \<times> time \<Rightarrow> (time \<times> time) list \<Rightarrow> Identity \<times> string \<times> bool" where
  "awaitIdentity look bound host deadline waited (t, now) polls =
     (case look t host of (i, err) \<Rightarrow>
        let err' = (if err = None then Validate i now else err) in
        if bound \<noteq> None \<and> Generation i \<noteq> [] \<and> Some (Generation i) \<noteq> bound then (noIdentity, denyGeneration, waited)
        else if err' = None then (i, [], waited)
        else if \<not> Pending i now then (noIdentity, denialReason i now, waited)
        else if \<not> now < deadline then (noIdentity, denyPending, waited)
        else (case polls of
                [] \<Rightarrow> (noIdentity, denyPending, True)
              | p # ps \<Rightarrow> awaitIdentity look bound host deadline True p ps))"

declare awaitIdentity.simps [simp del]

definition denyIdentity :: "string \<Rightarrow> string \<Rightarrow> Server \<Rightarrow> Server" where
  "denyIdentity host reason s =
     s\<lparr>identityDenied := mput reason (Suc (mget reason 0 (identityDenied s))) (identityDenied s),
       identityFailures :=
         (if host \<notin> set (identityFailures s) \<and> length (identityFailures s) < 4096
          then host # identityFailures s else identityFailures s)\<rparr>"

type_synonym who = "Server \<Rightarrow> Identity \<times> Server"

definition server_identity ::
  "lookup option \<Rightarrow> visitor \<Rightarrow> time \<Rightarrow> time \<times> time \<Rightarrow> (time \<times> time) list \<Rightarrow> who" where
  "server_identity look v start poll polls s =
     (case (look, vhost v) of
        (Some l, Some host) \<Rightarrow>
          (case awaitIdentity l (vbound v) host (start + identityWait s) False poll polls of
             (i, reason, waited) \<Rightarrow>
               let s1 = (if waited then s\<lparr>identityWaits := Suc (identityWaits s)\<rparr> else s) in
               if reason \<noteq> [] then (noIdentity, denyIdentity host reason s1)
               else (i\<lparr>Repository := to_lower (Repository i)\<rparr>,
                     s1\<lparr>identityFailures := filter (\<lambda>h. h \<noteq> host) (identityFailures s1)\<rparr>))
      | _ \<Rightarrow> (noIdentity, s))"

definition owns :: "Identity \<Rightarrow> Entry \<Rightarrow> bool" where
  "owns i e \<longleftrightarrow>
     WriteRef i \<noteq> [] \<and> eRef e = WriteRef i \<and> eRepoID e = Repository i \<and>
     eGeneration e = Generation i \<and> eJobID e = JobID i \<and> eRunID e = RunID i"

section \<open>Choosing an entry\<close>

fun newer :: "Entry option \<Rightarrow> Entry \<Rightarrow> bool" where
  "newer None e = True"
| "newer (Some best) e =
     (if eCreatedAt e \<noteq> eCreatedAt best then eCreatedAt e > eCreatedAt best else eID e > eID best)"

fun newest :: "(Entry \<Rightarrow> bool) \<Rightarrow> Entry option \<Rightarrow> (nat, Entry) gomap \<Rightarrow> Entry option" where
  "newest P best [] = best"
| "newest P best ((_, e) # m) = newest P (if P e \<and> newer best e then Some e else best) m"

definition in_scope :: "string \<Rightarrow> string \<Rightarrow> string \<Rightarrow> Entry \<Rightarrow> bool" where
  "in_scope repo ref version e \<longleftrightarrow> eRepoID e = repo \<and> ref \<noteq> [] \<and> eRef e = ref \<and> eVersion e = version"

definition findExact :: "string \<Rightarrow> string \<Rightarrow> string \<Rightarrow> string \<Rightarrow> Server \<Rightarrow> Entry option" where
  "findExact repo ref key version s =
     newest (\<lambda>e. in_scope repo ref version e \<and> eKey e = key) None (entries s)"

definition findReserved :: "string \<Rightarrow> string \<Rightarrow> string \<Rightarrow> string \<Rightarrow> Server \<Rightarrow> Entry option" where
  "findReserved repo ref key version s =
     newest (\<lambda>e. \<not> eComplete e \<and> in_scope repo ref version e \<and> eKey e = key) None (entries s)"

definition completeExact :: "string \<Rightarrow> string \<Rightarrow> string \<Rightarrow> string \<Rightarrow> Server \<Rightarrow> Entry option" where
  "completeExact repo ref key version s =
     newest (\<lambda>e. eComplete e \<and> in_scope repo ref version e \<and> eKey e = key) None (entries s)"

definition completePrefix :: "string \<Rightarrow> string \<Rightarrow> string \<Rightarrow> string \<Rightarrow> Server \<Rightarrow> Entry option" where
  "completePrefix repo ref pre version s =
     newest (\<lambda>e. eComplete e \<and> in_scope repo ref version e \<and> has_prefix (eKey e) pre) None (entries s)"

definition or_else :: "'a option \<Rightarrow> 'a option \<Rightarrow> 'a option" where
  "or_else a b = (case a of None \<Rightarrow> b | Some x \<Rightarrow> Some x)"

fun match_restore :: "string \<Rightarrow> string \<Rightarrow> string list \<Rightarrow> string \<Rightarrow> Server \<Rightarrow> Entry option" where
  "match_restore repo ref [] version s = None"
| "match_restore repo ref (rk # rks) version s =
     or_else (completeExact repo ref (to_lower rk) version s)
       (or_else (completePrefix repo ref (to_lower rk) version s)
          (match_restore repo ref rks version s))"

fun match_entry :: "string \<Rightarrow> string list \<Rightarrow> string \<Rightarrow> string list \<Rightarrow> string \<Rightarrow> Server \<Rightarrow> Entry option" where
  "match_entry repo [] key rks version s = None"
| "match_entry repo (ref # refs) key rks version s =
     or_else (completeExact repo ref key version s)
       (or_else (if key \<noteq> [] then completePrefix repo ref key version s else None)
          (or_else (match_restore repo ref rks version s)
             (match_entry repo refs key rks version s)))"

section \<open>Eviction, collection and the index\<close>

text \<open>Removing an entry, its blob, its blocks and its staged bytes.\<close>

definition drop_entry :: "nat \<Rightarrow> Server \<Rightarrow> Server" where
  "drop_entry k s =
     s\<lparr>entries := mdel k (entries s), staged := mdel k (staged s), blobs := mdel k (blobs s), blocks := mdel k (blocks s)\<rparr>"

definition lessRecentlyUsed :: "Entry \<Rightarrow> Entry \<Rightarrow> bool" where
  "lessRecentlyUsed a b \<longleftrightarrow> (if eUsedAt a \<noteq> eUsedAt b then eUsedAt a < eUsedAt b else eID a < eID b)"

fun victim_of :: "nat \<Rightarrow> Entry option \<Rightarrow> (nat, Entry) gomap \<Rightarrow> Entry option" where
  "victim_of keepID v [] = v"
| "victim_of keepID v ((_, e) # m) =
     victim_of keepID
       (if \<not> eComplete e \<or> eID e = keepID then v
        else (case v of None \<Rightarrow> Some e | Some w \<Rightarrow> if lessRecentlyUsed e w then Some e else v)) m"

definition complete_bytes :: "Server \<Rightarrow> int" where
  "complete_bytes s = sum_list (map (\<lambda>(_, e). if eComplete e then eSize e else 0) (entries s))"

definition staged_bytes :: "Server \<Rightarrow> int" where
  "staged_bytes s = sum_list (map snd (staged s))"

text \<open>The loop ends: each round removes an entry.  (An entry's key in the map is its \<open>ID\<close>.)\<close>

function evict_loop :: "nat \<Rightarrow> int \<Rightarrow> Server \<Rightarrow> Server" where
  "evict_loop keepID tot s =
     (if tot > maxSize s then
        (case victim_of keepID None (entries s) of
           None \<Rightarrow> s
         | Some v \<Rightarrow>
             if mlookup (entries s) (eID v) = None then s
             else evict_loop keepID (tot - eSize v) ((drop_entry (eID v) s)\<lparr>evictions := Suc (evictions s)\<rparr>))
      else s)"
  by pat_completeness auto

termination
  by (relation "measure (\<lambda>(_, _, s). length (entries s))") (auto simp: drop_entry_def length_mdel)

declare evict_loop.simps [simp del]

definition evictLRU :: "nat \<Rightarrow> Server \<Rightarrow> Server" where
  "evictLRU keepID s = (if maxSize s \<le> 0 then s else evict_loop keepID (complete_bytes s + staged_bytes s) s)"

definition sorted_entries :: "(nat, Entry) gomap \<Rightarrow> Entry list" where
  "sorted_entries m = sort_key eID (map snd m)"

definition save :: "bool \<Rightarrow> Server \<Rightarrow> Server" where
  "save ok s = (if ok then s\<lparr>index_file := Some (sorted_entries (entries s))\<rparr> else s)"

fun load_entries :: "Entry list \<Rightarrow> Server \<Rightarrow> Server" where
  "load_entries [] s = s"
| "load_entries (e # es) s =
     load_entries es (s\<lparr>entries := mput (eID e) e (entries s),
                        nextID := (if eID e \<ge> nextID s then eID e + 1 else nextID s)\<rparr>)"

text \<open>\<open>readable\<close> and \<open>decodes\<close>: reading \<open>index.json\<close> and decoding it succeed; an absent file is an empty store.\<close>

definition load :: "bool \<Rightarrow> bool \<Rightarrow> Server \<Rightarrow> Server option" where
  "load readable decodes s =
     (case index_file s of
        None \<Rightarrow> Some s
      | Some es \<Rightarrow> if \<not> readable \<or> \<not> decodes then None else Some (load_entries es s))"

definition stale :: "time \<Rightarrow> Entry \<Rightarrow> bool" where
  "stale now e \<longleftrightarrow> \<not> eComplete e \<and> eUsedAt e < unix (now - maxIncompleteAge)"

fun gc_loop :: "time \<Rightarrow> (nat, Entry) gomap \<Rightarrow> Server \<Rightarrow> nat \<Rightarrow> Server \<times> nat" where
  "gc_loop now [] s removed = (s, removed)"
| "gc_loop now ((k, e) # m) s removed =
     (if stale now e then gc_loop now m (drop_entry k s) (Suc removed) else gc_loop now m s removed)"

definition gc :: "time \<Rightarrow> bool \<Rightarrow> Server \<Rightarrow> Server" where
  "gc now ok s =
     (case gc_loop now (entries s) s 0 of (s1, removed) \<Rightarrow> if removed > 0 then save ok s1 else s1)"

record Stats =
  stEntries :: nat
  stBytes :: int
  stMaxBytes :: int
  stHits :: nat
  stMisses :: nat
  stSaves :: nat
  stEvictions :: nat
  stDenied :: nat
  stByReason :: "(string \<times> nat) list"
  stWaits :: nat

definition snapshot :: "Server \<Rightarrow> Stats" where
  "snapshot s =
     \<lparr>stEntries = length (filter (\<lambda>(_, e). eComplete e) (entries s)), stBytes = complete_bytes s,
      stMaxBytes = maxSize s, stHits = hits s, stMisses = misses s, stSaves = saves s, stEvictions = evictions s,
      stDenied = sum_list (map (\<lambda>r. mget r 0 (identityDenied s)) denyReasons),
      stByReason = map (\<lambda>r. (r, mget r 0 (identityDenied s))) denyReasons, stWaits = identityWaits s\<rparr>"

section \<open>The Twirp handlers\<close>

record createReq =
  cKey :: string
  cVersion :: string

record finalizeReq =
  fKey :: string
  fSizeBytes :: string
  fVersion :: string

record getReq =
  gKey :: string
  gRestoreKeys :: "string list"
  gVersion :: string

datatype reply =
    TwirpError int string
  | CreateResp bool string string
  | FinalizeResp bool string string
  | GetResp bool string string
  | HttpStatus int
  | Content string

text \<open>\<open>blobURL\<close>, from the request's scheme and host.\<close>

definition blobURL :: "bool \<Rightarrow> string \<Rightarrow> string \<Rightarrow> nat \<Rightarrow> string \<Rightarrow> string" where
  "blobURL tls host kind k sig =
     (if tls then ''https'' else ''http'') @ ''://'' @ host @ ''/'' @ kind @ ''/'' @ show_nat k @ ''?sig='' @ sig"

definition newEntry :: "Server \<Rightarrow> Identity \<Rightarrow> string \<Rightarrow> string \<Rightarrow> string \<Rightarrow> time \<Rightarrow> Entry" where
  "newEntry s i key version tok now =
     \<lparr>eRef = WriteRef i, eGeneration = Generation i, eJobID = JobID i, eRunID = RunID i, eID = nextID s, eSig = tok,
      eRepoID = Repository i, eKey = key, eVersion = version, eSize = -1, eComplete = False,
      eCreatedAt = unix now, eUsedAt = unix now\<rparr>"

text \<open>The section of \<open>handleCreate\<close> under \<open>s.mu\<close>: the reservation, or why there is none.\<close>

datatype reservation = Exists | Creating | SaveFailed | Reserved Entry

definition reserve :: "Identity \<Rightarrow> string \<Rightarrow> string \<Rightarrow> string \<Rightarrow> time \<Rightarrow> bool \<Rightarrow> Server \<Rightarrow> reservation \<times> Server" where
  "reserve i key version tok now ok s =
     (let create = (\<lambda>s.
        let e = newEntry s i key version tok now;
            s1 = s\<lparr>nextID := Suc (nextID s), entries := mput (eID e) e (entries s)\<rparr> in
        if ok then (Reserved e, save True s1)
        else (SaveFailed, s1\<lparr>entries := mdel (eID e) (entries s1)\<rparr>)) in
      case findExact (Repository i) (WriteRef i) key version s of
        None \<Rightarrow> create s
      | Some e \<Rightarrow>
          if eComplete e then (Exists, s)
          else if eUsedAt e \<ge> unix (now - maxIncompleteAge) then (Creating, s)
          else create (drop_entry (eID e) s))"

definition handleCreate ::
  "createReq option \<Rightarrow> who \<Rightarrow> bool \<times> string \<Rightarrow> string \<Rightarrow> time \<Rightarrow> bool \<Rightarrow> Server \<Rightarrow> reply \<times> Server" where
  "handleCreate req who origin tok now ok s =
     (case req of
        None \<Rightarrow> (TwirpError 400 ''malformed'', s)
      | Some q \<Rightarrow>
          if cKey q = [] \<or> cVersion q = [] then (TwirpError 400 ''invalid_argument'', s)
          else
            (case who s of (i, s1) \<Rightarrow>
               if WriteRef i = [] then (CreateResp False [] ''job has no cache write scope'', s1)
               else
                 (case reserve i (to_lower (cKey q)) (cVersion q) tok now ok s1 of
                    (Exists, s2) \<Rightarrow> (CreateResp False [] ''cache entry already exists'', s2)
                  | (Creating, s2) \<Rightarrow> (CreateResp False [] ''cache entry is already being created'', s2)
                  | (SaveFailed, s2) \<Rightarrow> (TwirpError 500 ''internal'', s2)
                  | (Reserved e, s2) \<Rightarrow>
                      (CreateResp True (blobURL (fst origin) (snd origin) ''upload'' (eID e) (eSig e)) [], s2))))"

text \<open>\<open>handleFinalize\<close>: the search, then, holding the entry's \<open>ioMu\<close>, the recheck and the commit.\<close>

definition finalize_find :: "finalizeReq \<Rightarrow> Identity \<Rightarrow> Server \<Rightarrow> Entry option" where
  "finalize_find q i s =
     (case findReserved (Repository i) (WriteRef i) (to_lower (fKey q)) (fVersion q) s of
        None \<Rightarrow> None
      | Some e \<Rightarrow> if owns i e then Some e else None)"

definition parse_int64 :: "string \<Rightarrow> int option" where
  "parse_int64 t = (case atoi t of Some n \<Rightarrow> if - (2 ^ 63) \<le> n \<and> n < 2 ^ 63 then Some n else None | None \<Rightarrow> None)"

definition commit_entry :: "Entry \<Rightarrow> int \<Rightarrow> time \<Rightarrow> Server \<Rightarrow> Server" where
  "commit_entry e sz now s =
     evictLRU (eID e)
       (s\<lparr>staged := mdel (eID e) (staged s), saves := Suc (saves s),
          entries := mput (eID e) (e\<lparr>eSize := sz, eComplete := True, eUsedAt := unix now\<rparr>) (entries s)\<rparr>)"

definition finalize_commit :: "finalizeReq \<Rightarrow> nat \<Rightarrow> Identity \<Rightarrow> time \<Rightarrow> bool \<Rightarrow> Server \<Rightarrow> reply \<times> Server" where
  "finalize_commit q k i now ok s =
     (case mlookup (entries s) k of
        None \<Rightarrow> (FinalizeResp False [] ''cache reservation expired'', s)
      | Some e \<Rightarrow>
          if eComplete e \<or> \<not> owns i e then (FinalizeResp False [] ''cache reservation expired'', s)
          else
            (case mlookup (blobs s) k of
               None \<Rightarrow> (FinalizeResp False [] ''cache blob was not uploaded'', s)
             | Some b \<Rightarrow>
                 if (case parse_int64 (fSizeBytes q) of None \<Rightarrow> False | Some want \<Rightarrow> want \<ge> 0 \<and> want \<noteq> int (length b))
                 then (FinalizeResp False [] ''size mismatch'', s)
                 else
                   let s1 = commit_entry e (int (length b)) now s in
                   if ok then (FinalizeResp True (show_nat k) [], save True s1)
                   else (TwirpError 500 ''internal'', s1)))"

text \<open>The whole handler, \<open>between\<close> being what other requests do before the entry's \<open>ioMu\<close> is obtained.\<close>

definition handleFinalize ::
  "finalizeReq option \<Rightarrow> who \<Rightarrow> (Server \<Rightarrow> Server) \<Rightarrow> who \<Rightarrow> time \<Rightarrow> bool \<Rightarrow> Server \<Rightarrow> reply \<times> Server" where
  "handleFinalize req who1 between who2 now ok s =
     (case req of
        None \<Rightarrow> (TwirpError 400 ''malformed'', s)
      | Some q \<Rightarrow>
          (case who1 s of (i, s1) \<Rightarrow>
             (case finalize_find q i s1 of
                None \<Rightarrow> (FinalizeResp False [] ''no owned cache reservation'', s1)
              | Some e \<Rightarrow>
                  (case who2 (between s1) of (i2, s2) \<Rightarrow> finalize_commit q (eID e) i2 now ok s2))))"

definition touch :: "Entry \<Rightarrow> time \<Rightarrow> bool \<Rightarrow> Server \<Rightarrow> Server" where
  "touch e now ok s =
     save ok (s\<lparr>hits := Suc (hits s), entries := mput (eID e) (e\<lparr>eUsedAt := unix now\<rparr>) (entries s)\<rparr>)"

definition handleGetDownloadURL ::
  "getReq option \<Rightarrow> who \<Rightarrow> bool \<times> string \<Rightarrow> time \<Rightarrow> bool \<Rightarrow> Server \<Rightarrow> reply \<times> Server" where
  "handleGetDownloadURL req who origin now ok s =
     (case req of
        None \<Rightarrow> (TwirpError 400 ''malformed'', s)
      | Some q \<Rightarrow>
          (case who s of (i, s1) \<Rightarrow>
             (case match_entry (Repository i) (ReadRefs i) (to_lower (gKey q)) (gRestoreKeys q) (gVersion q) s1 of
                None \<Rightarrow> (GetResp False [] [], s1\<lparr>misses := Suc (misses s1)\<rparr>)
              | Some e \<Rightarrow>
                  (GetResp True (blobURL (fst origin) (snd origin) ''download'' (eID e) (eSig e)) (eKey e),
                   touch e now ok s1))))"

section \<open>The blob handlers\<close>

definition parse_uint64 :: "string \<Rightarrow> nat option" where
  "parse_uint64 t = (case parse_nat t of Some n \<Rightarrow> if n < 2 ^ 64 then Some n else None | None \<Rightarrow> None)"

text \<open>The entry the request may touch, or the status of the refusal.\<close>

definition authEntry :: "bool \<Rightarrow> string \<Rightarrow> string \<Rightarrow> who \<Rightarrow> Server \<Rightarrow> (int + Entry) \<times> Server" where
  "authEntry put ident sig who s =
     (case parse_uint64 ident of
        None \<Rightarrow> (Inl 400, s)
      | Some k \<Rightarrow>
          (case mlookup (entries s) k of
             None \<Rightarrow> (Inl 404, s)
           | Some e \<Rightarrow>
               if sig \<noteq> eSig e then (Inl 403, s)
               else
                 (case who s of (i, s1) \<Rightarrow>
                    if put then (if \<not> owns i e then (Inl 403, s1) else (Inr e, s1))
                    else if \<not> eComplete e \<or> eRepoID e \<noteq> Repository i \<or> \<not> CanRead i (eRef e) then (Inl 403, s1)
                    else (Inr e, s1))))"

definition handleDownload :: "string \<Rightarrow> string \<Rightarrow> who \<Rightarrow> Server \<Rightarrow> reply \<times> Server" where
  "handleDownload ident sig who s =
     (case authEntry False ident sig who s of
        (Inl code, s1) \<Rightarrow> (HttpStatus code, s1)
      | (Inr e, s1) \<Rightarrow>
          (case mlookup (blobs s1) (eID e) of None \<Rightarrow> (HttpStatus 404, s1) | Some b \<Rightarrow> (Content b, s1)))"

text \<open>
  A request body is the bytes it delivers and whether it is delivered whole; \<open>MaxBytesReader\<close> fails a body
  longer than its limit.  The result is the status and the state; the bytes of a failed write are removed.
\<close>

definition over :: "int option \<Rightarrow> string \<Rightarrow> bool" where
  "over limit body \<longleftrightarrow> (case limit of None \<Rightarrow> False | Some n \<Rightarrow> int (length body) > n)"

definition uploadStatus :: "bool \<Rightarrow> int" where
  "uploadStatus too_big = (if too_big then 413 else 500)"

definition uploadSingle :: "nat \<Rightarrow> string \<Rightarrow> bool \<Rightarrow> Server \<Rightarrow> reply \<times> Server" where
  "uploadSingle k body delivered s =
     (let limit = (if maxEntry s > 0 then Some (maxEntry s) else None) in
      if over limit body \<or> \<not> delivered
      then (HttpStatus (uploadStatus (over limit body)),
            s\<lparr>blobs := mdel k (blobs s), staged := mdel k (staged s)\<rparr>)
      else (HttpStatus 201, s\<lparr>blobs := mput k body (blobs s), staged := mput k (int (length body)) (staged s)\<rparr>))"

definition stagedBytes :: "nat \<Rightarrow> Server \<Rightarrow> int" where
  "stagedBytes k s = mget k 0 (staged s)"

definition uploadBlock :: "nat \<Rightarrow> string \<Rightarrow> string \<Rightarrow> bool \<Rightarrow> Server \<Rightarrow> reply \<times> Server" where
  "uploadBlock k blockid body delivered s =
     (if blockid = [] then (HttpStatus 400, s)
      else
        let dir = mget k [] (blocks s);
            limit = (if maxEntry s > 0 then Some (max 0 (maxEntry s - stagedBytes k s)) else None) in
        if over limit body \<or> \<not> delivered
        then (HttpStatus (uploadStatus (over limit body)), s\<lparr>blocks := mput k (mdel blockid dir) (blocks s)\<rparr>)
        else (HttpStatus 201,
              s\<lparr>blocks := mput k (mput blockid body dir) (blocks s),
                staged := mput k (stagedBytes k s + int (length body)) (staged s)\<rparr>))"

datatype assembled = Missing | CopyFailed | TooBig | Assembled string

fun assemble :: "int \<Rightarrow> (string, string) gomap \<Rightarrow> (string \<Rightarrow> bool) \<Rightarrow> string list \<Rightarrow> string \<Rightarrow> assembled" where
  "assemble limit dir copied [] out = Assembled out"
| "assemble limit dir copied (b # bs) out =
     (case mlookup dir b of
        None \<Rightarrow> Missing
      | Some bytes \<Rightarrow>
          if \<not> copied b then CopyFailed
          else if limit > 0 \<and> int (length (out @ bytes)) > limit then TooBig
          else assemble limit dir copied bs (out @ bytes))"

text \<open>\<open>ids\<close> is the decoded list, latest first, then uncommitted, then committed; \<open>None\<close> when it does not decode.\<close>

definition commitBlockList ::
  "nat \<Rightarrow> bool \<Rightarrow> string list option \<Rightarrow> bool \<Rightarrow> (string \<Rightarrow> bool) \<Rightarrow> bool \<Rightarrow> Server \<Rightarrow> reply \<times> Server" where
  "commitBlockList k body_read ids opened copied renamed s =
     (if \<not> body_read then (HttpStatus 500, s)
      else
        (case ids of
           None \<Rightarrow> (HttpStatus 400, s)
         | Some bs \<Rightarrow>
             if bs = [] then (HttpStatus 400, s)
             else if \<not> opened then (HttpStatus 500, s)
             else
               (case assemble (maxEntry s) (mget k [] (blocks s)) copied bs [] of
                  Missing \<Rightarrow> (HttpStatus 400, s)
                | CopyFailed \<Rightarrow> (HttpStatus 500, s)
                | TooBig \<Rightarrow> (HttpStatus 413, s\<lparr>blocks := mdel k (blocks s), staged := mdel k (staged s)\<rparr>)
                | Assembled b \<Rightarrow>
                    if \<not> renamed then (HttpStatus 500, s)
                    else (HttpStatus 201,
                          s\<lparr>blobs := mput k b (blobs s), blocks := mdel k (blocks s),
                            staged := mput k (int (length b)) (staged s)\<rparr>))))"

datatype upload =
    Block string string bool
  | BlockList bool "string list option" bool "string \<Rightarrow> bool" bool
  | Single string bool
  | Unsupported

fun run_upload :: "upload \<Rightarrow> nat \<Rightarrow> Server \<Rightarrow> reply \<times> Server" where
  "run_upload (Block blockid body delivered) k s = uploadBlock k blockid body delivered s"
| "run_upload (BlockList body_read ids opened copied renamed) k s = commitBlockList k body_read ids opened copied renamed s"
| "run_upload (Single body delivered) k s = uploadSingle k body delivered s"
| "run_upload Unsupported k s = (HttpStatus 400, s)"

text \<open>
  \<open>handleUpload\<close>: authorisation; then, holding the entry's \<open>ioMu\<close>, authorisation again and the check that the
  entry is still open; then the transfer.  \<open>before\<close> and \<open>during\<close> are what other requests do meanwhile.  An
  entry that is no longer in the map keeps the flag it had when it left, \<open>gone_complete\<close>.
\<close>

definition upload_open :: "Entry \<Rightarrow> Identity \<Rightarrow> bool \<Rightarrow> Server \<Rightarrow> int option" where
  "upload_open e i gone_complete s =
     (if \<not> owns i e then Some 403
      else if (case mlookup (entries s) (eID e) of None \<Rightarrow> gone_complete | Some c \<Rightarrow> eComplete c) then Some 409
      else None)"

definition handleUpload ::
  "string \<Rightarrow> string \<Rightarrow> upload \<Rightarrow> who \<Rightarrow> (Server \<Rightarrow> Server) \<Rightarrow> who \<Rightarrow> bool \<Rightarrow> (Server \<Rightarrow> Server) \<Rightarrow> Server \<Rightarrow> reply \<times> Server" where
  "handleUpload ident sig up who1 before who2 gone_complete during s =
     (case authEntry True ident sig who1 s of
        (Inl code, s1) \<Rightarrow> (HttpStatus code, s1)
      | (Inr e, s1) \<Rightarrow>
          (case who2 (before s1) of (i, s2) \<Rightarrow>
             (case upload_open e i gone_complete s2 of
                Some code \<Rightarrow> (HttpStatus code, s2)
              | None \<Rightarrow> run_upload up (eID e) (during s2))))"

end
