(* ===== verification/Cache_Facts.thy ===== *)
theory Cache_Facts
  imports Cache_Server "HOL-Library.Product_Lexorder"
begin

text \<open>
  Facts about the cache server's loops: which entry the searches pick and which entries eviction and
  collection remove.  The picks are the maximum, respectively the minimum, of a total order on the
  entries, so the order in which a map is visited does not matter.
\<close>

named_theorems cache_simps \<open>the fields an operation of the cache server leaves alone\<close>

section \<open>Picking the newest entry\<close>

definition rank :: "Entry \<Rightarrow> int \<times> nat" where
  "rank e = (eCreatedAt e, eID e)"

definition lru :: "Entry \<Rightarrow> int \<times> nat" where
  "lru e = (eUsedAt e, eID e)"

definition stored :: "Server \<Rightarrow> Entry set" where
  "stored s = snd ` set (entries s)"

lemma newer_rank: "newer (Some b) e \<longleftrightarrow> rank b < rank e"
  by (auto simp: rank_def less_prod_def)

lemma lessRecentlyUsed_lru: "lessRecentlyUsed a b \<longleftrightarrow> lru a < lru b"
  by (auto simp: lru_def less_prod_def lessRecentlyUsed_def)

lemma newest_cases:
  "(newest P b m = b \<and> (\<forall>e \<in> snd ` set m. P e \<longrightarrow> \<not> newer b e)) \<or>
   (\<exists>e. newest P b m = Some e \<and> e \<in> snd ` set m \<and> P e \<and> newer b e \<and>
        (\<forall>x \<in> snd ` set m. P x \<longrightarrow> rank x \<le> rank e))"
proof (induction m arbitrary: b)
  case (Cons kv m)
  obtain k e where kv: "kv = (k, e)" by (cases kv)
  show ?case
  proof (cases "P e \<and> newer b e")
    case True
    from Cons.IH [of "Some e"] True show ?thesis
    proof (elim disjE exE conjE)
      assume "newest P (Some e) m = Some e" "\<forall>x \<in> snd ` set m. P x \<longrightarrow> \<not> newer (Some e) x"
      with True show ?thesis
        by (auto simp: kv newer_rank not_less simp del: newer.simps)
    next
      fix x assume x: "newest P (Some e) m = Some x" "x \<in> snd ` set m" "P x" "newer (Some e) x"
        "\<forall>y \<in> snd ` set m. P y \<longrightarrow> rank y \<le> rank x"
      have "newer b x"
        using True x(4) by (cases b) (auto simp: newer_rank simp del: newer.simps(2))
      with True x show ?thesis
        by (auto simp: kv newer_rank simp del: newer.simps)
    qed
  next
    case False
    from Cons.IH [of b] False show ?thesis
    proof (elim disjE exE conjE)
      assume "newest P b m = b" "\<forall>x \<in> snd ` set m. P x \<longrightarrow> \<not> newer b x"
      with False show ?thesis by (auto simp: kv)
    next
      fix x assume x: "newest P b m = Some x" "x \<in> snd ` set m" "P x" "newer b x"
        "\<forall>y \<in> snd ` set m. P y \<longrightarrow> rank y \<le> rank x"
      have "rank e \<le> rank x" if "P e"
      proof (cases b)
        case (Some c)
        with that False x(4) show ?thesis by (simp add: newer_rank del: newer.simps)
      qed (use that False in simp)
      with False x show ?thesis by (auto simp: kv)
    qed
  qed
qed simp

lemma newest_None: "newest P None m = None \<longleftrightarrow> (\<forall>e \<in> snd ` set m. \<not> P e)"
  using newest_cases [of P None m] by auto

lemma newest_Some:
  assumes "newest P None m = Some e"
  shows "e \<in> snd ` set m" "P e" "\<And>x. x \<in> snd ` set m \<Longrightarrow> P x \<Longrightarrow> rank x \<le> rank e"
  using newest_cases [of P None m] assms by auto

lemma newest_unique:
  assumes "inj_on eID (snd ` set m)" "e \<in> snd ` set m" "P e"
    and "\<And>x. x \<in> snd ` set m \<Longrightarrow> P x \<Longrightarrow> rank x \<le> rank e"
  shows "newest P None m = Some e"
proof (cases "newest P None m")
  case None
  with assms(2,3) have False unfolding newest_None by blast
  then show ?thesis ..
next
  case (Some x)
  note x = newest_Some [OF Some]
  have "rank x = rank e" using x(3) [OF assms(2,3)] assms(4) [OF x(1,2)] by order
  then have "eID x = eID e" by (simp add: rank_def)
  with assms(1,2) x(1) Some show ?thesis by (simp add: inj_on_eq_iff)
qed

section \<open>The search order of a restore\<close>

definition search_ref :: "string \<Rightarrow> string \<Rightarrow> string list \<Rightarrow> string \<Rightarrow> string \<Rightarrow> (Entry \<Rightarrow> bool) list" where
  "search_ref repo key rks version ref =
     (let exact = (\<lambda>k e. eComplete e \<and> in_scope repo ref version e \<and> eKey e = k);
          pre = (\<lambda>k e. eComplete e \<and> in_scope repo ref version e \<and> has_prefix (eKey e) k) in
      exact key # (if key \<noteq> [] then [pre key] else []) @
      concat (map (\<lambda>rk. [exact (to_lower rk), pre (to_lower rk)]) rks))"

definition search :: "string \<Rightarrow> string list \<Rightarrow> string \<Rightarrow> string list \<Rightarrow> string \<Rightarrow> (Entry \<Rightarrow> bool) list" where
  "search repo refs key rks version = concat (map (search_ref repo key rks version) refs)"

fun first_hit :: "(Entry \<Rightarrow> bool) list \<Rightarrow> (nat, Entry) gomap \<Rightarrow> Entry option" where
  "first_hit [] m = None"
| "first_hit (P # Ps) m = or_else (newest P None m) (first_hit Ps m)"

lemma or_else_simps [simp]: "or_else None b = b" "or_else (Some x) b = Some x"
  "or_else a None = a"
  by (simp_all add: or_else_def split: option.split)

lemma or_else_assoc: "or_else (or_else a b) c = or_else a (or_else b c)"
  by (cases a) simp_all

lemma first_hit_append: "first_hit (Ps @ Qs) m = or_else (first_hit Ps m) (first_hit Qs m)"
  by (induction Ps) (simp_all add: or_else_assoc)

lemma match_restore_first:
  "match_restore repo ref rks version s =
   first_hit (concat (map (\<lambda>rk. [\<lambda>e. eComplete e \<and> in_scope repo ref version e \<and> eKey e = to_lower rk,
      \<lambda>e. eComplete e \<and> in_scope repo ref version e \<and> has_prefix (eKey e) (to_lower rk)]) rks)) (entries s)"
  by (induction rks) (simp_all add: completeExact_def completePrefix_def or_else_assoc)

lemma match_first: "match_entry repo refs key rks version s = first_hit (search repo refs key rks version) (entries s)"
proof (induction refs)
  case (Cons ref refs)
  have "first_hit (search_ref repo key rks version ref) (entries s) =
      or_else (completeExact repo ref key version s)
       (or_else (if key \<noteq> [] then completePrefix repo ref key version s else None)
          (match_restore repo ref rks version s))"
    by (simp add: search_ref_def Let_def first_hit_append match_restore_first completeExact_def completePrefix_def)
  with Cons show ?case by (simp add: search_def first_hit_append or_else_assoc)
qed (simp add: search_def)

lemma first_hit_Some:
  "first_hit Ps m = Some e \<Longrightarrow>
   \<exists>pre P post. Ps = pre @ P # post \<and> (\<forall>Q \<in> set pre. \<forall>x \<in> snd ` set m. \<not> Q x) \<and> newest P None m = Some e"
proof (induction Ps)
  case (Cons P Ps)
  show ?case
  proof (cases "newest P None m")
    case None
    with Cons obtain pre P' post where "Ps = pre @ P' # post" "\<forall>Q \<in> set pre. \<forall>x \<in> snd ` set m. \<not> Q x"
      "newest P' None m = Some e" by auto
    with None show ?thesis
      by (intro exI [of _ "P # pre"] exI [of _ P'] exI [of _ post]) (simp add: newest_None)
  next
    case (Some x)
    with Cons.prems show ?thesis by (intro exI [of _ "[]"] exI [of _ P] exI [of _ Ps]) simp
  qed
qed simp

lemma first_hit_None: "first_hit Ps m = None \<longleftrightarrow> (\<forall>Q \<in> set Ps. \<forall>x \<in> snd ` set m. \<not> Q x)"
proof (induction Ps)
  case (Cons P Ps)
  show ?case
  proof (cases "newest P None m")
    case None
    then have "\<forall>x \<in> snd ` set m. \<not> P x" by (simp only: newest_None)
    with Cons None show ?thesis by simp
  next
    case (Some x)
    then have "x \<in> snd ` set m" "P x" by (rule newest_Some)+
    with Some show ?thesis by auto
  qed
qed simp

lemma first_hit_intro:
  assumes "\<forall>Q \<in> set pre. \<forall>x \<in> snd ` set m. \<not> Q x" "newest P None m = Some e"
  shows "first_hit (pre @ P # post) m = Some e"
proof -
  have "first_hit pre m = None" using assms(1) by (simp only: first_hit_None)
  with assms(2) show ?thesis by (simp add: first_hit_append)
qed

section \<open>Well-formed stores\<close>

definition entries_ok :: "Server \<Rightarrow> bool" where
  "entries_ok s \<longleftrightarrow>
     wf_map (entries s) \<and> (\<forall>k e. mlookup (entries s) k = Some e \<longrightarrow> eID e = k \<and> k < nextID s)"

lemma entries_ok_fields [simp]:
  "entries_ok (s\<lparr>evictions := n\<rparr>) = entries_ok s" "entries_ok (s\<lparr>index_file := f\<rparr>) = entries_ok s"
  "entries_ok (s\<lparr>saves := n\<rparr>) = entries_ok s" "entries_ok (s\<lparr>hits := n\<rparr>) = entries_ok s"
  "entries_ok (s\<lparr>misses := n\<rparr>) = entries_ok s" "entries_ok (s\<lparr>staged := st\<rparr>) = entries_ok s"
  "entries_ok (s\<lparr>blobs := bl\<rparr>) = entries_ok s" "entries_ok (s\<lparr>blocks := bk\<rparr>) = entries_ok s"
  by (simp_all add: entries_ok_def)

lemma entries_okD: "entries_ok s \<Longrightarrow> mlookup (entries s) k = Some e \<Longrightarrow> eID e = k \<and> k < nextID s"
  by (simp add: entries_ok_def)

lemma stored_lookup:
  assumes "entries_ok s"
  shows "e \<in> stored s \<longleftrightarrow> mlookup (entries s) (eID e) = Some e"
proof
  assume "e \<in> stored s"
  then obtain k where "(k, e) \<in> set (entries s)" by (auto simp: stored_def)
  then have "mlookup (entries s) k = Some e" using assms by (simp add: entries_ok_def mlookup_in_set)
  with entries_okD [OF assms this] show "mlookup (entries s) (eID e) = Some e" by simp
next
  assume "mlookup (entries s) (eID e) = Some e"
  then have "(eID e, e) \<in> set (entries s)" by (rule map_of_SomeD)
  then show "e \<in> stored s" unfolding stored_def by (rule rev_image_eqI) simp
qed

lemma entries_inj:
  assumes "entries_ok s"
  shows "inj_on eID (snd ` set (entries s))"
proof (rule inj_onI)
  fix x y assume "x \<in> snd ` set (entries s)" "y \<in> snd ` set (entries s)" "eID x = eID y"
  then show "x = y" using stored_lookup [OF assms, unfolded stored_def] by (metis option.inject)
qed

lemma newest_lookup:
  "entries_ok s \<Longrightarrow> newest P None (entries s) = Some e \<Longrightarrow> mlookup (entries s) (eID e) = Some e \<and> P e"
  using stored_lookup [of s e] newest_Some(1,2) [of P "entries s" e] unfolding stored_def by blast

section \<open>Eviction\<close>

definition evictable :: "nat \<Rightarrow> Entry \<Rightarrow> bool" where
  "evictable keepID e \<longleftrightarrow> eComplete e \<and> eID e \<noteq> keepID"

lemma victim_cases:
  "(victim_of keepID v m = v \<and> (\<forall>e \<in> snd ` set m. evictable keepID e \<longrightarrow> (\<exists>w. v = Some w \<and> lru w \<le> lru e))) \<or>
   (\<exists>e. victim_of keepID v m = Some e \<and> e \<in> snd ` set m \<and> evictable keepID e \<and>
        (\<forall>w. v = Some w \<longrightarrow> lru e < lru w) \<and> (\<forall>x \<in> snd ` set m. evictable keepID x \<longrightarrow> lru e \<le> lru x))"
proof (induction m arbitrary: v)
  case (Cons kv m)
  obtain k e where kv: "kv = (k, e)" by (cases kv)
  let ?v = "if \<not> eComplete e \<or> eID e = keepID then v
        else (case v of None \<Rightarrow> Some e | Some w \<Rightarrow> if lessRecentlyUsed e w then Some e else v)"
  have "?v = Some e" if "evictable keepID e" "\<forall>w. v = Some w \<longrightarrow> lru e < lru w"
    using that by (cases v) (simp_all add: evictable_def lessRecentlyUsed_lru)
  moreover have "?v = v" if "evictable keepID e \<longrightarrow> (\<exists>w. v = Some w \<and> lru w \<le> lru e)"
    using that by (cases v) (auto simp add: evictable_def lessRecentlyUsed_lru)
  ultimately consider "?v = v" "evictable keepID e \<longrightarrow> (\<exists>w. v = Some w \<and> lru w \<le> lru e)"
    | "?v = Some e" "evictable keepID e" "\<forall>w. v = Some w \<longrightarrow> lru e < lru w"
    by (metis not_less)
  then show ?case
  proof cases
    case 1
    have "victim_of keepID v (kv # m) = victim_of keepID v m"
      using 1(1) by (simp add: kv)
    with Cons.IH [of v] 1(2) show ?thesis
      by (auto simp: kv)
  next
    case 2
    have "victim_of keepID v (kv # m) = victim_of keepID (Some e) m"
      using 2(1) by (simp only: kv victim_of.simps)
    with Cons.IH [of "Some e"] 2(2,3) show ?thesis
      by (auto simp: kv)
  qed
qed simp

lemma victim_None: "victim_of keepID None m = None \<longleftrightarrow> (\<forall>e \<in> snd ` set m. \<not> evictable keepID e)"
  using victim_cases [of keepID None m] by auto

lemma victim_Some:
  assumes "victim_of keepID None m = Some v"
  shows "v \<in> snd ` set m" "evictable keepID v" "\<And>x. x \<in> snd ` set m \<Longrightarrow> evictable keepID x \<Longrightarrow> lru v \<le> lru x"
  using victim_cases [of keepID None m] assms by auto

text \<open>Bytes of a map of entries, and what removing one entry leaves.\<close>

lemma sum_list_mdel:
  assumes "wf_map m" "mlookup m k = Some e"
  shows "sum_list (map (\<lambda>(_, e). f e) (mdel k m)) = sum_list (map (\<lambda>(_, e). f e) m) - (f e :: int)"
  using assms
proof (induction m)
  case (Cons kv m)
  obtain a b where kv: "kv = (a, b)" by (cases kv)
  have wf: "wf_map m" and a: "a \<notin> fst ` set m" using Cons.prems(1) by (simp_all add: kv wf_map_def keys_def)
  show ?case
  proof (cases "a = k")
    case True
    with Cons.prems(2) a show ?thesis by (simp add: kv delete_id)
  next
    case False
    with Cons kv wf show ?thesis by simp
  qed
qed simp

lemma drop_entry_fields [cache_simps]:
  "nextID (drop_entry k s) = nextID s" "maxSize (drop_entry k s) = maxSize s" "maxEntry (drop_entry k s) = maxEntry s"
  "saves (drop_entry k s) = saves s" "index_file (drop_entry k s) = index_file s"
  by (simp_all add: drop_entry_def)

lemma entries_ok_drop: "entries_ok s \<Longrightarrow> entries_ok (drop_entry k s)"
  by (auto simp: entries_ok_def drop_entry_def)

lemma complete_bytes_drop:
  assumes "entries_ok s" "mlookup (entries s) k = Some e" "eComplete e"
  shows "complete_bytes (drop_entry k s) = complete_bytes s - eSize e"
  using sum_list_mdel [of "entries s" k e "\<lambda>e. if eComplete e then eSize e else 0"] assms
  by (simp add: complete_bytes_def drop_entry_def entries_ok_def)

lemma drop_lookup:
  "mlookup (entries (drop_entry k s)) j = (if j = k then None else mlookup (entries s) j)"
  "mlookup (blobs (drop_entry k s)) j = (if j = k then None else mlookup (blobs s) j)"
  "mlookup (staged (drop_entry k s)) j = (if j = k then None else mlookup (staged s) j)"
  by (simp_all add: drop_entry_def)

text \<open>One round of the eviction loop.\<close>

lemma evict_round:
  assumes "entries_ok s" "victim_of keepID None (entries s) = Some v"
  shows "mlookup (entries s) (eID v) = Some v" "eComplete v" "eID v \<noteq> keepID"
    "\<And>k x. mlookup (entries s) k = Some x \<Longrightarrow> eComplete x \<Longrightarrow> k \<noteq> keepID \<Longrightarrow> lru v \<le> lru x"
proof -
  note v = victim_Some [OF assms(2)]
  show "mlookup (entries s) (eID v) = Some v"
    using v(1) stored_lookup [OF assms(1)] by (simp add: stored_def)
  show "eComplete v" "eID v \<noteq> keepID" using v(2) by (simp_all add: evictable_def)
  fix k x assume x: "mlookup (entries s) k = Some x" "eComplete x" "k \<noteq> keepID"
  have "x \<in> stored s" using stored_lookup [OF assms(1)] entries_okD [OF assms(1) x(1)] x(1) by simp
  with x entries_okD [OF assms(1) x(1)] show "lru v \<le> lru x"
    by (intro v(3)) (simp_all add: stored_def evictable_def)
qed

text \<open>
  The result of the loop, by its computation: an entry goes only if it is complete and not the kept one,
  before every such entry that stays, and only while the bytes are over the cap.
\<close>

definition same_at :: "nat \<Rightarrow> Server \<Rightarrow> Server \<Rightarrow> bool" where
  "same_at k s t \<longleftrightarrow>
     mlookup (entries t) k = mlookup (entries s) k \<and> mlookup (blobs t) k = mlookup (blobs s) k \<and>
     mlookup (staged t) k = mlookup (staged s) k"

definition evicted_at :: "nat \<Rightarrow> nat \<Rightarrow> Server \<Rightarrow> Server \<Rightarrow> bool" where
  "evicted_at keepID k s t \<longleftrightarrow>
     mlookup (entries t) k = None \<and> k \<noteq> keepID \<and>
     (\<exists>e. mlookup (entries s) k = Some e \<and> eComplete e \<and>
        (\<forall>j x. mlookup (entries t) j = Some x \<and> eComplete x \<and> j \<noteq> keepID \<longrightarrow> lru e \<le> lru x))"

definition same_config :: "Server \<Rightarrow> Server \<Rightarrow> bool" where
  "same_config s t \<longleftrightarrow>
     nextID t = nextID s \<and> maxSize t = maxSize s \<and> maxEntry t = maxEntry s \<and> index_file t = index_file s"

definition evicted :: "nat \<Rightarrow> int \<Rightarrow> Server \<Rightarrow> Server \<Rightarrow> bool" where
  "evicted keepID tot s t \<longleftrightarrow>
     entries_ok t \<and> same_config s t \<and>
     (\<forall>k. same_at k s t \<or> evicted_at keepID k s t \<and> tot > maxSize s) \<and>
     (tot - complete_bytes s + complete_bytes t \<le> maxSize s \<or>
      (\<forall>k x. mlookup (entries t) k = Some x \<longrightarrow> \<not> evictable keepID x))"

lemma same_at_refl [simp]: "same_at k s s"
  by (simp add: same_at_def)

lemma evicted_stop:
  assumes "entries_ok s" "tot \<le> maxSize s \<or> (\<forall>k x. mlookup (entries s) k = Some x \<longrightarrow> \<not> evictable keepID x)"
  shows "evicted keepID tot s s"
  using assms by (auto simp: evicted_def same_config_def)

lemma same_or_evicted_lookup:
  assumes "\<And>k. same_at k s t \<or> evicted_at keepID k s t \<and> C" "mlookup (entries t) j = Some x"
  shows "mlookup (entries s) j = Some x"
  using assms(1) [of j] assms(2) by (auto simp: same_at_def evicted_at_def)

lemma evicted_round:
  assumes ok: "entries_ok s" and tot: "tot > maxSize s" and v: "victim_of keepID None (entries s) = Some v"
    and IH: "evicted keepID (tot - eSize v) ((drop_entry (eID v) s)\<lparr>evictions := n\<rparr>) t"
  shows "evicted keepID tot s t"
proof -
  let ?s = "(drop_entry (eID v) s)\<lparr>evictions := n\<rparr>"
  note r = evict_round [OF ok v]
  have bytes: "complete_bytes ?s = complete_bytes s - eSize v"
    using complete_bytes_drop [OF ok r(1,2)] by (simp add: complete_bytes_def)
  have at: "\<And>k. same_at k ?s t \<or> evicted_at keepID k ?s t \<and> tot - eSize v > maxSize ?s"
    using IH unfolding evicted_def by blast
  have sub: "mlookup (entries s) j = Some x" if "mlookup (entries t) j = Some x" for j x
    using same_or_evicted_lookup [OF at that] by (simp add: drop_lookup split: if_splits)
  have later: "lru v \<le> lru x" if "mlookup (entries t) j = Some x \<and> eComplete x \<and> j \<noteq> keepID" for j x
    using that sub r(4) by blast
  have "same_at k s t \<or> evicted_at keepID k s t" for k
  proof (cases "k = eID v")
    case True
    have "mlookup (entries t) k = None"
      using at [of k] True by (auto simp: same_at_def evicted_at_def drop_lookup)
    with True r(1-3) later show ?thesis unfolding evicted_at_def by blast
  next
    case False
    with at [of k] show ?thesis by (auto simp: same_at_def evicted_at_def drop_lookup)
  qed
  with tot IH bytes show ?thesis
    unfolding evicted_def same_config_def by (simp add: cache_simps)
qed

lemma evict_loop_evicted: "entries_ok s \<Longrightarrow> evicted keepID tot s (evict_loop keepID tot s)"
proof (induction keepID tot s rule: evict_loop.induct)
  case (1 keepID tot s)
  show ?case
  proof (cases "tot > maxSize s")
    case False
    then have "evict_loop keepID tot s = s" by (subst evict_loop.simps) simp
    moreover have "evicted keepID tot s s" using 1(2) False by (intro evicted_stop) auto
    ultimately show ?thesis by simp
  next
    case True
    show ?thesis
    proof (cases "victim_of keepID None (entries s)")
      case None
      then have "evict_loop keepID tot s = s" by (subst evict_loop.simps) simp
      moreover have "\<not> evictable keepID x" if "mlookup (entries s) k = Some x" for k x
      proof -
        have "x \<in> snd ` set (entries s)" using map_of_SomeD [OF that] by (rule rev_image_eqI) simp
        with None show ?thesis unfolding victim_None by blast
      qed
      then have "evicted keepID tot s s" using 1(2) by (intro evicted_stop) auto
      ultimately show ?thesis by simp
    next
      case (Some v)
      note v = evict_round [OF 1(2) Some]
      let ?s = "(drop_entry (eID v) s)\<lparr>evictions := Suc (evictions s)\<rparr>"
      have step: "evict_loop keepID tot s = evict_loop keepID (tot - eSize v) ?s"
        using True Some v(1) by (subst evict_loop.simps) simp
      have ok: "entries_ok ?s" using entries_ok_drop [OF 1(2), of "eID v"] by simp
      have "evicted keepID (tot - eSize v) ?s (evict_loop keepID (tot - eSize v) ?s)"
        using 1(1) [OF True Some _ ok] v(1) by simp
      then show ?thesis
        unfolding step by (rule evicted_round [OF 1(2) True Some])
    qed
  qed
qed

lemma evictLRU_evicted:
  assumes "entries_ok s"
  shows "maxSize s \<le> 0 \<and> evictLRU keepID s = s \<or>
    0 < maxSize s \<and> evicted keepID (complete_bytes s + staged_bytes s) s (evictLRU keepID s)"
  using evict_loop_evicted [OF assms] by (auto simp: evictLRU_def)

text \<open>
  Eviction stops as soon as the bytes fit: the last entry it removed was still in the way.
\<close>

definition last_evicted :: "nat \<Rightarrow> int \<Rightarrow> Server \<Rightarrow> Server \<Rightarrow> Entry \<Rightarrow> bool" where
  "last_evicted keepID tot s t v \<longleftrightarrow>
     mlookup (entries s) (eID v) = Some v \<and> evictable keepID v \<and> mlookup (entries t) (eID v) = None \<and>
     (\<forall>k e. mlookup (entries s) k = Some e \<and> mlookup (entries t) k = None \<longrightarrow> lru e \<le> lru v) \<and>
     maxSize s < tot - complete_bytes s + complete_bytes t + eSize v"

lemma last_evicted_round:
  assumes ok: "entries_ok s" and tot: "tot > maxSize s" and v: "victim_of keepID None (entries s) = Some v"
    and IH: "t = (drop_entry (eID v) s)\<lparr>evictions := n\<rparr> \<or>
      (\<exists>w. last_evicted keepID (tot - eSize v) ((drop_entry (eID v) s)\<lparr>evictions := n\<rparr>) t w)"
  shows "\<exists>w. last_evicted keepID tot s t w"
proof -
  let ?s = "(drop_entry (eID v) s)\<lparr>evictions := n\<rparr>"
  note r = evict_round [OF ok v]
  have bytes: "complete_bytes ?s = complete_bytes s - eSize v"
    using complete_bytes_drop [OF ok r(1,2)] by (simp add: complete_bytes_def)
  from IH show ?thesis
  proof
    assume t: "t = ?s"
    have "last_evicted keepID tot s t v"
      unfolding last_evicted_def t bytes using r(1-3) tot by (auto simp: drop_lookup evictable_def split: if_splits)
    then show ?thesis ..
  next
    assume "\<exists>w. last_evicted keepID (tot - eSize v) ?s t w"
    then obtain w where w: "last_evicted keepID (tot - eSize v) ?s t w" ..
    then have ws: "mlookup (entries s) (eID w) = Some w" "evictable keepID w"
      by (auto simp: last_evicted_def drop_lookup split: if_splits)
    then have vw: "lru v \<le> lru w" using r(4) by (simp add: evictable_def)
    have all: "lru e \<le> lru w" if e: "mlookup (entries s) k = Some e" "mlookup (entries t) k = None" for k e
    proof (cases "k = eID v")
      case True
      with e r(1) vw show ?thesis by simp
    next
      case False
      with e have "mlookup (entries ?s) k = Some e" by (simp add: drop_lookup)
      with w e(2) show ?thesis unfolding last_evicted_def by blast
    qed
    have "mlookup (entries t) (eID w) = None" "maxSize s < tot - complete_bytes s + complete_bytes t + eSize w"
      using w bytes by (simp_all add: last_evicted_def cache_simps)
    with ws all have "last_evicted keepID tot s t w" unfolding last_evicted_def by blast
    then show ?thesis ..
  qed
qed

lemma evict_loop_last:
  "entries_ok s \<Longrightarrow> evict_loop keepID tot s = s \<or> (\<exists>v. last_evicted keepID tot s (evict_loop keepID tot s) v)"
proof (induction keepID tot s rule: evict_loop.induct)
  case (1 keepID tot s)
  show ?case
  proof (cases "tot > maxSize s")
    case False
    then show ?thesis by (subst evict_loop.simps) simp
  next
    case True
    show ?thesis
    proof (cases "victim_of keepID None (entries s)")
      case None
      then show ?thesis by (subst evict_loop.simps) simp
    next
      case (Some v)
      note v = evict_round [OF 1(2) Some]
      let ?s = "(drop_entry (eID v) s)\<lparr>evictions := Suc (evictions s)\<rparr>"
      have step: "evict_loop keepID tot s = evict_loop keepID (tot - eSize v) ?s"
        using True Some v(1) by (subst evict_loop.simps) simp
      have ok: "entries_ok ?s" using entries_ok_drop [OF 1(2), of "eID v"] by simp
      have "\<exists>w. last_evicted keepID tot s (evict_loop keepID (tot - eSize v) ?s) w"
        using 1(1) [OF True Some _ ok] v(1) by (intro last_evicted_round [OF 1(2) True Some]) simp
      with step show ?thesis by simp
    qed
  qed
qed

lemma evictLRU_last:
  assumes "entries_ok s"
  shows "evictLRU keepID s = s \<or>
    (\<exists>v. last_evicted keepID (complete_bytes s + staged_bytes s) s (evictLRU keepID s) v)"
  using evict_loop_last [OF assms] by (simp add: evictLRU_def)

section \<open>Collection\<close>

definition swept :: "time \<Rightarrow> (nat, Entry) gomap \<Rightarrow> nat \<Rightarrow> bool" where
  "swept now m k \<longleftrightarrow> (case mlookup m k of None \<Rightarrow> False | Some e \<Rightarrow> stale now e)"

lemma swept_Cons: "swept now ((a, b) # m) k = (if k = a then stale now b else swept now m k)"
  by (simp add: swept_def)

lemma gc_loop_lookup:
  "mlookup (entries (fst (gc_loop now m s n))) k = (if swept now m k then None else mlookup (entries s) k) \<and>
   mlookup (blobs (fst (gc_loop now m s n))) k = (if swept now m k then None else mlookup (blobs s) k) \<and>
   mlookup (staged (fst (gc_loop now m s n))) k = (if swept now m k then None else mlookup (staged s) k)"
  if "wf_map m"
  using that
proof (induction m arbitrary: s n)
  case Nil
  then show ?case by (simp add: swept_def)
next
  case (Cons kv m)
  obtain a b where kv: "kv = (a, b)" by (cases kv)
  have wf: "wf_map m" and "mlookup m a = None"
    using Cons.prems by (simp_all add: kv wf_map_def keys_def map_of_eq_None_iff)
  then have a: "\<not> swept now m a" by (simp add: swept_def)
  show ?case
  proof (cases "stale now b")
    case True
    with Cons.IH [OF wf, of "drop_entry a s" "Suc n"] a show ?thesis
      by (simp add: kv swept_Cons drop_lookup)
  next
    case False
    with Cons.IH [OF wf, of s n] a show ?thesis by (simp add: kv swept_Cons)
  qed
qed

lemma gc_loop_frame:
  "entries_ok s \<Longrightarrow> entries_ok (fst (gc_loop now m s n)) \<and> same_config s (fst (gc_loop now m s n))"
proof (induction m arbitrary: s n)
  case Nil
  then show ?case by (simp add: same_config_def)
next
  case (Cons kv m)
  obtain a b where kv: "kv = (a, b)" by (cases kv)
  from Cons.IH [OF entries_ok_drop [OF Cons.prems], of a "Suc n"] Cons.IH [OF Cons.prems, of n]
  show ?case by (simp add: kv same_config_def cache_simps)
qed

end
