(* ===== verification/Cache_Machine.thy ===== *)
theory Cache_Machine
  imports Cache_Facts
begin

text \<open>
  The cache server under concurrent requests: the sections of its handlers as the steps of a transition
  system, the invariant of the store, and the abstract store they implement.

  A step is what runs under \<open>s.mu\<close> (or \<open>identityMu\<close>); an upload is two steps, \<open>open\<close>, which takes the entry's
  \<open>ioMu\<close> and passes the checks, and \<open>transfer\<close>, which writes and gives the lock back.  A transfer may find
  that its entry has been collected meanwhile.  \<open>held\<close> lists the entries whose \<open>ioMu\<close> is taken; a finalize
  takes it too, but within one step.  A handler that waits for the caller's rights is a step from its first
  poll to its answer.
\<close>

section \<open>Steps\<close>

record CacheSys =
  srv :: Server
  held :: "nat list"

datatype cache_event =
    WhoEv
  | CreateEv Identity string string
  | FinalizeEv nat Identity
  | GetEv Identity
  | GcEv
  | OpenEv nat Identity
  | TransferEv nat upload

inductive cache_step :: "cache_event \<Rightarrow> CacheSys \<Rightarrow> CacheSys \<Rightarrow> bool" where
  c_who: "cache_step WhoEv c (c\<lparr>srv := snd (server_identity look v start poll polls (srv c))\<rparr>)"
| c_create: "WriteRef i \<noteq> [] \<Longrightarrow>
     cache_step (CreateEv i key version) c (c\<lparr>srv := snd (reserve i key version tok now ok (srv c))\<rparr>)"
| c_finalize: "k \<notin> set (held c) \<Longrightarrow>
     cache_step (FinalizeEv k i) c (c\<lparr>srv := snd (finalize_commit q k i now ok (srv c))\<rparr>)"
| c_hit: "match_entry repo refs key rks version (srv c) = Some e \<Longrightarrow>
     cache_step (GetEv i) c (c\<lparr>srv := touch e now ok (srv c)\<rparr>)"
| c_miss: "cache_step (GetEv i) c (c\<lparr>srv := (srv c)\<lparr>misses := Suc (misses (srv c))\<rparr>\<rparr>)"
| c_gc: "cache_step GcEv c (c\<lparr>srv := gc now ok (srv c)\<rparr>)"
| c_open: "eID e < nextID (srv c) \<Longrightarrow> eID e \<notin> set (held c) \<Longrightarrow>
     mlookup (entries (srv c)) (eID e) = None \<or> mlookup (entries (srv c)) (eID e) = Some e \<Longrightarrow>
     upload_open e i gone (srv c) = None \<Longrightarrow>
     cache_step (OpenEv (eID e) i) c (c\<lparr>held := eID e # held c\<rparr>)"
| c_transfer: "k \<in> set (held c) \<Longrightarrow>
     cache_step (TransferEv k up) c (c\<lparr>srv := snd (run_upload up k (srv c)), held := remove1 k (held c)\<rparr>)"

inductive_cases create_stepE: "cache_step (CreateEv i key version) c c'"
inductive_cases finalize_stepE: "cache_step (FinalizeEv k i) c c'"

section \<open>The store's invariant\<close>

definition slot_of :: "Entry \<Rightarrow> string \<times> string \<times> string \<times> string" where
  "slot_of e = (eRepoID e, eRef e, eKey e, eVersion e)"

definition slots_unique :: "Server \<Rightarrow> bool" where
  "slots_unique s \<longleftrightarrow>
     (\<forall>j k a b. mlookup (entries s) j = Some a \<longrightarrow> mlookup (entries s) k = Some b \<longrightarrow> slot_of a = slot_of b \<longrightarrow> j = k)"

definition scoped :: "Server \<Rightarrow> bool" where
  "scoped s \<longleftrightarrow> (\<forall>k e. mlookup (entries s) k = Some e \<longrightarrow> eRef e \<noteq> [])"

definition blobs_ok :: "Server \<Rightarrow> bool" where
  "blobs_ok s \<longleftrightarrow>
     (\<forall>k e. mlookup (entries s) k = Some e \<longrightarrow> eComplete e \<longrightarrow>
        (\<exists>b. mlookup (blobs s) k = Some b \<and> eSize e = int (length b)) \<and> mlookup (staged s) k = None)"

definition held_ok :: "nat list \<Rightarrow> Server \<Rightarrow> bool" where
  "held_ok hs s \<longleftrightarrow>
     distinct hs \<and>
     (\<forall>k \<in> set hs. k < nextID s \<and> (\<forall>e. mlookup (entries s) k = Some e \<longrightarrow> \<not> eComplete e))"

definition store_ok :: "Server \<Rightarrow> bool" where
  "store_ok s \<longleftrightarrow> entries_ok s \<and> slots_unique s \<and> scoped s \<and> blobs_ok s"

definition cache_inv :: "CacheSys \<Rightarrow> bool" where
  "cache_inv c \<longleftrightarrow> store_ok (srv c) \<and> held_ok (held c) (srv c)"

text \<open>A server starts on a store that was in order when it was saved, with nothing in flight.\<close>

definition cache_init :: "CacheSys \<Rightarrow> bool" where
  "cache_init c \<longleftrightarrow> store_ok (srv c) \<and> staged (srv c) = [] \<and> held c = []"

section \<open>What a change of the store must respect\<close>

text \<open>
  An operation that leaves every entry, blob and staged count alone, or removes all three, keeps the
  invariant.
\<close>

definition removed_at :: "nat \<Rightarrow> Server \<Rightarrow> Server \<Rightarrow> bool" where
  "removed_at k s t \<longleftrightarrow> mlookup (entries t) k = None"

definition thinned :: "Server \<Rightarrow> Server \<Rightarrow> bool" where
  "thinned s t \<longleftrightarrow>
     entries_ok t \<and> nextID s \<le> nextID t \<and> (\<forall>k. same_at k s t \<or> removed_at k s t)"

lemma thinned_refl: "entries_ok s \<Longrightarrow> thinned s s"
  by (simp add: thinned_def)

lemma thinned_trans: "thinned s t \<Longrightarrow> thinned t u \<Longrightarrow> thinned s u"
  unfolding thinned_def same_at_def removed_at_def by (metis le_trans)

lemma thinned_lookup:
  assumes "thinned s t" "mlookup (entries t) k = Some e"
  shows "mlookup (entries s) k = Some e" "mlookup (blobs t) k = mlookup (blobs s) k"
    "mlookup (staged t) k = mlookup (staged s) k"
  using assms unfolding thinned_def same_at_def removed_at_def by (metis option.distinct(1))+

lemma thinned_store_ok:
  assumes "store_ok s" "thinned s t"
  shows "store_ok t"
  using assms(1) thinned_lookup [OF assms(2)] assms(2)
  unfolding store_ok_def slots_unique_def scoped_def blobs_ok_def thinned_def by metis

lemma thinned_held_ok: "held_ok hs s \<Longrightarrow> thinned s t \<Longrightarrow> held_ok hs t"
  using thinned_lookup(1) unfolding held_ok_def thinned_def by (metis order_less_le_trans)

lemma thinned_drop: "entries_ok s \<Longrightarrow> thinned s (drop_entry k s)"
  using entries_ok_drop [of s k]
  by (simp add: thinned_def same_at_def removed_at_def drop_lookup cache_simps)

lemma thinned_save [simp]: "thinned s (save ok t) = thinned s t" "thinned (save ok s) t = thinned s t"
  by (simp_all add: thinned_def save_def same_at_def removed_at_def)

lemma thinned_evict: "entries_ok s \<Longrightarrow> thinned s (evictLRU k s)"
  using evictLRU_evicted [of s k]
  unfolding thinned_def evicted_def same_config_def removed_at_def evicted_at_def by auto

lemma thinned_gc: "entries_ok s \<Longrightarrow> thinned s (gc now ok s)"
proof -
  assume s: "entries_ok s"
  have "thinned s (fst (gc_loop now (entries s) s 0))"
    using gc_loop_lookup [of "entries s" now s 0] gc_loop_frame [OF s, of now "entries s" 0] s
    unfolding thinned_def same_at_def removed_at_def same_config_def entries_ok_def by auto
  then show "thinned s (gc now ok s)"
    by (auto simp: gc_def split: prod.splits)
qed

lemma identity_fields:
  "entries (snd (server_identity look v start poll polls s)) = entries s"
  "blobs (snd (server_identity look v start poll polls s)) = blobs s"
  "staged (snd (server_identity look v start poll polls s)) = staged s"
  "nextID (snd (server_identity look v start poll polls s)) = nextID s"
  by (auto simp: server_identity_def denyIdentity_def Let_def split: option.splits prod.splits)

lemma thinned_who: "entries_ok s \<Longrightarrow> thinned s (snd (server_identity look v start poll polls s))"
  by (simp add: thinned_def same_at_def entries_ok_def identity_fields)

lemma store_ok_save [simp]: "store_ok (save ok s) = store_ok s"
  by (simp add: store_ok_def slots_unique_def scoped_def blobs_ok_def save_def)

lemma held_ok_save [simp]: "held_ok hs (save ok s) = held_ok hs s"
  by (simp add: held_ok_def save_def)

text \<open>Adding a fresh reservation.\<close>

lemma add_reservation:
  assumes s: "store_ok s" and ref: "WriteRef i \<noteq> []"
    and new: "\<And>k e. mlookup (entries s) k = Some e \<Longrightarrow>
      slot_of e \<noteq> (Repository i, WriteRef i, key, version)"
  shows "store_ok (s\<lparr>nextID := Suc (nextID s),
      entries := mput (nextID s) (newEntry s i key version tok now) (entries s)\<rparr>)" (is "store_ok ?t")
proof -
  let ?e = "newEntry s i key version tok now"
  have e: "eID ?e = nextID s" "slot_of ?e = (Repository i, WriteRef i, key, version)" "eRef ?e \<noteq> []" "\<not> eComplete ?e"
    using ref by (simp_all add: newEntry_def slot_of_def)
  have ok: "entries_ok s" using s by (simp add: store_ok_def)
  have "entries_ok ?t"
    unfolding entries_ok_def
  proof (intro conjI allI impI)
    show "wf_map (entries ?t)" using ok by (simp add: entries_ok_def)
  next
    fix k x assume "mlookup (entries ?t) k = Some x"
    then show "eID x = k" "k < nextID ?t"
      using e(1) entries_okD [OF ok, of k x] by (auto split: if_splits)
  qed
  moreover have "slots_unique ?t"
    unfolding slots_unique_def
  proof (intro allI impI)
    fix j k a b assume "mlookup (entries ?t) j = Some a" "mlookup (entries ?t) k = Some b" "slot_of a = slot_of b"
    then show "j = k"
      using s new e(2) unfolding store_ok_def slots_unique_def by (auto split: if_splits)
  qed
  moreover have "scoped ?t" using s e(3) by (auto simp: store_ok_def scoped_def)
  moreover have "blobs_ok ?t" using s e(4) by (auto simp: store_ok_def blobs_ok_def)
  ultimately show ?thesis by (simp add: store_ok_def)
qed

end
