(* ===== verification/Cache_Invariant.thy ===== *)
theory Cache_Invariant
  imports Cache_Machine
begin

text \<open>
  Every step keeps the invariant of the store: ids and slots are unique, a complete entry's blob is on
  disk with the recorded size, no upload holds a complete entry.
\<close>

section \<open>Reservations\<close>

lemma slot_of_iff:
  "ref \<noteq> [] \<Longrightarrow> slot_of e = (repo, ref, key, version) \<longleftrightarrow> in_scope repo ref version e \<and> eKey e = key"
  by (auto simp: slot_of_def in_scope_def)

lemma findExact_None:
  assumes "entries_ok s" "findExact repo ref key version s = None" "ref \<noteq> []" "mlookup (entries s) k = Some e"
  shows "slot_of e \<noteq> (repo, ref, key, version)"
proof -
  have "e \<in> snd ` set (entries s)" using map_of_SomeD [OF assms(4)] by (rule rev_image_eqI) simp
  with assms(2,3) show ?thesis unfolding findExact_def newest_None by (auto simp: slot_of_iff)
qed

lemma findExact_Some:
  assumes "entries_ok s" "findExact repo ref key version s = Some e" "ref \<noteq> []"
  shows "mlookup (entries s) (eID e) = Some e" "slot_of e = (repo, ref, key, version)"
  using newest_lookup [OF assms(1) assms(2) [unfolded findExact_def]] assms(3) by (simp_all add: slot_of_iff)

definition added :: "Identity \<Rightarrow> string \<Rightarrow> string \<Rightarrow> string \<Rightarrow> time \<Rightarrow> Server \<Rightarrow> Server" where
  "added i key version tok now s =
     s\<lparr>nextID := Suc (nextID s), entries := mput (nextID s) (newEntry s i key version tok now) (entries s)\<rparr>"

lemma reserve_cases:
  assumes "store_ok s" "WriteRef i \<noteq> []"
  obtains (refused) r where "reserve i key version tok now ok s = (r, s)" "r = Exists \<or> r = Creating"
  | (tried) s0 where "thinned s s0" "store_ok s0" "nextID s0 = nextID s"
      "\<And>k e. mlookup (entries s0) k = Some e \<Longrightarrow> slot_of e \<noteq> (Repository i, WriteRef i, key, version)"
      "\<And>k. same_at k s s0 \<or> (\<exists>e. mlookup (entries s) k = Some e \<and> \<not> eComplete e)"
      "reserve i key version tok now ok s =
         (if ok then (Reserved (newEntry s0 i key version tok now), save True (added i key version tok now s0))
          else (SaveFailed, (added i key version tok now s0)
            \<lparr>entries := mdel (nextID s0) (entries (added i key version tok now s0))\<rparr>))"
proof -
  have s: "entries_ok s" using assms(1) by (simp add: store_ok_def)
  show thesis
  proof (cases "findExact (Repository i) (WriteRef i) key version s")
    case None
    show thesis
    proof (rule tried [of s])
      show "reserve i key version tok now ok s =
         (if ok then (Reserved (newEntry s i key version tok now), save True (added i key version tok now s))
          else (SaveFailed, (added i key version tok now s)
            \<lparr>entries := mdel (nextID s) (entries (added i key version tok now s))\<rparr>))"
        using None by (simp add: reserve_def Let_def added_def newEntry_def)
    qed (use assms findExact_None [OF s None assms(2)] thinned_refl [OF s] in \<open>simp_all\<close>)
  next
    case (Some e)
    note e = findExact_Some [OF s Some assms(2)]
    consider "eComplete e" | "\<not> eComplete e" "eUsedAt e \<ge> unix (now - maxIncompleteAge)"
      | "\<not> eComplete e" "\<not> eUsedAt e \<ge> unix (now - maxIncompleteAge)" by blast
    then show thesis
    proof cases
      case 1
      with Some show thesis by (intro refused [of Exists]) (simp_all add: reserve_def Let_def)
    next
      case 2
      with Some show thesis by (intro refused [of Creating]) (simp_all add: reserve_def Let_def)
    next
      case 3
      let ?s = "drop_entry (eID e) s"
      have th: "thinned s ?s" by (rule thinned_drop [OF s])
      show thesis
      proof (rule tried [of ?s])
        show "reserve i key version tok now ok s =
           (if ok then (Reserved (newEntry ?s i key version tok now), save True (added i key version tok now ?s))
            else (SaveFailed, (added i key version tok now ?s)
              \<lparr>entries := mdel (nextID ?s) (entries (added i key version tok now ?s))\<rparr>))"
          using Some 3 by (simp add: reserve_def Let_def added_def newEntry_def)
        fix k x assume x: "mlookup (entries ?s) k = Some x"
        show "slot_of x \<noteq> (Repository i, WriteRef i, key, version)"
        proof
          assume "slot_of x = (Repository i, WriteRef i, key, version)"
          with x e assms(1) have "k = eID e"
            unfolding store_ok_def slots_unique_def by (metis drop_lookup(1) option.distinct(1))
          with x show False by (simp add: drop_lookup)
        qed
      next
        fix k show "same_at k s ?s \<or> (\<exists>x. mlookup (entries s) k = Some x \<and> \<not> eComplete x)"
          using e(1) 3(1) by (cases "k = eID e") (auto simp: same_at_def drop_lookup)
      qed (use th thinned_store_ok [OF assms(1) th] in \<open>simp_all add: cache_simps\<close>)
    qed
  qed
qed

lemma mdel_mput_new: "mlookup m k = None \<Longrightarrow> mdel k (mput k v m) = m"
  by (induction m) (auto simp: delete_id map_of_eq_None_iff split: if_splits)

lemma next_free: "entries_ok s \<Longrightarrow> mlookup (entries s) (nextID s) = None"
  by (metis entries_okD less_irrefl not_None_eq)

lemma reserve_failed_thinned:
  assumes "store_ok s" "store_ok s0" "thinned s s0"
  shows "thinned s ((added i key version tok now s0)\<lparr>entries := mdel (nextID s0) (entries (added i key version tok now s0))\<rparr>)"
proof -
  have s0: "entries_ok s0" using assms(2) by (simp add: store_ok_def)
  have "(added i key version tok now s0)\<lparr>entries := mdel (nextID s0) (entries (added i key version tok now s0))\<rparr> =
      s0\<lparr>nextID := Suc (nextID s0)\<rparr>"
    using next_free [OF s0] by (simp add: added_def mdel_mput_new)
  moreover have "thinned s0 (s0\<lparr>nextID := Suc (nextID s0)\<rparr>)"
    using s0 by (auto simp: thinned_def same_at_def entries_ok_def less_Suc_eq)
  ultimately show ?thesis using thinned_trans [OF assms(3)] by simp
qed

lemma added_held_ok: "held_ok hs s \<Longrightarrow> held_ok hs (added i key version tok now s)"
  by (auto simp: held_ok_def added_def less_Suc_eq)

lemma reserve_inv:
  assumes "store_ok s" "held_ok hs s" "WriteRef i \<noteq> []"
  shows "store_ok (snd (reserve i key version tok now ok s)) \<and> held_ok hs (snd (reserve i key version tok now ok s))"
  using assms(1,3)
proof (cases rule: reserve_cases [where key = key and version = version and tok = tok and now = now and ok = ok])
  case (refused r)
  with assms show ?thesis by simp
next
  case (tried s0)
  show ?thesis
  proof (cases ok)
    case True
    have "store_ok (added i key version tok now s0)"
      unfolding added_def by (rule add_reservation [OF tried(2) assms(3) tried(4)])
    moreover have "held_ok hs (added i key version tok now s0)"
      by (rule added_held_ok [OF thinned_held_ok [OF assms(2) tried(1)]])
    ultimately show ?thesis using True tried(6) by simp
  next
    case False
    note th = reserve_failed_thinned [OF assms(1) tried(2,1), of i key version tok now]
    from False tried(6) thinned_store_ok [OF assms(1) th] thinned_held_ok [OF assms(2) th]
    show ?thesis by simp
  qed
qed

section \<open>Publishing and using an entry\<close>

text \<open>Replacing an entry by one for the same slot.\<close>

definition replaced :: "Entry \<Rightarrow> Server \<Rightarrow> Server" where
  "replaced e' s = s\<lparr>entries := mput (eID e') e' (entries s)\<rparr>"

lemma replaced_ok:
  assumes s: "store_ok s" and e: "mlookup (entries s) (eID e') = Some e" and slot: "slot_of e' = slot_of e"
    and b: "eComplete e' \<Longrightarrow> (\<exists>b. mlookup (blobs s) (eID e') = Some b \<and> eSize e' = int (length b)) \<and>
      mlookup (staged s) (eID e') = None"
  shows "store_ok (replaced e' s)"
proof -
  have ok: "entries_ok s" using s by (simp add: store_ok_def)
  have "entries_ok (replaced e' s)"
    using ok e by (auto simp: entries_ok_def replaced_def)
  moreover have "slots_unique (replaced e' s)"
    unfolding slots_unique_def
  proof (intro allI impI)
    fix j k x y
    assume x: "mlookup (entries (replaced e' s)) j = Some x" and y: "mlookup (entries (replaced e' s)) k = Some y"
      and xy: "slot_of x = slot_of y"
    obtain x' where x': "mlookup (entries s) j = Some x'" "slot_of x' = slot_of x"
      using x e slot by (auto simp: replaced_def split: if_splits)
    obtain y' where y': "mlookup (entries s) k = Some y'" "slot_of y' = slot_of y"
      using y e slot by (auto simp: replaced_def split: if_splits)
    from s x' y' xy show "j = k" unfolding store_ok_def slots_unique_def by metis
  qed
  moreover have "scoped (replaced e' s)"
    using s e slot unfolding store_ok_def scoped_def replaced_def by (auto simp: slot_of_def)
  moreover have "blobs_ok (replaced e' s)"
    using s b unfolding store_ok_def blobs_ok_def replaced_def by auto
  ultimately show ?thesis by (simp add: store_ok_def)
qed

lemma replaced_held_ok:
  "held_ok hs s \<Longrightarrow> eID e' \<notin> set hs \<or> \<not> eComplete e' \<Longrightarrow> held_ok hs (replaced e' s)"
  by (auto simp: held_ok_def replaced_def)

lemma finalize_cases:
  obtains (refused) r where "finalize_commit q k i now ok s = (r, s)"
  | (published) e b where "mlookup (entries s) k = Some e" "\<not> eComplete e" "owns i e" "mlookup (blobs s) k = Some b"
      "snd (finalize_commit q k i now ok s) = save ok (commit_entry e (int (length b)) now s)"
proof (cases "mlookup (entries s) k")
  case None
  then show thesis by (intro refused) (simp add: finalize_commit_def)
next
  case (Some e)
  show thesis
  proof (cases "eComplete e \<or> \<not> owns i e \<or> mlookup (blobs s) k = None")
    case True
    with Some show thesis
      by (intro refused [of "fst (finalize_commit q k i now ok s)"])
        (cases "mlookup (blobs s) k", auto simp: finalize_commit_def)
  next
    case False
    then obtain b where b: "mlookup (blobs s) k = Some b" by auto
    show thesis
    proof (cases "case parse_int64 (fSizeBytes q) of None \<Rightarrow> False | Some want \<Rightarrow> want \<ge> 0 \<and> want \<noteq> int (length b)")
      case True
      with Some False b show thesis by (intro refused) (simp add: finalize_commit_def)
    next
      case no: False
      with Some False b show thesis
        by (intro published) (auto simp: finalize_commit_def Let_def save_def)
    qed
  qed
qed

definition completed :: "Entry \<Rightarrow> int \<Rightarrow> time \<Rightarrow> Entry" where
  "completed e sz now = e\<lparr>eSize := sz, eComplete := True, eUsedAt := unix now\<rparr>"

lemma completed_fields [simp]:
  "eID (completed e sz now) = eID e" "slot_of (completed e sz now) = slot_of e" "eComplete (completed e sz now)"
  "eSize (completed e sz now) = sz"
  by (simp_all add: completed_def slot_of_def)

lemma commit_entry_replaced:
  "commit_entry e sz now s =
   evictLRU (eID e) (replaced (completed e sz now) (s\<lparr>staged := mdel (eID e) (staged s), saves := Suc (saves s)\<rparr>))"
  by (simp add: commit_entry_def replaced_def completed_def)

lemma commit_entry_inv:
  assumes s: "store_ok s" "held_ok hs s" and k: "k \<notin> set hs"
    and e: "mlookup (entries s) k = Some e" and b: "mlookup (blobs s) k = Some b"
  shows "store_ok (commit_entry e (int (length b)) now s) \<and> held_ok hs (commit_entry e (int (length b)) now s)"
proof -
  let ?s = "s\<lparr>staged := mdel (eID e) (staged s), saves := Suc (saves s)\<rparr>"
  let ?e = "completed e (int (length b)) now"
  have ok: "entries_ok s" using s by (simp add: store_ok_def)
  have id: "eID e = k" using entries_okD [OF ok e] by simp
  have "store_ok ?s" using s(1) by (auto simp: store_ok_def entries_ok_def slots_unique_def scoped_def blobs_ok_def)
  then have r: "store_ok (replaced ?e ?s)"
    by (rule replaced_ok) (use e b id in simp_all)
  have "held_ok hs ?s" using s(2) by (simp add: held_ok_def)
  then have h: "held_ok hs (replaced ?e ?s)"
    by (rule replaced_held_ok) (use k id in simp)
  have th: "thinned (replaced ?e ?s) (evictLRU (eID e) (replaced ?e ?s))"
    by (rule thinned_evict) (use r in \<open>simp add: store_ok_def\<close>)
  show ?thesis
    unfolding commit_entry_replaced using thinned_store_ok [OF r th] thinned_held_ok [OF h th] by blast
qed

lemma match_lookup:
  assumes "entries_ok s" "match_entry repo refs key rks version s = Some e"
  shows "mlookup (entries s) (eID e) = Some e"
proof -
  obtain P where "newest P None (entries s) = Some e"
    using first_hit_Some assms(2) unfolding match_first by blast
  from newest_lookup [OF assms(1) this] show ?thesis ..
qed

lemma touch_inv:
  assumes "store_ok s" "held_ok hs s" "mlookup (entries s) (eID e) = Some e"
  shows "store_ok (touch e now ok s) \<and> held_ok hs (touch e now ok s)"
proof -
  let ?s = "s\<lparr>hits := Suc (hits s)\<rparr>" and ?e = "e\<lparr>eUsedAt := unix now\<rparr>"
  have t: "touch e now ok s = save ok (replaced ?e ?s)" by (simp add: touch_def replaced_def)
  have "store_ok ?s" using assms(1) by (auto simp: store_ok_def entries_ok_def slots_unique_def scoped_def blobs_ok_def)
  then have r: "store_ok (replaced ?e ?s)"
    by (rule replaced_ok) (use assms(1,3) in \<open>auto simp: slot_of_def store_ok_def blobs_ok_def\<close>)
  have "held_ok hs (replaced ?e ?s)"
    using assms(2,3) by (auto simp: held_ok_def replaced_def)
  with r show ?thesis by (simp add: t)
qed

section \<open>Transfers\<close>

lemma run_upload_frame:
  "entries (snd (run_upload up k s)) = entries s \<and> nextID (snd (run_upload up k s)) = nextID s \<and>
   maxSize (snd (run_upload up k s)) = maxSize s \<and> index_file (snd (run_upload up k s)) = index_file s \<and>
   (\<forall>j. j \<noteq> k \<longrightarrow> mlookup (blobs (snd (run_upload up k s))) j = mlookup (blobs s) j \<and>
        mlookup (staged (snd (run_upload up k s))) j = mlookup (staged s) j)"
  by (cases up) (auto simp: uploadBlock_def uploadSingle_def commitBlockList_def Let_def split: option.splits assembled.splits)

lemma transfer_inv:
  assumes "store_ok s" "held_ok hs s" "k \<in> set hs"
  shows "store_ok (snd (run_upload up k s)) \<and> held_ok (remove1 k hs) (snd (run_upload up k s))"
proof -
  let ?t = "snd (run_upload up k s)"
  note f = run_upload_frame [of up k s]
  have "entries_ok ?t" "slots_unique ?t" "scoped ?t"
    using assms(1) f by (simp_all add: store_ok_def entries_ok_def slots_unique_def scoped_def)
  moreover have "blobs_ok ?t"
    unfolding blobs_ok_def
  proof (intro allI impI)
    fix j e assume j: "mlookup (entries ?t) j = Some e" "eComplete e"
    then have "j \<noteq> k" using assms(2,3) f by (auto simp: held_ok_def)
    with f j assms(1) show "(\<exists>b. mlookup (blobs ?t) j = Some b \<and> eSize e = int (length b)) \<and> mlookup (staged ?t) j = None"
      unfolding store_ok_def blobs_ok_def by metis
  qed
  moreover have "held_ok (remove1 k hs) ?t"
    using assms(2) f by (auto simp: held_ok_def dest: notin_set_remove1 set_remove1_subset [THEN subsetD])
  ultimately show ?thesis by (simp add: store_ok_def)
qed

section \<open>The invariant\<close>

lemma cache_step_inv: "cache_inv c \<Longrightarrow> cache_step l c c' \<Longrightarrow> cache_inv c'"
proof (erule cache_step.cases)
  fix d look v start poll polls
  assume c: "cache_inv c" "c = d" "c' = d\<lparr>srv := snd (server_identity look v start poll polls (srv d))\<rparr>"
  then have "thinned (srv d) (srv c')" using thinned_who by (simp add: cache_inv_def store_ok_def)
  from thinned_store_ok [OF _ this] thinned_held_ok [OF _ this] c show "cache_inv c'"
    by (simp add: cache_inv_def)
next
  fix d ok now
  assume c: "cache_inv c" "c = d" "c' = d\<lparr>srv := gc now ok (srv d)\<rparr>"
  then have "thinned (srv d) (srv c')" using thinned_gc by (simp add: cache_inv_def store_ok_def)
  from thinned_store_ok [OF _ this] thinned_held_ok [OF _ this] c show "cache_inv c'"
    by (simp add: cache_inv_def)
next
  fix k d q i now ok
  assume c: "cache_inv c" "c = d" "c' = d\<lparr>srv := snd (finalize_commit q k i now ok (srv d))\<rparr>" "k \<notin> set (held d)"
  then have s: "store_ok (srv d)" "held_ok (held d) (srv d)" by (simp_all add: cache_inv_def)
  show "cache_inv c'"
  proof (cases q k i now ok "srv d" rule: finalize_cases)
    case (refused r)
    with c s show ?thesis by (simp add: cache_inv_def)
  next
    case (published e b)
    with commit_entry_inv [OF s c(4) published(1,4)] c show ?thesis by (simp add: cache_inv_def)
  qed
next
  fix repo refs key rks version d e i now ok
  assume c: "cache_inv c" "c = d" "c' = d\<lparr>srv := touch e now ok (srv d)\<rparr>"
    and m: "match_entry repo refs key rks version (srv d) = Some e"
  then have s: "store_ok (srv d)" "held_ok (held d) (srv d)" "entries_ok (srv d)" by (simp_all add: cache_inv_def store_ok_def)
  from touch_inv [OF s(1,2) match_lookup [OF s(3) m]] c show "cache_inv c'" by (simp add: cache_inv_def)
next
  fix d i
  assume c: "cache_inv c" "c = d" "c' = d\<lparr>srv := (srv d)\<lparr>misses := Suc (misses (srv d))\<rparr>\<rparr>"
  then show "cache_inv c'"
    by (auto simp: cache_inv_def store_ok_def entries_ok_def slots_unique_def scoped_def blobs_ok_def held_ok_def)
next
  fix e d i gone
  assume c: "cache_inv c" "c = d" "c' = d\<lparr>held := eID e # held d\<rparr>" "eID e < nextID (srv d)" "eID e \<notin> set (held d)"
    "upload_open e i gone (srv d) = None"
  then show "cache_inv c'"
    by (auto simp: cache_inv_def held_ok_def upload_open_def split: if_splits)
next
  fix i key version tok now ok d
  assume c: "cache_inv c" "c = d" "c' = d\<lparr>srv := snd (reserve i key version tok now ok (srv d))\<rparr>" "WriteRef i \<noteq> []"
  then show "cache_inv c'"
    using reserve_inv [of "srv d" "held d" i key version tok now ok] by (simp add: cache_inv_def)
next
  fix k d up
  assume c: "cache_inv c" "c = d" "c' = d\<lparr>srv := snd (run_upload up k (srv d)), held := remove1 k (held d)\<rparr>" "k \<in> set (held d)"
  then show "cache_inv c'"
    using transfer_inv [of "srv d" "held d" k up] by (simp add: cache_inv_def)
qed

interpretation cache: invariant_system cache_init cache_step cache_inv
proof
  fix c assume "cache_init c"
  then show "cache_inv c" by (simp add: cache_init_def cache_inv_def held_ok_def)
qed (rule cache_step_inv)

end
