(* ===== verification/Cache_Claims.thy ===== *)
theory Cache_Claims
  imports Cache_Invariant
begin

text \<open>
  The properties of the cache server: who reads and writes what, the write-once store its steps
  implement, the order of a restore, eviction under the cap, the wait for a job's rights, restarts, and
  what an upload that outlives its reservation leaves behind.
\<close>

section \<open>The wait for a job's rights\<close>

lemma deny_not_Nil [simp]:
  "denyMissing \<noteq> []" "denyPending \<noteq> []" "denyUnresolved \<noteq> []" "denyExpired \<noteq> []" "denyInvalid \<noteq> []" "denyGeneration \<noteq> []"
  "denialReason i now \<noteq> []"
  by (simp_all add: denyMissing_def denyPending_def denyUnresolved_def denyExpired_def denyInvalid_def denyGeneration_def
      denialReason_def)

definition granted_by :: "lookup \<Rightarrow> string option \<Rightarrow> string \<Rightarrow> (time \<times> time) list \<Rightarrow> Identity \<Rightarrow> bool" where
  "granted_by look bound host polls i \<longleftrightarrow>
     (\<exists>(t, now) \<in> set polls. look t host = (i, None) \<and> Validate i now = None \<and> (bound = None \<or> bound = Some (Generation i)))"

lemma awaitIdentity_granted:
  "awaitIdentity look bound host deadline waited p ps = (i, [], w) \<Longrightarrow> granted_by look bound host (p # ps) i"
proof (induction ps arbitrary: p waited)
  case Nil
  obtain t now where p: "p = (t, now)" by (cases p)
  obtain x e where x: "look t host = (x, e)" by (cases "look t host")
  from Nil show ?case
    by (auto simp: p x awaitIdentity.simps [of _ _ _ _ _ t now] granted_by_def Validate_None Let_def split: if_splits)
next
  case (Cons q ps)
  obtain t now where p: "p = (t, now)" by (cases p)
  obtain x e where x: "look t host = (x, e)" by (cases "look t host")
  have "granted_by look bound host (q # ps) i \<Longrightarrow> granted_by look bound host (p # q # ps) i"
    by (auto simp: granted_by_def)
  moreover have "(x = i \<and> e = None \<and> Validate i now = None \<and> (bound = None \<or> bound = Some (Generation i))) \<or>
      awaitIdentity look bound host deadline True q ps = (i, [], w)"
    using Cons.prems
    by (auto simp: p x awaitIdentity.simps [of _ _ _ _ _ t now] Validate_None Let_def split: if_splits)
  ultimately show ?case using Cons.IH [of True q] by (auto simp: granted_by_def p x)
qed

text \<open>The identity a handler works with is empty, or a valid record of the connection's own generation.\<close>

lemma server_identity_granted:
  assumes "server_identity look v start poll polls s = (i, s')" "WriteRef i \<noteq> [] \<or> ReadRefs i \<noteq> []"
  obtains l host j where "look = Some l" "vhost v = Some host" "granted_by l (vbound v) host (poll # polls) j"
    "i = j\<lparr>Repository := to_lower (Repository j)\<rparr>"
proof -
  obtain l host where l: "look = Some l" "vhost v = Some host"
    using assms by (cases look; cases "vhost v") (auto simp: server_identity_def)
  obtain j reason waited where a: "awaitIdentity l (vbound v) host (start + identityWait s) False poll polls = (j, reason, waited)"
    by (metis prod_cases3)
  have "reason = []"
    using assms by (rule_tac ccontr) (auto simp: server_identity_def l a Let_def)
  moreover have "i = j\<lparr>Repository := to_lower (Repository j)\<rparr>"
    using assms(1) \<open>reason = []\<close> by (simp add: server_identity_def l a Let_def)
  moreover have "granted_by l (vbound v) host (poll # polls) j"
    using awaitIdentity_granted a \<open>reason = []\<close> by blast
  ultimately show thesis by (intro that [OF l])
qed

text \<open>
  A timer fires no earlier than it was set for: the next poll's clock has advanced by the poll interval,
  or has reached the deadline.
\<close>

fun paced :: "time \<Rightarrow> time \<times> time \<Rightarrow> (time \<times> time) list \<Rightarrow> bool" where
  "paced deadline p [] = True"
| "paced deadline p (q # ps) \<longleftrightarrow> snd q \<ge> min deadline (snd p + identityPoll) \<and> paced deadline q ps"

text \<open>
  C20. A request waits for its job's rights for a bounded number of polls: with timers that fire no
  earlier than they are set for, the outcome is settled after at most one poll per poll interval left
  before the deadline, plus one; polls beyond that are never made.
\<close>

theorem await_is_bounded:
  assumes "paced deadline p ps" and "int n * identityPoll \<ge> deadline - snd p"
  shows "awaitIdentity look bound host deadline waited p ps =
    awaitIdentity look bound host deadline waited p (take n ps)"
  using assms
proof (induction n arbitrary: p ps waited)
  case 0
  obtain t now where p: "p = (t, now)" by (cases p)
  with 0 have "deadline \<le> now" by simp
  then show ?case
    by (simp add: p awaitIdentity.simps [of _ _ _ _ _ t now] split: prod.splits cong: if_cong)
next
  case (Suc n)
  obtain t now where p: "p = (t, now)" by (cases p)
  show ?case
  proof (cases ps)
    case (Cons q qs)
    have paced: "paced deadline q qs" and q: "snd q \<ge> min deadline (now + identityPoll)"
      using Suc.prems(1) by (simp_all add: p Cons)
    have "int n * identityPoll \<ge> deadline - snd q"
      using Suc.prems(2) q by (auto simp: p min_def identityPoll_def algebra_simps split: if_splits)
    from Suc.IH [OF paced this]
    have IH: "awaitIdentity look bound host deadline w q qs = awaitIdentity look bound host deadline w q (take n qs)" for w .
    show ?thesis
      unfolding p Cons take_Suc_Cons awaitIdentity.simps [of _ _ _ _ _ t now] list.case by (subst IH) (rule refl)
  qed simp
qed

definition pending_record :: Identity where
  "pending_record = noIdentity\<lparr>IP := ''10.0.0.2'', Runner := ''w'', Generation := ''g'', ExpiresAt := 90\<rparr>"

lemma await_is_bounded_witness:
  "let look = (\<lambda>t h. (pending_record, Some MissingOrExpired)); ps = [(0, 250000000), (0, 500000000), (0, 750000000)] in
   awaitIdentity look None ''10.0.0.2'' 500000000 False (0, 0) ps = awaitIdentity look None ''10.0.0.2'' 500000000 False (0, 0) (take 2 ps)"
  unfolding Let_def by (rule await_is_bounded) (simp_all add: identityPoll_def)

section \<open>The order of a restore\<close>

text \<open>
  C17. A restore finds the newest stored entry of the first class that has any: scopes in the order of the
  job's read refs, and within a scope the exact key, its prefix, then each restore key, exact before
  prefix; an entry of no class is never found.
\<close>

theorem match_first_newest:
  assumes "entries_ok s"
  shows "match_entry repo refs key rks version s = Some e \<longleftrightarrow>
    (\<exists>pre P post. search repo refs key rks version = pre @ P # post \<and>
       \<not> (\<exists>Q x. Q \<in> set pre \<and> x \<in> stored s \<and> Q x) \<and> e \<in> stored s \<and> P e \<and>
       \<not> (\<exists>x. x \<in> stored s \<and> P x \<and> rank e < rank x))"
proof
  assume "match_entry repo refs key rks version s = Some e"
  then obtain pre P post where p: "search repo refs key rks version = pre @ P # post"
    "\<forall>Q \<in> set pre. \<forall>x \<in> snd ` set (entries s). \<not> Q x" and n: "newest P None (entries s) = Some e"
    using first_hit_Some unfolding match_first by blast
  from newest_Some [OF n] p
  show "\<exists>pre P post. search repo refs key rks version = pre @ P # post \<and>
       \<not> (\<exists>Q x. Q \<in> set pre \<and> x \<in> stored s \<and> Q x) \<and> e \<in> stored s \<and> P e \<and>
       \<not> (\<exists>x. x \<in> stored s \<and> P x \<and> rank e < rank x)"
    unfolding stored_def by (metis not_less)
next
  assume "\<exists>pre P post. search repo refs key rks version = pre @ P # post \<and>
       \<not> (\<exists>Q x. Q \<in> set pre \<and> x \<in> stored s \<and> Q x) \<and> e \<in> stored s \<and> P e \<and>
       \<not> (\<exists>x. x \<in> stored s \<and> P x \<and> rank e < rank x)"
  then obtain pre P post where p: "search repo refs key rks version = pre @ P # post"
    and q: "\<forall>Q \<in> set pre. \<forall>x \<in> snd ` set (entries s). \<not> Q x"
    and e: "e \<in> snd ` set (entries s)" "P e" "\<And>x. x \<in> snd ` set (entries s) \<Longrightarrow> P x \<Longrightarrow> rank x \<le> rank e"
    unfolding stored_def by (metis not_less)
  have "newest P None (entries s) = Some e"
    by (rule newest_unique [where P = P, OF entries_inj [OF assms] e(1,2)]) (rule e(3))
  with q show "match_entry repo refs key rks version s = Some e"
    unfolding match_first p by (intro first_hit_intro)
qed

section \<open>Demonstration state\<close>

definition demo_entry :: "nat \<Rightarrow> string \<Rightarrow> int \<Rightarrow> Entry" where
  "demo_entry k key used =
     \<lparr>eRef = ''refs/heads/dev'', eGeneration = ''g'', eJobID = ''b'', eRunID = 7, eID = k, eSig = ''s'', eRepoID = ''o/r'',
      eKey = key, eVersion = ''v'', eSize = 2, eComplete = True, eCreatedAt = 1, eUsedAt = used\<rparr>"

definition demo_store :: Server where
  "demo_store = emptyServer\<lparr>entries := [(1, demo_entry 1 ''go-a'' 5), (2, demo_entry 2 ''go-b'' 3)], nextID := 3,
     maxSize := 3, blobs := [(1, ''AA''), (2, ''BB'')]\<rparr>"

lemma demo_entries_ok: "entries_ok demo_store"
  by (auto simp: entries_ok_def demo_store_def emptyServer_def demo_entry_def wf_map_def keys_def split: if_splits)

lemma demo_store_ok: "store_ok demo_store"
  unfolding store_ok_def
proof (intro conjI demo_entries_ok)
  show "slots_unique demo_store"
    by (auto simp: slots_unique_def slot_of_def demo_store_def emptyServer_def demo_entry_def split: if_splits)
  show "scoped demo_store"
    by (auto simp: scoped_def demo_store_def emptyServer_def demo_entry_def split: if_splits)
  show "blobs_ok demo_store"
    by (auto simp: blobs_ok_def demo_store_def emptyServer_def demo_entry_def split: if_splits)
qed

lemma match_first_newest_witness:
  "\<exists>e pre P post. match_entry ''o/r'' [''refs/heads/x'', ''refs/heads/dev''] ''go-'' [] ''v'' demo_store = Some e \<and> eID e = 2 \<and>
     search ''o/r'' [''refs/heads/x'', ''refs/heads/dev''] ''go-'' [] ''v'' = pre @ P # post \<and> P e"
proof -
  have m: "match_entry ''o/r'' [''refs/heads/x'', ''refs/heads/dev''] ''go-'' [] ''v'' demo_store = Some (demo_entry 2 ''go-b'' 3)"
    by code_simp
  from m [unfolded match_first_newest [OF demo_entries_ok]] m show ?thesis
    by (auto simp: demo_entry_def)
qed

section \<open>Eviction\<close>

text \<open>
  C18. Eviction under a cap removes only complete entries other than the one just finalized, in
  least-recently-used order, only while the bytes are over the cap, and until they fit or nothing else
  is left to remove: when it removes anything, the bytes it leaves and those of the most recently used
  entry it removed were over the cap, so it removes no entry more than the cap asks for.
\<close>

theorem eviction_is_lru:
  assumes "entries_ok s" "0 < maxSize s" "t = evictLRU keepID s"
  shows "(complete_bytes t + staged_bytes s \<le> maxSize s \<or> \<not> (\<exists>k x. mlookup (entries t) k = Some x \<and> evictable keepID x)) \<and>
    \<not> (\<exists>k. \<not> same_at k s t \<and> (complete_bytes s + staged_bytes s \<le> maxSize s \<or> \<not> evicted_at keepID k s t)) \<and>
    (t = s \<or>
     (\<exists>v. mlookup (entries s) (eID v) = Some v \<and> mlookup (entries t) (eID v) = None \<and>
        \<not> (\<exists>k e. mlookup (entries s) k = Some e \<and> mlookup (entries t) k = None \<and> lru v < lru e) \<and>
        maxSize s < complete_bytes t + staged_bytes s + eSize v))"
proof -
  have "t = s \<or> (\<exists>v. last_evicted keepID (complete_bytes s + staged_bytes s) s t v)"
    using evictLRU_last [OF assms(1)] unfolding assms(3) by blast
  then have "t = s \<or>
     (\<exists>v. mlookup (entries s) (eID v) = Some v \<and> mlookup (entries t) (eID v) = None \<and>
        \<not> (\<exists>k e. mlookup (entries s) k = Some e \<and> mlookup (entries t) k = None \<and> lru v < lru e) \<and>
        maxSize s < complete_bytes t + staged_bytes s + eSize v)"
    unfolding last_evicted_def by (force simp: algebra_simps not_less)
  then show ?thesis
    using evictLRU_evicted [OF assms(1), of keepID] assms(2)
    unfolding assms(3) evicted_def by (auto simp: algebra_simps)
qed

text \<open>A third entry under a cap that two fit: only the oldest goes.\<close>

definition demo_full :: Server where
  "demo_full = demo_store\<lparr>entries := entries demo_store @ [(3, demo_entry 3 ''go-c'' 4)], nextID := 4, maxSize := 4,
     blobs := blobs demo_store @ [(3, ''CC'')]\<rparr>"

lemma demo_full_ok: "entries_ok demo_full"
  by (auto simp: entries_ok_def demo_full_def demo_store_def emptyServer_def demo_entry_def wf_map_def keys_def split: if_splits)

lemma eviction_is_lru_witness:
  "mlookup (entries (evictLRU 1 demo_full)) 2 = None \<and> mlookup (entries (evictLRU 1 demo_full)) 3 \<noteq> None \<and>
   evicted_at 1 2 demo_full (evictLRU 1 demo_full) \<and>
   maxSize demo_full < complete_bytes (evictLRU 1 demo_full) + staged_bytes demo_full + 2"
proof -
  let ?t = "evictLRU 1 demo_full"
  have c: "mlookup (entries ?t) 2 = None" "mlookup (entries ?t) 3 \<noteq> None" "0 < maxSize demo_full"
    "mlookup (entries demo_full) 2 \<noteq> None" "list_all (\<lambda>(_, e). eSize e = 2) (entries demo_full)"
    by code_simp+
  note e = eviction_is_lru [OF demo_full_ok c(3) refl, of 1]
  have "\<not> same_at 2 demo_full ?t" "?t \<noteq> demo_full" using c(1,4) by (auto simp: same_at_def)
  with e obtain v where "evicted_at 1 2 demo_full ?t" "mlookup (entries demo_full) (eID v) = Some v"
    "maxSize demo_full < complete_bytes ?t + staged_bytes demo_full + eSize v" by blast
  with c show ?thesis by (auto simp: list_all_iff dest!: map_of_SomeD)
qed

section \<open>The abstract store\<close>

text \<open>
  What the store promises, without ids, files or uploads: a map from a slot (repository, ref, key,
  version) to the bytes published there.
\<close>

definition published :: "Server \<Rightarrow> string \<times> string \<times> string \<times> string \<Rightarrow> string option" where
  "published s sl =
     (case newest (\<lambda>e. eComplete e \<and> slot_of e = sl) None (entries s) of
        None \<Rightarrow> None
      | Some e \<Rightarrow> mlookup (blobs s) (eID e))"

text \<open>A write-once store: slots may be forgotten, and one free slot may be filled.\<close>

inductive store_step ::
  "('sl \<times> string) option \<Rightarrow> ('sl \<Rightarrow> string option) \<Rightarrow> ('sl \<Rightarrow> string option) \<Rightarrow> bool" where
  forget: "(\<And>sl. m' sl = m sl \<or> m' sl = None) \<Longrightarrow> store_step None m m'"
| publish: "m sl = None \<Longrightarrow> m' sl = Some b \<Longrightarrow> (\<And>sl'. sl' \<noteq> sl \<Longrightarrow> m' sl' = m sl' \<or> m' sl' = None) \<Longrightarrow>
     store_step (Some (sl, b)) m m'"

lemma published_Some:
  assumes "store_ok s"
  shows "published s sl = Some b \<longleftrightarrow>
    (\<exists>k e. mlookup (entries s) k = Some e \<and> eComplete e \<and> slot_of e = sl \<and> mlookup (blobs s) k = Some b)"
proof -
  have ok: "entries_ok s" and un: "slots_unique s" using assms by (simp_all add: store_ok_def)
  show ?thesis
  proof (cases "newest (\<lambda>e. eComplete e \<and> slot_of e = sl) None (entries s)")
    case None
    then have "\<not> (eComplete e \<and> slot_of e = sl)" if "mlookup (entries s) k = Some e" for k e
      using map_of_SomeD [OF that] unfolding newest_None by force
    with None show ?thesis unfolding published_def by auto
  next
    case (Some e)
    from newest_lookup [OF ok Some] have e: "mlookup (entries s) (eID e) = Some e" "eComplete e" "slot_of e = sl" by simp_all
    then have "k = eID e" if "mlookup (entries s) k = Some x" "slot_of x = sl" for k x
      using un that unfolding slots_unique_def by metis
    note un = this
    have pub: "published s sl = mlookup (blobs s) (eID e)" using Some by (simp add: published_def)
    show ?thesis
    proof
      assume "published s sl = Some b"
      with e pub show "\<exists>k e. mlookup (entries s) k = Some e \<and> eComplete e \<and> slot_of e = sl \<and> mlookup (blobs s) k = Some b"
        by auto
    next
      assume "\<exists>k e. mlookup (entries s) k = Some e \<and> eComplete e \<and> slot_of e = sl \<and> mlookup (blobs s) k = Some b"
      then obtain k x where "mlookup (entries s) k = Some x" "slot_of x = sl" "mlookup (blobs s) k = Some b" by blast
      with un pub show "published s sl = Some b" by simp
    qed
  qed
qed

definition shrinks :: "Server \<Rightarrow> Server \<Rightarrow> bool" where
  "shrinks s t \<longleftrightarrow>
     (\<forall>k e. mlookup (entries t) k = Some e \<longrightarrow> eComplete e \<longrightarrow>
        (\<exists>e'. mlookup (entries s) k = Some e' \<and> eComplete e' \<and> slot_of e' = slot_of e \<and>
              mlookup (blobs t) k = mlookup (blobs s) k))"

lemma shrinks_forget:
  assumes "store_ok s" "store_ok t" "shrinks s t"
  shows "store_step None (published s) (published t)"
proof (rule forget)
  fix sl
  show "published t sl = published s sl \<or> published t sl = None"
  proof (cases "published t sl")
    case (Some b)
    then have "published s sl = Some b"
      using assms(3) unfolding published_Some [OF assms(1)] published_Some [OF assms(2)] shrinks_def by metis
    with Some show ?thesis by simp
  qed simp
qed

lemma thinned_shrinks: "thinned s t \<Longrightarrow> shrinks s t"
  using thinned_lookup unfolding shrinks_def by metis

lemma shrinks_trans: "shrinks s t \<Longrightarrow> shrinks t u \<Longrightarrow> shrinks s u"
  unfolding shrinks_def by metis

lemma shrinks_save [simp]: "shrinks s (save ok t) = shrinks s t" "shrinks s (t\<lparr>misses := n\<rparr>) = shrinks s t"
  by (simp_all add: shrinks_def save_def)

lemma shrinks_added: "store_ok s \<Longrightarrow> shrinks s (added i key version tok now s)"
  by (auto simp: shrinks_def added_def newEntry_def)

lemma reserve_shrinks:
  assumes "store_ok s" "WriteRef i \<noteq> []"
  shows "shrinks s (snd (reserve i key version tok now ok s))"
  using assms
proof (cases rule: reserve_cases [where key = key and version = version and tok = tok and now = now and ok = ok])
  case (refused r)
  then show ?thesis by (simp add: shrinks_def)
next
  case (tried s0)
  show ?thesis
  proof (cases ok)
    case True
    with tried(6) shrinks_trans [OF thinned_shrinks [OF tried(1)] shrinks_added [OF tried(2)]] show ?thesis by simp
  next
    case False
    with tried(6) thinned_shrinks [OF reserve_failed_thinned [OF assms(1) tried(2,1)]] show ?thesis by simp
  qed
qed

lemma touch_shrinks: "mlookup (entries s) (eID e) = Some e \<Longrightarrow> shrinks s (touch e now ok s)"
  by (simp add: touch_def) (auto simp: shrinks_def slot_of_def)

lemma transfer_shrinks:
  assumes "held_ok hs s" "k \<in> set hs"
  shows "shrinks s (snd (run_upload up k s))"
  unfolding shrinks_def
proof (intro allI impI)
  fix j e assume j: "mlookup (entries (snd (run_upload up k s))) j = Some e" "eComplete e"
  then have "mlookup (entries s) j = Some e" "j \<noteq> k"
    using run_upload_frame [of up k s] assms by (auto simp: held_ok_def)
  with j(2) run_upload_frame [of up k s]
  show "\<exists>e'. mlookup (entries s) j = Some e' \<and> eComplete e' \<and> slot_of e' = slot_of e \<and>
      mlookup (blobs (snd (run_upload up k s))) j = mlookup (blobs s) j" by metis
qed

text \<open>The entry just finalized survives its own eviction.\<close>

lemma commit_publishes:
  assumes s: "store_ok s" "held_ok hs s" "k \<notin> set hs"
    and e: "mlookup (entries s) k = Some e" "\<not> eComplete e" and b: "mlookup (blobs s) k = Some b"
  shows "store_step (Some (slot_of e, b)) (published s) (published (commit_entry e (int (length b)) now s))"
proof -
  let ?t = "commit_entry e (int (length b)) now s"
  let ?s = "s\<lparr>staged := mdel (eID e) (staged s), saves := Suc (saves s)\<rparr>"
  let ?r = "replaced (completed e (int (length b)) now) ?s"
  have ok: "entries_ok s" and un: "slots_unique s" using s(1) by (simp_all add: store_ok_def)
  have id: "eID e = k" using entries_okD [OF ok e(1)] by simp
  have t: "store_ok ?t" using commit_entry_inv [OF s e(1) b] ..
  have "entries_ok ?s" using ok by simp
  then have rok: "entries_ok ?r" using e(1) id by (auto simp: entries_ok_def replaced_def)
  have th: "thinned ?r ?t" unfolding commit_entry_replaced by (rule thinned_evict [OF rok])
  have "same_at k ?r ?t"
    using evictLRU_evicted [OF rok, of k] unfolding commit_entry_replaced id evicted_def evicted_at_def by auto
  then have kt: "mlookup (entries ?t) k = Some (completed e (int (length b)) now)" "mlookup (blobs ?t) k = Some b"
    using b id by (simp_all add: same_at_def replaced_def)
  show ?thesis
  proof (rule publish)
    show "published s (slot_of e) = None"
    proof (cases "published s (slot_of e)")
      case (Some c)
      then obtain j x where "mlookup (entries s) j = Some x" "eComplete x" "slot_of x = slot_of e"
        unfolding published_Some [OF s(1)] by blast
      with un e have False unfolding slots_unique_def by (metis option.inject)
      then show ?thesis ..
    qed
    show "published ?t (slot_of e) = Some b"
      unfolding published_Some [OF t] using kt by (intro exI [of _ k] exI) auto
    fix sl assume sl: "sl \<noteq> slot_of e"
    show "published ?t sl = published s sl \<or> published ?t sl = None"
    proof (cases "published ?t sl")
      case (Some c)
      then obtain j x where j: "mlookup (entries ?t) j = Some x" "eComplete x" "slot_of x = sl" "mlookup (blobs ?t) j = Some c"
        unfolding published_Some [OF t] by blast
      then have "j \<noteq> k" using kt(1) sl by auto
      with j thinned_lookup [OF th j(1)] id have "published s sl = Some c"
        unfolding published_Some [OF s(1)] by (intro exI [of _ j] exI [of _ x]) (simp add: replaced_def)
      with Some show ?thesis by simp
    qed simp
  qed
qed

text \<open>
  C15. The server implements the write-once store: whatever the interleaving of requests, a step changes
  what is published only by forgetting slots, or by filling one free slot, with the bytes uploaded under
  a reservation, in a finalize by the job that owns the reservation.
\<close>

theorem server_refines_store:
  assumes "reach cache_init cache_step c" "cache_step l c c'"
  shows "store_step None (published (srv c)) (published (srv c')) \<or>
    (\<exists>k i e b. l = FinalizeEv k i \<and> mlookup (entries (srv c)) k = Some e \<and> owns i e \<and>
       mlookup (blobs (srv c)) k = Some b \<and>
       store_step (Some (slot_of e, b)) (published (srv c)) (published (srv c')))"
proof -
  have "cache_inv c \<and> cache_inv c'" by (rule cache.reach_inv_step [OF assms])
  then have s: "store_ok (srv c)" "store_ok (srv c')" "held_ok (held c) (srv c)" "entries_ok (srv c)"
    by (simp_all add: cache_inv_def store_ok_def)
  have sh: "shrinks (srv c) (srv c') \<Longrightarrow> ?thesis" using shrinks_forget [OF s(1,2)] by blast
  from assms(2) show ?thesis
  proof cases
    case (c_who look v start poll polls)
    then show ?thesis using thinned_shrinks [OF thinned_who [OF s(4)]] by (intro sh) simp
  next
    case (c_create i key version tok now ok)
    then show ?thesis using reserve_shrinks [OF s(1)] by (intro sh) simp
  next
    case (c_finalize k i q now ok)
    show ?thesis
    proof (cases q k i now ok "srv c" rule: finalize_cases)
      case (refused r)
      with c_finalize show ?thesis by (intro sh) (simp add: shrinks_def)
    next
      case (published e b)
      have "published (save ok x) = published x" for x
        by (rule ext) (simp add: published_def save_def split: option.split)
      with commit_publishes [OF s(1,3) c_finalize(3) published(1,2,4), of now] published c_finalize
      show ?thesis by (intro disjI2 exI [of _ k] exI [of _ i] exI [of _ e] exI [of _ b]) simp
    qed
  next
    case (c_hit repo refs key rks version e i now ok)
    then show ?thesis using touch_shrinks [OF match_lookup [OF s(4)]] by (intro sh) simp
  next
    case (c_miss i)
    then show ?thesis by (intro sh) (simp add: shrinks_def)
  next
    case (c_gc now ok)
    then show ?thesis using thinned_shrinks [OF thinned_gc [OF s(4)]] by (intro sh) simp
  next
    case (c_open e i gone)
    then show ?thesis by (intro sh) (simp add: shrinks_def)
  next
    case (c_transfer k up)
    then show ?thesis using transfer_shrinks [OF s(3)] by (intro sh) simp
  qed
qed

definition demo_reserved :: Server where
  "demo_reserved = emptyServer\<lparr>entries := [(1, (demo_entry 1 ''go-a'' 5)\<lparr>eSize := -1, eComplete := False\<rparr>)],
     nextID := 2, blobs := [(1, ''AA'')]\<rparr>"

definition demo_who :: Identity where
  "demo_who = noIdentity\<lparr>Generation := ''g'', Repository := ''o/r'', WriteRef := ''refs/heads/dev'',
     ReadRefs := [''refs/heads/dev''], RunID := 7, JobID := ''b''\<rparr>"

lemma demo_reserved_init: "cache_init \<lparr>srv = demo_reserved, held = []\<rparr>"
  by (auto simp: cache_init_def store_ok_def entries_ok_def slots_unique_def scoped_def blobs_ok_def demo_reserved_def
      emptyServer_def demo_entry_def wf_map_def keys_def slot_of_def split: if_splits)

definition demo_finalize :: finalizeReq where
  "demo_finalize = \<lparr>fKey = ''go-a'', fSizeBytes = ''2'', fVersion = ''v''\<rparr>"

lemma server_refines_store_witness:
  "published demo_reserved (''o/r'', ''refs/heads/dev'', ''go-a'', ''v'') = None \<and>
   published (snd (finalize_commit demo_finalize 1 demo_who 0 True demo_reserved))
     (''o/r'', ''refs/heads/dev'', ''go-a'', ''v'') = Some ''AA'' \<and>
   (store_step None (published demo_reserved) (published (snd (finalize_commit demo_finalize 1 demo_who 0 True demo_reserved))) \<or>
    (\<exists>k i e b. FinalizeEv 1 demo_who = FinalizeEv k i \<and> mlookup (entries demo_reserved) k = Some e \<and> owns i e \<and>
       mlookup (blobs demo_reserved) k = Some b \<and>
       store_step (Some (slot_of e, b)) (published demo_reserved)
         (published (snd (finalize_commit demo_finalize 1 demo_who 0 True demo_reserved)))))"
proof -
  let ?c = "\<lparr>srv = demo_reserved, held = []\<rparr>"
  have st: "cache_step (FinalizeEv 1 demo_who) ?c (?c\<lparr>srv := snd (finalize_commit demo_finalize 1 demo_who 0 True (srv ?c))\<rparr>)"
    by (rule c_finalize) simp
  have "published demo_reserved (''o/r'', ''refs/heads/dev'', ''go-a'', ''v'') = None"
    "published (snd (finalize_commit demo_finalize 1 demo_who 0 True demo_reserved))
     (''o/r'', ''refs/heads/dev'', ''go-a'', ''v'') = Some ''AA''" by code_simp+
  moreover have "reach cache_init cache_step ?c" by (rule reach_init) (rule demo_reserved_init)
  ultimately show ?thesis using server_refines_store [OF _ st] by simp
qed

section \<open>Isolation\<close>

lemma authEntry_Inr:
  assumes "authEntry put ident sig who s = (Inr e, s')"
  obtains k i where "parse_uint64 ident = Some k" "mlookup (entries s) k = Some e" "sig = eSig e" "who s = (i, s')"
    "if put then owns i e else eComplete e \<and> eRepoID e = Repository i \<and> CanRead i (eRef e)"
  using assms by (auto simp: authEntry_def split: option.splits if_splits prod.splits)

text \<open>
  Bytes leave the server only to a connection whose own generation holds a valid record at one of
  the polls, and they are the blob of a complete entry of that record's repository under one of its read
  refs, asked for with the entry's token.
\<close>

theorem download_isolation:
  assumes "fst (handleDownload ident sig (server_identity look v start poll polls) s) = Content b"
  shows "\<exists>l host j k e. look = Some l \<and> vhost v = Some host \<and> granted_by l (vbound v) host (poll # polls) j \<and>
    parse_uint64 ident = Some k \<and> mlookup (entries s) k = Some e \<and> sig = eSig e \<and> eComplete e \<and>
    eRepoID e = to_lower (Repository j) \<and> eRef e \<in> set (ReadRefs j) \<and> mlookup (blobs s) (eID e) = Some b"
proof -
  obtain e s' where a: "authEntry False ident sig (server_identity look v start poll polls) s = (Inr e, s')"
    and b: "mlookup (blobs s') (eID e) = Some b"
    using assms by (auto simp: handleDownload_def split: prod.splits sum.splits option.splits)
  from a obtain k i where k: "parse_uint64 ident = Some k" "mlookup (entries s) k = Some e" "sig = eSig e"
    and i: "server_identity look v start poll polls s = (i, s')" "eComplete e" "eRepoID e = Repository i" "CanRead i (eRef e)"
    by (rule authEntry_Inr) auto
  have "ReadRefs i \<noteq> []" using i(4) by (auto simp: CanRead_iff)
  with i(1) obtain l host j where "look = Some l" "vhost v = Some host" "granted_by l (vbound v) host (poll # polls) j"
    "i = j\<lparr>Repository := to_lower (Repository j)\<rparr>"
    by (metis server_identity_granted)
  moreover have "mlookup (blobs s) (eID e) = Some b"
    using b identity_fields(2) [of look v start poll polls s] i(1) by simp
  ultimately show ?thesis
    using k i
    by (intro exI [of _ l] exI [of _ host] exI [of _ j] exI [of _ k] exI [of _ e]) (simp add: CanRead_iff)
qed

definition demo_reader :: Identity where
  "demo_reader = noIdentity\<lparr>IP := ''10.0.0.2'', Runner := ''w'', Generation := ''h'', Repository := ''O/R'', RunID := 8,
     JobID := ''c'', ReadRefs := [''refs/heads/dev''], ExpiresAt := 90\<rparr>"

lemma parse_demo_id: "parse_uint64 ''1'' = Some 1"
  by (simp add: parse_uint64_def parse_nat_def is_digit_def digit_val_def)

lemma demo_read_identity:
  "server_identity (Some (\<lambda>t h. (demo_reader, None))) \<lparr>vhost = Some ''10.0.0.2'', vbound = Some ''h''\<rparr> 0 (0, 0) [] demo_store =
    (demo_reader\<lparr>Repository := ''o/r''\<rparr>, demo_store)"
  by code_simp

lemma demo_download:
  "fst (handleDownload ''1'' ''s'' (server_identity (Some (\<lambda>t h. (demo_reader, None)))
      \<lparr>vhost = Some ''10.0.0.2'', vbound = Some ''h''\<rparr> 0 (0, 0) []) demo_store) = Content ''AA''"
proof -
  let ?who = "server_identity (Some (\<lambda>t h. (demo_reader, None))) \<lparr>vhost = Some ''10.0.0.2'', vbound = Some ''h''\<rparr> 0 (0, 0) []"
  have l: "mlookup (entries demo_store) 1 = Some (demo_entry 1 ''go-a'' 5)" "mlookup (blobs demo_store) 1 = Some ''AA''"
    by code_simp+
  have "authEntry False ''1'' ''s'' ?who demo_store = (Inr (demo_entry 1 ''go-a'' 5), demo_store)"
    unfolding authEntry_def parse_demo_id option.case l demo_read_identity prod.case
    by (simp add: demo_entry_def demo_reader_def CanRead_def)
  moreover have "eID (demo_entry 1 ''go-a'' 5) = 1" by (simp add: demo_entry_def)
  ultimately show ?thesis using l(2) by (simp add: handleDownload_def)
qed

lemma download_isolation_witness:
  "\<exists>e. mlookup (entries demo_store) 1 = Some e \<and> eRepoID e = to_lower (Repository demo_reader) \<and>
     eRef e \<in> set (ReadRefs demo_reader)"
  using download_isolation [OF demo_download] by (auto simp: granted_by_def parse_demo_id)

text \<open>
  C16. An upload is accepted only from the job that made the reservation: at the authorisation and again
  when the entry's lock is obtained, a valid record of the connection's generation owns the entry; and
  whatever the upload does, it changes no blob, no staged count and no entry but its own.
\<close>

theorem upload_ownership:
  assumes "handleUpload ident sig up (server_identity look v t1 p1 ps1) before (server_identity look v t2 p2 ps2) gone during s =
      (HttpStatus 201, s')"
  shows "\<exists>k e j1 j2 l host. parse_uint64 ident = Some k \<and> mlookup (entries s) k = Some e \<and> sig = eSig e \<and>
    look = Some l \<and> vhost v = Some host \<and>
    granted_by l (vbound v) host (p1 # ps1) j1 \<and> owns (j1\<lparr>Repository := to_lower (Repository j1)\<rparr>) e \<and>
    granted_by l (vbound v) host (p2 # ps2) j2 \<and> owns (j2\<lparr>Repository := to_lower (Repository j2)\<rparr>) e \<and>
    (let s2 = during (snd (server_identity look v t2 p2 ps2 (before (snd (server_identity look v t1 p1 ps1 s))))) in
     entries s' = entries s2 \<and>
     \<not> (\<exists>m. m \<noteq> eID e \<and> (mlookup (blobs s') m \<noteq> mlookup (blobs s2) m \<or> mlookup (staged s') m \<noteq> mlookup (staged s2) m)))"
proof -
  obtain e s1 where a: "authEntry True ident sig (server_identity look v t1 p1 ps1) s = (Inr e, s1)"
    using assms by (auto simp: handleUpload_def split: prod.splits sum.splits)
     (auto simp: authEntry_def split: option.splits prod.splits if_splits)
  from a obtain k i where k: "parse_uint64 ident = Some k" "mlookup (entries s) k = Some e" "sig = eSig e"
    and i: "server_identity look v t1 p1 ps1 s = (i, s1)" "owns i e"
    by (rule authEntry_Inr) auto
  obtain i2 s2 where i2: "server_identity look v t2 p2 ps2 (before s1) = (i2, s2)" by (metis surj_pair)
  have o2: "owns i2 e" and s': "s' = snd (run_upload up (eID e) (during s2))"
    using assms by (auto simp: handleUpload_def a i2 upload_open_def split: option.splits if_splits)
  have w: "WriteRef i \<noteq> []" "WriteRef i2 \<noteq> []" using i(2) o2 by (auto simp: owns_def)
  from i(1) w(1) obtain l host j1 where j1: "look = Some l" "vhost v = Some host"
    "granted_by l (vbound v) host (p1 # ps1) j1" "i = j1\<lparr>Repository := to_lower (Repository j1)\<rparr>"
    by (metis server_identity_granted)
  from i2 w(2) j1(1,2) obtain j2 where j2: "granted_by l (vbound v) host (p2 # ps2) j2"
    "i2 = j2\<lparr>Repository := to_lower (Repository j2)\<rparr>"
    by (metis server_identity_granted option.inject)
  have fr: "let s2' = during (snd (server_identity look v t2 p2 ps2 (before (snd (server_identity look v t1 p1 ps1 s))))) in
     entries s' = entries s2' \<and>
     \<not> (\<exists>m. m \<noteq> eID e \<and> (mlookup (blobs s') m \<noteq> mlookup (blobs s2') m \<or> mlookup (staged s') m \<noteq> mlookup (staged s2') m))"
    using run_upload_frame [of up "eID e" "during s2"] unfolding s' Let_def by (auto simp: i(1) i2)
  from k i(2) o2 j1 j2 fr show ?thesis by blast
qed

definition demo_owner :: Identity where
  "demo_owner = noIdentity\<lparr>IP := ''10.0.0.2'', Runner := ''w'', Generation := ''g'', Repository := ''O/r'', RunID := 7,
     JobID := ''b'', WriteRef := ''refs/heads/dev'', ReadRefs := [''refs/heads/dev''], ExpiresAt := 90\<rparr>"

lemma demo_upload:
  "handleUpload ''1'' ''s'' (Single ''ZZ'' True)
     (server_identity (Some (\<lambda>t h. (demo_owner, None))) \<lparr>vhost = Some ''10.0.0.2'', vbound = Some ''g''\<rparr> 0 (0, 0) []) id
     (server_identity (Some (\<lambda>t h. (demo_owner, None))) \<lparr>vhost = Some ''10.0.0.2'', vbound = Some ''g''\<rparr> 0 (0, 0) []) False id
     demo_reserved =
   (HttpStatus 201, demo_reserved\<lparr>blobs := [(1, ''ZZ'')], staged := [(1, 2)]\<rparr>)"
proof -
  let ?who = "server_identity (Some (\<lambda>t h. (demo_owner, None))) \<lparr>vhost = Some ''10.0.0.2'', vbound = Some ''g''\<rparr> 0 (0, 0) []"
  let ?e = "(demo_entry 1 ''go-a'' 5)\<lparr>eSize := -1, eComplete := False\<rparr>"
  have l: "mlookup (entries demo_reserved) 1 = Some ?e" by code_simp
  have w: "?who demo_reserved = (demo_owner\<lparr>Repository := ''o/r''\<rparr>, demo_reserved)" by code_simp
  have o: "owns (demo_owner\<lparr>Repository := ''o/r''\<rparr>) ?e" "eID ?e = 1" "eSig ?e = ''s''" "\<not> eComplete ?e" by code_simp+
  have a: "authEntry True ''1'' ''s'' ?who demo_reserved = (Inr ?e, demo_reserved)"
    unfolding authEntry_def parse_demo_id option.case l w prod.case using o by simp
  have u: "upload_open ?e (demo_owner\<lparr>Repository := ''o/r''\<rparr>) False demo_reserved = None"
    unfolding upload_open_def o(2) l option.case using o by simp
  have "run_upload (Single ''ZZ'' True) 1 demo_reserved =
      (HttpStatus 201, demo_reserved\<lparr>blobs := [(1, ''ZZ'')], staged := [(1, 2)]\<rparr>)" by code_simp
  then show ?thesis
    unfolding handleUpload_def a prod.case sum.case id_apply w u option.case o(2) .
qed

lemma upload_ownership_witness:
  "\<exists>e. mlookup (entries demo_reserved) 1 = Some e \<and> owns (demo_owner\<lparr>Repository := to_lower (Repository demo_owner)\<rparr>) e"
  using upload_ownership [OF demo_upload] by (auto simp: granted_by_def parse_demo_id)

section \<open>Restarts\<close>

lemma load_entries_lookup:
  "mlookup (entries (load_entries es s)) k =
   (case map_of (map (\<lambda>e. (eID e, e)) (rev es)) k of None \<Rightarrow> mlookup (entries s) k | Some e \<Rightarrow> Some e)"
  by (induction es arbitrary: s) (auto simp: map_add_def split: option.splits)

lemma load_entries_nextID:
  "nextID s \<le> n \<Longrightarrow> (\<And>e. e \<in> set es \<Longrightarrow> eID e < n) \<Longrightarrow>
   nextID (load_entries es s) \<le> n \<and> nextID s \<le> nextID (load_entries es s) \<and>
   (\<forall>e \<in> set es. eID e < nextID (load_entries es s))"
proof (induction es arbitrary: s)
  case (Cons e es)
  let ?s = "s\<lparr>entries := mput (eID e) e (entries s), nextID := (if eID e \<ge> nextID s then eID e + 1 else nextID s)\<rparr>"
  have "nextID ?s \<le> n" using Cons.prems(1) Cons.prems(2) [of e] by auto
  from Cons.IH [OF this] Cons.prems(2)
  have "nextID (load_entries es ?s) \<le> n \<and> nextID ?s \<le> nextID (load_entries es ?s) \<and>
     (\<forall>x \<in> set es. eID x < nextID (load_entries es ?s))" by simp
  then show ?case by (auto split: if_splits)
qed simp

lemma load_entries_wf: "wf_map (entries s) \<Longrightarrow> wf_map (entries (load_entries es s))"
  by (induction es arbitrary: s) auto

text \<open>
  C19. What the server saves it loads again: after a restart the same entries are stored under the same
  ids, and new ids lie above all of them.
\<close>

theorem index_roundtrip:
  assumes "entries_ok s"
  shows "case load True True (emptyServer\<lparr>index_file := index_file (save True s)\<rparr>) of
      None \<Rightarrow> False
    | Some t \<Rightarrow> map_of (entries t) = map_of (entries s) \<and> entries_ok t \<and> nextID t \<le> max 1 (nextID s)"
proof -
  let ?es = "sorted_entries (entries s)" and ?s0 = "emptyServer\<lparr>index_file := Some (sorted_entries (entries s))\<rparr>"
  let ?t = "load_entries ?es ?s0"
  have set_es: "set ?es = snd ` set (entries s)" by (simp add: sorted_entries_def)
  have dist: "distinct (map fst (map (\<lambda>e. (eID e, e)) (rev ?es)))"
  proof -
    have "map eID (map snd (entries s)) = map fst (entries s)"
      using assms by (force simp: entries_ok_def mlookup_in_set)
    moreover have "distinct (map fst (entries s))"
      using assms by (simp add: entries_ok_def wf_map_def keys_def)
    ultimately have "distinct (map eID (map snd (entries s)))" by (simp only:)
    then have "distinct (map eID ?es)"
      by (metis sorted_entries_def distinct_map distinct_sort set_sort)
    then show ?thesis by (simp add: o_def rev_map [symmetric])
  qed
  have look: "mlookup (entries ?t) k = mlookup (entries s) k" for k
  proof -
    have "map_of (map (\<lambda>e. (eID e, e)) (rev ?es)) k = Some v \<longleftrightarrow> mlookup (entries s) k = Some v" for v
    proof -
      have "map_of (map (\<lambda>e. (eID e, e)) (rev ?es)) k = Some v \<longleftrightarrow> v \<in> stored s \<and> eID v = k"
        using dist by (auto simp: set_es stored_def)
      also have "\<dots> \<longleftrightarrow> mlookup (entries s) k = Some v"
        using stored_lookup [OF assms, of v] entries_okD [OF assms, of k v] by metis
      finally show ?thesis .
    qed
    then have "map_of (map (\<lambda>e. (eID e, e)) (rev ?es)) k = mlookup (entries s) k" by (metis not_None_eq)
    moreover have "mlookup (entries ?s0) k = None" by (simp add: emptyServer_def)
    ultimately show ?thesis
      unfolding load_entries_lookup by (cases "mlookup (entries s) k") simp_all
  qed
  have lt: "eID e < max 1 (nextID s)" if "e \<in> set ?es" for e
  proof -
    have "mlookup (entries s) (eID e) = Some e"
      using that stored_lookup [OF assms, of e] by (simp add: set_es stored_def)
    from entries_okD [OF assms this] show ?thesis by (simp add: less_max_iff_disj)
  qed
  have n0: "nextID ?s0 \<le> max 1 (nextID s)" by (simp add: emptyServer_def)
  note n = load_entries_nextID [OF n0 lt]
  have "entries_ok ?t"
    unfolding entries_ok_def
  proof (intro conjI allI impI)
    show "wf_map (entries ?t)" by (rule load_entries_wf) (simp add: emptyServer_def)
    fix k e assume "mlookup (entries ?t) k = Some e"
    then have s: "mlookup (entries s) k = Some e" by (simp add: look)
    then show "eID e = k" using entries_okD [OF assms] by simp
    then have "e \<in> set ?es" using s stored_lookup [OF assms, of e] by (simp add: set_es stored_def)
    with n \<open>eID e = k\<close> show "k < nextID ?t" by blast
  qed
  then show ?thesis using look n by (simp add: load_def save_def fun_eq_iff)
qed

lemma index_roundtrip_witness:
  "case load True True (emptyServer\<lparr>index_file := index_file (save True demo_store)\<rparr>) of
      None \<Rightarrow> False
    | Some t \<Rightarrow> map_of (entries t) = map_of (entries demo_store) \<and> entries_ok t \<and> nextID t \<le> max 1 (nextID demo_store)"
  by (rule index_roundtrip [OF demo_entries_ok])

section \<open>An upload that outlives its reservation\<close>

text \<open>
  A job of \<open>a/a\<close> reserves an entry and opens its upload; after half an hour the janitor collects the
  reservation; the transfer then ends.
\<close>

definition job_a :: Identity where
  "job_a = noIdentity\<lparr>Generation := ''ga'', Repository := ''a/a'', WriteRef := ''refs/heads/m'',
     ReadRefs := [''refs/heads/m''], RunID := 1, JobID := ''ja''\<rparr>"

definition job_b :: Identity where
  "job_b = noIdentity\<lparr>Generation := ''gb'', Repository := ''b/b'', WriteRef := ''refs/heads/m'',
     ReadRefs := [''refs/heads/m''], RunID := 2, JobID := ''jb''\<rparr>"

definition late1 :: Server where "late1 = snd (reserve job_a ''k'' ''v'' ''ta'' 0 True emptyServer)"
definition late2 :: Server where "late2 = gc (31 * minute) True late1"
definition late3 :: Server where "late3 = snd (run_upload (Single ''secret'' True) 1 late2)"

text \<open>A restart, a reservation by a job of \<open>b/b\<close>, and its finalize without any upload.\<close>

definition late4 :: Server where
  "late4 = load_entries (the (index_file late3)) (emptyServer\<lparr>index_file := index_file late3, blobs := blobs late3\<rparr>)"
definition late5 :: Server where "late5 = snd (reserve job_b ''k'' ''v'' ''tb'' (32 * minute) True late4)"
definition late6 :: Server where
  "late6 = snd (finalize_commit \<lparr>fKey = ''k'', fSizeBytes = [], fVersion = ''v''\<rparr> 1 job_b (32 * minute) True late5)"

text \<open>
  The transfer of a collected reservation leaves a blob and staged bytes with no entry: the bytes
  count against the cap until a restart, and since a restart numbers entries from the index alone, the
  next reservation, of any repository, takes over the blob and publishes it without an upload.
\<close>

theorem orphan_upload_adopted:
  "entries late3 = [] \<and> staged_bytes late3 = 6 \<and>
   load True True (emptyServer\<lparr>index_file := index_file late3, blobs := blobs late3\<rparr>) = Some late4 \<and>
   published late6 (''b/b'', ''refs/heads/m'', ''k'', ''v'') = Some ''secret''"
proof -
  have "entries late3 = []" "staged_bytes late3 = 6" "index_file late3 = Some []" by code_simp+
  moreover have "published late6 (''b/b'', ''refs/heads/m'', ''k'', ''v'') = Some ''secret''" by code_simp
  ultimately show ?thesis by (simp add: load_def late4_def)
qed

end
