(* ===== verification/Jit_Server.thy ===== *)
theory Jit_Server
  imports JobIdentity
begin

text \<open>
  The server that hands an EC2 instance its runner configuration (\<open>internal/jitserver/jitserver.go\<close>): one
  entry per private address, served once, kept as a tombstone until revoked.  Each operation holds the
  server's mutex.  A \<open>netip.Addr\<close> is the text of the unmapped address; \<open>None\<close> is the invalid address.
\<close>

section \<open>State and operations\<close>

definition DefaultTTL :: duration where "DefaultTTL = 5 * minute"

record jit_entry =
  je_runner :: string
  je_jit :: string
  je_expires :: time
  je_claimed :: bool
  je_served :: bool

record JitServer =
  jentries :: "(string, jit_entry) gomap"
  jttl :: duration

definition jit_New :: "duration \<Rightarrow> JitServer" where
  "jit_New ttl = \<lparr>jentries = [], jttl = (if ttl \<le> 0 then DefaultTTL else ttl)\<rparr>"

datatype jit_error = ErrInvalid | ErrRegistered string

definition jit_Register ::
  "string option \<Rightarrow> string \<Rightarrow> string \<Rightarrow> time \<Rightarrow> JitServer \<Rightarrow> JitServer \<times> jit_error option" where
  "jit_Register ip runner jit now s =
     (case ip of
        None \<Rightarrow> (s, Some ErrInvalid)
      | Some a \<Rightarrow>
          if a = ''0.0.0.0'' \<or> a = ''::'' \<or> runner = [] \<or> jit = [] then (s, Some ErrInvalid)
          else
            (case mlookup (jentries s) a of
               Some e \<Rightarrow> (s, Some (ErrRegistered (je_runner e)))
             | None \<Rightarrow>
                 (s\<lparr>jentries := mput a \<lparr>je_runner = runner, je_jit = jit, je_expires = now + jttl s,
                                        je_claimed = False, je_served = False\<rparr> (jentries s)\<rparr>, None)))"

definition jit_Revoke :: "string \<Rightarrow> JitServer \<Rightarrow> JitServer" where
  "jit_Revoke a s = s\<lparr>jentries := mdel a (jentries s)\<rparr>"

definition jit_Pending :: "string \<Rightarrow> time \<Rightarrow> JitServer \<Rightarrow> bool" where
  "jit_Pending a now s =
     (case mlookup (jentries s) a of None \<Rightarrow> False | Some e \<Rightarrow> \<not> je_claimed e \<and> now < je_expires e)"

definition jit_Served :: "string \<Rightarrow> JitServer \<Rightarrow> bool" where
  "jit_Served a s = (case mlookup (jentries s) a of None \<Rightarrow> False | Some e \<Rightarrow> je_served e)"

definition jit_claim :: "string \<Rightarrow> time \<Rightarrow> JitServer \<Rightarrow> (string \<times> int) \<times> JitServer" where
  "jit_claim a now s =
     (case mlookup (jentries s) a of
        None \<Rightarrow> (([], 403), s)
      | Some e \<Rightarrow>
          if je_claimed e \<or> \<not> now < je_expires e
          then (([], 404), s\<lparr>jentries := mput a (e\<lparr>je_claimed := True, je_jit := []\<rparr>) (jentries s)\<rparr>)
          else ((je_jit e, 200),
                s\<lparr>jentries := mput a (e\<lparr>je_claimed := True, je_served := True, je_jit := []\<rparr>) (jentries s)\<rparr>))"

definition jit_Path :: string where "jit_Path = ''/jit''"

text \<open>\<open>remote\<close> is what \<open>remoteIP\<close> gives.  The reply is the body of a 200, and the status.\<close>

definition jit_ServeHTTP ::
  "string \<Rightarrow> string \<Rightarrow> string option \<Rightarrow> time \<Rightarrow> JitServer \<Rightarrow> (string \<times> int) \<times> JitServer" where
  "jit_ServeHTTP path meth remote now s =
     (if path \<noteq> jit_Path then (([], 404), s)
      else if meth \<noteq> ''GET'' then (([], 405), s)
      else (case remote of None \<Rightarrow> (([], 403), s) | Some a \<Rightarrow> jit_claim a now s))"

definition UserDataKey :: string where "UserDataKey = ''FIRERUNNER_JIT_URL''"

definition jit_UserData :: "string \<Rightarrow> string" where
  "jit_UserData endpoint = UserDataKey @ ''='' @ trim_space endpoint @ nl"

section \<open>Runs\<close>

datatype jit_op =
    JRegister "string option" string string time
  | JRevoke string
  | JGet string string "string option" time

text \<open>The bodies of the 200 replies of a run, with the address each went to.\<close>

fun jit_run :: "jit_op list \<Rightarrow> JitServer \<Rightarrow> (string \<times> string) list" where
  "jit_run [] s = []"
| "jit_run (JRegister ip runner jit now # rest) s = jit_run rest (fst (jit_Register ip runner jit now s))"
| "jit_run (JRevoke a # rest) s = jit_run rest (jit_Revoke a s)"
| "jit_run (JGet path meth remote now # rest) s =
     (case jit_ServeHTTP path meth remote now s of
        ((body, code), s') \<Rightarrow> (if code = 200 then [(the remote, body)] else []) @ jit_run rest s')"

definition served_to :: "string \<Rightarrow> jit_op list \<Rightarrow> JitServer \<Rightarrow> string list" where
  "served_to a ops s = map snd (filter (\<lambda>r. fst r = a) (jit_run ops s))"

lemma served_to_Cons:
  "served_to a [] s = []"
  "served_to a (JRegister ip runner jit now # rest) s = served_to a rest (fst (jit_Register ip runner jit now s))"
  "served_to a (JRevoke b # rest) s = served_to a rest (jit_Revoke b s)"
  "served_to a (JGet path meth remote now # rest) s =
     (case jit_ServeHTTP path meth remote now s of
        ((body, code), s') \<Rightarrow> (if code = 200 \<and> the remote = a then [body] else []) @ served_to a rest s')"
  by (simp_all add: served_to_def split: prod.splits)

lemma jit_register_keeps:
  "mlookup (jentries s) a = Some e \<Longrightarrow> mlookup (jentries (fst (jit_Register ip runner jit now s))) a = Some e"
  by (auto simp: jit_Register_def split: option.splits)

text \<open>A claimed entry serves nothing until it is revoked.\<close>

lemma tombstone_silent:
  "mlookup (jentries s) a = Some e \<Longrightarrow> je_claimed e \<Longrightarrow> JRevoke a \<notin> set ops \<Longrightarrow> served_to a ops s = []"
proof (induction ops arbitrary: s e)
  case (Cons p ops)
  show ?case
  proof (cases p)
    case (JRegister ip runner jit now)
    with Cons.IH [OF jit_register_keeps [OF Cons.prems(1)] Cons.prems(2)] Cons.prems(3) show ?thesis
      by (simp add: served_to_Cons)
  next
    case (JRevoke b)
    with Cons.prems have "mlookup (jentries (jit_Revoke b s)) a = Some e" by (simp add: jit_Revoke_def)
    with Cons.IH Cons.prems JRevoke show ?thesis by (simp add: served_to_Cons)
  next
    case (JGet path meth remote now)
    have "\<exists>e'. mlookup (jentries (snd (jit_ServeHTTP path meth remote now s))) a = Some e' \<and> je_claimed e'"
      "snd (fst (jit_ServeHTTP path meth remote now s)) = 200 \<Longrightarrow> remote \<noteq> Some a"
      "snd (fst (jit_ServeHTTP path meth remote now s)) = 200 \<Longrightarrow> remote \<noteq> None"
      using Cons.prems(1,2) by (auto simp: jit_ServeHTTP_def jit_claim_def split: option.splits if_splits)
    with Cons.IH Cons.prems(3) JGet show ?thesis by (auto simp: served_to_Cons split: prod.splits)
  qed
qed (simp add: served_to_Cons)

text \<open>
  C21. A registered configuration is served at most once: whatever requests, registrations and revocations
  of other addresses follow, its address receives nothing or exactly this configuration, one time, until
  the address is revoked.
\<close>

theorem jit_served_once:
  assumes "mlookup (jentries s) a = Some e" "\<not> je_claimed e" "JRevoke a \<notin> set ops"
  shows "served_to a ops s = [] \<or> served_to a ops s = [je_jit e]"
  using assms
proof (induction ops arbitrary: s)
  case (Cons p ops)
  show ?case
  proof (cases p)
    case (JRegister ip runner jit now)
    with Cons.IH [OF jit_register_keeps [OF Cons.prems(1)]] Cons.prems show ?thesis
      by (simp add: served_to_Cons)
  next
    case (JRevoke b)
    with Cons.prems have "mlookup (jentries (jit_Revoke b s)) a = Some e" by (simp add: jit_Revoke_def)
    with Cons.IH Cons.prems JRevoke show ?thesis by (simp add: served_to_Cons)
  next
    case (JGet path meth remote now)
    let ?r = "jit_ServeHTTP path meth remote now s"
    have no: "JRevoke a \<notin> set ops" using Cons.prems(3) by simp
    show ?thesis
    proof (cases "path = jit_Path \<and> meth = ''GET'' \<and> remote = Some a")
      case False
      have kept: "mlookup (jentries (snd ?r)) a = Some e"
        and other: "snd (fst ?r) = 200 \<Longrightarrow> the remote \<noteq> a"
        using False Cons.prems(1) by (auto simp: jit_ServeHTTP_def jit_claim_def split: option.splits if_splits)
      from other have "served_to a (p # ops) s = served_to a ops (snd ?r)"
        by (simp add: JGet served_to_Cons split: prod.splits)
      with Cons.IH [OF kept Cons.prems(2) no] show ?thesis by simp
    next
      case True
      then have r: "?r = jit_claim a now s" by (simp add: jit_ServeHTTP_def)
      have t: "served_to a ops (snd ?r) = []"
        by (rule tombstone_silent [where e = "e\<lparr>je_claimed := True, je_served := je_served e \<or> now < je_expires e, je_jit := []\<rparr>"])
          (use Cons.prems no in \<open>simp_all add: r jit_claim_def\<close>)
      have "fst ?r = (je_jit e, 200) \<or> fst ?r = ([], 404)"
        using Cons.prems(1,2) by (simp add: r jit_claim_def)
      with t JGet True show ?thesis by (auto simp: served_to_Cons split: prod.splits)
    qed
  qed
qed (simp add: served_to_Cons)

definition jit_demo :: JitServer where
  "jit_demo = fst (jit_Register (Some ''10.0.0.5'') ''w'' ''cfg'' 0 (jit_New 0))"

lemma jit_served_once_witness:
  "served_to ''10.0.0.5'' [JGet jit_Path ''GET'' (Some ''10.0.0.5'') 1, JGet jit_Path ''GET'' (Some ''10.0.0.5'') 2] jit_demo
    = [''cfg''] \<and> \<not> jit_Pending ''10.0.0.5'' 400000000000 jit_demo"
proof -
  let ?ops = "[JGet jit_Path ''GET'' (Some ''10.0.0.5'') 1, JGet jit_Path ''GET'' (Some ''10.0.0.5'') 2]"
  let ?e = "\<lparr>je_runner = ''w'', je_jit = ''cfg'', je_expires = DefaultTTL, je_claimed = False, je_served = False\<rparr>"
  have e: "mlookup (jentries jit_demo) ''10.0.0.5'' = Some ?e" by code_simp
  have "served_to ''10.0.0.5'' ?ops jit_demo = [] \<or> served_to ''10.0.0.5'' ?ops jit_demo = [''cfg'']"
    using jit_served_once [OF e, of ?ops] by simp
  moreover have "served_to ''10.0.0.5'' ?ops jit_demo \<noteq> []" "\<not> jit_Pending ''10.0.0.5'' 400000000000 jit_demo" by code_simp+
  ultimately show ?thesis by blast
qed

end
