(* ===== verification/EC2_Api.thy ===== *)
theory EC2_Api
  imports Jit_Server
begin

text \<open>
  The EC2 client (\<open>internal/ec2/api.go\<close>, \<open>ami.go\<close>, \<open>watch.go\<close> and the launch request of
  \<open>provisioner.go\<close>): the AWS calls as data, the shared client state, image resolution, the shape of a
  launch request and the walk over markets, instance types and subnets.

  AWS is outside the repository: an environment \<open>'w env\<close> answers each call from an abstract world \<open>'w\<close>,
  which also gives the clock and whether the caller's context has ended; \<open>passes\<close> is what the world becomes
  while nothing is called.  Every call and its reply is
  appended to \<open>trace\<close>, which nothing reads; the properties are about it.
\<close>

section \<open>Calls and replies\<close>

definition TagTier :: string where "TagTier = ''firerunner:tier''"
definition TagRunner :: string where "TagRunner = ''firerunner:runner''"
definition TagOwner :: string where "TagOwner = ''firerunner:owner''"
definition TagPool :: string where "TagPool = ''firerunner:pool''"
definition PoolWarming :: string where "PoolWarming = ''warming''"
definition PoolReady :: string where "PoolReady = ''ready''"
definition PoolClaimed :: string where "PoolClaimed = ''claimed''"

type_synonym tags = "(string \<times> string) list"

text \<open>A nil string pointer reads as the empty string, a nil launch time as the zero time (\<open>None\<close>).\<close>

datatype instance_state = StPending | StRunning | StStopping | StStopped | StShuttingDown | StTerminated

record ec2_instance =
  i_id :: string
  i_state :: instance_state
  i_ip :: string
  i_spotReq :: string
  i_type :: string
  i_tags :: tags
  i_launched :: "time option"

record spot_request =
  sr_id :: string
  sr_instance :: string
  sr_created :: "time option"

text \<open>
  \<open>RunInstancesInput\<close>: the fields the code sets.  \<open>ri_UserData\<close> is the text before base64;
  \<open>ri_Spot\<close> the spot type and interruption behaviour; \<open>ri_Root\<close> device, volume type and size.
\<close>

record run_input =
  ri_ImageId :: string
  ri_InstanceType :: string
  ri_SubnetId :: string
  ri_SecurityGroups :: "string list"
  ri_UserData :: "string option"
  ri_HttpTokens :: string
  ri_HopLimit :: nat
  ri_TagSpecs :: "(string \<times> tags) list"
  ri_ClientToken :: string
  ri_Shutdown :: string
  ri_Spot :: "(string \<times> string) option"
  ri_Root :: "(string \<times> string \<times> int option) option"

text \<open>\<open>Deregister\<close> is the reaper's \<open>RemoveRunner\<close>, \<open>Sleep\<close> a pause.\<close>

datatype aws_call =
    RunInstances run_input
  | DescribeInstances "string list"
  | DescribePool string string
  | DescribeOwned string
  | DescribeSpot string
  | TerminateInstances string
  | StartInstances string
  | SetUserData string string
  | CreateTags string tags
  | CancelSpot string
  | GetParameter string
  | DescribeImages string
  | Deregister string string
  | Sleep duration

datatype aws_error = ApiError string | RunnerBusy | OtherError

datatype aws_reply =
    Refused aws_error
  | Done
  | Found "ec2_instance list"
  | FoundRequests "spot_request list"
  | FoundParameter "string option"
  | FoundImages "string list"

fun reply_error :: "aws_reply \<Rightarrow> aws_error option" where
  "reply_error (Refused e) = Some e"
| "reply_error r = None"

definition isCode :: "aws_error \<Rightarrow> string \<Rightarrow> bool" where
  "isCode e code \<longleftrightarrow> e = ApiError code"

definition errNotFound :: string where "errNotFound = ''InvalidInstanceID.NotFound''"

fun tagValue :: "tags \<Rightarrow> string \<Rightarrow> string" where
  "tagValue [] key = []"
| "tagValue ((k, v) # ts) key = (if k = key then v else tagValue ts key)"

section \<open>The client's state\<close>

record image =
  im_id :: string
  im_rootDevice :: string

record pooled =
  pd_id :: string
  pd_ip :: string
  pd_spotReq :: string
  pd_itype :: string

text \<open>\<open>pl_wake\<close>: the wake channel, of capacity one, holds a token.\<close>

record Pool =
  pl_target :: int
  pl_ready :: "pooled list"
  pl_warming :: "(string, time option) gomap"
  pl_wake :: bool
  pl_failures :: nat
  pl_retryAt :: "time option"

record 'w ec2 =
  aws_world :: 'w
  trace :: "(aws_call \<times> aws_reply) list"
  tracked_ids :: "string list"
  amis :: "(string, image \<times> time) gomap"
  pl :: Pool
  jits :: JitServer

record 'w env =
  api :: "aws_call \<Rightarrow> 'w \<Rightarrow> aws_reply \<times> 'w"
  ctxDone :: "'w \<Rightarrow> bool"
  wallclock :: "'w \<Rightarrow> time"
  passes :: "'w \<Rightarrow> 'w"
  hasSSM :: bool
  sha256hex :: "string \<Rightarrow> string"

definition aws :: "'w env \<Rightarrow> aws_call \<Rightarrow> 'w ec2 \<Rightarrow> aws_reply \<times> 'w ec2" where
  "aws E c s =
     (case api E c (aws_world s) of (r, w) \<Rightarrow> (r, s\<lparr>aws_world := w, trace := trace s @ [(c, r)]\<rparr>))"

definition aws_do :: "'w env \<Rightarrow> aws_call \<Rightarrow> 'w ec2 \<Rightarrow> aws_error option \<times> 'w ec2" where
  "aws_do E c s = (case aws E c s of (r, s) \<Rightarrow> (reply_error r, s))"

definition now :: "'w env \<Rightarrow> 'w ec2 \<Rightarrow> time" where
  "now E s = wallclock E (aws_world s)"

definition ec2_track :: "string \<Rightarrow> 'w ec2 \<Rightarrow> 'w ec2" where
  "ec2_track i s = s\<lparr>tracked_ids := List.insert i (tracked_ids s)\<rparr>"

definition ec2_untrack :: "string \<Rightarrow> 'w ec2 \<Rightarrow> 'w ec2" where
  "ec2_untrack i s = s\<lparr>tracked_ids := removeAll i (tracked_ids s)\<rparr>"

definition isLive :: "string \<Rightarrow> 'w ec2 \<Rightarrow> bool" where
  "isLive i s \<longleftrightarrow> i \<in> set (tracked_ids s)"

section \<open>Options\<close>

record EC2Tier =
  t_InstanceTypes :: "string list"
  t_AMI :: string
  t_Subnets :: "string list"
  t_SecurityGroups :: "string list"
  t_Market :: string
  t_RootVolumeGiB :: int
  t_RootVolumeType :: string
  t_Pool :: int

record Options =
  o_Tier :: string
  o_Owner :: string
  o_EC2 :: EC2Tier
  o_JITURL :: string
  o_MaxLifetime :: duration
  o_Pooled :: bool

definition VolumeType :: "EC2Tier \<Rightarrow> string" where
  "VolumeType t = (if t_RootVolumeType t = [] then ''gp3'' else t_RootVolumeType t)"

definition MarketSpot :: string where "MarketSpot = ''spot''"
definition MarketOnDemand :: string where "MarketOnDemand = ''on-demand''"

text \<open>What a launch or a claim can fail with.\<close>

datatype ec2_error =
    CtxEnded
  | AwsErr aws_error
  | AmiErr
  | WrongCount nat
  | ErrNoCapacity "aws_error option"
  | ErrPoolEmpty
  | ErrPoolStart
  | JitErr jit_error
  | IPErr
  | NeverFetched
  | LifetimeExceeded
  | NotTerminated

section \<open>Images\<close>

definition amiCacheTTL :: duration where "amiCacheTTL = 5 * minute"

definition ami_prefix :: string where "ami_prefix = ''ami-''"
definition ssm_prefix :: string where "ssm_prefix = ''resolve:ssm:''"

definition ami_id :: "'w env \<Rightarrow> string \<Rightarrow> 'w ec2 \<Rightarrow> (ec2_error + string) \<times> 'w ec2" where
  "ami_id E ref s =
     (if has_prefix ref ami_prefix then (Inr ref, s)
      else if \<not> hasSSM E then (Inl AmiErr, s)
      else (case aws E (GetParameter (trim_prefix ref ssm_prefix)) s of
              (FoundParameter (Some v), s) \<Rightarrow> (if has_prefix v ami_prefix then Inr v else Inl AmiErr, s)
            | (Refused e, s) \<Rightarrow> (Inl (AwsErr e), s)
            | (_, s) \<Rightarrow> (Inl AmiErr, s)))"

definition ami_lookup :: "'w env \<Rightarrow> string \<Rightarrow> 'w ec2 \<Rightarrow> (ec2_error + image) \<times> 'w ec2" where
  "ami_lookup E ref s =
     (case ami_id E ref s of
        (Inl e, s) \<Rightarrow> (Inl e, s)
      | (Inr i, s) \<Rightarrow>
          (case aws E (DescribeImages i) s of
             (Refused e, s) \<Rightarrow> (Inl (AwsErr e), s)
           | (FoundImages [root], s) \<Rightarrow>
               if root = [] then (Inl AmiErr, s)
               else (let img = \<lparr>im_id = i, im_rootDevice = root\<rparr>
                     in (Inr img, s\<lparr>amis := mput ref (img, now E s + amiCacheTTL) (amis s)\<rparr>))
           | (_, s) \<Rightarrow> (Inl AmiErr, s)))"

definition ami_resolve :: "'w env \<Rightarrow> string \<Rightarrow> 'w ec2 \<Rightarrow> (ec2_error + image) \<times> 'w ec2" where
  "ami_resolve E ref s =
     (case mlookup (amis s) ref of
        Some (img, expires) \<Rightarrow> if now E s < expires then (Inr img, s) else ami_lookup E ref s
      | None \<Rightarrow> ami_lookup E ref s)"

section \<open>The launch request\<close>

datatype launchKind = ForJob | ForPool

definition zero_byte :: string where "zero_byte = [CHR 0x00]"

definition clientToken :: "(string \<Rightarrow> string) \<Rightarrow> string list \<Rightarrow> string" where
  "clientToken sha parts = take 48 (sha (concat (map (\<lambda>p. p @ zero_byte) parts)))"

definition spot_options :: "launchKind \<Rightarrow> string \<times> string" where
  "spot_options kind = (case kind of ForJob \<Rightarrow> (''one-time'', ''terminate'') | ForPool \<Rightarrow> (''persistent'', ''stop''))"

definition shutdown_behavior :: "launchKind \<Rightarrow> bool \<Rightarrow> string" where
  "shutdown_behavior kind spot =
     (case kind of ForJob \<Rightarrow> ''terminate'' | ForPool \<Rightarrow> if spot then [] else ''stop'')"

definition launch_tags :: "Options \<Rightarrow> string \<Rightarrow> launchKind \<Rightarrow> tags" where
  "launch_tags Op name kind =
     [(TagTier, o_Tier Op), (TagOwner, o_Owner Op), (''Name'', name),
      (if kind = ForPool then (TagPool, PoolWarming) else (TagRunner, name))]"

definition input :: "(string \<Rightarrow> string) \<Rightarrow> Options \<Rightarrow> string \<Rightarrow> image \<Rightarrow> string \<Rightarrow> string \<Rightarrow> string \<Rightarrow> launchKind \<Rightarrow> run_input" where
  "input sha Op name img market itype subnet kind =
     (let tg = launch_tags Op name kind; spot = (market = MarketSpot); T = o_EC2 Op in
      \<lparr>ri_ImageId = im_id img, ri_InstanceType = itype, ri_SubnetId = subnet,
       ri_SecurityGroups = t_SecurityGroups T,
       ri_UserData = (case kind of ForPool \<Rightarrow> None | ForJob \<Rightarrow> Some (jit_UserData (o_JITURL Op))),
       ri_HttpTokens = ''required'', ri_HopLimit = 1,
       ri_TagSpecs = [(''instance'', tg), (''volume'', tg)] @ (if spot then [(''spot-instances-request'', tg)] else []),
       ri_ClientToken = clientToken sha [name, market, itype, subnet],
       ri_Shutdown = shutdown_behavior kind spot,
       ri_Spot = (if spot then Some (spot_options kind) else None),
       ri_Root = (if t_RootVolumeGiB T > 0 \<or> t_RootVolumeType T \<noteq> []
                  then Some (im_rootDevice img, VolumeType T,
                             if t_RootVolumeGiB T > 0 then Some (t_RootVolumeGiB T) else None)
                  else None)\<rparr>)"

section \<open>The walk over markets, instance types and subnets\<close>

definition capacityCodes :: "string list" where
  "capacityCodes = [''InsufficientInstanceCapacity'', ''InsufficientFreeAddressesInSubnet'', ''Unsupported'']"

definition isCapacityErr :: "aws_error \<Rightarrow> bool" where
  "isCapacityErr e \<longleftrightarrow> list_ex (isCode e) capacityCodes"

definition markets :: "string \<Rightarrow> string list" where
  "markets m =
     (if m = MarketSpot then [MarketSpot] else if m = MarketOnDemand then [MarketOnDemand]
      else [MarketSpot, MarketOnDemand])"

text \<open>
  The three nested loops, innermost first.  \<open>None\<close>: the loop ended without an answer, \<open>lst\<close> being the last
  capacity error.
\<close>

fun run_subnets ::
  "'w env \<Rightarrow> Options \<Rightarrow> string \<Rightarrow> image \<Rightarrow> launchKind \<Rightarrow> string \<Rightarrow> string \<Rightarrow> string list \<Rightarrow> aws_error option \<Rightarrow> 'w ec2
     \<Rightarrow> (ec2_error + ec2_instance) option \<times> aws_error option \<times> 'w ec2" where
  "run_subnets E Op name img kind market itype [] lst s = (None, lst, s)"
| "run_subnets E Op name img kind market itype (subnet # ns) lst s =
     (if ctxDone E (aws_world s) then (Some (Inl CtxEnded), lst, s)
      else (case aws E (RunInstances (input (sha256hex E) Op name img market itype subnet kind)) s of
              (Refused e, s) \<Rightarrow>
                if isCapacityErr e then run_subnets E Op name img kind market itype ns (Some e) s
                else (Some (Inl (AwsErr e)), lst, s)
            | (Found [i], s) \<Rightarrow> (Some (Inr i), lst, s)
            | (Found is, s) \<Rightarrow> (Some (Inl (WrongCount (length is))), lst, s)
            | (_, s) \<Rightarrow> (Some (Inl (WrongCount 0)), lst, s)))"

fun run_types ::
  "'w env \<Rightarrow> Options \<Rightarrow> string \<Rightarrow> image \<Rightarrow> launchKind \<Rightarrow> string \<Rightarrow> string list \<Rightarrow> aws_error option \<Rightarrow> 'w ec2
     \<Rightarrow> (ec2_error + ec2_instance) option \<times> aws_error option \<times> 'w ec2" where
  "run_types E Op name img kind market [] lst s = (None, lst, s)"
| "run_types E Op name img kind market (itype # ts) lst s =
     (case run_subnets E Op name img kind market itype (t_Subnets (o_EC2 Op)) lst s of
        (Some r, lst, s) \<Rightarrow> (Some r, lst, s)
      | (None, lst, s) \<Rightarrow> run_types E Op name img kind market ts lst s)"

fun run_markets ::
  "'w env \<Rightarrow> Options \<Rightarrow> string \<Rightarrow> image \<Rightarrow> launchKind \<Rightarrow> string list \<Rightarrow> aws_error option \<Rightarrow> 'w ec2
     \<Rightarrow> (ec2_error + ec2_instance) option \<times> aws_error option \<times> 'w ec2" where
  "run_markets E Op name img kind [] lst s = (None, lst, s)"
| "run_markets E Op name img kind (m # ms) lst s =
     (case run_types E Op name img kind m (t_InstanceTypes (o_EC2 Op)) lst s of
        (Some r, lst, s) \<Rightarrow> (Some r, lst, s)
      | (None, lst, s) \<Rightarrow> run_markets E Op name img kind ms lst s)"

definition ec2_run ::
  "'w env \<Rightarrow> Options \<Rightarrow> string \<Rightarrow> image \<Rightarrow> launchKind \<Rightarrow> 'w ec2 \<Rightarrow> (ec2_error + ec2_instance) \<times> 'w ec2" where
  "ec2_run E Op name img kind s =
     (case run_markets E Op name img kind (markets (t_Market (o_EC2 Op))) None s of
        (Some r, _, s) \<Rightarrow> (r, s)
      | (None, lst, s) \<Rightarrow> (Inl (ErrNoCapacity lst), s))"

end
