(* ===== verification/EC2_Pool.thy ===== *)
theory EC2_Pool
  imports EC2_Api
begin

text \<open>
  The pool of pre-warmed, stopped instances (\<open>internal/ec2/pool.go\<close>).  First the sections that hold the
  pool's mutex, as functions on the record \<open>Pool\<close>; then the operations, which call them and AWS.  The
  operations are here as one goroutine runs them.  \<open>EC2_Machine\<close> composes whole operations, for the
  properties of the calls one of them makes; \<open>EC2_Threads\<close> interleaves the sections, for those of the pool's
  state.  A target is never negative: \<open>validate\<close> accepts no such pool and \<open>sec_trim\<close> gives \<open>None\<close> where the
  slice expression of \<open>trim\<close> would panic on one.
\<close>

section \<open>Sections under the mutex\<close>

definition readyCheckEvery :: nat where "readyCheckEvery = 20"
definition poolRetryMax :: duration where "poolRetryMax = 5 * minute"
definition warmMax :: duration where "warmMax = 10 * minute"

definition newPool :: "int \<Rightarrow> Pool" where
  "newPool target = \<lparr>pl_target = target, pl_ready = [], pl_warming = [], pl_wake = False,
                     pl_failures = 0, pl_retryAt = None\<rparr>"

definition sec_trim :: "Pool \<Rightarrow> (pooled \<times> Pool) option" where
  "sec_trim p =
     (if int (length (pl_ready p)) \<le> pl_target p \<or> pl_ready p = [] then None
      else Some (last (pl_ready p), p\<lparr>pl_ready := butlast (pl_ready p)\<rparr>))"

definition sec_untrim :: "pooled \<Rightarrow> Pool \<Rightarrow> Pool" where
  "sec_untrim d p = p\<lparr>pl_ready := pl_ready p @ [d]\<rparr>"

definition sec_claim :: "Pool \<Rightarrow> (pooled \<times> Pool) option" where
  "sec_claim p = (case pl_ready p of [] \<Rightarrow> None | d # ds \<Rightarrow> Some (d, p\<lparr>pl_ready := ds\<rparr>))"

definition sec_requeue :: "pooled \<Rightarrow> Pool \<Rightarrow> Pool" where
  "sec_requeue d p = p\<lparr>pl_ready := d # pl_ready p\<rparr>"

definition sec_warm :: "string \<Rightarrow> time option \<Rightarrow> Pool \<Rightarrow> Pool" where
  "sec_warm i t p = p\<lparr>pl_warming := mput i t (pl_warming p)\<rparr>"

definition sec_forget :: "string \<Rightarrow> Pool \<Rightarrow> Pool" where
  "sec_forget i p = p\<lparr>pl_warming := mdel i (pl_warming p)\<rparr>"

definition pooled_of :: "ec2_instance \<Rightarrow> pooled" where
  "pooled_of i = \<lparr>pd_id = i_id i, pd_ip = i_ip i, pd_spotReq = i_spotReq i, pd_itype = i_type i\<rparr>"

definition sec_ready :: "ec2_instance \<Rightarrow> Pool \<Rightarrow> Pool" where
  "sec_ready i p = (sec_forget (i_id i) p)\<lparr>pl_ready := pl_ready p @ [pooled_of i]\<rparr>"

fun take_first :: "string \<Rightarrow> pooled list \<Rightarrow> (pooled \<times> pooled list) option" where
  "take_first i [] = None"
| "take_first i (d # ds) =
     (if pd_id d = i then Some (d, ds)
      else (case take_first i ds of None \<Rightarrow> None | Some (e, es) \<Rightarrow> Some (e, d # es)))"

definition takeReady :: "string \<Rightarrow> Pool \<Rightarrow> (pooled \<times> Pool) option" where
  "takeReady i p =
     (case take_first i (pl_ready p) of None \<Rightarrow> None | Some (d, ds) \<Rightarrow> Some (d, p\<lparr>pl_ready := ds\<rparr>))"

definition deficit :: "Pool \<Rightarrow> int" where
  "deficit p = pl_target p - int (length (pl_ready p)) - int (length (pl_warming p))"

definition Ready :: "Pool \<Rightarrow> nat \<times> nat" where
  "Ready p = (length (pl_ready p), length (pl_warming p))"

definition poke :: "Pool \<Rightarrow> Pool" where
  "poke p = p\<lparr>pl_wake := True\<rparr>"

definition retry_delay :: "nat \<Rightarrow> duration" where
  "retry_delay failures = min (2 ^ min failures 10 * second) poolRetryMax"

definition sec_failed :: "time \<Rightarrow> Pool \<Rightarrow> Pool" where
  "sec_failed t p =
     (let n = Suc (pl_failures p) in p\<lparr>pl_failures := n, pl_retryAt := Some (t + retry_delay n)\<rparr>)"

definition waiting :: "time \<Rightarrow> Pool \<Rightarrow> bool" where
  "waiting t p \<longleftrightarrow> (case pl_retryAt p of None \<Rightarrow> False | Some r \<Rightarrow> t < r)"

definition pool_do :: "(Pool \<Rightarrow> Pool) \<Rightarrow> 'w ec2 \<Rightarrow> 'w ec2" where
  "pool_do f s = s\<lparr>pl := f (pl s)\<rparr>"

section \<open>Ending an instance\<close>

definition cancelSpot :: "'w env \<Rightarrow> string \<Rightarrow> 'w ec2 \<Rightarrow> aws_error option \<times> 'w ec2" where
  "cancelSpot E req s = aws_do E (CancelSpot req) s"

fun cancel_attempts :: "'w env \<Rightarrow> string \<Rightarrow> nat list \<Rightarrow> 'w ec2 \<Rightarrow> bool \<times> 'w ec2" where
  "cancel_attempts E req [] s = (False, s)"
| "cancel_attempts E req (a # as) s =
     (case cancelSpot E req s of
        (None, s) \<Rightarrow> (True, s)
      | (Some _, s) \<Rightarrow>
          cancel_attempts E req as
            (if a < 2 then snd (aws E (Sleep (int (a + 1) * 200 * millisecond)) s) else s))"

definition discard :: "'w env \<Rightarrow> string \<Rightarrow> string \<Rightarrow> 'w ec2 \<Rightarrow> bool \<times> 'w ec2" where
  "discard E i spotReq s =
     (case (if spotReq \<noteq> [] then cancel_attempts E spotReq [0, 1, 2] s else (True, s)) of
        (False, s) \<Rightarrow> (False, s)
      | (True, s) \<Rightarrow>
          (case aws_do E (TerminateInstances i) s of
             (Some _, s) \<Rightarrow> (False, s)
           | (None, s) \<Rightarrow> (True, s)))"

text \<open>AWS calls leave the pool alone, so the loops below shrink it.\<close>

lemma aws_frame [simp]:
  "pl (snd (aws E c s)) = pl s" "tracked_ids (snd (aws E c s)) = tracked_ids s" "jits (snd (aws E c s)) = jits s"
  "trace (snd (aws E c s)) = trace s @ [(c, fst (aws E c s))]"
  by (simp_all add: aws_def split_beta)

lemma aws_do_frame [simp]:
  "pl (snd (aws_do E c s)) = pl s" "tracked_ids (snd (aws_do E c s)) = tracked_ids s" "jits (snd (aws_do E c s)) = jits s"
  by (simp_all add: aws_do_def split_beta)

lemma cancelSpot_frame [simp]:
  "pl (snd (cancelSpot E q s)) = pl s" "tracked_ids (snd (cancelSpot E q s)) = tracked_ids s" "jits (snd (cancelSpot E q s)) = jits s"
  by (simp_all add: cancelSpot_def)

lemma cancel_attempts_frame [simp]:
  "pl (snd (cancel_attempts E q as s)) = pl s" "tracked_ids (snd (cancel_attempts E q as s)) = tracked_ids s"
  "jits (snd (cancel_attempts E q as s)) = jits s"
  by (induction as arbitrary: s) (simp_all add: split_beta split: option.split)

lemma discard_frame [simp]:
  "pl (snd (discard E i q s)) = pl s" "tracked_ids (snd (discard E i q s)) = tracked_ids s" "jits (snd (discard E i q s)) = jits s"
  by (simp_all add: discard_def split_beta split: option.split bool.split)

lemma discard_pl: "(b, t) = discard E i q s \<Longrightarrow> pl t = pl s"
  by (metis discard_frame(1) snd_conv)

section \<open>Trimming and resizing\<close>

function trim :: "'w env \<Rightarrow> 'w ec2 \<Rightarrow> 'w ec2" where
  "trim E s =
     (if ctxDone E (aws_world s) then s
      else (case sec_trim (pl s) of
              None \<Rightarrow> s
            | Some (d, p) \<Rightarrow>
                (case discard E (pd_id d) (pd_spotReq d) (s\<lparr>pl := p\<rparr>) of
                   (False, s) \<Rightarrow> pool_do (sec_untrim d) s
                 | (True, s) \<Rightarrow> trim E s)))"
  by pat_completeness auto
termination
  by (relation "measure (\<lambda>(_, s). length (pl_ready (pl s)))")
    (auto simp: sec_trim_def dest!: discard_pl split: if_splits)

declare trim.simps [simp del]

definition SetTarget :: "'w env \<Rightarrow> int \<Rightarrow> 'w ec2 \<Rightarrow> 'w ec2" where
  "SetTarget E n s =
     (if n = pl_target (pl s) then s
      else pool_do poke (trim E (pool_do (\<lambda>p. p\<lparr>pl_target := n\<rparr>) s)))"

section \<open>Rediscovery and refresh\<close>

definition ready_tags :: tags where "ready_tags = [(TagPool, PoolReady)]"

definition markReady :: "'w env \<Rightarrow> ec2_instance \<Rightarrow> 'w ec2 \<Rightarrow> 'w ec2" where
  "markReady E i s =
     (case aws_do E (CreateTags (i_id i) ready_tags) s of
        (Some _, s) \<Rightarrow> s
      | (None, s) \<Rightarrow> pool_do (sec_ready i) s)"

fun discover_each :: "'w env \<Rightarrow> ec2_instance list \<Rightarrow> 'w ec2 \<Rightarrow> 'w ec2" where
  "discover_each E [] s = s"
| "discover_each E (i # is) s =
     discover_each E is
       (if tagValue (i_tags i) TagPool \<in> {PoolReady, PoolWarming}
        then (if i_state i = StStopped then markReady E i s else pool_do (sec_warm (i_id i) (i_launched i)) s)
        else s)"

definition discover :: "'w env \<Rightarrow> Options \<Rightarrow> 'w ec2 \<Rightarrow> 'w ec2" where
  "discover E Op s =
     (case aws E (DescribePool (o_Owner Op) (o_Tier Op)) s of
        (Found is, s) \<Rightarrow> discover_each E is s
      | (_, s) \<Rightarrow> s)"

definition overdue :: "time \<Rightarrow> string \<Rightarrow> Pool \<Rightarrow> bool" where
  "overdue t i p \<longleftrightarrow> (case mlookup (pl_warming p) i of Some (Some since) \<Rightarrow> t - since > warmMax | _ \<Rightarrow> False)"

fun refresh_each :: "'w env \<Rightarrow> ec2_instance list \<Rightarrow> 'w ec2 \<Rightarrow> 'w ec2" where
  "refresh_each E [] s = s"
| "refresh_each E (i # is) s =
     refresh_each E is
       (case i_state i of
          StStopped \<Rightarrow> markReady E i s
        | StShuttingDown \<Rightarrow> pool_do (sec_forget (i_id i)) s
        | StTerminated \<Rightarrow> pool_do (sec_forget (i_id i)) s
        | _ \<Rightarrow>
            if overdue (now E s) (i_id i) (pl s)
            then (case discard E (i_id i) (i_spotReq i) s of
                    (True, s) \<Rightarrow> pool_do (sec_forget (i_id i)) s
                  | (False, s) \<Rightarrow> s)
            else s)"

definition refresh_pool :: "'w env \<Rightarrow> 'w ec2 \<Rightarrow> 'w ec2" where
  "refresh_pool E s =
     (let ids = keys (pl_warming (pl s)) in
      if ids = [] then s
      else (case aws E (DescribeInstances ids) s of
              (Found is, s) \<Rightarrow> refresh_each E is s
            | (_, s) \<Rightarrow> s))"

section \<open>Filling\<close>

definition pool_failed :: "'w env \<Rightarrow> 'w ec2 \<Rightarrow> 'w ec2" where
  "pool_failed E s = pool_do (sec_failed (now E s)) s"

text \<open>\<open>names\<close>: what \<open>poolName\<close> returns, one for each launch; its four random bytes are not modelled.\<close>

fun fill_loop :: "'w env \<Rightarrow> Options \<Rightarrow> image \<Rightarrow> (nat \<Rightarrow> string) \<Rightarrow> nat \<Rightarrow> 'w ec2 \<Rightarrow> 'w ec2" where
  "fill_loop E Op img names 0 s = s"
| "fill_loop E Op img names (Suc n) s =
     (if deficit (pl s) \<le> 0 then s
      else (case ec2_run E Op (names n) img ForPool s of
              (Inl _, s) \<Rightarrow> pool_failed E s
            | (Inr i, s) \<Rightarrow>
                fill_loop E Op img names n
                  (pool_do (\<lambda>p. (sec_warm (i_id i) (Some (now E s)) p)\<lparr>pl_failures := 0\<rparr>) s)))"

definition fill :: "'w env \<Rightarrow> Options \<Rightarrow> (nat \<Rightarrow> string) \<Rightarrow> 'w ec2 \<Rightarrow> 'w ec2" where
  "fill E Op names s =
     (let n = deficit (pl s) in
      if n \<le> 0 \<or> waiting (now E s) (pl s) then s
      else (case ami_resolve E (t_AMI (o_EC2 Op)) s of
              (Inl _, s) \<Rightarrow> pool_failed E s
            | (Inr img, s) \<Rightarrow> fill_loop E Op img names (nat n) s))"

section \<open>Claiming\<close>

definition retag :: "string \<Rightarrow> tags" where
  "retag state = [(TagPool, state), (TagRunner, [])]"

definition rewarm :: "'w env \<Rightarrow> string \<Rightarrow> 'w ec2 \<Rightarrow> 'w ec2" where
  "rewarm E i s =
     (case aws_do E (CreateTags i (retag PoolWarming)) s of
        (_, s) \<Rightarrow> pool_do (sec_warm i (Some (now E s))) s)"

definition requeue :: "'w env \<Rightarrow> pooled \<Rightarrow> bool \<Rightarrow> 'w ec2 \<Rightarrow> 'w ec2" where
  "requeue E d tagged s =
     (if \<not> tagged then pool_do (sec_requeue d) s
      else (case aws_do E (CreateTags (pd_id d) (retag PoolReady)) s of
              (Some _, s) \<Rightarrow> s
            | (None, s) \<Rightarrow> pool_do (sec_requeue d) s))"

definition claimed_tags :: "string \<Rightarrow> tags" where
  "claimed_tags runner = [(TagPool, PoolClaimed), (TagRunner, runner), (''Name'', runner)]"

definition prepare_claim :: "'w env \<Rightarrow> Options \<Rightarrow> pooled \<Rightarrow> string \<Rightarrow> 'w ec2 \<Rightarrow> (bool \<times> aws_error option) \<times> 'w ec2" where
  "prepare_claim E Op d runner s =
     (case aws_do E (CreateTags (pd_id d) (claimed_tags runner)) s of
        (Some e, s) \<Rightarrow> ((False, Some e), s)
      | (None, s) \<Rightarrow>
          (case aws_do E (SetUserData (pd_id d) (jit_UserData (o_JITURL Op))) s of
             (err, s) \<Rightarrow> ((True, err), s)))"

definition incorrectState :: string where "incorrectState = ''IncorrectInstanceState''"

definition instanceGone :: "aws_error \<Rightarrow> bool" where
  "instanceGone e \<longleftrightarrow> isCode e incorrectState \<or> isCode e errNotFound"

lemma prepare_claim_frame [simp]:
  "pl (snd (prepare_claim E Op d runner s)) = pl s" "tracked_ids (snd (prepare_claim E Op d runner s)) = tracked_ids s"
  "jits (snd (prepare_claim E Op d runner s)) = jits s"
  by (simp_all add: prepare_claim_def split_beta split: option.split)

lemma prepare_claim_pl: "(r, t) = prepare_claim E Op d runner s \<Longrightarrow> pl t = pl s"
  by (metis prepare_claim_frame(1) snd_conv)

lemma rewarm_ready [simp]: "pl_ready (pl (rewarm E i s)) = pl_ready (pl s)"
  by (simp add: rewarm_def pool_do_def sec_warm_def split_beta)

lemma untrack_pl [simp]: "pl (ec2_untrack i s) = pl s" "pl (ec2_track i s) = pl s"
  by (simp_all add: ec2_untrack_def ec2_track_def)

text \<open>The claim loop, without the deferred \<open>poke\<close>.\<close>

function claim_loop :: "'w env \<Rightarrow> Options \<Rightarrow> string \<Rightarrow> 'w ec2 \<Rightarrow> (ec2_error + pooled) \<times> 'w ec2" where
  "claim_loop E Op runner s =
     (if ctxDone E (aws_world s) then (Inl CtxEnded, s)
      else (case sec_claim (pl s) of
              None \<Rightarrow> (Inl ErrPoolEmpty, s)
            | Some (d, p) \<Rightarrow>
                (case prepare_claim E Op d runner (ec2_track (pd_id d) (s\<lparr>pl := p\<rparr>)) of
                   ((tagged, None), s) \<Rightarrow> (Inr d, s)
                 | ((tagged, Some e), s) \<Rightarrow>
                     if isCode e incorrectState
                     then claim_loop E Op runner (ec2_untrack (pd_id d) (rewarm E (pd_id d) s))
                     else if instanceGone e
                     then claim_loop E Op runner
                            (ec2_untrack (pd_id d) (snd (discard E (pd_id d) (pd_spotReq d) s)))
                     else (Inl (AwsErr e), ec2_untrack (pd_id d) (requeue E d tagged s)))))"
  by pat_completeness auto
termination
  by (relation "measure (\<lambda>(_, _, _, s). length (pl_ready (pl s)))")
    (auto simp: sec_claim_def dest!: prepare_claim_pl split: list.splits)

declare claim_loop.simps [simp del]

definition claim :: "'w env \<Rightarrow> Options \<Rightarrow> string \<Rightarrow> 'w ec2 \<Rightarrow> (ec2_error + pooled) \<times> 'w ec2" where
  "claim E Op runner s = (case claim_loop E Op runner s of (r, s) \<Rightarrow> (r, pool_do poke s))"

section \<open>Checking the ready instances\<close>

definition gone_state :: "instance_state \<Rightarrow> bool" where
  "gone_state st \<longleftrightarrow> st = StShuttingDown \<or> st = StTerminated"

text \<open>A later entry of the answer overrides an earlier one for the same id.\<close>

definition states_of :: "ec2_instance list \<Rightarrow> (string, instance_state) gomap" where
  "states_of is = rev (map (\<lambda>i. (i_id i, i_state i)) is)"

fun check_each :: "'w env \<Rightarrow> (string, instance_state) gomap \<Rightarrow> string list \<Rightarrow> 'w ec2 \<Rightarrow> 'w ec2" where
  "check_each E st [] s = s"
| "check_each E st (i # ids) s =
     check_each E st ids
       (case mlookup st i of
          None \<Rightarrow> s
        | Some StStopped \<Rightarrow> s
        | Some x \<Rightarrow>
            (case takeReady i (pl s) of
               None \<Rightarrow> s
             | Some (d, p) \<Rightarrow>
                 if gone_state x
                 then (if pd_spotReq d \<noteq> [] then snd (cancelSpot E (pd_spotReq d) (s\<lparr>pl := p\<rparr>)) else s\<lparr>pl := p\<rparr>)
                 else rewarm E i (s\<lparr>pl := p\<rparr>)))"

definition checkReady :: "'w env \<Rightarrow> 'w ec2 \<Rightarrow> 'w ec2" where
  "checkReady E s =
     (let ids = map pd_id (pl_ready (pl s)) in
      if ids = [] then s
      else (case aws E (DescribeInstances ids) s of
              (Found is, s) \<Rightarrow> check_each E (states_of is) ids s
            | (_, s) \<Rightarrow> s))"

section \<open>The loop of the pool\<close>

definition pool_pass :: "'w env \<Rightarrow> Options \<Rightarrow> (nat \<Rightarrow> string) \<Rightarrow> nat \<Rightarrow> 'w ec2 \<Rightarrow> 'w ec2" where
  "pool_pass E Op names pass s =
     fill E Op names (trim E (refresh_pool E (if pass mod readyCheckEvery = 0 then checkReady E s else s)))"

end
