(* ===== verification/EC2_Provisioner.thy ===== *)
theory EC2_Provisioner
  imports EC2_Pool
begin

text \<open>
  The EC2 provisioner (\<open>internal/ec2/provisioner.go\<close>): a launch on a pool instance or a new one, and the
  waiter that follows the instance until it is gone.  Where the code selects over channels, an argument
  lists what the runtime picked; when it is used up the launch is still waiting (\<open>None\<close>).
  An error is the list of the errors joined or wrapped in it, \<open>[]\<close> standing for nil, so that
  \<open>errors.Is\<close> is membership.
\<close>

section \<open>The waiter\<close>

definition terminateWait :: duration where "terminateWait = 5 * minute"
definition terminateRetry :: duration where "terminateRetry = 10 * second"

record waiter =
  w_id :: string
  w_terminating :: bool
  w_termSince :: time
  w_termLast :: time
  w_awaitStart :: bool
  w_spotReq :: string

definition new_waiter :: "string \<Rightarrow> bool \<Rightarrow> string \<Rightarrow> waiter" where
  "new_waiter i await spot =
     \<lparr>w_id = i, w_terminating = False, w_termSince = 0, w_termLast = 0, w_awaitStart = await, w_spotReq = spot\<rparr>"

definition begin_terminate :: "time \<Rightarrow> waiter \<Rightarrow> waiter" where
  "begin_terminate t w =
     (if w_terminating w then w else w\<lparr>w_terminating := True, w_termSince := t\<rparr>)\<lparr>w_termLast := t\<rparr>"

definition terminate :: "'w env \<Rightarrow> waiter \<Rightarrow> 'w ec2 \<Rightarrow> waiter \<times> 'w ec2" where
  "terminate E w s =
     (let w = begin_terminate (now E s) w in
      if w_spotReq w \<noteq> [] then
        (case aws_do E (CancelSpot (w_spotReq w)) s of
           (Some _, s) \<Rightarrow> (w, s)
         | (None, s) \<Rightarrow> (w\<lparr>w_spotReq := []\<rparr>, snd (aws_do E (TerminateInstances (w_id w)) s)))
      else (w, snd (aws_do E (TerminateInstances (w_id w)) s)))"

datatype select_event = EvDone | EvState instance_state | EvTick

text \<open>The locals of \<open>run\<close>: \<open>v_seen\<close> once \<open>done\<close> has been set to nil.\<close>

record wait_vars =
  v_w :: waiter
  v_result :: "ec2_error list"
  v_seen :: bool

definition v_terminate :: "'w env \<Rightarrow> wait_vars \<Rightarrow> 'w ec2 \<Rightarrow> wait_vars \<times> 'w ec2" where
  "v_terminate E v s = (case terminate E (v_w v) s of (w, s) \<Rightarrow> (v\<lparr>v_w := w\<rparr>, s))"

definition wait_tick ::
  "'w env \<Rightarrow> Options \<Rightarrow> string \<Rightarrow> time \<Rightarrow> wait_vars \<Rightarrow> 'w ec2 \<Rightarrow> (ec2_error list + wait_vars) \<times> 'w ec2" where
  "wait_tick E Op ip started v s =
     (let t = now E s; w = v_w v; go = (\<lambda>v. case v_terminate E v s of (v, s) \<Rightarrow> (Inr v, s)) in
      if w_terminating w \<and> t - w_termSince w \<ge> terminateWait then (Inl (v_result v @ [NotTerminated]), s)
      else if w_terminating w \<and> t - w_termLast w \<ge> terminateRetry then go v
      else if w_terminating w then (Inr v, s)
      else if \<not> jit_Pending ip t (jits s) \<and> \<not> jit_Served ip (jits s) then go (v\<lparr>v_result := [NeverFetched]\<rparr>)
      else if o_MaxLifetime Op > 0 \<and> t - started \<ge> o_MaxLifetime Op then go (v\<lparr>v_result := [LifetimeExceeded]\<rparr>)
      else (Inr v, s))"

definition wait_state :: "'w env \<Rightarrow> instance_state \<Rightarrow> wait_vars \<Rightarrow> 'w ec2 \<Rightarrow> (ec2_error list + wait_vars) \<times> 'w ec2" where
  "wait_state E st v s =
     (if gone_state st then (Inl (v_result v), s)
      else if st = StPending \<or> st = StRunning then (Inr (v\<lparr>v_w := (v_w v)\<lparr>w_awaitStart := False\<rparr>\<rparr>), s)
      else if w_awaitStart (v_w v) then (Inr v, s)
      else if w_terminating (v_w v) then (Inr v, s)
      else (case v_terminate E v s of (v, s) \<Rightarrow> (Inr v, s)))"

fun wait_event ::
  "'w env \<Rightarrow> Options \<Rightarrow> string \<Rightarrow> time \<Rightarrow> select_event \<Rightarrow> wait_vars \<Rightarrow> 'w ec2 \<Rightarrow> (ec2_error list + wait_vars) \<times> 'w ec2" where
  "wait_event E Op ip started EvDone v s =
     (if v_seen v then (Inr v, s)
      else (case v_terminate E (v\<lparr>v_seen := True\<rparr>) s of (v, s) \<Rightarrow> (Inr v, s)))"
| "wait_event E Op ip started (EvState st) v s = wait_state E st v s"
| "wait_event E Op ip started EvTick v s = wait_tick E Op ip started v s"

fun wait_run ::
  "'w env \<Rightarrow> Options \<Rightarrow> string \<Rightarrow> time \<Rightarrow> select_event list \<Rightarrow> wait_vars \<Rightarrow> 'w ec2 \<Rightarrow> ec2_error list option \<times> 'w ec2" where
  "wait_run E Op ip started [] v s = (None, s)"
| "wait_run E Op ip started (ev # evs) v s =
     (case wait_event E Op ip started ev v s of
        (Inl r, s) \<Rightarrow> (Some r, s)
      | (Inr v, s) \<Rightarrow> wait_run E Op ip started evs v s)"

section \<open>The private address\<close>

text \<open>
  \<open>True\<close> in the script: the context ended.  Each round also pauses for \<open>wait\<close>.  The addresses EC2 gives are
  IPv4, and \<open>parse_ip\<close> reads only those.
\<close>

definition parse_ip :: "string \<Rightarrow> ec2_error list + string" where
  "parse_ip addr = (if parse_addr4 addr = None then Inl [IPErr] else Inr addr)"

definition last_ip :: "ec2_instance list \<Rightarrow> string" where
  "last_ip is = (if is = [] then [] else i_ip (last is))"

fun privateIP ::
  "'w env \<Rightarrow> string \<Rightarrow> duration \<Rightarrow> bool list \<Rightarrow> string \<Rightarrow> 'w ec2 \<Rightarrow> (ec2_error list + string) option \<times> 'w ec2" where
  "privateIP E i wait sel addr s =
     (if addr \<noteq> [] then (Some (parse_ip addr), s)
      else (case sel of
              [] \<Rightarrow> (None, s)
            | True # _ \<Rightarrow> (Some (Inl [CtxEnded]), s)
            | False # sel \<Rightarrow>
                (case aws E (DescribeInstances [i]) (snd (aws E (Sleep wait) s)) of
                   (Found is, s) \<Rightarrow> privateIP E i (min (2 * wait) (5 * second)) sel (last_ip is) s
                 | (Refused e, s) \<Rightarrow>
                     if isCode e errNotFound then privateIP E i (min (2 * wait) (5 * second)) sel addr s
                     else (Some (Inl [AwsErr e]), s)
                 | (_, s) \<Rightarrow> privateIP E i (min (2 * wait) (5 * second)) sel addr s)))"

declare privateIP.simps [simp del]

section \<open>Launching\<close>

definition revoke :: "string \<Rightarrow> 'w ec2 \<Rightarrow> 'w ec2" where
  "revoke ip s = s\<lparr>jits := jit_Revoke ip (jits s)\<rparr>"

definition register :: "'w env \<Rightarrow> string \<Rightarrow> string \<Rightarrow> string \<Rightarrow> 'w ec2 \<Rightarrow> jit_error option \<times> 'w ec2" where
  "register E ip name jit s =
     (case jit_Register (Some ip) name jit (now E s) (jits s) of (j, err) \<Rightarrow> (err, s\<lparr>jits := j\<rparr>))"

text \<open>
  A launch in its waiting phase: the address its config is registered under (\<open>[]\<close>: none), what its
  result is joined to, when the waiting began, and the waiter's variables.  The deferred calls, \<open>Revoke\<close>
  and \<open>untrack\<close>, are \<open>finish_wait\<close>.
\<close>

record waiting_launch =
  wl_ip :: string
  wl_cause :: "ec2_error list"
  wl_started :: time
  wl_vars :: wait_vars

datatype begun = Returned "ec2_error list" | Stuck | Waiting waiting_launch

definition wl_id :: "waiting_launch \<Rightarrow> string" where
  "wl_id l = w_id (v_w (wl_vars l))"

definition start_wait :: "'w env \<Rightarrow> string \<Rightarrow> ec2_error list \<Rightarrow> bool \<Rightarrow> waiter \<Rightarrow> 'w ec2 \<Rightarrow> waiting_launch" where
  "start_wait E ip cause uncancellable w s =
     \<lparr>wl_ip = ip, wl_cause = cause, wl_started = now E s,
      wl_vars = \<lparr>v_w = w, v_result = [], v_seen = uncancellable\<rparr>\<rparr>"

definition finish_wait :: "waiting_launch \<Rightarrow> 'w ec2 \<Rightarrow> 'w ec2" where
  "finish_wait l s = ec2_untrack (wl_id l) (if wl_ip l = [] then s else revoke (wl_ip l) s)"

definition give_up :: "'w env \<Rightarrow> pooled \<Rightarrow> ec2_error list \<Rightarrow> 'w ec2 \<Rightarrow> begun \<times> 'w ec2" where
  "give_up E d err s = (Returned err, snd (discard E (pd_id d) (pd_spotReq d) s))"

text \<open>The request of a started instance is released; a failed cancel is left to \<open>terminate\<close>.\<close>

definition release_request :: "'w env \<Rightarrow> pooled \<Rightarrow> 'w ec2 \<Rightarrow> aws_error option \<times> 'w ec2" where
  "release_request E d s = (if pd_spotReq d \<noteq> [] then cancelSpot E (pd_spotReq d) s else (None, s))"

text \<open>From \<open>StartInstances\<close> on.\<close>

definition start_pooled :: "'w env \<Rightarrow> string \<Rightarrow> pooled \<Rightarrow> 'w ec2 \<Rightarrow> begun \<times> 'w ec2" where
  "start_pooled E ip d s =
     (case aws_do E (StartInstances (pd_id d)) s of
        (Some e, s) \<Rightarrow> (case give_up E d [ErrPoolStart, AwsErr e] s of (b, s) \<Rightarrow> (b, revoke ip s))
      | (None, s) \<Rightarrow>
          (case release_request E d s of
             (err, s) \<Rightarrow>
               (Waiting (start_wait E ip [] False
                  (new_waiter (pd_id d) True (if err = None then [] else pd_spotReq d)) s), s)))"

text \<open>With the deferred \<open>untrack\<close> of a launch that returns.\<close>

definition untrack_returned :: "string \<Rightarrow> begun \<times> 'w ec2 \<Rightarrow> begun \<times> 'w ec2" where
  "untrack_returned i r = (case r of (Returned e, s) \<Rightarrow> (Returned e, ec2_untrack i s) | (b, s) \<Rightarrow> (b, s))"

definition launchPooled :: "'w env \<Rightarrow> Options \<Rightarrow> string \<Rightarrow> string \<Rightarrow> 'w ec2 \<Rightarrow> begun \<times> 'w ec2" where
  "launchPooled E Op name jit s =
     (case claim E Op name s of
        (Inl e, s) \<Rightarrow> (Returned (if e = ErrPoolEmpty \<or> ctxDone E (aws_world s) then [e] else [ErrPoolStart, e]), s)
      | (Inr d, s) \<Rightarrow>
          untrack_returned (pd_id d)
            (case parse_ip (pd_ip d) of
               Inl e \<Rightarrow> give_up E d (ErrPoolStart # e) s
             | Inr ip \<Rightarrow>
                 (case register E ip name jit s of
                    (Some e, s) \<Rightarrow> give_up E d [JitErr e] s
                  | (None, s) \<Rightarrow> start_pooled E ip d s)))"

text \<open>\<open>abort\<close>: end the instance and wait, uncancellably, for it to go.\<close>

definition abort :: "'w env \<Rightarrow> ec2_error list \<Rightarrow> waiter \<Rightarrow> 'w ec2 \<Rightarrow> begun \<times> 'w ec2" where
  "abort E cause w s = (case terminate E w s of (w, s) \<Rightarrow> (Waiting (start_wait E [] cause True w s), s))"

definition follow_new ::
  "'w env \<Rightarrow> string \<Rightarrow> string \<Rightarrow> ec2_instance \<Rightarrow> bool list \<Rightarrow> 'w ec2 \<Rightarrow> begun \<times> 'w ec2" where
  "follow_new E name jit i sel s =
     (let w = new_waiter (i_id i) False [] in
      case privateIP E (i_id i) (200 * millisecond) sel (i_ip i) s of
        (None, s) \<Rightarrow> (Stuck, s)
      | (Some (Inl e), s) \<Rightarrow> abort E e w s
      | (Some (Inr ip), s) \<Rightarrow>
          (case register E ip name jit s of
             (Some e, s) \<Rightarrow> abort E [JitErr e] w s
           | (None, s) \<Rightarrow> (Waiting (start_wait E ip [] False w s), s)))"

definition launchCold :: "'w env \<Rightarrow> Options \<Rightarrow> string \<Rightarrow> string \<Rightarrow> bool list \<Rightarrow> 'w ec2 \<Rightarrow> begun \<times> 'w ec2" where
  "launchCold E Op name jit sel s =
     (case ami_resolve E (t_AMI (o_EC2 Op)) s of
        (Inl e, s) \<Rightarrow> (Returned [e], s)
      | (Inr img, s) \<Rightarrow>
          (case ec2_run E Op name img ForJob s of
             (Inl e, s) \<Rightarrow> (Returned [e], s)
           | (Inr i, s) \<Rightarrow> follow_new E name jit i sel (ec2_track (i_id i) s)))"

definition keeps_pool :: "Options \<Rightarrow> bool" where
  "keeps_pool Op \<longleftrightarrow> t_Pool (o_EC2 Op) > 0 \<or> o_Pooled Op"

text \<open>
  \<open>Launch\<close> up to its waiting phase, and whole.  The errors a waiter ends with are neither \<open>errPoolEmpty\<close> nor
  \<open>errPoolStart\<close>, so only a pool launch that never began to wait falls back to a new instance.
\<close>

definition launch_begin ::
  "'w env \<Rightarrow> Options \<Rightarrow> string \<Rightarrow> string \<Rightarrow> bool list \<Rightarrow> 'w ec2 \<Rightarrow> begun \<times> 'w ec2" where
  "launch_begin E Op name jit sel s =
     (if keeps_pool Op then
        (case launchPooled E Op name jit s of
           (Returned err, s) \<Rightarrow>
             if ErrPoolEmpty \<notin> set err \<and> ErrPoolStart \<notin> set err then (Returned err, s)
             else launchCold E Op name jit sel s
         | (b, s) \<Rightarrow> (b, s))
      else launchCold E Op name jit sel s)"

definition ec2_Launch ::
  "'w env \<Rightarrow> Options \<Rightarrow> string \<Rightarrow> string \<Rightarrow> bool list \<Rightarrow> select_event list \<Rightarrow> 'w ec2 \<Rightarrow> ec2_error list option \<times> 'w ec2" where
  "ec2_Launch E Op name jit sel evs s =
     (case launch_begin E Op name jit sel s of
        (Returned e, s) \<Rightarrow> (Some e, s)
      | (Stuck, s) \<Rightarrow> (None, s)
      | (Waiting l, s) \<Rightarrow>
          (case wait_run E Op (wl_ip l) (wl_started l) evs (wl_vars l) s of
             (None, s) \<Rightarrow> (None, s)
           | (Some r, s) \<Rightarrow> (Some (wl_cause l @ r), finish_wait l s)))"

end
