(* ===== verification/EC2_Reaper.thy ===== *)
theory EC2_Reaper
  imports EC2_Pool
begin

text \<open>
  The reaper (\<open>internal/ec2/reaper.go\<close>): it ends what this install launched and no longer owns.  A listing
  that takes several pages is one call here, and a sweep from its listing to its last judgement is one step of
  \<open>EC2_Machine\<close>; \<open>PooledTiers\<close> is the list of the tiers that keep a pool.
\<close>

record ReaperOptions =
  ro_Owner :: string
  ro_PooledTiers :: "string list"
  ro_MaxLifetime :: duration
  ro_Grace :: duration
  ro_DryRun :: bool

record ReapReport =
  rp_Instances :: "string list"
  rp_SpotRequests :: "string list"
  rp_Busy :: "string list"
  rp_Young :: "string list"

definition NewReaper :: "ReaperOptions \<Rightarrow> ReaperOptions" where
  "NewReaper ro = (if ro_Grace ro \<le> 0 then ro\<lparr>ro_Grace := 2 * minute\<rparr> else ro)"

text \<open>\<open>now.Sub(t)\<close> against a bound: an absent time is the zero time, older than any bound.\<close>

definition aged :: "time \<Rightarrow> time option \<Rightarrow> duration \<Rightarrow> bool" where
  "aged t launched d \<longleftrightarrow> (case launched of None \<Rightarrow> True | Some l \<Rightarrow> t - l \<ge> d)"

definition reap :: "'w env \<Rightarrow> ReaperOptions \<Rightarrow> string \<Rightarrow> string \<Rightarrow> 'w ec2 \<Rightarrow> bool \<times> 'w ec2" where
  "reap E ro i spotReq s =
     (if ro_DryRun ro then (True, s)
      else (case (if spotReq \<noteq> [] then aws_do E (CancelSpot spotReq) s else (None, s)) of
              (Some _, s) \<Rightarrow> (False, s)
            | (None, s) \<Rightarrow>
                (case aws_do E (TerminateInstances i) s of
                   (Some _, s) \<Rightarrow> (False, s)
                 | (None, s) \<Rightarrow> (True, s))))"

definition reap_into :: "'w env \<Rightarrow> ReaperOptions \<Rightarrow> ec2_instance \<Rightarrow> ReapReport \<Rightarrow> 'w ec2 \<Rightarrow> ReapReport \<times> 'w ec2" where
  "reap_into E ro i rep s =
     (case reap E ro (i_id i) (i_spotReq i) s of
        (done, s) \<Rightarrow> (if done then rep\<lparr>rp_Instances := rp_Instances rep @ [i_id i]\<rparr> else rep, s))"

definition judge :: "'w env \<Rightarrow> ReaperOptions \<Rightarrow> time \<Rightarrow> ec2_instance \<Rightarrow> ReapReport \<Rightarrow> 'w ec2 \<Rightarrow> ReapReport \<times> 'w ec2" where
  "judge E ro t i rep s =
     (let tier = tagValue (i_tags i) TagTier; runner = tagValue (i_tags i) TagRunner;
          pool = tagValue (i_tags i) TagPool in
      if isLive (i_id i) s then (rep, s)
      else if pool = PoolReady \<or> pool = PoolWarming then
        (if tier \<in> set (ro_PooledTiers ro) then (rep, s) else reap_into E ro i rep s)
      else if \<not> aged t (i_launched i) (ro_Grace ro) then (rep\<lparr>rp_Young := rp_Young rep @ [i_id i]\<rparr>, s)
      else if i_state i = StStopped \<or> i_state i = StStopping then reap_into E ro i rep s
      else if ro_MaxLifetime ro > 0 \<and> aged t (i_launched i) (ro_MaxLifetime ro) then reap_into E ro i rep s
      else if runner = [] then (rep, s)
      else if ro_DryRun ro then (rep\<lparr>rp_Instances := rp_Instances rep @ [i_id i]\<rparr>, s)
      else (case aws_do E (Deregister tier runner) s of
              (Some RunnerBusy, s) \<Rightarrow> (rep\<lparr>rp_Busy := rp_Busy rep @ [i_id i]\<rparr>, s)
            | (Some _, s) \<Rightarrow> (rep, s)
            | (None, s) \<Rightarrow> reap_into E ro i rep s))"

fun judge_all :: "'w env \<Rightarrow> ReaperOptions \<Rightarrow> time \<Rightarrow> ec2_instance list \<Rightarrow> ReapReport \<Rightarrow> 'w ec2 \<Rightarrow> ReapReport \<times> 'w ec2" where
  "judge_all E ro t [] rep s = (rep, s)"
| "judge_all E ro t (i # is) rep s = (case judge E ro t i rep s of (rep, s) \<Rightarrow> judge_all E ro t is rep s)"

definition cancel_orphan ::
  "'w env \<Rightarrow> ReaperOptions \<Rightarrow> time \<Rightarrow> string list \<Rightarrow> spot_request \<Rightarrow> ReapReport \<Rightarrow> 'w ec2 \<Rightarrow> ReapReport \<times> 'w ec2" where
  "cancel_orphan E ro t alive q rep s =
     (if sr_instance q \<noteq> [] \<and> (sr_instance q \<in> set alive \<or> isLive (sr_instance q) s) then (rep, s)
      else if \<not> aged t (sr_created q) (ro_Grace ro) then (rep, s)
      else let listed = rep\<lparr>rp_SpotRequests := rp_SpotRequests rep @ [sr_id q]\<rparr> in
        if ro_DryRun ro then (listed, s)
        else (case aws_do E (CancelSpot (sr_id q)) s of
                (Some _, s) \<Rightarrow> (rep, s)
              | (None, s) \<Rightarrow> (listed, s)))"

fun cancel_orphans ::
  "'w env \<Rightarrow> ReaperOptions \<Rightarrow> time \<Rightarrow> string list \<Rightarrow> spot_request list \<Rightarrow> ReapReport \<Rightarrow> 'w ec2 \<Rightarrow> ReapReport \<times> 'w ec2" where
  "cancel_orphans E ro t alive [] rep s = (rep, s)"
| "cancel_orphans E ro t alive (q # qs) rep s =
     (case cancel_orphan E ro t alive q rep s of (rep, s) \<Rightarrow> cancel_orphans E ro t alive qs rep s)"

definition empty_report :: ReapReport where
  "empty_report = \<lparr>rp_Instances = [], rp_SpotRequests = [], rp_Busy = [], rp_Young = []\<rparr>"

text \<open>Requests are listed before instances.\<close>

definition Sweep :: "'w env \<Rightarrow> ReaperOptions \<Rightarrow> 'w ec2 \<Rightarrow> ReapReport option \<times> 'w ec2" where
  "Sweep E ro s =
     (case aws E (DescribeSpot (ro_Owner ro)) s of
        (FoundRequests requests, s) \<Rightarrow>
          (case aws E (DescribeOwned (ro_Owner ro)) s of
             (Found is, s) \<Rightarrow>
               let t = now E s in
               (case judge_all E ro t is empty_report s of
                  (rep, s) \<Rightarrow>
                    (case cancel_orphans E ro t (map i_id is) requests rep s of (rep, s) \<Rightarrow> (Some rep, s)))
           | (_, s) \<Rightarrow> (None, s))
      | (_, s) \<Rightarrow> (None, s))"

end
