(* ===== verification/EC2_Machine.thy ===== *)
theory EC2_Machine
  imports EC2_Provisioner EC2_Reaper
begin

text \<open>
  One EC2 tier at run time: the pool's passes, resizing, launches, the events their waiters receive and the
  reaper's sweeps, and what AWS is relied on for (\<open>aws_ok\<close>).  Every step is a whole operation, with all its calls:
  a pass, a resizing, the start of a launch with its claims, one event of a waiter, a sweep.  So this relation
  is for what holds of the order of an operation's own calls; where the goroutines' sections interleave is
  theory \<open>EC2_Threads\<close>.  The invariant says
  which instance is where (ready, warming, or in a launch's hands) and that no instance was terminated
  while its persistent spot request could still be open.
\<close>

section \<open>The steps\<close>

record 'w ec2_sys =
  sys_s :: "'w ec2"
  sys_waits :: "waiting_launch list"

datatype ec2_label =
    EPass | ETarget | EFail "ec2_error list" | EBegin waiting_launch | EEvent select_event
  | EEnd "ec2_error list" | ESweep | EIdle

inductive ec2_step :: "'w env \<Rightarrow> Options \<Rightarrow> ec2_label \<Rightarrow> 'w ec2_sys \<Rightarrow> 'w ec2_sys \<Rightarrow> bool" for E Op where
  e_pass: "ec2_step E Op EPass y (y\<lparr>sys_s := pool_pass E Op names n (sys_s y)\<rparr>)"
| e_target: "ec2_step E Op ETarget y (y\<lparr>sys_s := SetTarget E n (sys_s y)\<rparr>)"
| e_fail: "launch_begin E Op name jit sel (sys_s y) = (Returned err, s) \<Longrightarrow>
    ec2_step E Op (EFail err) y (y\<lparr>sys_s := s\<rparr>)"
| e_begin: "launch_begin E Op name jit sel (sys_s y) = (Waiting l, s) \<Longrightarrow>
    ec2_step E Op (EBegin l) y (y\<lparr>sys_s := s, sys_waits := l # sys_waits y\<rparr>)"
| e_event: "sys_waits y = ls @ l # rs \<Longrightarrow>
    wait_event E Op (wl_ip l) (wl_started l) ev (wl_vars l) (sys_s y) = (Inr v, s) \<Longrightarrow>
    ec2_step E Op (EEvent ev) y (y\<lparr>sys_s := s, sys_waits := ls @ l\<lparr>wl_vars := v\<rparr> # rs\<rparr>)"
| e_end: "sys_waits y = ls @ l # rs \<Longrightarrow>
    wait_event E Op (wl_ip l) (wl_started l) ev (wl_vars l) (sys_s y) = (Inl r, s) \<Longrightarrow>
    ec2_step E Op (EEnd (wl_cause l @ r)) y (y\<lparr>sys_s := finish_wait l s, sys_waits := ls @ rs\<rparr>)"
| e_sweep: "Sweep E ro (sys_s y) = (rep, s) \<Longrightarrow> ec2_step E Op ESweep y (y\<lparr>sys_s := s\<rparr>)"
| e_idle: "ec2_step E Op EIdle y (y\<lparr>sys_s := (sys_s y)\<lparr>aws_world := passes E (aws_world (sys_s y))\<rparr>\<rparr>)"

definition start_ec2 :: "Options \<Rightarrow> 'w \<Rightarrow> JitServer \<Rightarrow> 'w ec2" where
  "start_ec2 Op w j = \<lparr>aws_world = w, trace = [], tracked_ids = [], amis = [], pl = newPool (t_Pool (o_EC2 Op)), jits = j\<rparr>"

text \<open>The system starts where \<open>Run\<close> has rediscovered the pool.\<close>

definition ec2_init :: "'w env \<Rightarrow> Options \<Rightarrow> 'w ec2_sys \<Rightarrow> bool" where
  "ec2_init E Op y \<longleftrightarrow> (\<exists>w j. y = \<lparr>sys_s = discover E Op (start_ec2 Op w j), sys_waits = []\<rparr>)"

section \<open>What AWS is relied on for\<close>

text \<open>
  \<open>req i\<close> is the persistent spot request behind an instance (\<open>[]\<close> for none) and \<open>known w\<close> the ids AWS has
  handed out.  A listing names each instance once, with its spot request; asked for ids, it answers only
  those; a launch gives a new id, and only a persistent request stands behind an instance for good.
\<close>

definition spot_ok :: "(string \<Rightarrow> string) \<Rightarrow> string \<Rightarrow> string \<Rightarrow> bool" where
  "spot_ok req i q \<longleftrightarrow> req i = [] \<or> q = req i"

definition listing_ok :: "(string \<Rightarrow> string) \<Rightarrow> string set \<Rightarrow> ec2_instance list \<Rightarrow> bool" where
  "listing_ok req K is \<longleftrightarrow>
     distinct (map i_id is) \<and> (\<forall>i \<in> set is. i_id i \<in> K \<and> spot_ok req (i_id i) (i_spotReq i))"

definition persistent :: "run_input \<Rightarrow> bool" where
  "persistent inp \<longleftrightarrow> (case ri_Spot inp of Some (kind, _) \<Rightarrow> kind = ''persistent'' | None \<Rightarrow> False)"

definition aws_ok :: "'w env \<Rightarrow> (string \<Rightarrow> string) \<Rightarrow> ('w \<Rightarrow> string set) \<Rightarrow> bool" where
  "aws_ok E req known \<longleftrightarrow>
     (\<forall>c w. known w \<subseteq> known (snd (api E c w))) \<and>
     (\<forall>w. known w \<subseteq> known (passes E w)) \<and>
     (\<forall>c w is. fst (api E c w) = Found is \<longrightarrow> listing_ok req (known (snd (api E c w))) is) \<and>
     (\<forall>inp w is i. fst (api E (RunInstances inp) w) = Found is \<longrightarrow> i \<in> set is \<longrightarrow>
        i_id i \<notin> known w \<and> (persistent inp \<or> req (i_id i) = [])) \<and>
     (\<forall>ids w is. fst (api E (DescribeInstances ids) w) = Found is \<longrightarrow> i_id ` set is \<subseteq> set ids)"

lemma aws_ok_known: "aws_ok E req known \<Longrightarrow> known (aws_world s) \<subseteq> known (aws_world (snd (aws E c s)))"
  by (simp add: aws_ok_def aws_def split_beta)

lemma aws_ok_passes: "aws_ok E req known \<Longrightarrow> known w \<subseteq> known (passes E w)"
  by (simp add: aws_ok_def)

lemma aws_ok_found:
  "aws_ok E req known \<Longrightarrow> fst (aws E c s) = Found is \<Longrightarrow> listing_ok req (known (aws_world (snd (aws E c s)))) is"
  by (simp add: aws_ok_def aws_def split_beta)

lemma aws_ok_run:
  "aws_ok E req known \<Longrightarrow> fst (aws E (RunInstances inp) s) = Found is \<Longrightarrow> i \<in> set is \<Longrightarrow>
   i_id i \<notin> known (aws_world s) \<and> (persistent inp \<or> req (i_id i) = [])"
  unfolding aws_ok_def aws_def by (simp add: split_beta)

lemma aws_ok_asked:
  "aws_ok E req known \<Longrightarrow> fst (aws E (DescribeInstances ids) s) = Found is \<Longrightarrow> i_id ` set is \<subseteq> set ids"
  unfolding aws_ok_def aws_def by (simp add: split_beta)

section \<open>Terminated only after the cancel\<close>

definition cancelled :: "(aws_call \<times> aws_reply) list \<Rightarrow> string \<Rightarrow> bool" where
  "cancelled L q \<longleftrightarrow> (\<exists>r. (CancelSpot q, r) \<in> set L \<and> reply_error r = None)"

definition safe_trace :: "(string \<Rightarrow> string) \<Rightarrow> (aws_call \<times> aws_reply) list \<Rightarrow> bool" where
  "safe_trace req L \<longleftrightarrow>
     (\<forall>pre i r post. L = pre @ (TerminateInstances i, r) # post \<longrightarrow> req i \<noteq> [] \<longrightarrow> cancelled pre (req i))"

lemma safe_trace_Nil [simp]: "safe_trace req []"
  by (simp add: safe_trace_def)

lemma safe_trace_snoc:
  "safe_trace req (L @ [(c, r)]) \<longleftrightarrow>
   safe_trace req L \<and> (\<forall>i. c = TerminateInstances i \<longrightarrow> req i \<noteq> [] \<longrightarrow> cancelled L (req i))"
proof
  assume s: "safe_trace req (L @ [(c, r)])"
  have "safe_trace req L"
    unfolding safe_trace_def
  proof (intro allI impI)
    fix pre i q post assume "L = pre @ (TerminateInstances i, q) # post" "req i \<noteq> []"
    then show "cancelled pre (req i)"
      using s [unfolded safe_trace_def, rule_format, of pre i q "post @ [(c, r)]"] by simp
  qed
  then show "safe_trace req L \<and> (\<forall>i. c = TerminateInstances i \<longrightarrow> req i \<noteq> [] \<longrightarrow> cancelled L (req i))"
    using s [unfolded safe_trace_def, rule_format, of L _ r "[]"] by simp
next
  assume s: "safe_trace req L \<and> (\<forall>i. c = TerminateInstances i \<longrightarrow> req i \<noteq> [] \<longrightarrow> cancelled L (req i))"
  show "safe_trace req (L @ [(c, r)])"
    unfolding safe_trace_def
  proof (intro allI impI)
    fix pre i q post assume e: "L @ [(c, r)] = pre @ (TerminateInstances i, q) # post" and n: "req i \<noteq> []"
    show "cancelled pre (req i)"
    proof (cases post rule: rev_cases)
      case Nil
      with e s n show ?thesis by simp
    next
      case (snoc ys y)
      with e have "L = pre @ (TerminateInstances i, q) # ys" by (metis append_Cons append_assoc butlast_snoc)
      with s n show ?thesis unfolding safe_trace_def by blast
    qed
  qed
qed

lemma cancelled_mono: "cancelled L q \<Longrightarrow> prefix L M \<Longrightarrow> cancelled M q"
  unfolding cancelled_def using set_mono_prefix by blast

section \<open>Who holds which instance\<close>

definition ids_of :: "pooled list \<Rightarrow> string list" where
  "ids_of ds = map pd_id ds"

lemma ids_of_simps [simp]:
  "ids_of [] = []" "ids_of (d # ds) = pd_id d # ids_of ds" "ids_of (ds @ ds') = ids_of ds @ ids_of ds'"
  by (simp_all add: ids_of_def)

text \<open>\<open>X\<close>: the instances taken out of the pool; \<open>K\<close>: the ids AWS has handed out.\<close>

definition pool_inv :: "(string \<Rightarrow> string) \<Rightarrow> string set \<Rightarrow> string list \<Rightarrow> Pool \<Rightarrow> bool" where
  "pool_inv req K X p \<longleftrightarrow>
     distinct (ids_of (pl_ready p) @ X) \<and> wf_map (pl_warming p) \<and>
     set (keys (pl_warming p)) \<inter> (set (ids_of (pl_ready p)) \<union> set X) = {} \<and>
     set (ids_of (pl_ready p)) \<union> set (keys (pl_warming p)) \<union> set X \<subseteq> K \<and>
     (\<forall>d \<in> set (pl_ready p). spot_ok req (pd_id d) (pd_spotReq d))"

lemma pool_inv_mono: "pool_inv req K X p \<Longrightarrow> K \<subseteq> K' \<Longrightarrow> pool_inv req K' X p"
  by (auto simp: pool_inv_def)

lemma pool_inv_hand: "pool_inv req K X p \<Longrightarrow> i \<in> K \<Longrightarrow> i \<notin> set (ids_of (pl_ready p)) \<Longrightarrow> i \<notin> set (keys (pl_warming p))
    \<Longrightarrow> i \<notin> set X \<Longrightarrow> pool_inv req K (i # X) p"
  by (auto simp: pool_inv_def)

lemma pool_inv_drop: "pool_inv req K (i # X) p \<Longrightarrow> pool_inv req K X p"
  by (auto simp: pool_inv_def)

lemma pool_inv_fields:
  "pool_inv req K X (p\<lparr>pl_target := n\<rparr>) = pool_inv req K X p"
  "pool_inv req K X (p\<lparr>pl_failures := f\<rparr>) = pool_inv req K X p"
  "pool_inv req K X (p\<lparr>pl_retryAt := t\<rparr>) = pool_inv req K X p"
  "pool_inv req K X (poke p) = pool_inv req K X p"
  "pool_inv req K X (sec_failed u p) = pool_inv req K X p"
  by (simp_all add: pool_inv_def poke_def sec_failed_def Let_def)

lemma pool_inv_claim:
  "sec_claim p = Some (d, q) \<Longrightarrow> pool_inv req K X p \<Longrightarrow>
   pool_inv req K (pd_id d # X) q \<and> spot_ok req (pd_id d) (pd_spotReq d)"
  by (auto simp: sec_claim_def pool_inv_def split: list.splits)

lemma pool_inv_requeue:
  "pool_inv req K (pd_id d # X) p \<Longrightarrow> spot_ok req (pd_id d) (pd_spotReq d) \<Longrightarrow> pool_inv req K X (sec_requeue d p)"
  by (auto simp: sec_requeue_def pool_inv_def)

lemma pool_inv_untrim:
  "pool_inv req K (pd_id d # X) p \<Longrightarrow> spot_ok req (pd_id d) (pd_spotReq d) \<Longrightarrow> pool_inv req K X (sec_untrim d p)"
  by (auto simp: sec_untrim_def pool_inv_def)

lemma pool_inv_trim:
  assumes "sec_trim p = Some (d, q)" "pool_inv req K X p"
  shows "pool_inv req K (pd_id d # X) q \<and> spot_ok req (pd_id d) (pd_spotReq d)"
proof -
  have e: "pl_ready p = pl_ready q @ [d]" "pl_warming q = pl_warming p"
    using assms(1) by (auto simp: sec_trim_def split: if_splits)
  show ?thesis using assms(2) by (auto simp: pool_inv_def e)
qed

lemma take_first_Some: "take_first i ds = Some (d, es) \<Longrightarrow> pd_id d = i \<and> (\<exists>a b. ds = a @ d # b \<and> es = a @ b)"
proof (induction ds arbitrary: es)
  case (Cons x xs)
  show ?case
  proof (cases "pd_id x = i")
    case True
    with Cons.prems have "pd_id d = i \<and> x # xs = [] @ d # xs \<and> es = [] @ xs" by simp
    then show ?thesis by blast
  next
    case False
    with Cons.prems obtain fs where f: "take_first i xs = Some (d, fs)" "es = x # fs"
      by (auto split: option.splits)
    from Cons.IH [OF f(1)] obtain a b where "pd_id d = i" "xs = a @ d # b" "fs = a @ b" by blast
    with f(2) have "pd_id d = i \<and> x # xs = (x # a) @ d # b \<and> es = (x # a) @ b" by simp
    then show ?thesis by blast
  qed
qed simp

lemma pool_inv_take:
  assumes "takeReady i p = Some (d, q)" "pool_inv req K X p"
  shows "pd_id d = i \<and> pool_inv req K (i # X) q \<and> spot_ok req i (pd_spotReq d)"
proof -
  obtain ds where t: "take_first i (pl_ready p) = Some (d, ds)" "q = p\<lparr>pl_ready := ds\<rparr>"
    using assms(1) by (auto simp: takeReady_def split: option.splits)
  from take_first_Some [OF t(1)] obtain a b where "pd_id d = i" "pl_ready p = a @ d # b" "ds = a @ b" by blast
  with assms(2) t(2) show ?thesis by (auto simp: pool_inv_def)
qed

lemma set_keys_mput: "set (keys (mput k v m)) = insert k (set (keys m))"
  by (rule set_eqI) (simp add: set_keys_iff)

lemma set_keys_mdel: "set (keys (mdel k m)) = set (keys m) - {k}"
  by (rule set_eqI) (simp add: set_keys_iff)

lemma pool_inv_warm: "pool_inv req K (i # X) p \<Longrightarrow> pool_inv req K X (sec_warm i t p)"
  by (auto simp: pool_inv_def sec_warm_def set_keys_mput)

lemma pool_inv_forget: "pool_inv req K X p \<Longrightarrow> pool_inv req K X (sec_forget i p)"
  by (auto simp: pool_inv_def sec_forget_def set_keys_mdel)

lemma pool_inv_ready:
  "pool_inv req K X p \<Longrightarrow> i_id i \<in> K \<Longrightarrow> i_id i \<notin> set (ids_of (pl_ready p)) \<Longrightarrow> i_id i \<notin> set X \<Longrightarrow>
   spot_ok req (i_id i) (i_spotReq i) \<Longrightarrow> pool_inv req K X (sec_ready i p)"
  by (auto simp: pool_inv_def sec_ready_def sec_forget_def pooled_of_def set_keys_mdel)

section \<open>The operations keep the invariant\<close>

text \<open>
  \<open>L\<close>: a trace from before, \<open>T\<close>: instances the process tracks, \<open>X\<close>: instances taken out of the pool.
\<close>

definition ec2_ok ::
  "(string \<Rightarrow> string) \<Rightarrow> ('w \<Rightarrow> string set) \<Rightarrow> (aws_call \<times> aws_reply) list \<Rightarrow> string set \<Rightarrow> string list \<Rightarrow> 'w ec2 \<Rightarrow> bool" where
  "ec2_ok req known L T X s \<longleftrightarrow>
     prefix L (trace s) \<and> safe_trace req (trace s) \<and> pool_inv req (known (aws_world s)) X (pl s) \<and>
     T \<subseteq> set (tracked_ids s)"

lemma ec2_okD:
  assumes "ec2_ok req known L T X s"
  shows "prefix L (trace s)" "safe_trace req (trace s)" "pool_inv req (known (aws_world s)) X (pl s)"
    "T \<subseteq> set (tracked_ids s)"
  using assms by (simp_all add: ec2_ok_def)

lemma ec2_ok_here: "ec2_ok req known L T X s \<Longrightarrow> ec2_ok req known (trace s) T X s"
  by (simp add: ec2_ok_def)

lemma ec2_ok_from: "ec2_ok req known M T X s \<Longrightarrow> prefix L M \<Longrightarrow> ec2_ok req known L T X s"
  unfolding ec2_ok_def using prefix_order.trans by blast

lemma ok_pool:
  "ec2_ok req known L T X s \<Longrightarrow> (\<And>K. pool_inv req K X (pl s) \<Longrightarrow> pool_inv req K X' p) \<Longrightarrow>
   ec2_ok req known L T X' (s\<lparr>pl := p\<rparr>)"
  by (simp add: ec2_ok_def)

lemma ok_pool_do:
  "ec2_ok req known L T X s \<Longrightarrow> (\<And>K. pool_inv req K X (pl s) \<Longrightarrow> pool_inv req K X' (f (pl s))) \<Longrightarrow>
   ec2_ok req known L T X' (pool_do f s)"
  by (simp add: ec2_ok_def pool_do_def)

lemma ok_drop: "ec2_ok req known L T (i # X) s \<Longrightarrow> ec2_ok req known L T X s"
  by (auto simp: ec2_ok_def intro: pool_inv_drop)

lemma ok_aws:
  assumes "aws_ok E req known" "ec2_ok req known L T X s"
    and "\<And>i. c = TerminateInstances i \<Longrightarrow> req i = [] \<or> cancelled (trace s) (req i)"
  shows "ec2_ok req known L T X (snd (aws E c s))"
proof -
  note ok = ec2_okD [OF assms(2)]
  have "prefix L (trace s @ [(c, fst (aws E c s))])" using ok(1) by (rule prefix_prefix)
  moreover have "safe_trace req (trace s @ [(c, fst (aws E c s))])"
    using ok(2) assms(3) by (auto simp: safe_trace_snoc)
  moreover have "pool_inv req (known (aws_world (snd (aws E c s)))) X (pl s)"
    by (rule pool_inv_mono [OF ok(3) aws_ok_known [OF assms(1)]])
  ultimately show ?thesis using ok(4) by (simp add: ec2_ok_def)
qed

lemma ok_aws_do:
  "aws_ok E req known \<Longrightarrow> ec2_ok req known L T X s \<Longrightarrow>
   (\<And>i. c = TerminateInstances i \<Longrightarrow> req i = [] \<or> cancelled (trace s) (req i)) \<Longrightarrow>
   ec2_ok req known L T X (snd (aws_do E c s))"
  by (simp add: aws_do_def split_beta ok_aws)

lemma cancelSpot_cancels:
  "fst (cancelSpot E q s) = None \<Longrightarrow> cancelled (trace (snd (cancelSpot E q s))) q"
  by (auto simp: cancelSpot_def aws_do_def split_beta cancelled_def)

lemma ok_cancelSpot:
  "aws_ok E req known \<Longrightarrow> ec2_ok req known L T X s \<Longrightarrow> ec2_ok req known L T X (snd (cancelSpot E q s))"
  unfolding cancelSpot_def by (rule ok_aws_do) auto

lemma ok_cancel_attempts:
  assumes "aws_ok E req known" "ec2_ok req known L T X s"
  shows "ec2_ok req known L T X (snd (cancel_attempts E q as s)) \<and>
         (fst (cancel_attempts E q as s) \<longrightarrow> cancelled (trace (snd (cancel_attempts E q as s))) q)"
  using assms(2)
proof (induction as arbitrary: s)
  case (Cons a as)
  let ?s = "snd (cancelSpot E q s)"
  have s: "ec2_ok req known L T X ?s" by (rule ok_cancelSpot [OF assms(1) Cons.prems])
  have "ec2_ok req known L T X (snd (aws E (Sleep (int (a + 1) * 200 * millisecond)) ?s))"
    by (rule ok_aws [OF assms(1) s]) simp
  with Cons.IH s show ?case
    by (auto simp: split_beta cancelSpot_cancels simp del: of_nat_add split: option.split)
qed simp

lemma ok_discard:
  assumes "aws_ok E req known" "ec2_ok req known L T X s" "spot_ok req i q"
  shows "ec2_ok req known L T X (snd (discard E i q s))"
proof -
  let ?r = "if q \<noteq> [] then cancel_attempts E q [0, 1, 2] s else (True, s)"
  have "ec2_ok req known L T X (snd ?r)" "fst ?r \<Longrightarrow> q \<noteq> [] \<Longrightarrow> cancelled (trace (snd ?r)) q"
    using ok_cancel_attempts [OF assms(1,2), of q "[0, 1, 2]"] assms(2) by simp_all
  moreover from this have "ec2_ok req known L T X (snd (aws_do E (TerminateInstances i) (snd ?r)))" if "fst ?r"
    by (intro ok_aws_do [OF assms(1)]) (use that assms(3) in \<open>auto simp: spot_ok_def\<close>)
  ultimately show ?thesis
    unfolding discard_def split_beta by (auto split: bool.split option.split)
qed

end
