(* ===== verification/EC2_Invariant.thy ===== *)
theory EC2_Invariant
  imports EC2_Machine
begin

text \<open>
  Each operation of the pool, of a launch and of the reaper keeps \<open>ec2_ok\<close>, and so the steps of the
  machine keep the invariant of the system.
\<close>

section \<open>The pool\<close>

lemma ok_trim: "aws_ok E req known \<Longrightarrow> ec2_ok req known L T X s \<Longrightarrow> ec2_ok req known L T X (trim E s)"
proof (induction E s rule: trim.induct)
  case (1 E s)
  show ?case
  proof (cases "ctxDone E (aws_world s) \<or> sec_trim (pl s) = None")
    case True
    with "1.prems" show ?thesis by (subst trim.simps) auto
  next
    case False
    then obtain d p where d: "sec_trim (pl s) = Some (d, p)" by auto
    note tr = pool_inv_trim [OF d]
    have s1: "ec2_ok req known L T (pd_id d # X) (s\<lparr>pl := p\<rparr>)"
      by (rule ok_pool [OF "1.prems"(2)]) (use tr in blast)
    have sp: "spot_ok req (pd_id d) (pd_spotReq d)"
      using tr [OF ec2_okD(3) [OF "1.prems"(2)]] by blast
    obtain b t where bt: "discard E (pd_id d) (pd_spotReq d) (s\<lparr>pl := p\<rparr>) = (b, t)" by fastforce
    have t: "ec2_ok req known L T (pd_id d # X) t"
      using ok_discard [OF "1.prems"(1) s1 sp] by (simp add: bt)
    show ?thesis
    proof (cases b)
      case True
      from "1.IH" [OF _ d refl bt [symmetric]] True False "1.prems"(1) ok_drop [OF t] show ?thesis
        by (subst trim.simps) (simp add: d bt)
    next
      case no: False
      have "ec2_ok req known L T X (pool_do (sec_untrim d) t)"
        by (rule ok_pool_do [OF t]) (rule pool_inv_untrim [OF _ sp])
      with False no show ?thesis by (subst trim.simps) (simp add: d bt)
    qed
  qed
qed

lemma ok_poke: "ec2_ok req known L T X s \<Longrightarrow> ec2_ok req known L T X (pool_do poke s)"
  by (erule ok_pool_do) (simp add: pool_inv_fields)

lemma ok_SetTarget:
  "aws_ok E req known \<Longrightarrow> ec2_ok req known L T X s \<Longrightarrow> ec2_ok req known L T X (SetTarget E n s)"
  unfolding SetTarget_def
  by (auto intro!: ok_poke ok_trim elim!: ok_pool_do simp: pool_inv_fields)

lemma ok_markReady:
  assumes "aws_ok E req known" "ec2_ok req known L T X s"
    and "i_id i \<in> known (aws_world s)" "i_id i \<notin> set (ids_of (pl_ready (pl s)))" "i_id i \<notin> set X"
    and "spot_ok req (i_id i) (i_spotReq i)"
  shows "ec2_ok req known L T X (markReady E i s)"
proof -
  let ?t = "snd (aws_do E (CreateTags (i_id i) ready_tags) s)"
  have t: "ec2_ok req known L T X ?t" by (rule ok_aws_do [OF assms(1,2)]) simp
  have "i_id i \<in> known (aws_world ?t)"
    using aws_ok_known [OF assms(1)] assms(3) by (auto simp: aws_do_def split_beta)
  then have "ec2_ok req known L T X (pool_do (sec_ready i) ?t)"
    using t assms(4-6) by (simp add: ec2_ok_def pool_do_def pool_inv_ready)
  with t show ?thesis by (simp add: markReady_def split_beta split: option.split)
qed

text \<open>The ready list grows only by the instance marked.\<close>

lemma markReady_ready: "set (ids_of (pl_ready (pl (markReady E i s)))) \<subseteq> insert (i_id i) (set (ids_of (pl_ready (pl s))))"
  by (auto simp: markReady_def split_beta pool_do_def sec_ready_def sec_forget_def pooled_of_def split: option.split)

lemma aws_world_pool_do [simp]: "aws_world (pool_do f s) = aws_world s"
  by (simp add: pool_do_def)

lemma known_markReady: "aws_ok E req known \<Longrightarrow> known (aws_world s) \<subseteq> known (aws_world (markReady E i s))"
  using aws_ok_known [of E req known s] by (simp add: markReady_def aws_do_def split_beta split: option.split)

text \<open>
  What a listing entry needs to be handled: it is not ready and in nobody's hands.  Handling another entry
  keeps that.
\<close>

definition can_take :: "(string \<Rightarrow> string) \<Rightarrow> ('w \<Rightarrow> string set) \<Rightarrow> string list \<Rightarrow> 'w ec2 \<Rightarrow> ec2_instance \<Rightarrow> bool" where
  "can_take req known X s i \<longleftrightarrow>
     i_id i \<in> known (aws_world s) \<and> i_id i \<notin> set (ids_of (pl_ready (pl s))) \<and> i_id i \<notin> set X \<and>
     spot_ok req (i_id i) (i_spotReq i)"

lemma can_take_markReady:
  "aws_ok E req known \<Longrightarrow> can_take req known X s j \<Longrightarrow> i_id j \<noteq> i_id i \<Longrightarrow> can_take req known X (markReady E i s) j"
  using known_markReady [of E req known s i] markReady_ready [of E i s] by (auto simp: can_take_def)

lemma ok_warm_new:
  "ec2_ok req known L T X s \<Longrightarrow> can_take req known X s i \<Longrightarrow> ec2_ok req known L T X (pool_do (sec_warm (i_id i) t) s)"
  by (auto simp: ec2_ok_def pool_do_def can_take_def pool_inv_def sec_warm_def set_keys_mput)

lemma can_take_warm: "can_take req known X s j \<Longrightarrow> can_take req known X (pool_do (sec_warm i t) s) j"
  by (simp add: can_take_def pool_do_def sec_warm_def)

lemma ok_discover_each:
  "aws_ok E req known \<Longrightarrow> ec2_ok req known L T X s \<Longrightarrow> \<forall>i \<in> set is. can_take req known X s i \<Longrightarrow>
   distinct (map i_id is) \<Longrightarrow> ec2_ok req known L T X (discover_each E is s)"
proof (induction "is" arbitrary: s)
  case (Cons i "is")
  let ?s = "if tagValue (i_tags i) TagPool \<in> {PoolReady, PoolWarming}
        then (if i_state i = StStopped then markReady E i s else pool_do (sec_warm (i_id i) (i_launched i)) s)
        else s"
  have i: "can_take req known X s i" using Cons.prems(3) by simp
  have "ec2_ok req known L T X ?s"
    using ok_markReady [OF Cons.prems(1,2)] ok_warm_new [OF Cons.prems(2) i] i Cons.prems(2)
    by (simp add: can_take_def)
  moreover have "can_take req known X ?s j" if "j \<in> set is" for j
    using that Cons.prems can_take_markReady [of E req known X s j i] can_take_warm [of req known X s j]
    by (auto simp: image_iff)
  ultimately show ?case using Cons.IH [OF Cons.prems(1), of ?s] Cons.prems(4) by simp
qed simp

lemma ok_discover:
  assumes "aws_ok E req known" "ec2_ok req known L T [] s" "pl_ready (pl s) = []"
  shows "ec2_ok req known L T [] (discover E Op s)"
proof -
  let ?c = "DescribePool (o_Owner Op) (o_Tier Op)"
  let ?t = "snd (aws E ?c s)"
  have t: "ec2_ok req known L T [] ?t" by (rule ok_aws [OF assms(1,2)]) simp
  have "ec2_ok req known L T [] (discover_each E is ?t)" if "fst (aws E ?c s) = Found is" for "is"
    using aws_ok_found [OF assms(1) that] assms(3)
    by (intro ok_discover_each [OF assms(1) t]) (auto simp: listing_ok_def can_take_def)
  with t show ?thesis by (simp add: discover_def split_beta split: aws_reply.split)
qed

lemma ok_forget: "ec2_ok req known L T X s \<Longrightarrow> ec2_ok req known L T X (pool_do (sec_forget i) s)"
  by (erule ok_pool_do) (rule pool_inv_forget)

lemma known_aws_do: "aws_ok E req known \<Longrightarrow> known (aws_world s) \<subseteq> known (aws_world (snd (aws_do E c s)))"
  using aws_ok_known [of E req known s c] by (simp add: aws_do_def split_beta)

lemma known_cancel_attempts:
  "aws_ok E req known \<Longrightarrow> known (aws_world s) \<subseteq> known (aws_world (snd (cancel_attempts E q as s)))"
proof (induction as arbitrary: s)
  case (Cons a as)
  let ?s = "snd (cancelSpot E q s)" and ?c = "Sleep (int (a + 1) * 200 * millisecond)"
  have "known (aws_world s) \<subseteq> known (aws_world ?s)" by (simp add: cancelSpot_def known_aws_do [OF Cons.prems])
  moreover note aws_ok_known [OF Cons.prems, of ?s ?c] Cons.IH [OF Cons.prems, of ?s]
    Cons.IH [OF Cons.prems, of "snd (aws E ?c ?s)"]
  ultimately show ?case by (auto simp: split_beta simp del: of_nat_add split: option.split)
qed simp

lemma known_discard: "aws_ok E req known \<Longrightarrow> known (aws_world s) \<subseteq> known (aws_world (snd (discard E i q s)))"
proof -
  assume a: "aws_ok E req known"
  let ?r = "if q \<noteq> [] then cancel_attempts E q [0, 1, 2] s else (True, s)"
  have "known (aws_world s) \<subseteq> known (aws_world (snd ?r))"
    using known_cancel_attempts [OF a, of s q "[0, 1, 2]"] by simp
  moreover note known_aws_do [OF a, of "snd ?r" "TerminateInstances i"]
  moreover have "snd (discard E i q s) \<in> {snd ?r, snd (aws_do E (TerminateInstances i) (snd ?r))}"
    unfolding discard_def split_beta by (auto split: bool.split option.split)
  ultimately show ?thesis by auto
qed

lemma can_take_discard:
  "aws_ok E req known \<Longrightarrow> can_take req known X s j \<Longrightarrow> can_take req known X (snd (discard E i q s)) j"
  using known_discard [of E req known s i q] by (auto simp: can_take_def)

lemma can_take_forget [simp]: "can_take req known X (pool_do (sec_forget i) s) j = can_take req known X s j"
  by (simp add: can_take_def pool_do_def sec_forget_def)

definition refresh_one :: "'w env \<Rightarrow> ec2_instance \<Rightarrow> 'w ec2 \<Rightarrow> 'w ec2" where
  "refresh_one E i s = refresh_each E [i] s"

lemma refresh_each_Cons: "refresh_each E (i # is) s = refresh_each E is (refresh_one E i s)"
  by (simp add: refresh_one_def)

lemma refresh_one_cases:
  "refresh_one E i s \<in> {markReady E i s, pool_do (sec_forget (i_id i)) s, s, snd (discard E (i_id i) (i_spotReq i) s),
     pool_do (sec_forget (i_id i)) (snd (discard E (i_id i) (i_spotReq i) s))}"
  by (simp add: refresh_one_def split_beta split: instance_state.split bool.split)

lemma ok_refresh_each:
  "aws_ok E req known \<Longrightarrow> ec2_ok req known L T X s \<Longrightarrow> \<forall>i \<in> set is. can_take req known X s i \<Longrightarrow>
   distinct (map i_id is) \<Longrightarrow> ec2_ok req known L T X (refresh_each E is s)"
proof (induction "is" arbitrary: s)
  case (Cons i "is")
  let ?s = "refresh_one E i s" and ?d = "snd (discard E (i_id i) (i_spotReq i) s)"
  have i: "can_take req known X s i" using Cons.prems(3) by simp
  have d: "ec2_ok req known L T X ?d"
    using ok_discard [OF Cons.prems(1,2)] i by (simp add: can_take_def)
  have m: "ec2_ok req known L T X (markReady E i s)"
    using ok_markReady [OF Cons.prems(1,2)] i by (simp add: can_take_def)
  have "ec2_ok req known L T X ?s"
    using refresh_one_cases [of E i s] d m Cons.prems(2) ok_forget by fastforce
  moreover have "can_take req known X ?s j" if j: "j \<in> set is" for j
  proof -
    have s: "can_take req known X s j" using j Cons.prems(3) by simp
    have "i_id j \<in> i_id ` set is" using j by (rule imageI)
    then have n: "i_id j \<noteq> i_id i" using Cons.prems(4) by auto
    from refresh_one_cases [of E i s] can_take_markReady [OF Cons.prems(1) s n]
      can_take_discard [OF Cons.prems(1) s, of "i_id i" "i_spotReq i"] s
    show ?thesis by fastforce
  qed
  ultimately show ?case using Cons.IH [OF Cons.prems(1), of ?s] Cons.prems(4) by (simp add: refresh_each_Cons del: refresh_each.simps)
qed simp

lemma ok_refresh:
  assumes "aws_ok E req known" "ec2_ok req known L T X s"
  shows "ec2_ok req known L T X (refresh_pool E s)"
proof -
  let ?c = "DescribeInstances (keys (pl_warming (pl s)))"
  let ?t = "snd (aws E ?c s)"
  have t: "ec2_ok req known L T X ?t" by (rule ok_aws [OF assms]) simp
  have "ec2_ok req known L T X (refresh_each E is ?t)" if f: "fst (aws E ?c s) = Found is" for "is"
  proof (rule ok_refresh_each [OF assms(1) t])
    have l: "listing_ok req (known (aws_world ?t)) is" by (rule aws_ok_found [OF assms(1) f])
    from l show "distinct (map i_id is)" by (simp add: listing_ok_def)
    have "i_id i \<in> set (keys (pl_warming (pl ?t)))" if "i \<in> set is" for i
      using aws_ok_asked [OF assms(1) f] that by auto
    with l ec2_okD(3) [OF t] show "\<forall>i\<in>set is. can_take req known X ?t i"
      by (fastforce simp: listing_ok_def can_take_def pool_inv_def)
  qed
  with t assms(2) show ?thesis by (simp add: refresh_pool_def Let_def split_beta split: aws_reply.split)
qed

section \<open>Launching an instance\<close>

lemma ok_ami_resolve:
  assumes "aws_ok E req known" "ec2_ok req known L T X s"
  shows "ec2_ok req known L T X (snd (ami_resolve E ref s))"
proof -
  let ?t = "snd (aws E (GetParameter (trim_prefix ref ssm_prefix)) s)"
  have amis: "ec2_ok req known L T X (s\<lparr>amis := a\<rparr>) = ec2_ok req known L T X s" for s :: "'a ec2" and a
    by (simp add: ec2_ok_def)
  have t: "ec2_ok req known L T X ?t" by (rule ok_aws [OF assms]) simp
  have i: "ec2_ok req known L T X (snd (ami_id E ref s))"
    using t assms(2) by (simp add: ami_id_def split_beta split: aws_reply.split option.split)
  have d: "ec2_ok req known L T X (snd (aws E (DescribeImages j) (snd (ami_id E ref s))))" for j
    by (rule ok_aws [OF assms(1) i]) simp
  have "ec2_ok req known L T X (snd (ami_lookup E ref s))"
    using i d by (simp add: ami_lookup_def split_beta amis Let_def split: sum.split aws_reply.split list.split)
  then show ?thesis using assms(2) by (simp add: ami_resolve_def split: option.split)
qed

definition run_ok ::
  "(string \<Rightarrow> string) \<Rightarrow> ('w \<Rightarrow> string set) \<Rightarrow> (aws_call \<times> aws_reply) list \<Rightarrow> string set \<Rightarrow> string list \<Rightarrow> launchKind
     \<Rightarrow> (ec2_error + ec2_instance) option \<Rightarrow> 'w ec2 \<Rightarrow> bool" where
  "run_ok req known L T X kind r s \<longleftrightarrow>
     (case r of
        Some (Inr i) \<Rightarrow> ec2_ok req known L T (i_id i # X) s \<and> (kind = ForJob \<longrightarrow> req (i_id i) = [])
      | _ \<Rightarrow> ec2_ok req known L T X s)"

lemma input_persistent: "persistent (input sha Op name img m t n kind) \<Longrightarrow> kind = ForPool"
  by (auto simp: persistent_def input_def Let_def spot_options_def split: launchKind.splits if_splits)

lemma run_ok_call:
  assumes "aws_ok E req known" "ec2_ok req known L T X s"
    and "fst (aws E (RunInstances (input sha Op name img m t n kind)) s) = Found [i]"
  shows "run_ok req known L T X kind (Some (Inr i)) (snd (aws E (RunInstances (input sha Op name img m t n kind)) s))"
proof -
  let ?inp = "input sha Op name img m t n kind"
  let ?t = "snd (aws E (RunInstances ?inp) s)"
  have t: "ec2_ok req known L T X ?t" by (rule ok_aws [OF assms(1,2)]) simp
  have i: "i_id i \<notin> known (aws_world s)" "persistent ?inp \<or> req (i_id i) = []"
    using aws_ok_run [OF assms(1,3)] by simp_all
  have "i_id i \<in> known (aws_world ?t)"
    using aws_ok_found [OF assms(1,3)] by (simp add: listing_ok_def)
  with i(1) ec2_okD(3) [OF assms(2)] t have "ec2_ok req known L T (i_id i # X) ?t"
    by (auto simp: ec2_ok_def pool_inv_def)
  with i(2) input_persistent show ?thesis by (fastforce simp: run_ok_def)
qed

lemma ok_run_subnets:
  "aws_ok E req known \<Longrightarrow> ec2_ok req known L T X s \<Longrightarrow>
   run_ok req known L T X kind (fst (run_subnets E Op name img kind m t ns lst s))
     (snd (snd (run_subnets E Op name img kind m t ns lst s)))"
proof (induction ns arbitrary: lst s)
  case (Cons n ns)
  let ?c = "RunInstances (input (sha256hex E) Op name img m t n kind)"
  let ?s = "snd (aws E ?c s)"
  have t: "ec2_ok req known L T X ?s" by (rule ok_aws [OF Cons.prems]) simp
  have one: "run_ok req known L T X kind (Some (Inr i)) ?s" if "fst (aws E ?c s) = Found [i]" for i
    by (rule run_ok_call [OF Cons.prems that])
  obtain r u where u: "aws E ?c s = (r, u)" by fastforce
  note here = Cons.IH [OF Cons.prems(1) t] one t Cons.prems(2)
  show ?case
  proof (cases "ctxDone E (aws_world s)")
    case True
    with Cons.prems(2) show ?thesis by (simp add: run_ok_def)
  next
    case going: False
    show ?thesis
    proof (cases r)
      case (Found "is")
      with going here show ?thesis by (cases "is" rule: remdups_adj.cases) (simp_all add: u run_ok_def)
    qed (use going here in \<open>simp_all add: u run_ok_def\<close>)
  qed
qed (simp add: run_ok_def)

lemma run_ok_None [simp]: "run_ok req known L T X kind None s = ec2_ok req known L T X s"
  by (simp add: run_ok_def)

lemma ok_run_types:
  "aws_ok E req known \<Longrightarrow> ec2_ok req known L T X s \<Longrightarrow>
   run_ok req known L T X kind (fst (run_types E Op name img kind m ts lst s))
     (snd (snd (run_types E Op name img kind m ts lst s)))"
proof (induction ts arbitrary: lst s)
  case (Cons t ts)
  obtain r l u where u: "run_subnets E Op name img kind m t (t_Subnets (o_EC2 Op)) lst s = (r, l, u)"
    by (metis prod_cases3)
  have "run_ok req known L T X kind r u" using ok_run_subnets [OF Cons.prems, of kind Op name img m t _ lst] u by (metis fst_conv snd_conv)
  with Cons.IH [OF Cons.prems(1)] show ?case by (cases r) (simp_all add: u)
qed simp

lemma ok_run_markets:
  "aws_ok E req known \<Longrightarrow> ec2_ok req known L T X s \<Longrightarrow>
   run_ok req known L T X kind (fst (run_markets E Op name img kind ms lst s))
     (snd (snd (run_markets E Op name img kind ms lst s)))"
proof (induction ms arbitrary: lst s)
  case (Cons m ms)
  obtain r l u where u: "run_types E Op name img kind m (t_InstanceTypes (o_EC2 Op)) lst s = (r, l, u)"
    by (metis prod_cases3)
  have "run_ok req known L T X kind r u" using ok_run_types [OF Cons.prems, of kind Op name img m _ lst] u by (metis fst_conv snd_conv)
  with Cons.IH [OF Cons.prems(1)] show ?case by (cases r) (simp_all add: u)
qed simp

lemma ok_ec2_run:
  assumes "aws_ok E req known" "ec2_ok req known L T X s" "ec2_run E Op name img kind s = (r, t)"
  shows "case r of Inl _ \<Rightarrow> ec2_ok req known L T X t
    | Inr i \<Rightarrow> ec2_ok req known L T (i_id i # X) t \<and> (kind = ForJob \<longrightarrow> req (i_id i) = [])"
proof -
  obtain q l u where u: "run_markets E Op name img kind (markets (t_Market (o_EC2 Op))) None s = (q, l, u)"
    by (metis prod_cases3)
  have "run_ok req known L T X kind q u"
    using ok_run_markets [OF assms(1,2), of kind Op name img _ None] u by (metis fst_conv snd_conv)
  with assms(3) u show ?thesis
    by (auto simp: ec2_run_def run_ok_def split: option.splits sum.splits)
qed

lemma ok_failed: "ec2_ok req known L T X s \<Longrightarrow> ec2_ok req known L T X (pool_failed E s)"
  unfolding pool_failed_def by (erule ok_pool_do) (simp add: pool_inv_fields)

lemma ok_warm_hand:
  "ec2_ok req known L T (i # X) s \<Longrightarrow> ec2_ok req known L T X (pool_do (sec_warm i t) s)"
  by (erule ok_pool_do) (rule pool_inv_warm)

lemma ok_fill_loop:
  "aws_ok E req known \<Longrightarrow> ec2_ok req known L T X s \<Longrightarrow> ec2_ok req known L T X (fill_loop E Op img names n s)"
proof (induction n arbitrary: s)
  case (Suc n)
  obtain r t where r: "ec2_run E Op (names n) img ForPool s = (r, t)" by fastforce
  note ok = ok_ec2_run [OF Suc.prems r]
  show ?case
  proof (cases r)
    case (Inl e)
    with ok Suc.prems(2) show ?thesis by (simp add: r ok_failed)
  next
    case (Inr i)
    with ok have t: "ec2_ok req known L T (i_id i # X) t" by simp
    have "ec2_ok req known L T X
       (pool_do (\<lambda>p. (sec_warm (i_id i) (Some (now E t)) p)\<lparr>pl_failures := 0\<rparr>) t)"
      by (rule ok_pool_do [OF t]) (simp add: pool_inv_fields pool_inv_warm)
    from Suc.IH [OF Suc.prems(1) this] Inr Suc.prems(2) show ?thesis by (simp add: r)
  qed
qed simp

lemma ok_fill:
  assumes "aws_ok E req known" "ec2_ok req known L T X s"
  shows "ec2_ok req known L T X (fill E Op names s)"
  using ok_ami_resolve [OF assms] ok_fill_loop [OF assms(1)] assms(2)
  by (auto simp: fill_def Let_def split_beta intro!: ok_failed split: sum.split)

section \<open>Claiming\<close>

lemma ok_track: "ec2_ok req known L T X s \<Longrightarrow> ec2_ok req known L (insert i T) X (ec2_track i s)"
  by (auto simp: ec2_ok_def ec2_track_def)

lemma ok_untrack: "ec2_ok req known L T X s \<Longrightarrow> ec2_ok req known L (T - {i}) X (ec2_untrack i s)"
  by (auto simp: ec2_ok_def ec2_untrack_def)

lemma ok_tracked: "ec2_ok req known L T X s \<Longrightarrow> T' \<subseteq> T \<Longrightarrow> ec2_ok req known L T' X s"
  by (auto simp: ec2_ok_def)

lemma ok_rewarm:
  assumes "aws_ok E req known" "ec2_ok req known L T (i # X) s"
  shows "ec2_ok req known L T X (rewarm E i s)"
proof -
  have "ec2_ok req known L T (i # X) (snd (aws_do E (CreateTags i (retag PoolWarming)) s))"
    by (rule ok_aws_do [OF assms]) simp
  then show ?thesis by (simp add: rewarm_def split_beta ok_warm_hand)
qed

lemma ok_back:
  "spot_ok req (pd_id d) (pd_spotReq d) \<Longrightarrow> ec2_ok req known L T (pd_id d # X) s \<Longrightarrow>
   ec2_ok req known L T X (pool_do (sec_requeue d) s)"
  by (erule ok_pool_do) (rule pool_inv_requeue)

lemma ok_requeue:
  assumes "aws_ok E req known" "ec2_ok req known L T (pd_id d # X) s" "spot_ok req (pd_id d) (pd_spotReq d)"
  shows "ec2_ok req known L T X (requeue E d tagged s)"
proof -
  have t: "ec2_ok req known L T (pd_id d # X) (snd (aws_do E (CreateTags (pd_id d) (retag PoolReady)) s))"
    by (rule ok_aws_do [OF assms(1,2)]) simp
  from ok_back [OF assms(3,2)] ok_back [OF assms(3) t] ok_drop [OF t] show ?thesis
    by (simp add: requeue_def split_beta split: option.split)
qed

lemma ok_prepare:
  assumes "aws_ok E req known" "ec2_ok req known L T X s"
  shows "ec2_ok req known L T X (snd (prepare_claim E Op d runner s))"
proof -
  let ?t = "snd (aws_do E (CreateTags (pd_id d) (claimed_tags runner)) s)"
  have t: "ec2_ok req known L T X ?t" by (rule ok_aws_do [OF assms]) simp
  have "ec2_ok req known L T X (snd (aws_do E (SetUserData (pd_id d) (jit_UserData (o_JITURL Op))) ?t))"
    by (rule ok_aws_do [OF assms(1) t]) simp
  with t show ?thesis by (simp add: prepare_claim_def split_beta split: option.split)
qed

definition claim_ok ::
  "(string \<Rightarrow> string) \<Rightarrow> ('w \<Rightarrow> string set) \<Rightarrow> (aws_call \<times> aws_reply) list \<Rightarrow> string set \<Rightarrow> string list
     \<Rightarrow> (ec2_error + pooled) \<Rightarrow> 'w ec2 \<Rightarrow> bool" where
  "claim_ok req known L T X r s \<longleftrightarrow>
     (case r of
        Inl _ \<Rightarrow> ec2_ok req known L T X s
      | Inr d \<Rightarrow> ec2_ok req known L (insert (pd_id d) T) (pd_id d # X) s \<and> spot_ok req (pd_id d) (pd_spotReq d))"

lemma ok_claim_loop:
  "aws_ok E req known \<Longrightarrow> ec2_ok req known L T X s \<Longrightarrow> T \<subseteq> set X \<Longrightarrow>
   claim_ok req known L T X (fst (claim_loop E Op runner s)) (snd (claim_loop E Op runner s))"
proof (induction E Op runner s rule: claim_loop.induct)
  case (1 E Op runner s)
  show ?case
  proof (cases "ctxDone E (aws_world s) \<or> sec_claim (pl s) = None")
    case True
    with "1.prems" show ?thesis by (subst (1 2) claim_loop.simps) (auto simp: claim_ok_def)
  next
    case False
    then obtain d p where d: "sec_claim (pl s) = Some (d, p)" by auto
    note cl = pool_inv_claim [OF d]
    let ?s = "ec2_track (pd_id d) (s\<lparr>pl := p\<rparr>)" and ?T = "insert (pd_id d) T" and ?Y = "pd_id d # X"
    have s1: "ec2_ok req known L T ?Y (s\<lparr>pl := p\<rparr>)" by (rule ok_pool [OF "1.prems"(2)]) (use cl in blast)
    have sp: "spot_ok req (pd_id d) (pd_spotReq d)" using cl [OF ec2_okD(3) [OF "1.prems"(2)]] by blast
    have fresh: "pd_id d \<notin> T" using ec2_okD(3) [OF s1] "1.prems"(3) by (auto simp: pool_inv_def)
    obtain tagged err t where pr: "prepare_claim E Op d runner ?s = ((tagged, err), t)" by (metis surj_pair)
    have t: "ec2_ok req known L ?T ?Y t"
      using ok_prepare [OF "1.prems"(1) ok_track [OF s1, of "pd_id d"], where Op = Op and d = d and runner = runner] by (simp add: pr)
    have T: "ec2_ok req known L T X u" if "ec2_ok req known L ?T X u" for u
      by (rule ok_tracked [OF that]) blast
    have unt: "ec2_ok req known L T X (ec2_untrack (pd_id d) u)" if "ec2_ok req known L ?T X u" for u
      using ok_untrack [OF that, of "pd_id d"] fresh by simp
    have rw: "ec2_ok req known L T X (ec2_untrack (pd_id d) (rewarm E (pd_id d) t))"
      by (rule unt) (rule ok_rewarm [OF "1.prems"(1) t])
    have rd: "ec2_ok req known L T X (ec2_untrack (pd_id d) (snd (discard E (pd_id d) (pd_spotReq d) t)))"
      by (rule unt) (rule ok_drop [OF ok_discard [OF "1.prems"(1) t sp]])
    have rq: "ec2_ok req known L T X (ec2_untrack (pd_id d) (requeue E d tagged t))"
      by (rule unt) (rule ok_requeue [OF "1.prems"(1) t sp])
    show ?thesis
    proof (cases err)
      case None
      with False d pr t sp show ?thesis by (subst (1 2) claim_loop.simps) (simp add: claim_ok_def)
    next
      case (Some e)
      note IH = "1.IH" [OF _ d refl pr [symmetric] refl Some, simplified]
      consider "isCode e incorrectState" | "\<not> isCode e incorrectState" "instanceGone e"
        | "\<not> isCode e incorrectState" "\<not> instanceGone e" by blast
      then show ?thesis
      proof cases
        case 1
        with IH(1) False "1.prems"(1,3) rw d pr Some show ?thesis by (subst (1 2) claim_loop.simps) simp
      next
        case 2
        with IH(2) False "1.prems"(1,3) rd d pr Some show ?thesis by (subst (1 2) claim_loop.simps) simp
      next
        case 3
        with False rq d pr Some show ?thesis by (subst (1 2) claim_loop.simps) (simp add: claim_ok_def)
      qed
    qed
  qed
qed

lemma ok_claim:
  assumes "aws_ok E req known" "ec2_ok req known L T X s" "T \<subseteq> set X" "claim E Op runner s = (r, t)"
  shows "claim_ok req known L T X r t"
  using ok_claim_loop [OF assms(1-3), of Op runner] assms(4)
  by (auto simp: claim_def split_beta claim_ok_def ok_poke split: sum.splits)

lemma ok_check_each:
  "aws_ok E req known \<Longrightarrow> ec2_ok req known L T X s \<Longrightarrow> ec2_ok req known L T X (check_each E st ids s)"
proof (induction ids arbitrary: s)
  case (Cons i ids)
  have one: "ec2_ok req known L T X
      (if gone_state x then (if pd_spotReq d \<noteq> [] then snd (cancelSpot E (pd_spotReq d) (s\<lparr>pl := p\<rparr>)) else s\<lparr>pl := p\<rparr>)
       else rewarm E i (s\<lparr>pl := p\<rparr>))" if t: "takeReady i (pl s) = Some (d, p)" for d p x
  proof -
    have s1: "ec2_ok req known L T (i # X) (s\<lparr>pl := p\<rparr>)"
      by (rule ok_pool [OF Cons.prems(2)]) (use pool_inv_take [OF t] in blast)
    show ?thesis
      using ok_drop [OF s1] ok_rewarm [OF Cons.prems(1) s1]
        ok_cancelSpot [OF Cons.prems(1) ok_drop [OF s1]] by simp
  qed
  show ?case
    using Cons.prems Cons.IH one
    by (auto simp del: if_split split: option.splits instance_state.splits)
qed simp

lemma ok_checkReady:
  assumes "aws_ok E req known" "ec2_ok req known L T X s"
  shows "ec2_ok req known L T X (checkReady E s)"
proof -
  let ?c = "DescribeInstances (map pd_id (pl_ready (pl s)))"
  have "ec2_ok req known L T X (snd (aws E ?c s))" by (rule ok_aws [OF assms]) simp
  with ok_check_each [OF assms(1)] assms(2) show ?thesis
    by (simp add: checkReady_def Let_def split_beta split: aws_reply.split)
qed

lemma ok_pool_pass:
  assumes "aws_ok E req known" "ec2_ok req known L T X s"
  shows "ec2_ok req known L T X (pool_pass E Op names n s)"
  unfolding pool_pass_def
  by (rule ok_fill [OF assms(1)], rule ok_trim [OF assms(1)], rule ok_refresh [OF assms(1)])
    (simp add: assms ok_checkReady)

section \<open>Launches\<close>

definition waiter_ok :: "(string \<Rightarrow> string) \<Rightarrow> (aws_call \<times> aws_reply) list \<Rightarrow> waiter \<Rightarrow> bool" where
  "waiter_ok req L w \<longleftrightarrow>
     req (w_id w) = [] \<or> w_spotReq w = req (w_id w) \<or> cancelled L (req (w_id w))"

lemma waiter_ok_mono: "waiter_ok req L w \<Longrightarrow> prefix L M \<Longrightarrow> waiter_ok req M w"
  by (auto simp: waiter_ok_def dest: cancelled_mono)

lemma waiter_ok_fields [simp]:
  "waiter_ok req L (w\<lparr>w_awaitStart := b\<rparr>) = waiter_ok req L w"
  "waiter_ok req L (begin_terminate t w) = waiter_ok req L w"
  "w_id (begin_terminate t w) = w_id w" "w_spotReq (begin_terminate t w) = w_spotReq w"
  by (simp_all add: waiter_ok_def begin_terminate_def)

lemma trace_aws_do: "trace (snd (aws_do E c s)) = trace s @ [(c, fst (aws E c s))]"
  by (simp add: aws_do_def split_beta)

lemma ok_terminate:
  assumes "aws_ok E req known" "ec2_ok req known L T X s" "waiter_ok req (trace s) w"
    and "terminate E w s = (w', t)"
  shows "ec2_ok req known L T X t \<and> waiter_ok req (trace t) w' \<and> w_id w' = w_id w"
proof -
  let ?w = "begin_terminate (now E s) w" and ?c = "CancelSpot (w_spotReq w)"
  have w: "waiter_ok req (trace s @ l) ?w" for l using waiter_ok_mono [OF assms(3)] by simp
  have ends: "ec2_ok req known L T X (snd (aws_do E (TerminateInstances (w_id w)) u))"
    if "ec2_ok req known L T X u" "req (w_id w) = [] \<or> cancelled (trace u) (req (w_id w))" for u
    by (rule ok_aws_do [OF assms(1) that(1)]) (use that(2) in simp)
  show ?thesis
  proof (cases "w_spotReq w = []")
    case True
    with assms(3) have "req (w_id w) = [] \<or> cancelled (trace s) (req (w_id w))" by (auto simp: waiter_ok_def)
    with ends [OF assms(2)] w assms(4) True show ?thesis
      by (auto simp: terminate_def Let_def trace_aws_do)
  next
    case False
    let ?u = "snd (aws_do E ?c s)"
    have u: "ec2_ok req known L T X ?u" by (rule ok_aws_do [OF assms(1,2)]) simp
    show ?thesis
    proof (cases "fst (aws_do E ?c s)")
      case (Some e)
      with False assms(4) u w show ?thesis by (auto simp: terminate_def Let_def split_beta trace_aws_do)
    next
      case None
      then have c: "cancelled (trace ?u) (w_spotReq w)"
        using cancelSpot_cancels [of E "w_spotReq w" s] by (simp add: cancelSpot_def)
      have d: "req (w_id w) = [] \<or> cancelled (trace ?u) (req (w_id w))"
        using c w [of "[(?c, fst (aws E ?c s))]"] by (auto simp: waiter_ok_def trace_aws_do)
      let ?v = "snd (aws_do E (TerminateInstances (w_id w)) ?u)"
      have "waiter_ok req (trace ?v) (?w\<lparr>w_spotReq := []\<rparr>)"
        using d cancelled_mono [of "trace ?u" "req (w_id w)" "trace ?v"]
        by (auto simp: waiter_ok_def trace_aws_do)
      with ends [OF u d] None False assms(4) show ?thesis
        by (auto simp: terminate_def Let_def split_beta)
    qed
  qed
qed

definition vars_ok :: "(string \<Rightarrow> string) \<Rightarrow> (aws_call \<times> aws_reply) list \<Rightarrow> string \<Rightarrow> wait_vars \<Rightarrow> bool" where
  "vars_ok req L i v \<longleftrightarrow> waiter_ok req L (v_w v) \<and> w_id (v_w v) = i"

lemma ok_v_terminate:
  assumes "aws_ok E req known" "ec2_ok req known L T X s" "vars_ok req (trace s) i v"
  shows "ec2_ok req known L T X (snd (v_terminate E v s)) \<and>
         vars_ok req (trace (snd (v_terminate E v s))) i (fst (v_terminate E v s))"
proof -
  obtain w t where w: "terminate E (v_w v) s = (w, t)" by fastforce
  from ok_terminate [OF assms(1,2) _ w] assms(3) w show ?thesis
    by (simp add: v_terminate_def vars_ok_def)
qed

lemma ok_wait_event:
  assumes "aws_ok E req known" "ec2_ok req known L T X s" "vars_ok req (trace s) i v"
    and "wait_event E Op ip started ev v s = (r, t)"
  shows "ec2_ok req known L T X t \<and> (\<forall>v'. r = Inr v' \<longrightarrow> vars_ok req (trace t) i v')"
proof -
  have fields: "vars_ok req (trace s) i (v\<lparr>v_result := x\<rparr>)" "vars_ok req (trace s) i (v\<lparr>v_seen := b\<rparr>)"
    "vars_ok req (trace s) i (v\<lparr>v_w := (v_w v)\<lparr>w_awaitStart := b\<rparr>\<rparr>)" for x b
    using assms(3) by (simp_all add: vars_ok_def)
  note go = ok_v_terminate [OF assms(1,2)]
  show ?thesis
    using assms(2,4) go [OF assms(3)] go [OF fields(1)] go [OF fields(2)] fields assms(3)
    by (cases ev) (auto simp: wait_state_def wait_tick_def Let_def split_beta split: if_splits)
qed

definition begun_ok ::
  "(string \<Rightarrow> string) \<Rightarrow> ('w \<Rightarrow> string set) \<Rightarrow> (aws_call \<times> aws_reply) list \<Rightarrow> string set \<Rightarrow> string list
     \<Rightarrow> begun \<Rightarrow> 'w ec2 \<Rightarrow> bool" where
  "begun_ok req known L T X b s \<longleftrightarrow>
     (case b of
        Returned _ \<Rightarrow> ec2_ok req known L T X s
      | Stuck \<Rightarrow> True
      | Waiting l \<Rightarrow> ec2_ok req known L (insert (wl_id l) T) (wl_id l # X) s \<and>
                     waiter_ok req (trace s) (v_w (wl_vars l)))"

lemma start_wait_fields [simp]:
  "wl_id (start_wait E ip cause u w s) = w_id w" "v_w (wl_vars (start_wait E ip cause u w s)) = w"
  by (simp_all add: start_wait_def wl_id_def)

lemma new_waiter_fields [simp]: "w_id (new_waiter i b q) = i" "w_spotReq (new_waiter i b q) = q"
  by (simp_all add: new_waiter_def)

lemma ok_jits [simp]: "ec2_ok req known L T X (s\<lparr>jits := j\<rparr>) = ec2_ok req known L T X s"
  by (simp add: ec2_ok_def)

lemma revoke_ok [simp]: "ec2_ok req known L T X (revoke ip s) = ec2_ok req known L T X s" "trace (revoke ip s) = trace s"
  by (simp_all add: revoke_def)

lemma register_ok [simp]:
  "ec2_ok req known L T X (snd (register E ip name jit s)) = ec2_ok req known L T X s"
  by (simp add: register_def split_beta)

lemma ok_give_up:
  assumes "aws_ok E req known" "ec2_ok req known L T (pd_id d # X) s" "spot_ok req (pd_id d) (pd_spotReq d)"
  shows "\<exists>t. give_up E d err s = (Returned err, t) \<and> ec2_ok req known L T X t"
  using ok_drop [OF ok_discard [OF assms]] by (simp add: give_up_def)

lemma ok_start_pooled:
  assumes "aws_ok E req known" "ec2_ok req known L (insert (pd_id d) T) (pd_id d # X) s"
    and "spot_ok req (pd_id d) (pd_spotReq d)" "start_pooled E ip d s = (b, t)"
  shows "case b of Returned _ \<Rightarrow> ec2_ok req known L (insert (pd_id d) T) X t | Stuck \<Rightarrow> False
     | Waiting l \<Rightarrow> wl_id l = pd_id d \<and> begun_ok req known L T X b t"
proof -
  let ?Y = "pd_id d # X" and ?T = "insert (pd_id d) T" and ?c = "StartInstances (pd_id d)"
  obtain a u where a: "aws_do E ?c s = (a, u)" by fastforce
  have u: "ec2_ok req known L ?T ?Y u" using ok_aws_do [OF assms(1,2), of ?c] a by simp
  show ?thesis
  proof (cases a)
    case (Some e)
    from ok_give_up [OF assms(1) u assms(3)] obtain v
      where "give_up E d [ErrPoolStart, AwsErr e] u = (Returned [ErrPoolStart, AwsErr e], v)"
        "ec2_ok req known L ?T X v" by blast
    with assms(4) Some a show ?thesis by (auto simp: start_pooled_def)
  next
    case None
    obtain err v where r: "release_request E d u = (err, v)" by fastforce
    have v: "ec2_ok req known L ?T ?Y v"
      using ok_cancelSpot [OF assms(1) u, of "pd_spotReq d"] u r by (auto simp: release_request_def split: if_splits)
    let ?w = "new_waiter (pd_id d) True (if err = None then [] else pd_spotReq d)"
    have "waiter_ok req (trace v) ?w"
      using assms(3) r cancelSpot_cancels [of E "pd_spotReq d" u]
      by (auto simp: waiter_ok_def spot_ok_def release_request_def split: if_splits)
    moreover from assms(4) None a r have "b = Waiting (start_wait E ip [] False ?w v)" "t = v"
      by (auto simp: start_pooled_def)
    ultimately show ?thesis using v by (simp add: begun_ok_def)
  qed
qed

lemma ok_launchPooled:
  assumes "aws_ok E req known" "ec2_ok req known L T X s" "T \<subseteq> set X"
    and "launchPooled E Op name jit s = (b, t)"
  shows "begun_ok req known L T X b t"
proof -
  obtain r u where r: "claim E Op name s = (r, u)" by fastforce
  note cl = ok_claim [OF assms(1-3) r]
  show ?thesis
  proof (cases r)
    case (Inl e)
    with cl assms(4) show ?thesis by (auto simp: launchPooled_def r claim_ok_def begun_ok_def)
  next
    case (Inr d)
    with cl have u: "ec2_ok req known L (insert (pd_id d) T) (pd_id d # X) u"
      and sp: "spot_ok req (pd_id d) (pd_spotReq d)" by (simp_all add: claim_ok_def)
    have fresh: "pd_id d \<notin> T" using ec2_okD(3) [OF u] assms(3) by (auto simp: pool_inv_def)
    have unt: "ec2_ok req known L T X (ec2_untrack (pd_id d) v)" if "ec2_ok req known L (insert (pd_id d) T) X v" for v
      using ok_untrack [OF that, of "pd_id d"] fresh by simp
    note gu = ok_give_up [OF assms(1) _ sp]
    show ?thesis
    proof (cases "parse_ip (pd_ip d)")
      case (Inl e)
      with gu [OF u, of "ErrPoolStart # e"] unt assms(4) Inr show ?thesis
        by (auto simp: launchPooled_def r untrack_returned_def begun_ok_def)
    next
      case ip: (Inr ip)
      obtain j v where j: "register E ip name jit u = (j, v)" by fastforce
      have v: "ec2_ok req known L (insert (pd_id d) T) (pd_id d # X) v"
        using register_ok [of req known L _ _ E ip name jit u] u by (simp add: j)
      show ?thesis
      proof (cases j)
        case (Some e)
        with gu [OF v, of "[JitErr e]"] unt assms(4) Inr ip show ?thesis
          by (auto simp: launchPooled_def r j untrack_returned_def begun_ok_def)
      next
        case None
        obtain b' t' where st: "start_pooled E ip d v = (b', t')" by fastforce
        from ok_start_pooled [OF assms(1) v sp st] unt assms(4) Inr ip None show ?thesis
          by (cases b') (auto simp: launchPooled_def r j st untrack_returned_def begun_ok_def)
      qed
    qed
  qed
qed

lemma ok_privateIP:
  "aws_ok E req known \<Longrightarrow> ec2_ok req known L T X s \<Longrightarrow>
   ec2_ok req known L T X (snd (privateIP E i wait sel addr s))"
proof (induction sel arbitrary: wait addr s)
  case Nil
  then show ?case by (simp add: privateIP.simps)
next
  case (Cons b sel)
  let ?s = "snd (aws E (Sleep wait) s)" and ?c = "DescribeInstances [i]"
  have "ec2_ok req known L T X ?s" by (rule ok_aws [OF Cons.prems]) simp
  then have t: "ec2_ok req known L T X (snd (aws E ?c ?s))" by (rule ok_aws [OF Cons.prems(1)]) simp
  note IH = Cons.IH [OF Cons.prems(1) t]
  show ?case
  proof (cases "addr = [] \<and> \<not> b")
    case False
    with Cons.prems(2) show ?thesis by (auto simp: privateIP.simps)
  next
    case True
    obtain r u where "aws E ?c ?s = (r, u)" by fastforce
    with True t IH show ?thesis by (cases r) (simp_all add: privateIP.simps [of E i wait])
  qed
qed

lemma ok_follow_new:
  assumes "aws_ok E req known" "ec2_ok req known L (insert (i_id i) T) (i_id i # X) s" "req (i_id i) = []"
    and "follow_new E name jit i sel s = (b, t)"
  shows "begun_ok req known L T X b t"
proof -
  let ?T = "insert (i_id i) T" and ?X = "i_id i # X" and ?w = "new_waiter (i_id i) False []"
  have w: "waiter_ok req M ?w" for M using assms(3) by (simp add: waiter_ok_def)
  have ab: "begun_ok req known L T X (fst (abort E e ?w u)) (snd (abort E e ?w u))"
    if u: "ec2_ok req known L ?T ?X u" for u e
  proof -
    obtain w' v where v: "terminate E ?w u = (w', v)" by fastforce
    from ok_terminate [OF assms(1) u w v] show ?thesis by (simp add: abort_def v begun_ok_def)
  qed
  obtain r u where r: "privateIP E (i_id i) (200 * millisecond) sel (i_ip i) s = (r, u)" by fastforce
  have u: "ec2_ok req known L ?T ?X u"
    using ok_privateIP [OF assms(1,2), of "i_id i" "200 * millisecond" sel "i_ip i"] r by simp
  show ?thesis
  proof (cases r)
    case None
    with assms(4) r show ?thesis by (auto simp: follow_new_def begun_ok_def)
  next
    case (Some q)
    show ?thesis
    proof (cases q)
      case (Inl e)
      with assms(4) r Some ab [OF u, of e] show ?thesis by (simp add: follow_new_def Let_def)
    next
      case (Inr ip)
      obtain j v where j: "register E ip name jit u = (j, v)" by fastforce
      have v: "ec2_ok req known L ?T ?X v"
        using register_ok [of req known L _ _ E ip name jit u] u by (simp add: j)
      show ?thesis
      proof (cases j)
        case None
        with assms(4) r Some Inr j v w show ?thesis by (auto simp: follow_new_def Let_def begun_ok_def)
      next
        case err: (Some e)
        with assms(4) r Some Inr j have "abort E [JitErr e] ?w v = (b, t)"
          by (simp add: follow_new_def Let_def)
        with ab [OF v, of "[JitErr e]"] show ?thesis by simp
      qed
    qed
  qed
qed

lemma ok_launchCold:
  assumes "aws_ok E req known" "ec2_ok req known L T X s" "launchCold E Op name jit sel s = (b, t)"
  shows "begun_ok req known L T X b t"
proof -
  obtain a u where a: "ami_resolve E (t_AMI (o_EC2 Op)) s = (a, u)" by fastforce
  have u: "ec2_ok req known L T X u" using ok_ami_resolve [OF assms(1,2)] a by (metis snd_conv)
  show ?thesis
  proof (cases a)
    case (Inl e)
    with assms(3) a u show ?thesis by (auto simp: launchCold_def begun_ok_def)
  next
    case (Inr img)
    obtain r v where r: "ec2_run E Op name img ForJob u = (r, v)" by fastforce
    note run = ok_ec2_run [OF assms(1) u r]
    show ?thesis
    proof (cases r)
      case (Inl e)
      with run assms(3) a r Inr show ?thesis by (auto simp: launchCold_def begun_ok_def)
    next
      case i: (Inr i)
      with assms(3) a r Inr have "follow_new E name jit i sel (ec2_track (i_id i) v) = (b, t)"
        by (simp add: launchCold_def)
      with run i show ?thesis by (auto intro: ok_follow_new [OF assms(1) ok_track])
    qed
  qed
qed

lemma ok_launch_begin:
  assumes "aws_ok E req known" "ec2_ok req known L T X s" "T \<subseteq> set X"
    and "launch_begin E Op name jit sel s = (b, t)"
  shows "begun_ok req known L T X b t"
proof (cases "keeps_pool Op")
  case False
  with assms(4) ok_launchCold [OF assms(1,2)] show ?thesis by (simp add: launch_begin_def)
next
  case True
  obtain b' u where p: "launchPooled E Op name jit s = (b', u)" by fastforce
  note po = ok_launchPooled [OF assms(1-3) p]
  show ?thesis
  proof (cases b')
    case (Returned err)
    with po have u: "ec2_ok req known L T X u" by (simp add: begun_ok_def)
    from assms(4) p True Returned po ok_launchCold [OF assms(1) u] show ?thesis
      by (auto simp: launch_begin_def split: if_splits)
  qed (use po assms(4) p True in \<open>auto simp: launch_begin_def\<close>)
qed

section \<open>The reaper\<close>

lemma ok_reap:
  assumes "aws_ok E req known" "ec2_ok req known L T X s" "spot_ok req i q"
  shows "ec2_ok req known L T X (snd (reap E ro i q s))"
proof -
  let ?r = "if q \<noteq> [] then aws_do E (CancelSpot q) s else (None, s)"
  have r: "ec2_ok req known L T X (snd ?r)"
    using ok_cancelSpot [OF assms(1,2), of q] assms(2) by (simp add: cancelSpot_def)
  have c: "q \<noteq> [] \<Longrightarrow> fst ?r = None \<Longrightarrow> cancelled (trace (snd ?r)) q"
    using cancelSpot_cancels [of E q s] by (simp add: cancelSpot_def)
  have "ec2_ok req known L T X (snd (aws_do E (TerminateInstances i) (snd ?r)))" if "fst ?r = None"
    by (rule ok_aws_do [OF assms(1) r]) (use that c assms(3) in \<open>auto simp: spot_ok_def\<close>)
  with r assms(2) show ?thesis unfolding reap_def split_beta by (auto split: option.split)
qed

lemma ok_reap_into:
  assumes "aws_ok E req known" "ec2_ok req known L T X s" "spot_ok req (i_id i) (i_spotReq i)"
  shows "ec2_ok req known L T X (snd (reap_into E ro i rep s))"
  using ok_reap [OF assms] by (simp add: reap_into_def split_beta)

lemma ok_judge:
  assumes "aws_ok E req known" "ec2_ok req known L T X s" "spot_ok req (i_id i) (i_spotReq i)"
  shows "ec2_ok req known L T X (snd (judge E ro t i rep s))"
proof -
  have r: "ec2_ok req known L T X (snd (reap_into E ro i rep s))" for rep by (rule ok_reap_into [OF assms])
  let ?c = "Deregister (tagValue (i_tags i) TagTier) (tagValue (i_tags i) TagRunner)"
  obtain e u where u: "aws_do E ?c s = (e, u)" by fastforce
  have ok: "ec2_ok req known L T X u" using ok_aws_do [OF assms(1,2), of ?c] u by simp
  have "ec2_ok req known L T X (snd (reap_into E ro i rep u))" for rep by (rule ok_reap_into [OF assms(1) ok assms(3)])
  with r ok assms(2) show ?thesis
    by (simp add: judge_def Let_def u split: option.split aws_error.split)
qed

lemma ok_judge_all:
  "aws_ok E req known \<Longrightarrow> ec2_ok req known L T X s \<Longrightarrow> \<forall>i \<in> set is. spot_ok req (i_id i) (i_spotReq i) \<Longrightarrow>
   ec2_ok req known L T X (snd (judge_all E ro t is rep s))"
proof (induction "is" arbitrary: rep s)
  case (Cons i "is")
  then have "ec2_ok req known L T X (snd (judge E ro t i rep s))" by (simp add: ok_judge)
  from Cons.IH [OF Cons.prems(1) this] Cons.prems(3) show ?case by (simp add: split_beta)
qed simp

lemma ok_cancel_orphans:
  "aws_ok E req known \<Longrightarrow> ec2_ok req known L T X s \<Longrightarrow>
   ec2_ok req known L T X (snd (cancel_orphans E ro t alive qs rep s))"
proof (induction qs arbitrary: rep s)
  case (Cons q qs)
  obtain e u where u: "aws_do E (CancelSpot (sr_id q)) s = (e, u)" by fastforce
  have "ec2_ok req known L T X u" using ok_aws_do [OF Cons.prems, of "CancelSpot (sr_id q)"] u by simp
  with Cons.prems(2) have "ec2_ok req known L T X (snd (cancel_orphan E ro t alive q rep s))"
    by (simp add: cancel_orphan_def Let_def u split: option.split)
  from Cons.IH [OF Cons.prems(1) this] show ?case by (simp add: split_beta)
qed simp

lemma ok_Sweep:
  assumes "aws_ok E req known" "ec2_ok req known L T X s"
  shows "ec2_ok req known L T X (snd (Sweep E ro s))"
proof -
  obtain r u where u: "aws E (DescribeSpot (ro_Owner ro)) s = (r, u)" by fastforce
  have u_ok: "ec2_ok req known L T X u" using ok_aws [OF assms, of "DescribeSpot (ro_Owner ro)"] u by simp
  obtain r' v where v: "aws E (DescribeOwned (ro_Owner ro)) u = (r', v)" by fastforce
  have v_ok: "ec2_ok req known L T X v" using ok_aws [OF assms(1) u_ok, of "DescribeOwned (ro_Owner ro)"] v by simp
  show ?thesis
  proof (cases "\<exists>qs is. r = FoundRequests qs \<and> r' = Found is")
    case False
    with u_ok v_ok u v show ?thesis by (cases r; cases r') (auto simp: Sweep_def)
  next
    case True
    then obtain qs "is" where f: "r = FoundRequests qs" "r' = Found is" by blast
    have l: "\<forall>i \<in> set is. spot_ok req (i_id i) (i_spotReq i)"
      using aws_ok_found [OF assms(1), of "DescribeOwned (ro_Owner ro)" u "is"] v f by (simp add: listing_ok_def)
    have "ec2_ok req known L T X (snd (judge_all E ro t is rep v))" for t rep
      by (rule ok_judge_all [OF assms(1) v_ok l])
    then show ?thesis by (simp add: Sweep_def u v f Let_def split_beta ok_cancel_orphans [OF assms(1)])
  qed
qed

section \<open>The invariant of the system\<close>

definition ec2_inv :: "'w env \<Rightarrow> (string \<Rightarrow> string) \<Rightarrow> ('w \<Rightarrow> string set) \<Rightarrow> 'w ec2_sys \<Rightarrow> bool" where
  "ec2_inv E req known y \<longleftrightarrow>
     aws_ok E req known \<and>
     ec2_ok req known [] (set (map wl_id (sys_waits y))) (map wl_id (sys_waits y)) (sys_s y) \<and>
     (\<forall>l \<in> set (sys_waits y). waiter_ok req (trace (sys_s y)) (v_w (wl_vars l)))"

lemma ec2_inv_core:
  assumes "ec2_inv E req known y"
    and "\<And>L X. ec2_ok req known L (set X) X (sys_s y) \<Longrightarrow> ec2_ok req known L (set X) X s"
  shows "ec2_inv E req known (y\<lparr>sys_s := s\<rparr>)"
proof -
  have a: "ec2_ok req known [] (set (map wl_id (sys_waits y))) (map wl_id (sys_waits y)) (sys_s y)"
    using assms(1) by (simp add: ec2_inv_def)
  from assms(2) [OF ec2_ok_here [OF a]] have "prefix (trace (sys_s y)) (trace s)" by (rule ec2_okD)
  with assms(1) assms(2) [OF a] show ?thesis
    by (auto simp: ec2_inv_def intro: waiter_ok_mono)
qed

lemma pool_inv_perm: "pool_inv req K X p \<Longrightarrow> set X' \<subseteq> set X \<Longrightarrow> distinct X' \<Longrightarrow> pool_inv req K X' p"
  by (auto simp: pool_inv_def)

lemma ok_tracked_trace [simp]: "trace (ec2_untrack i s) = trace s"
  by (simp add: ec2_untrack_def)

lemma ok_leave:
  assumes "ec2_ok req known L (set (a @ i # b)) (a @ i # b) s"
  shows "ec2_ok req known L (set (a @ b)) (a @ b) (ec2_untrack i s)"
proof -
  note ok = ec2_okD [OF assms]
  have "distinct (a @ i # b)" using ok(3) by (simp add: pool_inv_def)
  moreover from this have "pool_inv req (known (aws_world s)) (a @ b) (pl s)"
    by (intro pool_inv_perm [OF ok(3)]) auto
  ultimately show ?thesis using ok by (auto simp: ec2_ok_def ec2_untrack_def)
qed

lemma ec2_inv_event:
  assumes "ec2_inv E req known y" "sys_waits y = ls @ l # rs"
    and "wait_event E Op ip st ev (wl_vars l) (sys_s y) = (r, s)"
  shows "case r of
      Inr v \<Rightarrow> ec2_inv E req known (y\<lparr>sys_s := s, sys_waits := ls @ l\<lparr>wl_vars := v\<rparr> # rs\<rparr>)
    | Inl _ \<Rightarrow> ec2_inv E req known (y\<lparr>sys_s := finish_wait l s, sys_waits := ls @ rs\<rparr>)"
proof -
  let ?X = "map wl_id (ls @ l # rs)"
  have aws: "aws_ok E req known"
    and a: "ec2_ok req known [] (set ?X) ?X (sys_s y)"
    and w: "\<forall>l \<in> set (ls @ l # rs). waiter_ok req (trace (sys_s y)) (v_w (wl_vars l))"
    using assms(1,2) by (simp_all add: ec2_inv_def)
  have v: "vars_ok req (trace (sys_s y)) (wl_id l) (wl_vars l)" using w by (simp add: vars_ok_def wl_id_def)
  note step = ok_wait_event [OF aws ec2_ok_here [OF a] v assms(3)]
  have p: "prefix (trace (sys_s y)) (trace s)" using step ec2_okD(1) by blast
  then have w': "\<forall>l \<in> set (ls @ l # rs). waiter_ok req (trace s) (v_w (wl_vars l))"
    using w waiter_ok_mono by blast
  have s: "ec2_ok req known [] (set ?X) ?X s" using ec2_ok_from [OF step [THEN conjunct1]] by simp
  show ?thesis
  proof (cases r)
    case (Inr v)
    with step have "vars_ok req (trace s) (wl_id l) v" by simp
    then have "wl_id (l\<lparr>wl_vars := v\<rparr>) = wl_id l" "waiter_ok req (trace s) (v_w v)"
      by (simp_all add: vars_ok_def wl_id_def)
    with aws s w' Inr show ?thesis by (simp add: ec2_inv_def)
  next
    case (Inl e)
    let ?Y = "map wl_id (ls @ rs)" and ?s = "finish_wait l s"
    have "ec2_ok req known [] (set ?Y) ?Y ?s"
      using ok_leave [of req known "[]" "map wl_id ls" "wl_id l" "map wl_id rs"] s
      by (simp add: finish_wait_def)
    moreover have "trace ?s = trace s" by (simp add: finish_wait_def)
    ultimately show ?thesis using aws w' Inl by (simp add: ec2_inv_def)
  qed
qed

lemma ec2_inv_step: "ec2_step E Op lab y z \<Longrightarrow> ec2_inv E req known y \<Longrightarrow> ec2_inv E req known z"
proof (induction rule: ec2_step.induct)
  case (e_pass y names n)
  then have "aws_ok E req known" by (simp add: ec2_inv_def)
  with e_pass show ?case by (intro ec2_inv_core) (auto intro: ok_pool_pass)
next
  case (e_target y n)
  then have "aws_ok E req known" by (simp add: ec2_inv_def)
  with e_target show ?case by (intro ec2_inv_core) (auto intro: ok_SetTarget)
next
  case (e_fail name jit sel y err s)
  then have aws: "aws_ok E req known" by (simp add: ec2_inv_def)
  have "ec2_ok req known L (set X) X s" if "ec2_ok req known L (set X) X (sys_s y)" for L X
    using ok_launch_begin [OF aws that _ e_fail(1)] by (simp add: begun_ok_def)
  with e_fail(2) show ?case by (rule ec2_inv_core)
next
  case (e_begin name jit sel y l s)
  let ?X = "map wl_id (sys_waits y)"
  have aws: "aws_ok E req known" and a: "ec2_ok req known [] (set ?X) ?X (sys_s y)"
    using e_begin(2) by (simp_all add: ec2_inv_def)
  from ok_launch_begin [OF aws ec2_ok_here [OF a] _ e_begin(1)]
  have s: "ec2_ok req known (trace (sys_s y)) (insert (wl_id l) (set ?X)) (wl_id l # ?X) s"
    and w: "waiter_ok req (trace s) (v_w (wl_vars l))" by (simp_all add: begun_ok_def)
  have "\<forall>l \<in> set (sys_waits y). waiter_ok req (trace s) (v_w (wl_vars l))"
    using e_begin(2) ec2_okD(1) [OF s] by (auto simp: ec2_inv_def intro: waiter_ok_mono)
  with w aws ec2_ok_from [OF s, of "[]"] show ?case by (simp add: ec2_inv_def)
next
  case (e_event y ls l rs ev v s)
  from ec2_inv_event [OF e_event(3,1,2)] show ?case by simp
next
  case (e_end y ls l rs ev r s)
  from ec2_inv_event [OF e_end(3,1,2)] show ?case by simp
next
  case (e_sweep ro y rep s)
  then have aws: "aws_ok E req known" by (simp add: ec2_inv_def)
  have "ec2_ok req known L (set X) X s" if "ec2_ok req known L (set X) X (sys_s y)" for L X
    using ok_Sweep [OF aws that, of ro] e_sweep(1) by simp
  with e_sweep(2) show ?case by (rule ec2_inv_core)
next
  case (e_idle y)
  have "ec2_ok req known L T X ((sys_s y)\<lparr>aws_world := passes E (aws_world (sys_s y))\<rparr>)"
    if "ec2_ok req known L T X (sys_s y)" "aws_ok E req known" for L T X
    using that pool_inv_mono [OF _ aws_ok_passes [OF that(2)]] by (auto simp: ec2_ok_def)
  moreover have "aws_ok E req known" using e_idle by (simp add: ec2_inv_def)
  ultimately show ?case using e_idle by (intro ec2_inv_core) simp_all
qed

lemma ec2_inv_init: "aws_ok E req known \<Longrightarrow> ec2_init E Op y \<Longrightarrow> ec2_inv E req known y"
proof -
  assume aws: "aws_ok E req known" and "ec2_init E Op y"
  then obtain w j where y: "y = \<lparr>sys_s = discover E Op (start_ec2 Op w j), sys_waits = []\<rparr>"
    by (auto simp: ec2_init_def)
  have "ec2_ok req known [] {} [] (start_ec2 Op w j)"
    by (simp add: ec2_ok_def start_ec2_def pool_inv_def newPool_def keys_def)
  with ok_discover [OF aws this] aws y show ?thesis
    by (simp add: ec2_inv_def start_ec2_def newPool_def)
qed

interpretation ec2: invariant_system "\<lambda>y. aws_ok E req known \<and> ec2_init E Op y" "ec2_step E Op" "ec2_inv E req known"
  for E Op req known
  by unfold_locales (use ec2_inv_init ec2_inv_step in blast)+

end
