(* ===== verification/EC2_Props.thy ===== *)
theory EC2_Props
  imports EC2_Provisioner EC2_Reaper
begin

text \<open>
  What the operations add to the trace: the walk over the offers, the claim loop and the reaper's decisions.
\<close>

section \<open>The walk over the offers\<close>

text \<open>The offers in the configured order, and the walk as one loop over them.\<close>

definition offers :: "Options \<Rightarrow> (string \<times> string \<times> string) list" where
  "offers Op = concat (map (\<lambda>m. concat (map (\<lambda>t. map (\<lambda>n. (m, t, n)) (t_Subnets (o_EC2 Op)))
                 (t_InstanceTypes (o_EC2 Op)))) (markets (t_Market (o_EC2 Op))))"

definition offer_call :: "'w env \<Rightarrow> Options \<Rightarrow> string \<Rightarrow> image \<Rightarrow> launchKind \<Rightarrow> string \<times> string \<times> string \<Rightarrow> aws_call" where
  "offer_call E Op name img kind q =
     (case q of (m, t, n) \<Rightarrow> RunInstances (input (sha256hex E) Op name img m t n kind))"

definition capacity_reply :: "aws_reply \<Rightarrow> bool" where
  "capacity_reply r \<longleftrightarrow> (case r of Refused e \<Rightarrow> isCapacityErr e | _ \<Rightarrow> False)"

fun run_result :: "aws_reply \<Rightarrow> ec2_error + ec2_instance" where
  "run_result (Refused e) = Inl (AwsErr e)"
| "run_result (Found [i]) = Inr i"
| "run_result (Found is) = Inl (WrongCount (length is))"
| "run_result _ = Inl (WrongCount 0)"

fun walk ::
  "'w env \<Rightarrow> (string \<times> string \<times> string \<Rightarrow> aws_call) \<Rightarrow> (string \<times> string \<times> string) list \<Rightarrow> aws_error option \<Rightarrow> 'w ec2
     \<Rightarrow> (ec2_error + ec2_instance) option \<times> aws_error option \<times> 'w ec2" where
  "walk E f [] lst s = (None, lst, s)"
| "walk E f (q # qs) lst s =
     (if ctxDone E (aws_world s) then (Some (Inl CtxEnded), lst, s)
      else (case aws E (f q) s of
              (r, s) \<Rightarrow> if capacity_reply r then walk E f qs (reply_error r) s else (Some (run_result r), lst, s)))"

lemma walk_append:
  "walk E f (qs @ qs') lst s =
     (case walk E f qs lst s of (Some r, lst, s) \<Rightarrow> (Some r, lst, s) | (None, lst, s) \<Rightarrow> walk E f qs' lst s)"
  by (induction qs arbitrary: lst s) (simp_all split: prod.split)

lemma run_subnets_walk:
  "run_subnets E Op name img kind m t ns lst s = walk E (offer_call E Op name img kind) (map (\<lambda>n. (m, t, n)) ns) lst s"
proof (induction ns arbitrary: lst s)
  case (Cons n ns)
  obtain r u where u: "aws E (RunInstances (input (sha256hex E) Op name img m t n kind)) s = (r, u)" by fastforce
  show ?case
  proof (cases "ctxDone E (aws_world s)")
    case False
    show ?thesis
    proof (cases r)
      case (Found "is")
      with False show ?thesis
        by (cases "is" rule: remdups_adj.cases) (simp_all add: u offer_call_def capacity_reply_def)
    qed (use False Cons.IH in \<open>simp_all add: u offer_call_def capacity_reply_def\<close>)
  qed simp
qed simp

lemma run_types_walk:
  "run_types E Op name img kind m ts lst s =
   walk E (offer_call E Op name img kind) (concat (map (\<lambda>t. map (\<lambda>n. (m, t, n)) (t_Subnets (o_EC2 Op))) ts)) lst s"
  by (induction ts arbitrary: lst s) (simp_all add: run_subnets_walk walk_append split: prod.split option.split)

lemma run_markets_walk:
  "run_markets E Op name img kind ms lst s =
   walk E (offer_call E Op name img kind)
     (concat (map (\<lambda>m. concat (map (\<lambda>t. map (\<lambda>n. (m, t, n)) (t_Subnets (o_EC2 Op))) (t_InstanceTypes (o_EC2 Op)))) ms)) lst s"
  by (induction ms arbitrary: lst s) (simp_all add: run_types_walk walk_append split: prod.split option.split)

text \<open>\<open>asked\<close>: the replies to a first part of the offers, all of them but the last about capacity.\<close>

lemma walk_trace:
  assumes "walk E f qs lst s = (r, l, t)"
  shows "\<exists>rs. length rs \<le> length qs \<and> trace t = trace s @ zip (map f (take (length rs) qs)) rs \<and>
    (case r of
       None \<Rightarrow> length rs = length qs \<and> list_all capacity_reply rs
     | Some res \<Rightarrow> res = Inl CtxEnded \<and> list_all capacity_reply rs \<or>
         (\<exists>rs' x. rs = rs' @ [x] \<and> list_all capacity_reply rs' \<and> \<not> capacity_reply x \<and> res = run_result x))"
  using assms
proof (induction qs arbitrary: lst s)
  case (Cons q qs)
  show ?case
  proof (cases "ctxDone E (aws_world s)")
    case True
    with Cons.prems show ?thesis by (auto intro: exI [of _ "[]"])
  next
    case False
    obtain x u where u: "aws E (f q) s = (x, u)" by fastforce
    have tr: "trace u = trace s @ [(f q, x)]" using aws_frame(4) [of E "f q" s] u by simp
    show ?thesis
    proof (cases "capacity_reply x")
      case True
      with Cons.prems False u have "walk E f qs (reply_error x) u = (r, l, t)" by simp
      from Cons.IH [OF this] obtain rs where rs: "length rs \<le> length qs"
        "trace t = trace u @ zip (map f (take (length rs) qs)) rs"
        "case r of None \<Rightarrow> length rs = length qs \<and> list_all capacity_reply rs
         | Some res \<Rightarrow> res = Inl CtxEnded \<and> list_all capacity_reply rs \<or>
             (\<exists>rs' x. rs = rs' @ [x] \<and> list_all capacity_reply rs' \<and> \<not> capacity_reply x \<and> res = run_result x)"
        by blast
      have "case r of None \<Rightarrow> length (x # rs) = length (q # qs) \<and> list_all capacity_reply (x # rs)
         | Some res \<Rightarrow> res = Inl CtxEnded \<and> list_all capacity_reply (x # rs) \<or>
             (\<exists>rs' y. x # rs = rs' @ [y] \<and> list_all capacity_reply rs' \<and> \<not> capacity_reply y \<and> res = run_result y)"
        using rs(3) True by (cases r) (auto intro: exI [of _ "x # _"])
      with rs(1,2) tr show ?thesis by (intro exI [of _ "x # rs"]) simp
    next
      case no: False
      with Cons.prems False u have "r = Some (run_result x)" "t = u" by auto
      with no tr show ?thesis by (intro exI [of _ "[x]"]) simp
    qed
  qed
qed simp

section \<open>Claiming\<close>

text \<open>Why an instance is skipped: AWS refused a step of its preparation and called it gone or not stopped.\<close>

definition unusable :: "Options \<Rightarrow> string \<Rightarrow> (aws_call \<times> aws_reply) list \<Rightarrow> pooled \<Rightarrow> bool" where
  "unusable Op runner L d \<longleftrightarrow>
     (\<exists>e. instanceGone e \<and>
        ((CreateTags (pd_id d) (claimed_tags runner), Refused e) \<in> set L \<or>
         (SetUserData (pd_id d) (jit_UserData (o_JITURL Op)), Refused e) \<in> set L))"

lemma unusable_mono: "unusable Op runner L d \<Longrightarrow> set L \<subseteq> set M \<Longrightarrow> unusable Op runner M d"
  unfolding unusable_def by blast

lemma reply_errorD: "reply_error r = Some e \<Longrightarrow> r = Refused e"
  by (cases r) auto

lemma prepare_trace:
  assumes "prepare_claim E Op d runner s = ((tagged, err), t)"
  shows "case err of
      None \<Rightarrow> \<exists>r1 r2. trace t = trace s @ [(CreateTags (pd_id d) (claimed_tags runner), r1),
          (SetUserData (pd_id d) (jit_UserData (o_JITURL Op)), r2)] \<and> reply_error r1 = None \<and> reply_error r2 = None
    | Some e \<Rightarrow> (instanceGone e \<longrightarrow> unusable Op runner (trace t) d) \<and> set (trace s) \<subseteq> set (trace t)"
proof -
  let ?c = "CreateTags (pd_id d) (claimed_tags runner)" and ?m = "SetUserData (pd_id d) (jit_UserData (o_JITURL Op))"
  obtain r1 u where u: "aws E ?c s = (r1, u)" by fastforce
  obtain r2 v where v: "aws E ?m u = (r2, v)" by fastforce
  have tu: "trace u = trace s @ [(?c, r1)]" using aws_frame(4) [of E ?c s] u by simp
  have tv: "trace v = trace u @ [(?m, r2)]" using aws_frame(4) [of E ?m u] v by simp
  show ?thesis
  proof (cases "reply_error r1")
    case (Some e)
    with assms u have "err = Some e" "t = u" by (auto simp: prepare_claim_def aws_do_def)
    with tu reply_errorD [OF Some] show ?thesis by (auto simp: unusable_def)
  next
    case None
    with assms u v have e: "err = reply_error r2" "t = v" by (auto simp: prepare_claim_def aws_do_def)
    show ?thesis
    proof (cases "reply_error r2")
      case err: (Some e)
      with e tu tv reply_errorD [OF err] show ?thesis by (auto simp: unusable_def)
    qed (use e tu tv None in simp)
  qed
qed

lemma trace_pool [simp]: "trace (pool_do f s) = trace s" "trace (ec2_track i s) = trace s" "trace (ec2_untrack i s) = trace s"
  by (simp_all add: pool_do_def ec2_track_def ec2_untrack_def)

lemma trace_do [simp]: "trace (snd (aws_do E c s)) = trace s @ [(c, fst (aws E c s))]"
  by (simp add: aws_do_def split_beta)

lemma trace_cancel_attempts: "set (trace s) \<subseteq> set (trace (snd (cancel_attempts E q as s)))"
proof (induction as arbitrary: s)
  case (Cons a as)
  let ?s = "snd (cancelSpot E q s)" and ?c = "Sleep (int (a + 1) * 200 * millisecond)"
  have "set (trace s) \<subseteq> set (trace ?s)" "set (trace ?s) \<subseteq> set (trace (snd (aws E ?c ?s)))"
    by (auto simp: cancelSpot_def)
  with Cons.IH [of ?s] Cons.IH [of "snd (aws E ?c ?s)"] show ?case
    by (auto simp: split_beta simp del: of_nat_add split: option.split)
qed simp

lemma trace_discard: "set (trace s) \<subseteq> set (trace (snd (discard E i q s)))"
proof -
  let ?r = "if q \<noteq> [] then cancel_attempts E q [0, 1, 2] s else (True, s)"
  have "set (trace s) \<subseteq> set (trace (snd ?r))"
    using trace_cancel_attempts [of s E q "[0, 1, 2]"] by (simp del: cancel_attempts.simps)
  moreover have "snd (discard E i q s) \<in> {snd ?r, snd (aws_do E (TerminateInstances i) (snd ?r))}"
    unfolding discard_def split_beta by (auto split: bool.split option.split)
  ultimately show ?thesis by auto
qed

lemma trace_rewarm: "set (trace s) \<subseteq> set (trace (rewarm E i s))"
  by (auto simp: rewarm_def split_beta)

lemma requeue_cases:
  assumes "t = requeue E d tagged s"
  shows "pl_ready (pl t) = d # pl_ready (pl s) \<or>
    pl_ready (pl t) = pl_ready (pl s) \<and> (\<exists>e. (CreateTags (pd_id d) (retag PoolReady), Refused e) \<in> set (trace t))"
proof (cases "\<not> tagged \<or> fst (aws_do E (CreateTags (pd_id d) (retag PoolReady)) s) = None")
  case True
  with assms show ?thesis by (auto simp: requeue_def split_beta pool_do_def sec_requeue_def)
next
  case False
  then obtain e where "fst (aws E (CreateTags (pd_id d) (retag PoolReady)) s) = Refused e"
    by (auto simp: aws_do_def split_beta dest: reply_errorD)
  with False assms show ?thesis by (auto simp: requeue_def split_beta)
qed

lemma trace_requeue: "set (trace s) \<subseteq> set (trace (requeue E d tagged s))"
  by (auto simp: requeue_def split_beta split: option.split)

definition claim_result ::
  "Options \<Rightarrow> string \<Rightarrow> pooled list \<Rightarrow> (ec2_error + pooled) \<Rightarrow> 'w ec2 \<Rightarrow> pooled list \<Rightarrow> bool" where
  "claim_result Op runner ready r t skipped \<longleftrightarrow>
     list_all (unusable Op runner (trace t)) skipped \<and>
     (case r of
        Inr d \<Rightarrow> ready = skipped @ d # pl_ready (pl t) \<and> pd_id d \<in> set (tracked_ids t) \<and>
          (\<exists>L r1 r2. trace t = L @ [(CreateTags (pd_id d) (claimed_tags runner), r1),
             (SetUserData (pd_id d) (jit_UserData (o_JITURL Op)), r2)] \<and> reply_error r1 = None \<and> reply_error r2 = None)
      | Inl (AwsErr e) \<Rightarrow> \<not> instanceGone e \<and>
          (\<exists>d. ready = skipped @ pl_ready (pl t) \<and> pl_ready (pl t) \<noteq> [] \<or>
               ready = skipped @ d # pl_ready (pl t) \<and>
               (\<exists>e'. (CreateTags (pd_id d) (retag PoolReady), Refused e') \<in> set (trace t)))
      | Inl e \<Rightarrow> ready = skipped @ pl_ready (pl t) \<and>
          (e = ErrPoolEmpty \<and> pl_ready (pl t) = [] \<or> e = CtxEnded))"

lemma claim_result_skip:
  "claim_result Op runner ready r t skipped \<Longrightarrow> unusable Op runner (trace t) d \<Longrightarrow>
   claim_result Op runner (d # ready) r t (d # skipped)"
  by (auto simp: claim_result_def split: sum.splits ec2_error.splits)

lemma claim_loop_result:
  "claim_loop E Op runner s = (r, t) \<Longrightarrow>
   set (trace s) \<subseteq> set (trace t) \<and> (\<exists>skipped. claim_result Op runner (pl_ready (pl s)) r t skipped)"
proof (induction E Op runner s rule: claim_loop.induct)
  case (1 E Op runner s)
  show ?case
  proof (cases "ctxDone E (aws_world s) \<or> sec_claim (pl s) = None")
    case True
    with "1.prems" show ?thesis
      by (subst (asm) claim_loop.simps)
        (auto simp: sec_claim_def claim_result_def intro!: exI [of _ "[]"] split: list.splits if_splits)
  next
    case False
    then obtain d p where d: "sec_claim (pl s) = Some (d, p)" by auto
    let ?s = "ec2_track (pd_id d) (s\<lparr>pl := p\<rparr>)"
    obtain tagged err u where pr: "prepare_claim E Op d runner ?s = ((tagged, err), u)" by (metis surj_pair)
    have rest: "pl_ready (pl s) = d # pl_ready p" using d by (auto simp: sec_claim_def split: list.splits)
    have pu: "pl u = p" using prepare_claim_frame(1) [of E Op d runner ?s] pr by simp
    have tr: "tracked_ids u = tracked_ids ?s" using prepare_claim_frame(2) [of E Op d runner ?s] pr by simp
    note pt = prepare_trace [OF pr]
    have skip: "set (trace s) \<subseteq> set (trace t) \<and> (\<exists>skipped. claim_result Op runner (pl_ready (pl s)) r t skipped)"
      if v: "set (trace u) \<subseteq> set (trace v)" "pl_ready (pl v) = pl_ready p"
        and ih: "set (trace v) \<subseteq> set (trace t) \<and> (\<exists>skipped. claim_result Op runner (pl_ready (pl v)) r t skipped)"
        and e: "err = Some e" "instanceGone e" for v e
    proof -
      have "unusable Op runner (trace u) d" "set (trace s) \<subseteq> set (trace u)" using pt e by simp_all
      moreover from this have "unusable Op runner (trace t) d" using v(1) ih unusable_mono by blast
      ultimately show ?thesis using claim_result_skip [of Op runner "pl_ready p" r t _ d] v ih rest by auto
    qed
    show ?thesis
    proof (cases err)
      case None
      with False d pr "1.prems" have "r = Inr d" "t = u" by (auto simp: claim_loop.simps [of E Op runner s])
      moreover have "pd_id d \<in> set (tracked_ids u)" by (simp add: tr ec2_track_def)
      ultimately have "claim_result Op runner (pl_ready (pl s)) r t []" "set (trace s) \<subseteq> set (trace t)"
        using pt None rest pu by (auto simp: claim_result_def)
      then show ?thesis by blast
    next
      case (Some e)
      note IH = "1.IH" [OF _ d refl pr [symmetric] refl Some]
      consider "isCode e incorrectState" | "\<not> isCode e incorrectState" "instanceGone e"
        | "\<not> isCode e incorrectState" "\<not> instanceGone e" by blast
      then show ?thesis
      proof cases
        case 1
        with False d pr Some "1.prems"
        have c: "claim_loop E Op runner (ec2_untrack (pd_id d) (rewarm E (pd_id d) u)) = (r, t)"
          by (auto simp: claim_loop.simps [of E Op runner s])
        show ?thesis
          by (rule skip [OF _ _ IH(1) [OF _ 1 c] Some]) (use 1 False trace_rewarm [of u E "pd_id d"] rest pu in \<open>auto simp: instanceGone_def\<close>)
      next
        case 2
        with False d pr Some "1.prems"
        have c: "claim_loop E Op runner (ec2_untrack (pd_id d) (snd (discard E (pd_id d) (pd_spotReq d) u))) = (r, t)"
          by (auto simp: claim_loop.simps [of E Op runner s])
        show ?thesis
          by (rule skip [OF _ _ IH(2) [OF _ 2 c] Some 2(2)])
            (use False trace_discard [of u E "pd_id d" "pd_spotReq d"] rest pu in auto)
      next
        case 3
        with False d pr Some "1.prems" have r: "r = Inl (AwsErr e)" "t = ec2_untrack (pd_id d) (requeue E d tagged u)"
          by (auto simp: claim_loop.simps [of E Op runner s])
        from requeue_cases [OF refl, of E d tagged u] rest pu r 3(2) pt Some trace_requeue [of u E d tagged]
        have "claim_result Op runner (pl_ready (pl s)) r t []" "set (trace s) \<subseteq> set (trace t)"
          by (auto simp: claim_result_def)
        then show ?thesis by blast
      qed
    qed
  qed
qed

section \<open>The reaper\<close>

text \<open>Every termination in a stretch of the trace has a reason in what precedes it there.\<close>

definition reasoned :: "((aws_call \<times> aws_reply) list \<Rightarrow> string \<Rightarrow> bool) \<Rightarrow> (aws_call \<times> aws_reply) list \<Rightarrow> bool" where
  "reasoned P L \<longleftrightarrow> (\<forall>a j r b. L = a @ (TerminateInstances j, r) # b \<longrightarrow> P a j)"

lemma reasoned_Nil [simp]: "reasoned P []"
  by (simp add: reasoned_def)

lemma reasoned_append:
  assumes "reasoned P L" "reasoned P M" "\<And>a a' j. P a' j \<Longrightarrow> P (a @ a') j"
  shows "reasoned P (L @ M)"
  unfolding reasoned_def
proof (intro allI impI)
  fix a j r b assume "L @ M = a @ (TerminateInstances j, r) # b"
  then consider c where "L = a @ c" "c @ M = (TerminateInstances j, r) # b"
    | c where "a = L @ c" "M = c @ (TerminateInstances j, r) # b"
    by (auto simp: append_eq_append_conv2)
  then show "P a j"
  proof cases
    case (1 c)
    show ?thesis
    proof (cases c)
      case Nil
      with 1 have "P [] j" using assms(2) by (auto simp: reasoned_def)
      with assms(3) [of "[]" j a] show ?thesis by simp
    next
      case (Cons x xs)
      with 1 assms(1) show ?thesis by (auto simp: reasoned_def)
    qed
  qed (use assms(2,3) in \<open>auto simp: reasoned_def\<close>)
qed

definition reap_reason ::
  "ReaperOptions \<Rightarrow> time \<Rightarrow> ec2_instance list \<Rightarrow> string list \<Rightarrow> (aws_call \<times> aws_reply) list \<Rightarrow> string \<Rightarrow> bool" where
  "reap_reason ro t listed tracked a j \<longleftrightarrow>
     \<not> ro_DryRun ro \<and> j \<notin> set tracked \<and>
     (\<exists>x \<in> set listed. i_id x = j \<and>
        (if tagValue (i_tags x) TagPool \<in> {PoolReady, PoolWarming}
         then tagValue (i_tags x) TagTier \<notin> set (ro_PooledTiers ro)
         else aged t (i_launched x) (ro_Grace ro) \<and>
              (i_state x \<in> {StStopped, StStopping} \<or>
               0 < ro_MaxLifetime ro \<and> aged t (i_launched x) (ro_MaxLifetime ro) \<or>
               (\<exists>d. (Deregister (tagValue (i_tags x) TagTier) (tagValue (i_tags x) TagRunner), d) \<in> set a \<and>
                    reply_error d = None))))"

lemma reap_reason_set: "reap_reason ro t is T a j \<Longrightarrow> set a \<subseteq> set b \<Longrightarrow> reap_reason ro t is T b j"
  unfolding reap_reason_def by (auto 0 4 split: if_splits)

lemma reap_reason_mono: "reap_reason ro t is T a' j \<Longrightarrow> reap_reason ro t is T (a @ a') j"
  by (erule reap_reason_set) auto

lemma reap_reason_listed: "reap_reason ro t is T a j \<Longrightarrow> set is \<subseteq> set is' \<Longrightarrow> reap_reason ro t is' T a j"
  unfolding reap_reason_def by blast

lemma reasoned_mono: "reasoned P L \<Longrightarrow> (\<And>a j. P a j \<Longrightarrow> Q a j) \<Longrightarrow> reasoned Q L"
  by (simp add: reasoned_def)

lemma reasoned_single: "(\<And>j. c = TerminateInstances j \<Longrightarrow> P [] j) \<Longrightarrow> reasoned P [(c, r)]"
  by (auto simp: reasoned_def Cons_eq_append_conv)

definition adds :: "((aws_call \<times> aws_reply) list \<Rightarrow> string \<Rightarrow> bool) \<Rightarrow> 'w ec2 \<Rightarrow> 'w ec2 \<Rightarrow> bool" where
  "adds P s t \<longleftrightarrow> tracked_ids t = tracked_ids s \<and> (\<exists>new. trace t = trace s @ new \<and> reasoned P new)"

lemma adds_refl [simp]: "adds P s s"
  by (simp add: adds_def)

lemma adds_trans:
  assumes "adds P s t" "adds P t u" "\<And>a a' j. P a' j \<Longrightarrow> P (a @ a') j"
  shows "adds P s u"
  using assms reasoned_append [of P] unfolding adds_def by (metis append.assoc)

lemma adds_do: "(\<And>j. c = TerminateInstances j \<Longrightarrow> P [] j) \<Longrightarrow> adds P s (snd (aws_do E c s))"
  by (auto simp: adds_def intro: reasoned_single)

lemma adds_reap:
  assumes "\<not> ro_DryRun ro \<Longrightarrow> P [] i" "\<And>a a' j. P a' j \<Longrightarrow> P (a @ a') j"
  shows "adds P s (snd (reap E ro i q s))"
proof -
  let ?r = "if q \<noteq> [] then aws_do E (CancelSpot q) s else (None, s)"
  have r: "adds P s (snd ?r)" using adds_do [of "CancelSpot q" P s E] by simp
  have "adds P (snd ?r) (snd (aws_do E (TerminateInstances i) (snd ?r)))" if "\<not> ro_DryRun ro"
    by (rule adds_do) (use assms(1) [OF that] in simp)
  with adds_trans [OF r _ assms(2)] r show ?thesis
    unfolding reap_def split_beta by (auto split: option.split)
qed

text \<open>
  Deciding one listed instance.  Terminations after the deregistration count it among what precedes them,
  so the reason of the last branch is proved for the stretch as a whole.
\<close>

lemma adds_judge: "adds (reap_reason ro t [x] (tracked_ids s)) s (snd (judge E ro t x rep s))"
proof -
  let ?P = "reap_reason ro t [x] (tracked_ids s)"
  note mono = reap_reason_mono [of ro t "[x]" "tracked_ids s"]
  let ?c = "Deregister (tagValue (i_tags x) TagTier) (tagValue (i_tags x) TagRunner)"
  obtain r u where u: "aws E ?c s = (r, u)" by fastforce
  have tu: "trace u = trace s @ [(?c, r)]" "tracked_ids u = tracked_ids s"
    using aws_frame(2,4) [of E ?c s] u by simp_all
  have here: "adds ?P s (snd (reap_into E ro x rep s))" if "\<not> ro_DryRun ro \<Longrightarrow> ?P [] (i_id x)"
    using adds_reap [of ro ?P "i_id x" s E "i_spotReq x"] that mono by (simp add: reap_into_def split_beta)
  have d: "aws_do E ?c s = (reply_error r, u)" by (simp add: aws_do_def u)
  have asked: "adds ?P s u" using tu by (auto simp: adds_def intro: reasoned_single)
  have removed: "adds ?P s (snd (reap_into E ro x rep u))"
    if ok: "reply_error r = None" "\<not> isLive (i_id x) s" "tagValue (i_tags x) TagPool \<notin> {PoolReady, PoolWarming}"
      "aged t (i_launched x) (ro_Grace ro)"
  proof -
    let ?Q = "\<lambda>a j. ?P ((?c, r) # a) j"
    have "\<not> ro_DryRun ro \<Longrightarrow> ?Q [] (i_id x)"
      using ok by (auto simp: reap_reason_def isLive_def)
    then have "adds ?Q u (snd (reap E ro (i_id x) (i_spotReq x) u))"
      by (rule adds_reap) (auto elim: reap_reason_set)
    then obtain new where n: "trace (snd (reap E ro (i_id x) (i_spotReq x) u)) = trace u @ new"
      "tracked_ids (snd (reap E ro (i_id x) (i_spotReq x) u)) = tracked_ids u" "reasoned ?Q new"
      by (auto simp: adds_def)
    have "reasoned ?P ((?c, r) # new)"
      unfolding reasoned_def by (auto simp: Cons_eq_append_conv n(3) [unfolded reasoned_def])
    with n tu show ?thesis by (auto simp: adds_def reap_into_def split_beta)
  qed
  show ?thesis
  proof (cases "isLive (i_id x) s")
    case True
    then show ?thesis by (simp add: judge_def Let_def)
  next
    case free: False
    then have T: "i_id x \<notin> set (tracked_ids s)" by (simp add: isLive_def)
    show ?thesis
    proof (cases "tagValue (i_tags x) TagPool \<in> {PoolReady, PoolWarming}")
      case True
      have "snd (judge E ro t x rep s) \<in> (if tagValue (i_tags x) TagTier \<in> set (ro_PooledTiers ro) then {s} else {snd (reap_into E ro x rep s)})"
        using True free by (auto simp: judge_def Let_def)
      with here True T show ?thesis by (auto simp: reap_reason_def split: if_splits)
    next
      case job: False
      show ?thesis
      proof (cases "aged t (i_launched x) (ro_Grace ro)")
        case False
        with free job show ?thesis by (simp add: judge_def Let_def)
      next
        case old: True
        let ?now = "i_state x = StStopped \<or> i_state x = StStopping \<or>
          0 < ro_MaxLifetime ro \<and> aged t (i_launched x) (ro_MaxLifetime ro)"
        show ?thesis
        proof (cases ?now)
          case True
          then have "judge E ro t x rep s = reap_into E ro x rep s"
            using free job old by (auto simp: judge_def Let_def)
          moreover have "?P [] (i_id x)" if "\<not> ro_DryRun ro"
            using that True T job old by (auto simp: reap_reason_def)
          ultimately show ?thesis using here by simp
        next
          case False
          then have "snd (judge E ro t x rep s) \<in> (if reply_error r = None then {s, snd (reap_into E ro x rep u)} else {s, u})"
            using free job old by (auto simp: judge_def Let_def d split: option.split aws_error.split)
          with removed [OF _ free job old] asked show ?thesis by (auto split: if_splits)
        qed
      qed
    qed
  qed
qed

lemma adds_judge_all: "adds (reap_reason ro t is (tracked_ids s)) s (snd (judge_all E ro t is rep s))"
proof (induction "is" arbitrary: rep s)
  case (Cons x "is")
  let ?P = "reap_reason ro t (x # is) (tracked_ids s)"
  obtain rep' u where u: "judge E ro t x rep s = (rep', u)" by fastforce
  have one: "adds (reap_reason ro t [x] (tracked_ids s)) s u" using adds_judge [of ro t x s E rep] u by simp
  then have T: "tracked_ids u = tracked_ids s" by (simp add: adds_def)
  have "adds ?P s u"
    using one by (auto simp: adds_def elim!: reasoned_mono reap_reason_listed)
  moreover have "adds ?P u (snd (judge_all E ro t is rep' u))"
    using Cons.IH [of u rep'] T by (auto simp: adds_def elim!: reasoned_mono reap_reason_listed)
  ultimately show ?case
    using adds_trans [of ?P s u] reap_reason_mono [of ro t "x # is" "tracked_ids s"] by (simp add: u)
qed simp

lemma adds_cancel_orphans: "(\<And>a a' j. P a' j \<Longrightarrow> P (a @ a') j) \<Longrightarrow> adds P s (snd (cancel_orphans E ro t alive qs rep s))"
proof (induction qs arbitrary: rep s)
  case (Cons q qs)
  have "snd (cancel_orphan E ro t alive q rep s) \<in> {s, snd (aws_do E (CancelSpot (sr_id q)) s)}"
    by (simp add: cancel_orphan_def Let_def split_beta split: option.split)
  then have "adds P s (snd (cancel_orphan E ro t alive q rep s))"
    using adds_do [of "CancelSpot (sr_id q)" P s E] by auto
  then show ?case
    using adds_trans [OF _ Cons.IH [OF Cons.prems] Cons.prems] by (simp add: split_beta)
qed simp

end
