(* ===== verification/EC2_Claims.thy ===== *)
theory EC2_Claims
  imports EC2_Invariant EC2_Props
begin

text \<open>
  The properties of the EC2 provisioner: instances are terminated only once their spot request cannot
  replace them, an instance is in one place at a time, a claim skips only instances AWS itself calls
  unusable, a launch tries the configured offers in order, and the reaper ends no job.
\<close>

section \<open>A small account\<close>

text \<open>One stopped spot instance in the pool, one orphan with a runner, no capacity for more.\<close>

definition demo_pooled :: ec2_instance where
  "demo_pooled = \<lparr>i_id = ''i-a'', i_state = StStopped, i_ip = ''10.0.0.5'', i_spotReq = ''sir-1'', i_type = ''c8a'',
     i_tags = [(TagTier, ''t''), (TagPool, PoolReady)], i_launched = None\<rparr>"

definition demo_orphan :: ec2_instance where
  "demo_orphan = \<lparr>i_id = ''i-b'', i_state = StRunning, i_ip = ''10.0.0.6'', i_spotReq = [], i_type = ''c8a'',
     i_tags = [(TagTier, ''t''), (TagRunner, ''w'')], i_launched = None\<rparr>"

fun demo_answer :: "aws_call \<Rightarrow> aws_reply" where
  "demo_answer (DescribePool _ _) = Found [demo_pooled]"
| "demo_answer (DescribeOwned _) = Found [demo_pooled, demo_orphan]"
| "demo_answer (DescribeSpot _) = FoundRequests []"
| "demo_answer (DescribeInstances ids) = Found (filter (\<lambda>i. i_id i \<in> set ids) [demo_pooled])"
| "demo_answer (RunInstances _) = Refused (ApiError ''InsufficientInstanceCapacity'')"
| "demo_answer (DescribeImages _) = FoundImages [''/dev/xvda'']"
| "demo_answer _ = Done"

definition demo_env :: "unit env" where
  "demo_env = \<lparr>api = \<lambda>c w. (demo_answer c, w), ctxDone = \<lambda>_. False, wallclock = \<lambda>_. 0, passes = \<lambda>w. w,
               hasSSM = False, sha256hex = \<lambda>x. x\<rparr>"

definition demo_opts :: Options where
  "demo_opts = \<lparr>o_Tier = ''t'', o_Owner = ''o'',
     o_EC2 = \<lparr>t_InstanceTypes = [''c8a'', ''c7a''], t_AMI = ''ami-1'', t_Subnets = [''s1''], t_SecurityGroups = [],
              t_Market = [], t_RootVolumeGiB = 0, t_RootVolumeType = [], t_Pool = 1\<rparr>,
     o_JITURL = ''u'', o_MaxLifetime = 0, o_Pooled = False\<rparr>"

definition demo_req :: "string \<Rightarrow> string" where
  "demo_req i = (if i = ''i-a'' then ''sir-1'' else [])"

definition demo_known :: "unit \<Rightarrow> string set" where
  "demo_known _ = {''i-a'', ''i-b''}"

lemma demo_aws: "aws_ok demo_env demo_req demo_known"
proof -
  have "listing_ok demo_req (demo_known ()) is" if "demo_answer c = Found is" for c "is"
    using that
    by (cases c) (auto simp: listing_ok_def demo_known_def demo_pooled_def demo_orphan_def demo_req_def spot_ok_def split: if_splits)
  moreover have "i_id ` set is \<subseteq> set ids" if "demo_answer (DescribeInstances ids) = Found is" for ids "is"
    using that by (auto split: if_splits)
  ultimately show ?thesis by (simp add: aws_ok_def demo_env_def)
qed

definition demo_start :: "unit ec2_sys" where
  "demo_start = \<lparr>sys_s = discover demo_env demo_opts (start_ec2 demo_opts () (jit_New 0)), sys_waits = []\<rparr>"

lemma demo_start_reach:
  "reach (\<lambda>y. aws_ok demo_env demo_req demo_known \<and> ec2_init demo_env demo_opts y) (ec2_step demo_env demo_opts) demo_start"
  by (rule reach_init) (use demo_aws in \<open>auto simp: ec2_init_def demo_start_def\<close>)

definition demo_begun :: "begun \<times> unit ec2" where
  "demo_begun = launch_begin demo_env demo_opts ''w1'' ''cfg'' [] (sys_s demo_start)"

definition demo_launched :: "unit ec2_sys" where
  "demo_launched = demo_start\<lparr>sys_s := snd demo_begun,
     sys_waits := (case fst demo_begun of Waiting l \<Rightarrow> [l] | _ \<Rightarrow> [])\<rparr>"

lemma demo_launched_reach:
  "reach (\<lambda>y. aws_ok demo_env demo_req demo_known \<and> ec2_init demo_env demo_opts y) (ec2_step demo_env demo_opts) demo_launched"
proof -
  have "case fst demo_begun of Waiting _ \<Rightarrow> True | _ \<Rightarrow> False" by code_simp
  then obtain l where l: "fst demo_begun = Waiting l" by (cases "fst demo_begun") auto
  then have b: "launch_begin demo_env demo_opts ''w1'' ''cfg'' [] (sys_s demo_start) = (Waiting l, snd demo_begun)"
    by (simp add: demo_begun_def prod_eq_iff)
  have "ec2_step demo_env demo_opts (EBegin l) demo_start
      (demo_start\<lparr>sys_s := snd demo_begun, sys_waits := l # sys_waits demo_start\<rparr>)"
    by (rule e_begin [OF b])
  then show ?thesis
    using reach_step [OF demo_start_reach] by (simp add: demo_launched_def l demo_start_def)
qed

section \<open>The properties\<close>

text \<open>
  C22. Whatever the pool's passes, its resizes, the launches and their waiters and the reaper's sweeps do, and
  however they follow each other, \<open>TerminateInstances\<close> is called for an instance with a persistent spot
  request only after a \<open>CancelSpotInstanceRequests\<close> for that request succeeded, so that AWS never launches
  a replacement nobody tracks.
\<close>

theorem terminated_after_cancel:
  assumes "reach (\<lambda>y. aws_ok E req known \<and> ec2_init E Op y) (ec2_step E Op) y"
    and "trace (sys_s y) = pre @ (TerminateInstances i, r) # post" "req i \<noteq> []"
  shows "\<exists>r'. (CancelSpot (req i), r') \<in> set pre \<and> reply_error r' = None"
proof -
  have "safe_trace req (trace (sys_s y))"
    using ec2.reach_inv [OF assms(1)] by (auto simp: ec2_inv_def dest: ec2_okD)
  with assms(2,3) have "cancelled pre (req i)" unfolding safe_trace_def by blast
  then show ?thesis by (simp add: cancelled_def)
qed

definition demo_shrunk :: "unit ec2_sys" where
  "demo_shrunk = demo_start\<lparr>sys_s := SetTarget demo_env 0 (sys_s demo_start)\<rparr>"

lemma terminated_after_cancel_witness:
  "(CancelSpot ''sir-1'', Done) \<in> set (take 3 (trace (sys_s demo_shrunk))) \<and>
   drop 3 (trace (sys_s demo_shrunk)) = [(TerminateInstances ''i-a'', Done)]"
proof -
  have "reach (\<lambda>y. aws_ok demo_env demo_req demo_known \<and> ec2_init demo_env demo_opts y)
      (ec2_step demo_env demo_opts) demo_shrunk"
    unfolding demo_shrunk_def by (rule reach_step [OF demo_start_reach]) (rule e_target)
  note r = terminated_after_cancel [OF this]
  have t: "drop 3 (trace (sys_s demo_shrunk)) = [(TerminateInstances ''i-a'', Done)]" by code_simp
  then have e: "trace (sys_s demo_shrunk) = take 3 (trace (sys_s demo_shrunk)) @ [(TerminateInstances ''i-a'', Done)]"
    by (metis append_take_drop_id)
  from r [OF e] obtain r' where "(CancelSpot ''sir-1'', r') \<in> set (take 3 (trace (sys_s demo_shrunk)))"
    by (auto simp: demo_req_def)
  moreover have "list_all (\<lambda>(c, r). r = Done \<or> (case c of CancelSpot _ \<Rightarrow> False | _ \<Rightarrow> True)) (take 3 (trace (sys_s demo_shrunk)))"
    by code_simp
  ultimately show ?thesis using t by (force simp: list_all_iff)
qed

text \<open>
  C24. A claim takes the first ready instance it can prepare, tagged claimed and with the endpoint written,
  and tracked.  It skips an instance only when AWS refused a step of its preparation and called that
  instance not stopped or not found; any other failure ends the claim with the pool as it was from that
  instance on (or without it, when the tag could not be put back and the reaper takes it).
\<close>

theorem claim_skips_unusable:
  assumes "claim E Op runner s = (r, t)"
  shows "\<exists>skipped. list_all (unusable Op runner (trace t)) skipped \<and>
     (case r of
        Inr d \<Rightarrow> pl_ready (pl s) = skipped @ d # pl_ready (pl t) \<and> pd_id d \<in> set (tracked_ids t) \<and>
          (\<exists>L r1 r2. trace t = L @ [(CreateTags (pd_id d) (claimed_tags runner), r1),
             (SetUserData (pd_id d) (jit_UserData (o_JITURL Op)), r2)] \<and> reply_error r1 = None \<and> reply_error r2 = None)
      | Inl (AwsErr e) \<Rightarrow> \<not> instanceGone e \<and>
          (\<exists>d. pl_ready (pl s) = skipped @ pl_ready (pl t) \<and> pl_ready (pl t) \<noteq> [] \<or>
               pl_ready (pl s) = skipped @ d # pl_ready (pl t) \<and>
               (\<exists>e'. (CreateTags (pd_id d) (retag PoolReady), Refused e') \<in> set (trace t)))
      | Inl e \<Rightarrow> pl_ready (pl s) = skipped @ pl_ready (pl t) \<and>
          (e = ErrPoolEmpty \<and> pl_ready (pl t) = [] \<or> e = CtxEnded))"
proof -
  obtain u where u: "claim_loop E Op runner s = (r, u)" "t = pool_do poke u"
    using assms by (auto simp: claim_def split: prod.splits)
  have e: "pl_ready (pl t) = pl_ready (pl u)" "tracked_ids t = tracked_ids u" "trace t = trace u"
    by (simp_all add: u(2) pool_do_def poke_def)
  have "\<exists>skipped. claim_result Op runner (pl_ready (pl s)) r u skipped"
    using claim_loop_result [OF u(1)] by (rule conjunct2)
  then show ?thesis unfolding claim_result_def e .
qed

lemma claim_skips_unusable_witness:
  "case claim demo_env demo_opts ''w1'' (sys_s demo_start) of
     (Inr d, t) \<Rightarrow> pd_id d = ''i-a'' \<and> pl_ready (pl (sys_s demo_start)) = d # pl_ready (pl t) | _ \<Rightarrow> False"
proof -
  obtain r t where c: "claim demo_env demo_opts ''w1'' (sys_s demo_start) = (r, t)" by fastforce
  have "case claim demo_env demo_opts ''w1'' (sys_s demo_start) of (Inr d, t) \<Rightarrow> pd_id d = ''i-a'' \<and> pl_ready (pl t) = [] | _ \<Rightarrow> False"
    by code_simp
  then obtain d where d: "r = Inr d" "pd_id d = ''i-a''" "pl_ready (pl t) = []"
    using c by (cases r) auto
  have "length (pl_ready (pl (sys_s demo_start))) = 1" by code_simp
  with claim_skips_unusable [OF c] d show ?thesis by (auto simp: c length_Suc_conv)
qed

text \<open>
  A launch asks AWS for the configured offers in order, market by market, then instance type, then
  subnet: it moves on exactly when AWS has no capacity for an offer, gives back the first other answer, and
  reports that there is no capacity only when every offer was refused for it.
\<close>

theorem offers_in_order:
  assumes "ec2_run E Op name img kind s = (r, t)"
  shows "\<exists>rs. length rs \<le> length (offers Op) \<and>
     trace t = trace s @ zip (map (offer_call E Op name img kind) (take (length rs) (offers Op))) rs \<and>
     ((\<exists>e. r = Inl (ErrNoCapacity e)) \<and> length rs = length (offers Op) \<and> list_all capacity_reply rs \<or>
      r = Inl CtxEnded \<and> list_all capacity_reply rs \<or>
      (\<exists>rs' x. rs = rs' @ [x] \<and> list_all capacity_reply rs' \<and> \<not> capacity_reply x \<and> r = run_result x))"
proof -
  obtain q l u where w: "walk E (offer_call E Op name img kind) (offers Op) None s = (q, l, u)" by (metis prod_cases3)
  have "ec2_run E Op name img kind s = (case (q, l, u) of (Some r, _, s) \<Rightarrow> (r, s) | (None, lst, s) \<Rightarrow> (Inl (ErrNoCapacity lst), s))"
    by (simp only: ec2_run_def run_markets_walk offers_def [symmetric] w)
  with assms have "case q of None \<Rightarrow> r = Inl (ErrNoCapacity l) \<and> t = u | Some r' \<Rightarrow> r = r' \<and> t = u"
    by (cases q) auto
  with walk_trace [OF w] show ?thesis by (cases q) auto
qed

lemma run_result_no_capacity: "run_result x \<noteq> Inl (ErrNoCapacity e)"
  by (cases x rule: run_result.cases) auto

lemma offers_in_order_witness:
  "fst (ec2_run demo_env demo_opts ''w'' \<lparr>im_id = ''ami-1'', im_rootDevice = ''d''\<rparr> ForJob (start_ec2 demo_opts () (jit_New 0)))
     = Inl (ErrNoCapacity (Some (ApiError ''InsufficientInstanceCapacity''))) \<and> length (offers demo_opts) = 4"
proof -
  let ?run = "ec2_run demo_env demo_opts ''w'' \<lparr>im_id = ''ami-1'', im_rootDevice = ''d''\<rparr> ForJob (start_ec2 demo_opts () (jit_New 0))"
  obtain r t where rt: "?run = (r, t)" by fastforce
  have e: "fst ?run = Inl (ErrNoCapacity (Some (ApiError ''InsufficientInstanceCapacity'')))" by code_simp
  have n: "length (trace (snd ?run)) = 4" by code_simp
  have r: "r = Inl (ErrNoCapacity (Some (ApiError ''InsufficientInstanceCapacity'')))" using e rt by simp
  from offers_in_order [OF rt] r obtain rs where "length rs = length (offers demo_opts)"
    "trace t = trace (start_ec2 demo_opts () (jit_New 0)) @
       zip (map (offer_call demo_env demo_opts ''w'' \<lparr>im_id = ''ami-1'', im_rootDevice = ''d''\<rparr> ForJob) (take (length rs) (offers demo_opts))) rs"
    by (auto dest: sym [THEN run_result_no_capacity [THEN notE]])
  with n rt have "length (offers demo_opts) = 4" by (simp add: start_ec2_def)
  with e show ?thesis by simp
qed

text \<open>Why a sweep terminates what it does, from the pieces of the walk.\<close>

lemma sweep_reasons:
  assumes "Sweep E ro s = (rep, t)"
    and "tm = wallclock E (aws_world (snd (aws E (DescribeOwned (ro_Owner ro)) (snd (aws E (DescribeSpot (ro_Owner ro)) s)))))"
  shows "\<exists>new. trace t = trace s @ new \<and>
     (\<forall>a j r b. new = a @ (TerminateInstances j, r) # b \<longrightarrow>
        \<not> ro_DryRun ro \<and> j \<notin> set (tracked_ids s) \<and>
        (\<exists>is x. (DescribeOwned (ro_Owner ro), Found is) \<in> set a \<and> x \<in> set is \<and> i_id x = j \<and>
           (if tagValue (i_tags x) TagPool \<in> {PoolReady, PoolWarming}
            then tagValue (i_tags x) TagTier \<notin> set (ro_PooledTiers ro)
            else aged tm (i_launched x) (ro_Grace ro) \<and>
                 (i_state x \<in> {StStopped, StStopping} \<or>
                  0 < ro_MaxLifetime ro \<and> aged tm (i_launched x) (ro_MaxLifetime ro) \<or>
                  (\<exists>d. (Deregister (tagValue (i_tags x) TagTier) (tagValue (i_tags x) TagRunner), d) \<in> set a \<and>
                       reply_error d = None)))))"
proof -
  let ?d1 = "DescribeSpot (ro_Owner ro)" and ?d2 = "DescribeOwned (ro_Owner ro)"
  obtain r u where u: "aws E ?d1 s = (r, u)" by fastforce
  obtain r' v where v: "aws E ?d2 u = (r', v)" by fastforce
  have tu: "trace u = trace s @ [(?d1, r)]" "tracked_ids u = tracked_ids s" using aws_frame(2,4) [of E ?d1 s] u by simp_all
  have tv: "trace v = trace u @ [(?d2, r')]" "tracked_ids v = tracked_ids s"
    using aws_frame(2,4) [of E ?d2 u] v tu by simp_all
  have tm: "now E v = tm" using assms(2) u v by (simp add: now_def)
  show ?thesis
  proof (cases "\<exists>qs is. r = FoundRequests qs \<and> r' = Found is")
    case False
    with assms(1) u v have "t = u \<or> t = v" by (cases r; cases r') (auto simp: Sweep_def)
    with tu tv show ?thesis by (auto simp: append_eq_append_conv2 Cons_eq_append_conv)
  next
    case True
    then obtain qs "is" where f: "r = FoundRequests qs" "r' = Found is" by blast
    let ?P = "reap_reason ro tm is (tracked_ids v)"
    obtain rep1 w where w: "judge_all E ro tm is empty_report v = (rep1, w)" by fastforce
    have "adds ?P v w" using adds_judge_all [of ro tm "is" v E empty_report] w by simp
    moreover have "adds ?P w t"
      using adds_cancel_orphans [of ?P w E ro tm "map i_id is" qs rep1] reap_reason_mono assms(1)
      by (auto simp: Sweep_def u v f w Let_def tm split: prod.splits)
    ultimately have "adds ?P v t" using adds_trans reap_reason_mono by blast
    then obtain new where n: "trace t = trace v @ new" "reasoned ?P new" by (auto simp: adds_def)
    show ?thesis
    proof (intro exI [of _ "(?d1, r) # (?d2, r') # new"] conjI allI impI)
      show "trace t = trace s @ (?d1, r) # (?d2, r') # new" by (simp add: n tu tv)
    next
      fix a j q b assume "(?d1, r) # (?d2, r') # new = a @ (TerminateInstances j, q) # b"
      then obtain c where a: "a = (?d1, r) # (?d2, r') # c" "new = c @ (TerminateInstances j, q) # b"
        by (auto simp: Cons_eq_append_conv)
      from n(2) a(2) have p: "?P c j" unfolding reasoned_def by blast
      show "\<not> ro_DryRun ro" "j \<notin> set (tracked_ids s)" using p tv by (simp_all add: reap_reason_def)
      show "\<exists>is x. (?d2, Found is) \<in> set a \<and> x \<in> set is \<and> i_id x = j \<and>
           (if tagValue (i_tags x) TagPool \<in> {PoolReady, PoolWarming}
            then tagValue (i_tags x) TagTier \<notin> set (ro_PooledTiers ro)
            else aged tm (i_launched x) (ro_Grace ro) \<and>
                 (i_state x \<in> {StStopped, StStopping} \<or>
                  0 < ro_MaxLifetime ro \<and> aged tm (i_launched x) (ro_MaxLifetime ro) \<or>
                  (\<exists>d. (Deregister (tagValue (i_tags x) TagTier) (tagValue (i_tags x) TagRunner), d) \<in> set a \<and>
                       reply_error d = None)))"
        using p unfolding a(1) reap_reason_def f(2) by (auto 0 6 split: if_splits)
    qed
  qed
qed

text \<open>
  C25. The reaper ends no job.  Every instance a sweep terminates was listed as this install's, is tracked by
  no launch of this process, and is either a pool instance of a tier that keeps no pool, or older than the
  grace period and stopped, past the maximum lifetime, or deregistered at GitHub, successfully, earlier in
  the sweep.  A dry run terminates nothing.
\<close>

theorem reaper_ends_no_job:
  assumes "Sweep E ro s = (rep, t)"
    and "tm = wallclock E (aws_world (snd (aws E (DescribeOwned (ro_Owner ro)) (snd (aws E (DescribeSpot (ro_Owner ro)) s)))))"
  shows "\<exists>new. trace t = trace s @ new \<and>
     (\<forall>a j r b. new = a @ (TerminateInstances j, r) # b \<longrightarrow>
        \<not> ro_DryRun ro \<and> j \<notin> set (tracked_ids s) \<and>
        (\<exists>is x. (DescribeOwned (ro_Owner ro), Found is) \<in> set a \<and> x \<in> set is \<and> i_id x = j \<and>
           (if tagValue (i_tags x) TagPool \<in> {PoolReady, PoolWarming}
            then tagValue (i_tags x) TagTier \<notin> set (ro_PooledTiers ro)
            else aged tm (i_launched x) (ro_Grace ro) \<and>
                 (i_state x \<in> {StStopped, StStopping} \<or>
                  0 < ro_MaxLifetime ro \<and> aged tm (i_launched x) (ro_MaxLifetime ro) \<or>
                  (\<exists>d. (Deregister (tagValue (i_tags x) TagTier) (tagValue (i_tags x) TagRunner), d) \<in> set a \<and>
                       reply_error d = None)))))"
  by (rule sweep_reasons [OF assms])

definition demo_reaper :: ReaperOptions where
  "demo_reaper = \<lparr>ro_Owner = ''o'', ro_PooledTiers = [''t''], ro_MaxLifetime = 0, ro_Grace = 120, ro_DryRun = False\<rparr>"

lemma reaper_ends_no_job_witness:
  "drop 3 (trace (snd (Sweep demo_env demo_reaper (start_ec2 demo_opts () (jit_New 0))))) = [(TerminateInstances ''i-b'', Done)] \<and>
   ''i-b'' \<notin> set (tracked_ids (start_ec2 demo_opts () (jit_New 0)))"
proof -
  let ?s = "start_ec2 demo_opts () (jit_New 0)"
  obtain rep t where s: "Sweep demo_env demo_reaper ?s = (rep, t)" by fastforce
  have d: "drop 3 (trace (snd (Sweep demo_env demo_reaper ?s))) = [(TerminateInstances ''i-b'', Done)]" by code_simp
  then have t: "trace t = take 3 (trace t) @ (TerminateInstances ''i-b'', Done) # []" by (metis append_take_drop_id s snd_conv)
  from reaper_ends_no_job [OF s refl] obtain new where "trace t = trace ?s @ new"
    "\<forall>a j r b. new = a @ (TerminateInstances j, r) # b \<longrightarrow> j \<notin> set (tracked_ids ?s)" by blast
  then have "''i-b'' \<notin> set (tracked_ids ?s)" using t by (simp add: start_ec2_def)
  with d show ?thesis by simp
qed

end
