(* ===== verification/Isolation.thy ===== *)
theory Isolation
  imports Identity_Claims Cache_Claims
begin

text \<open>
  The registry and the cache server together: the daemon writes the records, the server reads them
  through the directory at each of its polls, and what it serves is what the record of the connection's
  address allows at that moment.
\<close>

section \<open>The directory the two processes share\<close>

text \<open>
  The directory is private to the daemon's user (0750, as \<open>NewRegistry\<close> makes it), every record is a regular file of mode 0640
  that \<open>write\<close> renamed into place, and a path names the record of its address.
\<close>

definition record_at :: "Registry \<Rightarrow> string \<Rightarrow> Identity option" where
  "record_at r p = (if has_suffix p ''.json'' then mlookup (files r) (take (length p - 5) p) else None)"

definition record_stat :: "int \<Rightarrow> file_stat" where
  "record_stat uid = \<lparr>fkind = RegularFile, fuid = uid, fperm = 416\<rparr>"

definition registry_view :: "int \<Rightarrow> Registry \<Rightarrow> job_view" where
  "registry_view uid r =
     \<lparr>dir_stat = Some \<lparr>fkind = Directory, fuid = uid, fperm = 488\<rparr>,
      rec_stat = (\<lambda>p. map_option (\<lambda>_. record_stat uid) (record_at r p)),
      rec_open = (\<lambda>p. map_option (\<lambda>i. (record_stat uid, True, Some i)) (record_at r p))\<rparr>"

text \<open>A poll at the time \<open>t\<close> sees the registry as it is then.\<close>

definition registry_lookup :: "int \<Rightarrow> (time \<Rightarrow> Registry) \<Rightarrow> lookup" where
  "registry_lookup uid h t host = Lookup uid (registry_view uid (h t)) t host"

lemma record_at_path: "record_at r (record_path ip) = mlookup (files r) ip"
  by (simp add: record_at_def record_path_def suffix_def)

lemma trusted_modes:
  "trusted uid (record_stat uid)" "trusted uid \<lparr>fkind = Directory, fuid = uid, fperm = 488\<rparr>"
  by (simp_all add: trusted_def record_stat_def)

text \<open>The reader gets exactly the record on file under the caller's address.\<close>

lemma registry_lookup_eq:
  "registry_lookup uid h t host =
     (case unmap4 host of
        None \<Rightarrow> (noIdentity, Some InvalidAddress)
      | Some ip \<Rightarrow>
        (case mlookup (files (h t)) ip of
           None \<Rightarrow> (noIdentity, Some NoRecord)
         | Some f \<Rightarrow> if IP f \<noteq> ip then (noIdentity, Some AddressMismatch) else (f, Validate f t)))"
  using trusted_modes [of uid]
  by (simp add: registry_lookup_def Lookup_def registry_view_def record_at_path record_stat_def split: option.splits)

lemma registry_lookup_record:
  assumes "registry_lookup uid h t host = (f, None)"
  obtains ip where "unmap4 host = Some ip" "mlookup (files (h t)) ip = Some f" "IP f = ip"
  using assms unfolding registry_lookup_eq by (auto split: option.splits if_splits)

lemma for_job_lower: "for_job j f \<Longrightarrow> to_lower (Repository f) = to_lower (jRepository j)"
  by (simp add: for_job_def equal_fold_def)

lemma granted_has_rights: "Validate f now = None \<Longrightarrow> has_rights f"
  by (simp add: Validate_None has_rights_def)

section \<open>Isolation from the control plane to the bytes\<close>

text \<open>
  C1. For every history of the registry, whatever bytes a download serves are those of a complete entry
  of the repository and of a read ref of the record that was on file, at one of the request's polls,
  under the caller's address; and if a VM holds a lease on that address at that poll, then the control
  plane has started a job on that VM, the entry belongs to that job's repository, and a connection bound
  to a generation is bound to that VM's.
\<close>

theorem tenant_isolation:
  assumes h: "\<And>t. reach registry_init (registry_step github_answer) (h t)"
    and served: "fst (handleDownload ident sig
      (server_identity (Some (registry_lookup uid h)) v start poll polls) s) = Content b"
  shows "\<exists>t ip f k e. t \<in> fst ` set (poll # polls) \<and> Option.bind (vhost v) unmap4 = Some ip \<and>
    mlookup (files (h t)) ip = Some f \<and> parse_uint64 ident = Some k \<and> mlookup (entries s) k = Some e \<and>
    sig = eSig e \<and> eComplete e \<and> mlookup (blobs s) (eID e) = Some b \<and>
    eRepoID e = to_lower (Repository f) \<and> eRef e \<in> set (ReadRefs f) \<and>
    (\<forall>n l. mlookup (leases (h t)) n = Some l \<longrightarrow> IP (identity l) = ip \<longrightarrow>
       (vbound v = None \<or> vbound v = Some (Generation (identity l))) \<and>
       (\<exists>j. lcancel l = Some j \<and> jRunner j = n \<and> for_job j f \<and> eRepoID e = to_lower (jRepository j)))"
proof -
  obtain e s' where a: "authEntry False ident sig (server_identity (Some (registry_lookup uid h)) v start poll polls) s = (Inr e, s')"
    and b: "mlookup (blobs s') (eID e) = Some b"
    using served by (auto simp: handleDownload_def split: prod.splits sum.splits option.splits)
  from a obtain k i where k: "parse_uint64 ident = Some k" "mlookup (entries s) k = Some e" "sig = eSig e"
    and i: "server_identity (Some (registry_lookup uid h)) v start poll polls s = (i, s')" "eComplete e"
      "eRepoID e = Repository i" "CanRead i (eRef e)"
    by (rule authEntry_Inr) auto
  have "WriteRef i \<noteq> [] \<or> ReadRefs i \<noteq> []" using i(4) by (auto simp: CanRead_iff)
  from server_identity_granted [OF i(1) this] obtain host f where host: "vhost v = Some host"
    and g: "granted_by (registry_lookup uid h) (vbound v) host (poll # polls) f"
    and if': "i = f\<lparr>Repository := to_lower (Repository f)\<rparr>" by (metis option.inject)
  from g obtain t now where t: "(t, now) \<in> set (poll # polls)" "registry_lookup uid h t host = (f, None)"
    and val: "Validate f now = None" and bd: "vbound v = None \<or> vbound v = Some (Generation f)"
    unfolding granted_by_def by blast
  from registry_lookup_record [OF t(2)] obtain ip where ip: "unmap4 host = Some ip" "mlookup (files (h t)) ip = Some f" by metis
  have lease: "(vbound v = None \<or> vbound v = Some (Generation (identity l))) \<and>
      (\<exists>j. lcancel l = Some j \<and> jRunner j = n \<and> for_job j f \<and> eRepoID e = to_lower (jRepository j))"
    if l: "mlookup (leases (h t)) n = Some l" "IP (identity l) = ip" for n l
  proof -
    have fo: "file_ok n l f" using github.record_rights [OF h l(1)] ip(2) l(2) by simp
    then obtain j where j: "lcancel l = Some j" "for_job j f"
      using granted_has_rights [OF val] unfolding file_ok_def by blast
    have "lease_ok n l"
      using github.registry.reach_inv [OF h] l(1) unfolding registry_inv_def leases_in_order_def by blast
    with j have "jRunner j = n" unfolding lease_ok_def by blast
    moreover have "eRepoID e = to_lower (jRepository j)" using i(3) if' for_job_lower [OF j(2)] by simp
    ultimately show ?thesis using j bd fo unfolding file_ok_def by metis
  qed
  have "t \<in> fst ` set (poll # polls)" using t(1) by force
  moreover have "mlookup (blobs s) (eID e) = Some b"
    using b identity_fields(2) [of "Some (registry_lookup uid h)" v start poll polls s] i(1) by simp
  moreover have "Option.bind (vhost v) unmap4 = Some ip" using host ip(1) by simp
  moreover have "eRepoID e = to_lower (Repository f)" "eRef e \<in> set (ReadRefs f)"
    using i(3,4) if' by (simp_all add: CanRead_iff)
  ultimately show ?thesis using ip(2) k i(2) lease by blast
qed

text \<open>The VM \<open>w\<close> of the job of \<open>o/r\<close> reads an entry of \<open>o/r\<close> while its record is on file.\<close>

definition demo_conn :: visitor where
  "demo_conn = \<lparr>vhost = Some ''10.0.0.2'', vbound = Some ''g''\<rparr>"

lemma demo_registry_lookup:
  "registry_lookup 0 (\<lambda>_. demo_reg3) 0 ''10.0.0.2'' =
     (demo_identity\<lparr>IP := ''10.0.0.2'', Runner := ''w'', Generation := ''g'', ExpiresAt := 90\<rparr>, None)"
proof -
  have "unmap4 ''10.0.0.2'' = Some ''10.0.0.2''"
    "Validate (demo_identity\<lparr>IP := ''10.0.0.2'', Runner := ''w'', Generation := ''g'', ExpiresAt := 90\<rparr>) 0 = None"
    by code_simp+
  then show ?thesis by (simp add: registry_lookup_eq demo_regs(3))
qed

lemma demo_tenant_download:
  "fst (handleDownload ''1'' ''s'' (server_identity (Some (registry_lookup 0 (\<lambda>_. demo_reg3))) demo_conn 0 (0, 0) []) demo_store) =
     Content ''AA''"
proof -
  let ?i = "demo_identity\<lparr>IP := ''10.0.0.2'', Runner := ''w'', Generation := ''g'', ExpiresAt := 90\<rparr>"
  have w: "server_identity (Some (registry_lookup 0 (\<lambda>_. demo_reg3))) demo_conn 0 (0, 0) [] demo_store = (?i, demo_store)"
  proof -
    have "Validate ?i 0 = None" "to_lower (Repository ?i) = Repository ?i" by code_simp+
    then show ?thesis
      by (simp add: server_identity_def demo_conn_def awaitIdentity.simps demo_registry_lookup demo_identity_def noIdentity_def
          demo_store_def emptyServer_def)
  qed
  have l: "mlookup (entries demo_store) 1 = Some (demo_entry 1 ''go-a'' 5)" "mlookup (blobs demo_store) 1 = Some ''AA''"
    by code_simp+
  have "authEntry False ''1'' ''s'' (server_identity (Some (registry_lookup 0 (\<lambda>_. demo_reg3))) demo_conn 0 (0, 0) []) demo_store =
      (Inr (demo_entry 1 ''go-a'' 5), demo_store)"
    unfolding authEntry_def parse_demo_id option.case l w prod.case
    by (simp add: demo_entry_def demo_identity_def CanRead_def)
  moreover have "eID (demo_entry 1 ''go-a'' 5) = 1" by (simp add: demo_entry_def)
  ultimately show ?thesis using l(2) by (simp add: handleDownload_def)
qed

lemma tenant_isolation_witness:
  "\<exists>e. mlookup (entries demo_store) 1 = Some e \<and> eRepoID e = to_lower (jRepository demo_job) \<and>
     mlookup (blobs demo_store) (eID e) = Some ''AA''"
proof -
  obtain t ip f k e where e: "parse_uint64 ''1'' = Some k" "mlookup (entries demo_store) k = Some e"
      "mlookup (blobs demo_store) (eID e) = Some ''AA''" "Option.bind (vhost demo_conn) unmap4 = Some ip"
    and l: "\<And>n l. mlookup (leases demo_reg3) n = Some l \<Longrightarrow> IP (identity l) = ip \<Longrightarrow>
       \<exists>j. lcancel l = Some j \<and> jRunner j = n \<and> for_job j f \<and> eRepoID e = to_lower (jRepository j)"
    using tenant_isolation [OF demo_reach3 demo_tenant_download] by blast
  have "Option.bind (vhost demo_conn) unmap4 = Some ''10.0.0.2''" by code_simp
  with e(4) have ip: "ip = ''10.0.0.2''" by simp
  have "eRepoID e = to_lower (jRepository demo_job)" using l [OF demo_regs(4)] ip by simp
  with e show ?thesis by (auto simp: parse_demo_id)
qed

end
