(* ===== verification/Addresses.thy ===== *)
theory Addresses
  imports Egress
begin

text \<open>
  The parts of Go's \<open>net/netip\<close> and \<open>net/url\<close> that the configuration and the proxies read addresses
  with.  \<open>netip\<close> is written out: IPv4 and IPv6 addresses with their zones, and address-port pairs.  Of
  \<open>url.Parse\<close> the callers use only the outcome; it is a parameter that gives the parts of a parsed URL.
\<close>

section \<open>Addresses\<close>

text \<open>The four octets of an IPv4 address, or the eight groups of an IPv6 address and its zone.\<close>

datatype addr = A4 "nat list" | A6 "nat list" string

definition hex_val :: "char \<Rightarrow> nat option" where
  "hex_val c =
     (let n = (of_char c :: nat) in
      if 48 \<le> n \<and> n \<le> 57 then Some (n - 48)
      else if 97 \<le> n \<and> n \<le> 102 then Some (n - 87)
      else if 65 \<le> n \<and> n \<le> 70 then Some (n - 55)
      else None)"

definition is_hex :: "char \<Rightarrow> bool" where
  "is_hex c \<longleftrightarrow> hex_val c \<noteq> None"

definition hex_number :: "string \<Rightarrow> nat" where
  "hex_number ds = foldl (\<lambda>n c. 16 * n + the (hex_val c)) 0 ds"

text \<open>
  The loop of \<open>parseIPv6\<close>: \<open>k\<close> groups are still missing, \<open>gs\<close> were read, \<open>el\<close> is where \<open>::\<close> stood.
\<close>

fun parse_groups ::
  "nat \<Rightarrow> nat list \<Rightarrow> nat option \<Rightarrow> string \<Rightarrow> (nat list \<times> nat option \<times> string) option" where
  "parse_groups 0 gs el s = Some (gs, el, s)"
| "parse_groups (Suc k) gs el s =
     (let ds = takeWhile is_hex s; gs' = gs @ [hex_number ds] in
      if ds = [] \<or> length ds > 4 then None
      else (case dropWhile is_hex s of
              [] \<Rightarrow> Some (gs', el, [])
            | c # cs \<Rightarrow>
                if c = CHR ''.'' then
                  if (el = None \<and> length gs \<noteq> 6) \<or> length gs > 6 then None
                  else (case parse_addr4 s of
                          Some [a, b, c, d] \<Rightarrow> Some (gs @ [256 * a + b, 256 * c + d], el, [])
                        | _ \<Rightarrow> None)
                else if c \<noteq> CHR '':'' \<or> cs = [] then None
                else if hd cs = CHR '':'' then
                  if el \<noteq> None then None
                  else if tl cs = [] then Some (gs', Some (length gs'), [])
                  else parse_groups k gs' (Some (length gs')) (tl cs)
                else parse_groups k gs' el cs))"

definition expand_groups :: "nat list \<Rightarrow> nat option \<Rightarrow> nat list option" where
  "expand_groups gs el =
     (case el of
        None \<Rightarrow> if length gs = 8 then Some gs else None
      | Some k \<Rightarrow>
          if length gs < 8 then Some (take k gs @ replicate (8 - length gs) 0 @ drop k gs) else None)"

definition parse_addr6 :: "string \<Rightarrow> addr option" where
  "parse_addr6 txt =
     (case cut CHR ''%'' txt of
        (s, zone, zoned) \<Rightarrow>
          if zoned \<and> zone = [] then None
          else if has_prefix s ''::'' \<and> length s = 2 then Some (A6 (replicate 8 0) zone)
          else (case (if has_prefix s ''::'' then parse_groups 8 [] (Some 0) (drop 2 s) else parse_groups 8 [] None s) of
                  Some (gs, el, []) \<Rightarrow> map_option (\<lambda>g. A6 g zone) (expand_groups gs el)
                | _ \<Rightarrow> None))"

fun parse_addr_from :: "string \<Rightarrow> string \<Rightarrow> addr option" where
  "parse_addr_from [] txt = None"
| "parse_addr_from (c # cs) txt =
     (if c = CHR ''.'' then map_option A4 (parse_addr4 txt)
      else if c = CHR '':'' then parse_addr6 txt
      else if c = CHR ''%'' then None
      else parse_addr_from cs txt)"

definition parse_addr :: "string \<Rightarrow> addr option" where
  "parse_addr txt = parse_addr_from txt txt"

definition is_addr4 :: "addr \<Rightarrow> bool" where
  "is_addr4 a = (case a of A4 _ \<Rightarrow> True | A6 _ _ \<Rightarrow> False)"

text \<open>\<open>netip.ParseAddrPort\<close>: the port follows the last colon, and exactly an IPv6 address is in brackets.\<close>

definition parse_port :: "string \<Rightarrow> nat option" where
  "parse_port s = (case parse_nat s of Some n \<Rightarrow> if n < 65536 then Some n else None | None \<Rightarrow> None)"

definition parse_addr_port :: "string \<Rightarrow> (addr \<times> nat) option" where
  "parse_addr_port s =
     (case cut CHR '':'' (rev s) of
        (p, i, True) \<Rightarrow>
          (let port = rev p; ip = rev i in
           if ip = [] \<or> port = [] then None
           else if hd ip = CHR ''['' then
             if length ip < 2 \<or> last ip \<noteq> CHR '']'' then None
             else (case (parse_port port, parse_addr (butlast (tl ip))) of
                     (Some n, Some a) \<Rightarrow> if is_addr4 a then None else Some (a, n)
                   | _ \<Rightarrow> None)
           else (case (parse_port port, parse_addr ip) of
                   (Some n, Some a) \<Rightarrow> if is_addr4 a then Some (a, n) else None
                 | _ \<Rightarrow> None))
      | _ \<Rightarrow> None)"

section \<open>Kinds of addresses\<close>

text \<open>\<open>Unmap\<close>: an IPv4-mapped IPv6 address is its IPv4 address.\<close>

definition unmap_addr :: "addr \<Rightarrow> addr" where
  "unmap_addr a =
     (case a of
        A6 [0, 0, 0, 0, 0, m, x, y] zone \<Rightarrow>
          if m = 65535 then A4 [x div 256, x mod 256, y div 256, y mod 256] else a
      | _ \<Rightarrow> a)"

definition is_unspecified :: "addr \<Rightarrow> bool" where
  "is_unspecified a = (case a of A4 os \<Rightarrow> os = [0, 0, 0, 0] | A6 gs zone \<Rightarrow> gs = replicate 8 0 \<and> zone = [])"

definition is_loopback :: "addr \<Rightarrow> bool" where
  "is_loopback a = (case a of A4 os \<Rightarrow> hd os = 127 | A6 gs _ \<Rightarrow> gs = [0, 0, 0, 0, 0, 0, 0, 1])"

definition is_multicast :: "addr \<Rightarrow> bool" where
  "is_multicast a = (case a of A4 os \<Rightarrow> hd os div 16 = 14 | A6 gs _ \<Rightarrow> hd gs div 256 = 255)"

definition is_link_local :: "addr \<Rightarrow> bool" where
  "is_link_local a = (case a of A4 os \<Rightarrow> take 2 os = [169, 254] | A6 gs _ \<Rightarrow> hd gs div 64 = 1018)"

text \<open>\<open>net.JoinHostPort\<close>.\<close>

definition join_host_port :: "string \<Rightarrow> string \<Rightarrow> string" where
  "join_host_port host port =
     (if CHR '':'' \<in> set host then ''['' @ host @ '']:'' @ port else host @ '':'' @ port)"

section \<open>URLs\<close>

record url =
  u_Scheme :: string
  u_Host :: string
  u_Hostname :: string
  u_Path :: string
  u_RawQuery :: string
  u_Fragment :: string
  u_hasUser :: bool

end
