(* ===== verification/Config.thy ===== *)
theory Config
  imports Addresses Firecracker Schedule EC2_Api
begin

text \<open>
  The daemon's configuration (\<open>internal/config/config.go\<close>): the tier catalog, the sizes of a tier over
  time, and the validation that every start and every \<open>config check\<close> runs.

  The model starts from the parsed flags and the decoded catalog.  What the host answers (whether a path
  can be examined, what the catalog file decodes to, the time zones, \<open>url.Parse\<close>) is an argument.  A
  Go \<open>int\<close> is an \<open>int\<close> in its 64-bit range; the one sum the validation takes wraps as Go's does.
\<close>

section \<open>The data\<close>

record Tier =
  ti_Name :: string
  ti_Labels :: "string list"
  ti_Provisioner :: string
  ti_VCPU :: int
  ti_MemMiB :: int
  ti_Golden :: string
  ti_ToolCache :: string
  ti_EC2 :: "EC2Tier option"
  ti_Min :: int
  ti_Max :: int
  ti_Schedule :: "Schedule option"

record Config =
  c_URL :: string
  c_ScaleSetName :: string
  c_Labels :: "string list"
  c_MaxRunners :: int
  c_MinRunners :: int
  c_Token :: string
  c_AppClientID :: string
  c_AppInstallID :: int
  c_AppPrivateKey :: string
  c_VCPU :: int
  c_MemMiB :: int
  c_Tiers :: "Tier list"
  c_CacheJobsDir :: string
  c_Firecracker :: FirecrackerConfig
  c_JITAddr :: string
  c_JITTTL :: duration
  c_JITHost :: string
  c_EC2Reaper :: string
  c_Owner :: string
  c_offline :: bool

text \<open>What the host and the parsers outside the model answer.\<close>

record config_env =
  stat_ok :: "string \<Rightarrow> bool"
  url_of :: "string \<Rightarrow> url option"
  tiers_in :: "string \<Rightarrow> Tier list option"
  zone_of :: "string \<Rightarrow> location option"

definition ProvisionerFirecracker :: string where "ProvisionerFirecracker = ''firecracker''"
definition ProvisionerEC2 :: string where "ProvisionerEC2 = ''ec2''"
definition MarketSpotThenOnDemand :: string where "MarketSpotThenOnDemand = ''spot-then-on-demand''"
definition ec2AMIIDPrefix :: string where "ec2AMIIDPrefix = ''ami-''"

section \<open>Tiers\<close>

definition BaseSizes :: "Tier \<Rightarrow> Sizes" where
  "BaseSizes t = \<lparr>sz_Min = ti_Min t, sz_Pool = (case ti_EC2 t of None \<Rightarrow> 0 | Some e \<Rightarrow> t_Pool e), sz_Window = []\<rparr>"

definition SizesAt :: "Tier \<Rightarrow> time \<Rightarrow> Sizes" where
  "SizesAt t moment = (case ti_Schedule t of None \<Rightarrow> BaseSizes t | Some s \<Rightarrow> At s moment (BaseSizes t))"

definition tier_MaxPool :: "Tier \<Rightarrow> int" where
  "tier_MaxPool t =
     (case ti_Schedule t of None \<Rightarrow> sz_Pool (BaseSizes t) | Some s \<Rightarrow> max (sz_Pool (BaseSizes t)) (MaxPool s))"

definition tier_MaxMin :: "Tier \<Rightarrow> int" where
  "tier_MaxMin t = (case ti_Schedule t of None \<Rightarrow> ti_Min t | Some s \<Rightarrow> max (ti_Min t) (MaxMin s))"

definition AMIFromSSM :: "EC2Tier \<Rightarrow> bool" where
  "AMIFromSSM e \<longleftrightarrow> \<not> has_prefix (t_AMI e) ec2AMIIDPrefix"

definition ProvisionerName :: "Tier \<Rightarrow> string" where
  "ProvisionerName t = (if ti_Provisioner t = [] then ProvisionerFirecracker else ti_Provisioner t)"

definition IsEC2 :: "Tier \<Rightarrow> bool" where
  "IsEC2 t \<longleftrightarrow> ProvisionerName t = ProvisionerEC2"

definition Spec :: "Tier \<Rightarrow> RunnerSpec" where
  "Spec t = \<lparr>rs_VCPU = ti_VCPU t, rs_MemMiB = ti_MemMiB t, rs_RootFS = ti_Golden t, rs_ToolCache = ti_ToolCache t\<rparr>"

definition EffectiveTiers :: "Config \<Rightarrow> Tier list" where
  "EffectiveTiers c =
     (if c_Tiers c \<noteq> [] then c_Tiers c
      else [\<lparr>ti_Name = c_ScaleSetName c, ti_Labels = c_Labels c, ti_Provisioner = [], ti_VCPU = c_VCPU c,
             ti_MemMiB = c_MemMiB c, ti_Golden = f_GoldenRootFS (c_Firecracker c), ti_ToolCache = [], ti_EC2 = None,
             ti_Min = c_MinRunners c, ti_Max = c_MaxRunners c, ti_Schedule = None\<rparr>])"

definition UsesFirecracker :: "Config \<Rightarrow> bool" where
  "UsesFirecracker c \<longleftrightarrow> list_ex (\<lambda>t. \<not> IsEC2 t) (EffectiveTiers c)"

definition UsesEC2 :: "Config \<Rightarrow> bool" where
  "UsesEC2 c \<longleftrightarrow> list_ex IsEC2 (EffectiveTiers c)"

section \<open>Validation\<close>

text \<open>What can be wrong: with the required settings, with one tier, with the JIT endpoint, with the rest.\<close>

datatype required_problem =
    UrlRequired | KernelRequired | GoldenRequired | ExtIfaceRequired | MaxRunnersBelowOne | VCPUBelowOne
  | MemBelow128 | NoCredentials | InstallIDRequired | JailIDsRequired | CgroupNeedsJailer | NetnsNeedsJailer
  | CachePortInNetns

datatype tier_problem =
    NameRequired nat | DuplicateName | MaxBelowOne | MinNegative | MinAboveMax | WindowMinAboveMax string
  | WindowPoolNeedsEC2 string | UnknownProvisioner string | EC2BlockNeedsProvisioner | TierVCPU | TierMem
  | TierGolden | MaxOverBudget int int | TierToolCacheMissing string | FirecrackerField string
  | EC2BlockMissing | BadList string | AMIRequired | BadMarket string | NegativeVolume | NegativePool
  | BadVolumeType string

datatype jit_problem =
    AddrRequired | AddrSyntax string | AddrUnreachable string | AddrPortZero string | HostInvalid string
  | TTLTooShort duration

datatype rest_problem =
    ReaperMode string | BadOwner string | ToolCacheMissing string | CachePortRange int | TapPrefixTooLong string
  | TapPrefixChars string | LifetimeTooShort duration | ConnectTooShort duration
  | ConnectNotBelowLifetime duration duration | JobsDirNotAbsolute | BadCacheURL string | CgroupEntry string

datatype config_error =
    Required required_problem | InTier string tier_problem | WarmPoolsOverBudget int int | InJIT jit_problem
  | Invalid rest_problem | CatalogUnreadable string | CatalogNoTiers string | CatalogBadSchedule schedule_error

text \<open>A Go \<open>switch\<close> of guards: the error of the first one that holds.\<close>

fun first_error :: "(bool \<times> 'e) list \<Rightarrow> 'e option" where
  "first_error [] = None"
| "first_error ((b, e) # gs) = (if b then Some e else first_error gs)"

text \<open>\<open>if err := f(); err != nil { return err }\<close>.\<close>

definition first_of :: "'e option \<Rightarrow> 'e option \<Rightarrow> 'e option" where
  "first_of a b = (case a of None \<Rightarrow> b | Some e \<Rightarrow> Some e)"

definition wrap64 :: "int \<Rightarrow> int" where
  "wrap64 n = (n + 2 ^ 63) mod 2 ^ 64 - 2 ^ 63"

fun blank_or_seen :: "string list \<Rightarrow> string list \<Rightarrow> bool" where
  "blank_or_seen seen [] = False"
| "blank_or_seen seen (v # vs) =
     (if trim_space v = [] \<or> v \<in> set seen then True else blank_or_seen (v # seen) vs)"

definition nonEmptyUnique :: "string list \<Rightarrow> bool" where
  "nonEmptyUnique vals \<longleftrightarrow> vals \<noteq> [] \<and> \<not> blank_or_seen [] vals"

definition validateEC2Tier :: "Tier \<Rightarrow> tier_problem option" where
  "validateEC2Tier t =
     first_of
       (first_error
          [(ti_VCPU t \<noteq> 0, FirecrackerField ''vcpu''),
           (ti_MemMiB t \<noteq> 0, FirecrackerField ''mem_mib''),
           (ti_Golden t \<noteq> [], FirecrackerField ''golden''),
           (ti_ToolCache t \<noteq> [], FirecrackerField ''toolcache'')])
       (case ti_EC2 t of
          None \<Rightarrow> Some EC2BlockMissing
        | Some e \<Rightarrow>
            first_error
              [(\<not> nonEmptyUnique (t_InstanceTypes e), BadList ''instance_types''),
               (\<not> nonEmptyUnique (t_Subnets e), BadList ''subnets''),
               (\<not> nonEmptyUnique (t_SecurityGroups e), BadList ''security_groups''),
               (trim_space (t_AMI e) = [] \<or> t_AMI e = ec2AMIIDPrefix, AMIRequired),
               (t_Market e \<noteq> MarketSpot \<and> t_Market e \<noteq> MarketSpotThenOnDemand \<and> t_Market e \<noteq> MarketOnDemand,
                BadMarket (t_Market e)),
               (t_RootVolumeGiB e < 0, NegativeVolume),
               (t_Pool e < 0, NegativePool),
               (VolumeType e \<notin> {''gp2'', ''gp3''}, BadVolumeType (t_RootVolumeType e))])"

definition validateFirecrackerTier :: "config_env \<Rightarrow> Config \<Rightarrow> Tier \<Rightarrow> tier_problem option" where
  "validateFirecrackerTier E c t =
     first_error
       [(ti_EC2 t \<noteq> None, EC2BlockNeedsProvisioner),
        (ti_VCPU t < 1, TierVCPU),
        (ti_MemMiB t < 128, TierMem),
        (ti_Golden t = [], TierGolden),
        (ti_Max t > c_MaxRunners c, MaxOverBudget (ti_Max t) (c_MaxRunners c)),
        (ti_ToolCache t \<noteq> [] \<and> \<not> c_offline c \<and> \<not> stat_ok E (ti_ToolCache t),
         TierToolCacheMissing (ti_ToolCache t))]"

fun validateWindows :: "Tier \<Rightarrow> Window list \<Rightarrow> tier_problem option" where
  "validateWindows t [] = None"
| "validateWindows t (w # ws) =
     (if (case w_Min w of None \<Rightarrow> False | Some n \<Rightarrow> n > ti_Max t)
      then Some (WindowMinAboveMax (window_name w))
      else if (case w_Pool w of None \<Rightarrow> False | Some n \<Rightarrow> n > 0 \<and> ProvisionerName t \<noteq> ProvisionerEC2)
      then Some (WindowPoolNeedsEC2 (window_name w))
      else validateWindows t ws)"

definition validateTier :: "config_env \<Rightarrow> Config \<Rightarrow> string list \<Rightarrow> nat \<Rightarrow> Tier \<Rightarrow> tier_problem option" where
  "validateTier E c seen i t =
     first_of
       (first_error
          [(ti_Name t = [], NameRequired i),
           (ti_Name t \<in> set seen, DuplicateName),
           (ti_Max t < 1, MaxBelowOne),
           (ti_Min t < 0, MinNegative),
           (ti_Min t > ti_Max t, MinAboveMax)])
       (first_of
          (case ti_Schedule t of None \<Rightarrow> None | Some s \<Rightarrow> validateWindows t (sc_Windows s))
          (if ProvisionerName t = ProvisionerFirecracker then validateFirecrackerTier E c t
           else if ProvisionerName t = ProvisionerEC2 then validateEC2Tier t
           else Some (UnknownProvisioner (ti_Provisioner t))))"

text \<open>The loop of \<open>validateTiers\<close>: the names seen, the index and \<open>totalMin\<close> so far.\<close>

fun validate_each ::
  "config_env \<Rightarrow> Config \<Rightarrow> string list \<Rightarrow> nat \<Rightarrow> int \<Rightarrow> Tier list \<Rightarrow> config_error option" where
  "validate_each E c seen i warm [] =
     (if warm > c_MaxRunners c then Some (WarmPoolsOverBudget warm (c_MaxRunners c)) else None)"
| "validate_each E c seen i warm (t # ts) =
     first_of (map_option (InTier (ti_Name t)) (validateTier E c seen i t))
       (validate_each E c (ti_Name t # seen) (Suc i)
          (if ProvisionerName t = ProvisionerFirecracker then wrap64 (warm + tier_MaxMin t) else warm) ts)"

definition validateTiers :: "config_env \<Rightarrow> Config \<Rightarrow> config_error option" where
  "validateTiers E c = validate_each E c [] 0 0 (c_Tiers c)"

definition host_label :: "string \<Rightarrow> bool" where
  "host_label l \<longleftrightarrow>
     l \<noteq> [] \<and> length l \<le> 63 \<and> hd l \<noteq> CHR ''-'' \<and> last l \<noteq> CHR ''-'' \<and>
     list_all (\<lambda>c. let n = (of_char c :: nat) in
        c = CHR ''-'' \<or> is_digit c \<or> (97 \<le> n \<and> n \<le> 122) \<or> (65 \<le> n \<and> n \<le> 90)) l"

definition trim_suffix :: "string \<Rightarrow> string \<Rightarrow> string" where
  "trim_suffix s p = (if has_suffix s p then take (length s - length p) s else s)"

definition validHostname :: "string \<Rightarrow> bool" where
  "validHostname s \<longleftrightarrow> length s \<le> 253 \<and> list_all host_label (split_on CHR ''.'' (trim_suffix s ''.''))"

definition validateJIT :: "Config \<Rightarrow> jit_problem option" where
  "validateJIT c =
     (if c_JITAddr c = [] then (if UsesEC2 c then Some AddrRequired else None)
      else (case parse_addr_port (c_JITAddr c) of
              None \<Rightarrow> Some (AddrSyntax (c_JITAddr c))
            | Some (a, p) \<Rightarrow>
                (let ip = unmap_addr a in
                 first_error
                   [(is_unspecified ip \<or> is_loopback ip \<or> is_multicast ip \<or> is_link_local ip,
                     AddrUnreachable (c_JITAddr c)),
                    (p = 0, AddrPortZero (c_JITAddr c)),
                    (c_JITHost c \<noteq> [] \<and> (parse_addr (c_JITHost c) \<noteq> None \<or> \<not> validHostname (c_JITHost c)),
                     HostInvalid (c_JITHost c)),
                    (c_JITTTL c < 30 * second, TTLTooShort (c_JITTTL c))])))"

definition JITEndpoint :: "Config \<Rightarrow> string" where
  "JITEndpoint c =
     (if c_JITHost c = [] then c_JITAddr c
      else (case parse_addr_port (c_JITAddr c) of
              None \<Rightarrow> c_JITAddr c
            | Some (_, p) \<Rightarrow> join_host_port (c_JITHost c) (show_nat p)))"

text \<open>The switch at the head of \<open>validate\<close>.\<close>

definition validateRequired :: "Config \<Rightarrow> required_problem option" where
  "validateRequired c =
     (let fc = UsesFirecracker c; f = c_Firecracker c in
      first_error
        [(c_URL c = [], UrlRequired),
         (fc \<and> f_KernelImage f = [], KernelRequired),
         (f_GoldenRootFS f = [] \<and> c_Tiers c = [], GoldenRequired),
         (fc \<and> f_ExtIface f = [], ExtIfaceRequired),
         (c_MaxRunners c < 1, MaxRunnersBelowOne),
         (c_VCPU c < 1, VCPUBelowOne),
         (c_MemMiB c < 128, MemBelow128),
         (c_Token c = [] \<and> c_AppClientID c = [], NoCredentials),
         (c_Token c = [] \<and> c_AppInstallID c = 0, InstallIDRequired),
         (f_Jailer f \<and> (f_JailUID f < 1 \<or> f_JailGID f < 1), JailIDsRequired),
         (f_CgroupLimits f \<noteq> [] \<and> \<not> f_Jailer f, CgroupNeedsJailer),
         (f_NetNS f \<and> \<not> f_Jailer f, NetnsNeedsJailer),
         (f_NetNS f \<and> f_CachePort f \<noteq> 0 \<and> f_CacheURL f = [], CachePortInNetns)])"

definition ascii_letter :: "char \<Rightarrow> bool" where
  "ascii_letter c \<longleftrightarrow> (let n = (of_char c :: nat) in (97 \<le> n \<and> n \<le> 122) \<or> (65 \<le> n \<and> n \<le> 90))"

text \<open>The checks that follow the catalog's and the JIT endpoint's.\<close>

definition validateRest :: "config_env \<Rightarrow> Config \<Rightarrow> rest_problem option" where
  "validateRest E c =
     (let f = c_Firecracker c; o' = c_Owner c; p = f_TapPrefix f in
      first_error
        [(c_EC2Reaper c \<notin> {''on'', ''dry-run'', ''off''}, ReaperMode (c_EC2Reaper c)),
         (o' \<noteq> [] \<and> (length o' > 128 \<or> has_prefix (to_lower o') ''aws:'' \<or> trim_space o' \<noteq> o'), BadOwner o'),
         (f_ToolCacheImage f \<noteq> [] \<and> \<not> stat_ok E (f_ToolCacheImage f), ToolCacheMissing (f_ToolCacheImage f)),
         (f_CachePort f \<noteq> 0 \<and> (f_CachePort f < 1 \<or> f_CachePort f > 65535), CachePortRange (f_CachePort f)),
         (p \<noteq> [] \<and> length p > 11, TapPrefixTooLong p),
         (\<not> list_all ascii_letter p, TapPrefixChars p),
         (f_MaxVMLifetime f \<noteq> 0 \<and> f_MaxVMLifetime f < minute, LifetimeTooShort (f_MaxVMLifetime f)),
         (f_ConnectTimeout f \<noteq> 0 \<and> f_ConnectTimeout f < 30 * second, ConnectTooShort (f_ConnectTimeout f)),
         (f_ConnectTimeout f \<noteq> 0 \<and> f_MaxVMLifetime f \<noteq> 0 \<and> f_ConnectTimeout f \<ge> f_MaxVMLifetime f,
          ConnectNotBelowLifetime (f_ConnectTimeout f) (f_MaxVMLifetime f)),
         ((f_CachePort f \<noteq> 0 \<or> f_CacheURL f \<noteq> []) \<and> \<not> has_prefix (c_CacheJobsDir c) ''/'', JobsDirNotAbsolute),
         (f_CacheURL f \<noteq> [] \<and>
            (case url_of E (f_CacheURL f) of None \<Rightarrow> True | Some u \<Rightarrow> u_Scheme u = [] \<or> u_Host u = []),
          BadCacheURL (f_CacheURL f)),
         (\<exists>l \<in> set (f_CgroupLimits f). \<not> contains l ''='',
          CgroupEntry (hd (filter (\<lambda>l. \<not> contains l ''='') (f_CgroupLimits f))))])"

definition validate :: "config_env \<Rightarrow> Config \<Rightarrow> config_error option" where
  "validate E c =
     first_of (map_option Required (validateRequired c))
       (first_of (if c_Tiers c \<noteq> [] then validateTiers E c else None)
          (first_of (map_option InJIT (validateJIT c)) (map_option Invalid (validateRest E c))))"

section \<open>Loading\<close>

definition split_trim :: "char \<Rightarrow> string \<Rightarrow> string list" where
  "split_trim sep s = filter (\<lambda>p. p \<noteq> []) (map trim_space (split_on sep s))"

definition splitCSV :: "string \<Rightarrow> string list" where
  "splitCSV s = split_trim CHR '','' s"

definition splitSemi :: "string \<Rightarrow> string list" where
  "splitSemi s = split_trim CHR '';'' s"

text \<open>Decoding a tier runs its schedule's \<open>init\<close>; the file's text is what \<open>tiers_in\<close> decodes.\<close>

fun init_tiers :: "config_env \<Rightarrow> Tier list \<Rightarrow> config_error + Tier list" where
  "init_tiers E [] = Inr []"
| "init_tiers E (t # ts) =
     (case (case ti_Schedule t of
              None \<Rightarrow> Inr t
            | Some s \<Rightarrow> (case schedule_init (zone_of E) s of
                          Inl e \<Rightarrow> Inl (CatalogBadSchedule e)
                        | Inr s' \<Rightarrow> Inr (t\<lparr>ti_Schedule := Some s'\<rparr>))) of
        Inl e \<Rightarrow> Inl e
      | Inr t' \<Rightarrow> (case init_tiers E ts of Inl e \<Rightarrow> Inl e | Inr ts' \<Rightarrow> Inr (t' # ts')))"

definition loadTiers :: "config_env \<Rightarrow> string \<Rightarrow> config_error + Tier list" where
  "loadTiers E path =
     (case tiers_in E path of
        None \<Rightarrow> Inl (CatalogUnreadable path)
      | Some raw \<Rightarrow>
          (case init_tiers E raw of
             Inl e \<Rightarrow> Inl e
           | Inr ts \<Rightarrow> if ts = [] then Inl (CatalogNoTiers path) else Inr ts))"

text \<open>The zero \<open>Config\<close>, and the one a catalog is checked under.\<close>

definition zeroConfig :: Config where
  "zeroConfig =
     \<lparr>c_URL = [], c_ScaleSetName = [], c_Labels = [], c_MaxRunners = 0, c_MinRunners = 0, c_Token = [],
      c_AppClientID = [], c_AppInstallID = 0, c_AppPrivateKey = [], c_VCPU = 0, c_MemMiB = 0, c_Tiers = [],
      c_CacheJobsDir = [],
      c_Firecracker =
        \<lparr>f_hasJobs = False, f_Binary = [], f_KernelImage = [], f_GoldenRootFS = [], f_BootArgs = [], f_WorkDir = [],
         f_TapPrefix = [], f_NetBase = 0, f_NFTTable = [], f_ExtIface = [],
         f_Egress = \<lparr>e_Categories = [], e_DNSServers = [], e_RefreshInterval = 0\<rparr>, f_LogDir = [], f_MaxVMs = 0,
         f_Jailer = False, f_JailerBin = [], f_ChrootBase = [], f_JailUID = 0, f_JailGID = 0, f_CgroupLimits = [],
         f_NetNS = False, f_ToolCacheImage = [], f_CachePort = 0, f_CacheURL = [], f_MaxVMLifetime = 0,
         f_ConnectTimeout = 0\<rparr>,
      c_JITAddr = [], c_JITTTL = 0, c_JITHost = [], c_EC2Reaper = [], c_Owner = [], c_offline = False\<rparr>"

definition CheckCatalog :: "config_env \<Rightarrow> string \<Rightarrow> int \<Rightarrow> config_error + Tier list" where
  "CheckCatalog E path maxRunners =
     (case loadTiers E path of
        Inl e \<Rightarrow> Inl e
      | Inr ts \<Rightarrow>
          (case validateTiers E (zeroConfig\<lparr>c_Tiers := ts, c_MaxRunners := maxRunners, c_offline := True\<rparr>) of
             Some e \<Rightarrow> Inl e
           | None \<Rightarrow> Inr ts))"

end
