(* ===== verification/Config_Props.thy ===== *)
theory Config_Props
  imports Config Schedule_Props Egress_Props
begin

text \<open>
  Facts about the configuration: what an accepted catalog is, the sum of the warm pools, the names of
  devices, and the checks of the JIT endpoint.
\<close>

section \<open>Switches\<close>

lemma first_error_None_iff: "first_error gs = None \<longleftrightarrow> list_all (\<lambda>g. \<not> fst g) gs"
  by (induction gs) (auto split: if_splits)

declare first_error.simps(2) [simp del]

lemma first_of_None [simp]: "first_of a b = None \<longleftrightarrow> a = None \<and> b = None"
  by (auto simp: first_of_def split: option.splits)

lemma first_of_Some_cases:
  assumes "first_of a b = Some e"
  obtains "a = Some e" | "a = None" "b = Some e"
  using assms by (auto simp: first_of_def split: option.splits)

lemma blank_or_seen_iff:
  "\<not> blank_or_seen seen vs \<longleftrightarrow> distinct vs \<and> set vs \<inter> set seen = {} \<and> (\<forall>v \<in> set vs. trim_space v \<noteq> [])"
  by (induction vs arbitrary: seen) auto

lemma nonEmptyUnique_iff:
  "nonEmptyUnique vs \<longleftrightarrow> vs \<noteq> [] \<and> distinct vs \<and> (\<forall>v \<in> set vs. trim_space v \<noteq> [])"
  by (auto simp: nonEmptyUnique_def blank_or_seen_iff)

section \<open>Accepted tiers\<close>

definition firecracker_tier :: "Config \<Rightarrow> Tier \<Rightarrow> bool" where
  "firecracker_tier c t \<longleftrightarrow>
     ProvisionerName t = ProvisionerFirecracker \<and> ti_EC2 t = None \<and> 1 \<le> ti_VCPU t \<and> 128 \<le> ti_MemMiB t \<and>
     ti_Golden t \<noteq> [] \<and> ti_Max t \<le> c_MaxRunners c"

definition ec2_tier :: "Tier \<Rightarrow> bool" where
  "ec2_tier t \<longleftrightarrow>
     IsEC2 t \<and> ti_VCPU t = 0 \<and> ti_MemMiB t = 0 \<and> ti_Golden t = [] \<and> ti_ToolCache t = [] \<and>
     (\<exists>e. ti_EC2 t = Some e \<and> nonEmptyUnique (t_InstanceTypes e) \<and> nonEmptyUnique (t_Subnets e) \<and>
        nonEmptyUnique (t_SecurityGroups e) \<and> trim_space (t_AMI e) \<noteq> [] \<and>
        t_Market e \<in> {MarketSpot, MarketSpotThenOnDemand, MarketOnDemand} \<and>
        0 \<le> t_RootVolumeGiB e \<and> 0 \<le> t_Pool e \<and> VolumeType e \<in> {''gp2'', ''gp3''})"

definition tier_in_bounds :: "Tier \<Rightarrow> bool" where
  "tier_in_bounds t \<longleftrightarrow>
     ti_Name t \<noteq> [] \<and> 1 \<le> ti_Max t \<and> 0 \<le> ti_Min t \<and> ti_Min t \<le> ti_Max t \<and>
     (\<forall>s w. ti_Schedule t = Some s \<longrightarrow> w \<in> set (sc_Windows s) \<longrightarrow>
        (\<forall>n. w_Min w = Some n \<longrightarrow> n \<le> ti_Max t) \<and> (\<forall>n. w_Pool w = Some n \<longrightarrow> n > 0 \<longrightarrow> IsEC2 t))"

lemma provisioners_differ [simp]: "ProvisionerFirecracker \<noteq> ProvisionerEC2"
  by (simp add: ProvisionerFirecracker_def ProvisionerEC2_def)

lemma provisioners_differ' [simp]: "ProvisionerEC2 \<noteq> ProvisionerFirecracker"
  using provisioners_differ by metis

lemma validateWindows_None:
  "validateWindows t ws = None \<longleftrightarrow>
     (\<forall>w \<in> set ws. (\<forall>n. w_Min w = Some n \<longrightarrow> n \<le> ti_Max t) \<and> (\<forall>n. w_Pool w = Some n \<longrightarrow> n > 0 \<longrightarrow> IsEC2 t))"
  by (induction ws) (auto simp: IsEC2_def split: option.splits)

lemma validateEC2Tier_None: "IsEC2 t \<Longrightarrow> validateEC2Tier t = None \<Longrightarrow> ec2_tier t"
  by (auto simp: validateEC2Tier_def ec2_tier_def first_error_None_iff split: option.splits)

lemma validateTier_None:
  assumes "validateTier E c seen i t = None"
  shows "ti_Name t \<notin> set seen \<and> tier_in_bounds t \<and> (firecracker_tier c t \<or> ec2_tier t)"
proof -
  have head: "ti_Name t \<noteq> []" "ti_Name t \<notin> set seen" "1 \<le> ti_Max t" "0 \<le> ti_Min t" "ti_Min t \<le> ti_Max t"
    and win: "(case ti_Schedule t of None \<Rightarrow> None | Some s \<Rightarrow> validateWindows t (sc_Windows s)) = None"
    and kind: "(if ProvisionerName t = ProvisionerFirecracker then validateFirecrackerTier E c t
           else if ProvisionerName t = ProvisionerEC2 then validateEC2Tier t
           else Some (UnknownProvisioner (ti_Provisioner t))) = None"
    using assms by (auto simp: validateTier_def first_error_None_iff)
  have "tier_in_bounds t"
    using head win by (auto simp: tier_in_bounds_def validateWindows_None split: option.splits)
  moreover have "firecracker_tier c t \<or> ec2_tier t"
    using kind validateEC2Tier_None
    by (auto simp: IsEC2_def firecracker_tier_def validateFirecrackerTier_def first_error_None_iff split: if_splits)
  ultimately show ?thesis using head(2) by blast
qed

lemma tier_kinds:
  "firecracker_tier c t \<Longrightarrow> \<not> IsEC2 t" "ec2_tier t \<Longrightarrow> IsEC2 t"
  "ec2_tier t \<Longrightarrow> ProvisionerName t \<noteq> ProvisionerFirecracker"
  "firecracker_tier c t \<Longrightarrow> ProvisionerName t = ProvisionerFirecracker"
  by (auto simp: firecracker_tier_def ec2_tier_def IsEC2_def dest: sym)

text \<open>The warm runners the loop adds up, as Go adds them.\<close>

definition warm_sum :: "int \<Rightarrow> Tier list \<Rightarrow> int" where
  "warm_sum w ts =
     foldl (\<lambda>w t. if ProvisionerName t = ProvisionerFirecracker then wrap64 (w + tier_MaxMin t) else w) w ts"

lemma validate_each_None:
  assumes "validate_each E c seen i w ts = None"
  shows "distinct (map ti_Name ts) \<and> ti_Name ` set ts \<inter> set seen = {} \<and> warm_sum w ts \<le> c_MaxRunners c \<and>
    (\<forall>t \<in> set ts. tier_in_bounds t \<and> (firecracker_tier c t \<or> ec2_tier t))"
  using assms
proof (induction ts arbitrary: seen i w)
  case Nil
  then show ?case by (simp add: warm_sum_def split: if_splits)
next
  case (Cons t ts)
  let ?w = "if ProvisionerName t = ProvisionerFirecracker then wrap64 (w + tier_MaxMin t) else w"
  from Cons.prems have t: "validateTier E c seen i t = None"
    and rest: "validate_each E c (ti_Name t # seen) (Suc i) ?w ts = None" by simp_all
  from Cons.IH [OF rest] validateTier_None [OF t] show ?case
    by (auto simp: warm_sum_def)
qed

lemma validateTiers_None:
  assumes "validateTiers E c = None"
  shows "distinct (map ti_Name (c_Tiers c))" "warm_sum 0 (c_Tiers c) \<le> c_MaxRunners c"
    "t \<in> set (c_Tiers c) \<Longrightarrow> tier_in_bounds t" "t \<in> set (c_Tiers c) \<Longrightarrow> firecracker_tier c t \<or> ec2_tier t"
  using validate_each_None assms unfolding validateTiers_def by blast+

section \<open>The sum of the warm pools\<close>

lemma wrap64_id: "- (2 ^ 63) \<le> n \<Longrightarrow> n < 2 ^ 63 \<Longrightarrow> wrap64 n = n"
  by (simp add: wrap64_def)

lemma warm_sum_exact:
  assumes "0 \<le> w" "w + b * int (length ts) < 2 ^ 63" "0 \<le> b"
    and "\<forall>t \<in> set ts. ProvisionerName t = ProvisionerFirecracker \<longrightarrow> 0 \<le> tier_MaxMin t \<and> tier_MaxMin t \<le> b"
  shows "warm_sum w ts = w + (\<Sum>t \<leftarrow> filter (\<lambda>t. ProvisionerName t = ProvisionerFirecracker) ts. tier_MaxMin t)"
  using assms
proof (induction ts arbitrary: w)
  case (Cons t ts)
  have l: "w + b + b * int (length ts) < 2 ^ 63" using Cons.prems(2) by (simp add: algebra_simps)
  have n: "0 \<le> b * int (length ts)" using Cons.prems(3) by simp
  show ?case
  proof (cases "ProvisionerName t = ProvisionerFirecracker")
    case True
    then have m: "0 \<le> tier_MaxMin t" "tier_MaxMin t \<le> b" using Cons.prems(4) by simp_all
    with l n Cons.prems(1) have "wrap64 (w + tier_MaxMin t) = w + tier_MaxMin t"
      by (intro wrap64_id) linarith+
    with True Cons.IH [of "w + tier_MaxMin t"] Cons.prems m l show ?thesis by (simp add: warm_sum_def)
  next
    case False
    with Cons.IH [of w] Cons.prems l show ?thesis by (simp add: warm_sum_def)
  qed
qed (simp add: warm_sum_def)

lemma warm_sum_none:
  "filter (\<lambda>t. ProvisionerName t = ProvisionerFirecracker) ts = [] \<Longrightarrow> warm_sum w ts = w"
  by (induction ts) (auto simp: warm_sum_def split: if_splits)

text \<open>A loaded tier's schedule passed \<open>init\<close>; its sizes are then within its bounds at every moment.\<close>

definition schedule_loaded :: "Tier \<Rightarrow> bool" where
  "schedule_loaded t \<longleftrightarrow> (\<forall>s. ti_Schedule t = Some s \<longrightarrow> (\<forall>w \<in> set (sc_Windows s). window_ok w))"

lemma init_tiers_loaded: "init_tiers E ts = Inr ts' \<Longrightarrow> t \<in> set ts' \<Longrightarrow> schedule_loaded t"
proof (induction ts arbitrary: ts')
  case (Cons u us)
  obtain u' us' where u: "ts' = u' # us'" "init_tiers E us = Inr us'"
    and s: "ti_Schedule u' = None \<or> (\<exists>s s'. schedule_init (zone_of E) s = Inr s' \<and> ti_Schedule u' = Some s')"
    using Cons.prems(1) by (fastforce split: option.splits sum.splits)
  have "schedule_loaded u'" using s schedule_init_ok unfolding schedule_loaded_def by fastforce
  with Cons.IH [OF u(2)] Cons.prems(2) u(1) show ?case by auto
qed simp

lemma loadTiers_loaded: "loadTiers E path = Inr ts \<Longrightarrow> t \<in> set ts \<Longrightarrow> schedule_loaded t"
  by (auto simp: loadTiers_def split: option.splits sum.splits if_splits dest: init_tiers_loaded)

lemma base_nonneg: "tier_in_bounds t \<Longrightarrow> firecracker_tier c t \<or> ec2_tier t \<Longrightarrow>
    0 \<le> sz_Min (BaseSizes t) \<and> 0 \<le> sz_Pool (BaseSizes t)"
  by (auto simp: tier_in_bounds_def BaseSizes_def firecracker_tier_def ec2_tier_def)

lemma tier_MaxMin_bounds: "tier_in_bounds t \<Longrightarrow> 0 \<le> tier_MaxMin t \<and> ti_Min t \<le> tier_MaxMin t \<and> tier_MaxMin t \<le> ti_Max t"
  by (auto simp: tier_in_bounds_def tier_MaxMin_def MaxMin_def max_of_ge intro!: max_of_le split: option.splits)

lemma sizes_in_bounds:
  assumes "tier_in_bounds t" "firecracker_tier c t \<or> ec2_tier t" "schedule_loaded t"
  shows "0 \<le> sz_Min (SizesAt t m)" "sz_Min (SizesAt t m) \<le> tier_MaxMin t"
    "0 \<le> sz_Pool (SizesAt t m)" "sz_Pool (SizesAt t m) \<le> tier_MaxPool t"
proof -
  have b: "0 \<le> sz_Min (BaseSizes t)" "0 \<le> sz_Pool (BaseSizes t)" using base_nonneg [OF assms(1,2)] by simp_all
  have min: "sz_Min (BaseSizes t) = ti_Min t" by (simp add: BaseSizes_def)
  show "0 \<le> sz_Min (SizesAt t m)" "sz_Min (SizesAt t m) \<le> tier_MaxMin t"
    "0 \<le> sz_Pool (SizesAt t m)" "sz_Pool (SizesAt t m) \<le> tier_MaxPool t"
    using b min At_sizes [OF _ b] assms(3)
    by (auto simp: SizesAt_def tier_MaxMin_def tier_MaxPool_def schedule_loaded_def split: option.splits)
qed

text \<open>A Firecracker tier keeps no stopped pool.\<close>

lemma firecracker_no_pool:
  assumes "tier_in_bounds t" "firecracker_tier c t" "schedule_loaded t"
  shows "sz_Pool (SizesAt t m) = 0"
proof -
  have "\<not> IsEC2 t" by (rule tier_kinds(1) [OF assms(2)])
  have "MaxPool s \<le> 0" if s: "ti_Schedule t = Some s" for s
    unfolding MaxPool_def
  proof (rule max_of_le)
    fix w n assume "w \<in> set (sc_Windows s)" "w_Pool w = Some n"
    with assms(1) s \<open>\<not> IsEC2 t\<close> show "n \<le> 0" unfolding tier_in_bounds_def by (meson not_less)
  qed simp
  with assms(2) have "tier_MaxPool t \<le> 0"
    by (auto simp: tier_MaxPool_def BaseSizes_def firecracker_tier_def split: option.splits)
  with sizes_in_bounds(3,4) [OF assms(1) _ assms(3), of c m] assms(2) show ?thesis by simp
qed

end
