(* ===== verification/Config_Claims.thy ===== *)
theory Config_Claims
  imports Config_Props
begin

text \<open>
  The properties of the configuration: the shape and the bounds of an accepted catalog, the agreement of
  \<open>config check\<close> with the daemon, the endpoint instances are sent to, and the names of devices.
\<close>

section \<open>Catalogs\<close>

text \<open>
  C26. An accepted catalog is well formed: its names are distinct and not empty, each tier has
  \<open>0 \<le> min \<le> max\<close> with \<open>max \<ge> 1\<close> and no window above its \<open>max\<close>, and it describes exactly one kind of
  runner: a Firecracker tier with a shape, an image and a \<open>max\<close> within the slot budget and no ec2 block, or
  an EC2 tier with none of the Firecracker fields and a complete launch template, whose lists are not
  empty and have no blank and no repeated entry.
\<close>

theorem catalog_well_formed:
  assumes "validateTiers E c = None"
  shows "distinct (map ti_Name (c_Tiers c)) \<and>
    (\<forall>t \<in> set (c_Tiers c). tier_in_bounds t \<and>
       (if IsEC2 t then ec2_tier t \<and> ti_EC2 t \<noteq> None else firecracker_tier c t \<and> ti_EC2 t = None))"
proof -
  have "if IsEC2 t then ec2_tier t \<and> ti_EC2 t \<noteq> None else firecracker_tier c t \<and> ti_EC2 t = None"
    if "t \<in> set (c_Tiers c)" for t
    using validateTiers_None(4) [OF assms that] by (auto simp: firecracker_tier_def ec2_tier_def IsEC2_def)
  with validateTiers_None(1,3) [OF assms] show ?thesis by blast
qed

definition demo_ec2 :: EC2Tier where
  "demo_ec2 = \<lparr>t_InstanceTypes = [''c8a.xlarge''], t_AMI = ''ami-1'', t_Subnets = [''s1''], t_SecurityGroups = [''g''],
     t_Market = MarketSpot, t_RootVolumeGiB = 0, t_RootVolumeType = [], t_Pool = 1\<rparr>"

definition demo_windows :: "Window list" where
  "demo_windows = [\<lparr>w_Days = ''daily'', w_Hours = ''08:00-20:00'', w_Min = Some 2, w_Pool = None, w_days = [], w_start = 0, w_end = 0\<rparr>]"

definition demo_catalog :: "Tier list" where
  "demo_catalog =
     [\<lparr>ti_Name = ''fr-2'', ti_Labels = [], ti_Provisioner = [], ti_VCPU = 2, ti_MemMiB = 4096, ti_Golden = ''/g'',
       ti_ToolCache = ''/tools'', ti_EC2 = None, ti_Min = 1, ti_Max = 4,
       ti_Schedule = Some \<lparr>sc_TimeZone = ''UTC'', sc_Windows = demo_windows, sc_loc = \<lambda>_. 0\<rparr>\<rparr>,
      \<lparr>ti_Name = ''ec2'', ti_Labels = [], ti_Provisioner = ''ec2'', ti_VCPU = 0, ti_MemMiB = 0, ti_Golden = [],
       ti_ToolCache = [], ti_EC2 = Some demo_ec2, ti_Min = 0, ti_Max = 9, ti_Schedule = None\<rparr>]"

definition demo_cenv :: config_env where
  "demo_cenv = \<lparr>stat_ok = \<lambda>p. p = ''/tools'', url_of = \<lambda>_. None, tiers_in = \<lambda>_. Some demo_catalog, zone_of = \<lambda>_. Some (\<lambda>_. 0)\<rparr>"

definition demo_loaded :: "Tier list" where
  "demo_loaded = (case loadTiers demo_cenv ''f'' of Inr ts \<Rightarrow> ts | Inl _ \<Rightarrow> [])"

definition demo_config :: Config where
  "demo_config = zeroConfig\<lparr>c_MaxRunners := 4, c_Tiers := demo_loaded\<rparr>"

lemma demo_load: "loadTiers demo_cenv ''f'' = Inr demo_loaded"
proof -
  have "\<not> isl (loadTiers demo_cenv ''f'')" by code_simp
  then show ?thesis by (cases "loadTiers demo_cenv ''f''") (auto simp: demo_loaded_def)
qed

lemma demo_valid: "validateTiers demo_cenv demo_config = None"
  by code_simp

lemma demo_loaded_parts:
  "length demo_loaded = 2" "hd demo_loaded \<in> set demo_loaded" "ti_Name (hd demo_loaded) = ''fr-2''"
  "\<not> IsEC2 (hd demo_loaded)" "filter (\<lambda>t. \<not> IsEC2 t) demo_loaded = [hd demo_loaded]"
proof -
  have n: "map ti_Name demo_loaded = [''fr-2'', ''ec2'']" and k: "map IsEC2 demo_loaded = [False, True]"
    by code_simp+
  then obtain a b where ab: "demo_loaded = [a, b]" by (auto simp: map_eq_Cons_conv)
  show "length demo_loaded = 2" "hd demo_loaded \<in> set demo_loaded" by (simp_all add: ab)
  show "ti_Name (hd demo_loaded) = ''fr-2''" using n by (simp add: ab)
  show "\<not> IsEC2 (hd demo_loaded)" "filter (\<lambda>t. \<not> IsEC2 t) demo_loaded = [hd demo_loaded]"
    using k unfolding ab by (simp, simp)
qed

lemma demo_config_simps [simp]: "c_Tiers demo_config = demo_loaded" "c_MaxRunners demo_config = 4"
  by (simp_all add: demo_config_def)

lemma catalog_well_formed_witness:
  "distinct (map ti_Name demo_loaded) \<and> firecracker_tier demo_config (hd demo_loaded)"
  using catalog_well_formed [OF demo_valid] demo_loaded_parts(2,4) by auto

text \<open>
  C27. The warm pools fit: for an accepted catalog with loaded schedules, taking every tier at any moment,
  the warm runners its Firecracker tiers ask for add up to at most \<open>--max-runners\<close>, no tier asks for more
  warm runners than its \<open>max\<close> or a bigger pool than the one it was accepted with, and no Firecracker tier
  for a pool.  The budget times the number of tiers must fit in 63 bits, or the sum may wrap.
\<close>

theorem warm_pools_fit:
  assumes load: "loadTiers E path = Inr (c_Tiers c)" and valid: "validateTiers E c = None"
    and width: "c_MaxRunners c * int (length (c_Tiers c)) < 2 ^ 63"
  shows "(\<Sum>t \<leftarrow> filter (\<lambda>t. \<not> IsEC2 t) (c_Tiers c). sz_Min (SizesAt t (m t))) \<le> c_MaxRunners c \<and>
    (\<forall>t \<in> set (c_Tiers c). 0 \<le> sz_Min (SizesAt t (m t)) \<and> sz_Min (SizesAt t (m t)) \<le> ti_Max t \<and>
       0 \<le> sz_Pool (SizesAt t (m t)) \<and> sz_Pool (SizesAt t (m t)) \<le> tier_MaxPool t \<and>
       (\<not> IsEC2 t \<longrightarrow> sz_Pool (SizesAt t (m t)) = 0))"
proof -
  let ?F = "filter (\<lambda>t. ProvisionerName t = ProvisionerFirecracker) (c_Tiers c)"
  have ok: "tier_in_bounds t" "firecracker_tier c t \<or> ec2_tier t" "schedule_loaded t" if "t \<in> set (c_Tiers c)" for t
    using validateTiers_None [OF valid] loadTiers_loaded [OF load that] that by blast+
  have F: "filter (\<lambda>t. \<not> IsEC2 t) (c_Tiers c) = ?F"
    by (rule filter_cong) (use ok(2) tier_kinds in blast)+
  have size: "0 \<le> sz_Min (SizesAt t (m t)) \<and> sz_Min (SizesAt t (m t)) \<le> tier_MaxMin t \<and> tier_MaxMin t \<le> ti_Max t"
    if "t \<in> set (c_Tiers c)" for t
    using sizes_in_bounds [OF ok [OF that]] tier_MaxMin_bounds [OF ok(1) [OF that]] by simp
  have "(\<Sum>t \<leftarrow> ?F. sz_Min (SizesAt t (m t))) \<le> (\<Sum>t \<leftarrow> ?F. tier_MaxMin t)"
    by (rule sum_list_mono) (use size in auto)
  moreover have "(\<Sum>t \<leftarrow> ?F. tier_MaxMin t) \<le> c_MaxRunners c"
  proof (cases "?F = []")
    case True
    then have "warm_sum 0 (c_Tiers c) = 0" by (rule warm_sum_none)
    with True validateTiers_None(2) [OF valid] show ?thesis by simp
  next
    case False
    have b: "tier_MaxMin t \<le> c_MaxRunners c \<and> 0 \<le> tier_MaxMin t" if "t \<in> set ?F" for t
    proof -
      have "firecracker_tier c t" using that ok(2) tier_kinds(3) by auto
      then have "ti_Max t \<le> c_MaxRunners c" by (simp add: firecracker_tier_def)
      with that tier_MaxMin_bounds [OF ok(1)] show ?thesis by fastforce
    qed
    obtain u where "u \<in> set ?F" using False by (meson list.set_sel(1))
    with b have "0 \<le> c_MaxRunners c" by fastforce
    then have "warm_sum 0 (c_Tiers c) = (\<Sum>t \<leftarrow> ?F. tier_MaxMin t)"
      using warm_sum_exact [of 0 "c_MaxRunners c" "c_Tiers c"] b width by fastforce
    with validateTiers_None(2) [OF valid] show ?thesis by simp
  qed
  moreover have "0 \<le> sz_Pool (SizesAt t (m t)) \<and> sz_Pool (SizesAt t (m t)) \<le> tier_MaxPool t \<and>
      (\<not> IsEC2 t \<longrightarrow> sz_Pool (SizesAt t (m t)) = 0)" if "t \<in> set (c_Tiers c)" for t
    using sizes_in_bounds [OF ok [OF that]] firecracker_no_pool [OF ok(1) [OF that] _ ok(3) [OF that]]
      ok(2) [OF that] tier_kinds(2) by blast
  ultimately show ?thesis using size unfolding F by fastforce
qed

lemma warm_pools_fit_witness:
  "sz_Min (SizesAt (hd demo_loaded) (9 * hour)) = 2 \<and> sz_Min (SizesAt (hd demo_loaded) (9 * hour)) \<le> 4"
proof -
  have "sz_Min (SizesAt (hd demo_loaded) (9 * hour)) = 2" by code_simp
  moreover have "(\<Sum>t \<leftarrow> filter (\<lambda>t. \<not> IsEC2 t) demo_loaded. sz_Min (SizesAt t (9 * hour))) \<le> 4"
    using warm_pools_fit [where m = "\<lambda>_. 9 * hour", OF _ demo_valid] demo_load demo_loaded_parts(1) by simp
  ultimately show ?thesis by (simp add: demo_loaded_parts(5))
qed

section \<open>Checking a catalog away from its host\<close>

text \<open>The daemon's and the offline check of a tier differ in the tool cache's file only.\<close>

lemma first_error_append: "first_error (gs @ hs) = first_of (first_error gs) (first_error hs)"
  by (induction gs rule: first_error.induct) (auto simp: first_of_def first_error.simps(2))

lemma validateTier_offline:
  assumes "c_MaxRunners c' = c_MaxRunners c" "c_offline c'" "validateTier E c' seen i t = None"
  shows "validateTier E c seen i t \<in> {None, Some (TierToolCacheMissing (ti_ToolCache t))}"
  using assms
  by (auto simp: validateTier_def validateFirecrackerTier_def first_of_def first_error.simps(2) split: option.splits if_splits)

lemma validateTier_online:
  assumes "c_MaxRunners c' = c_MaxRunners c" "c_offline c'" "validateTier E c seen i t = None"
  shows "validateTier E c' seen i t = None"
  using assms
  by (auto simp: validateTier_def validateFirecrackerTier_def first_error_None_iff split: option.splits if_splits)

lemma validate_each_offline:
  assumes "c_MaxRunners c' = c_MaxRunners c" "c_offline c'" "validate_each E c' seen i w ts = None"
  shows "validate_each E c seen i w ts = None \<or>
    (\<exists>t \<in> set ts. validate_each E c seen i w ts = Some (InTier (ti_Name t) (TierToolCacheMissing (ti_ToolCache t))))"
  using assms(3)
proof (induction ts arbitrary: seen i w)
  case (Cons t ts)
  let ?w = "if ProvisionerName t = ProvisionerFirecracker then wrap64 (w + tier_MaxMin t) else w"
  from Cons.prems have t: "validateTier E c' seen i t = None"
    and rest: "validate_each E c' (ti_Name t # seen) (Suc i) ?w ts = None" by simp_all
  from validateTier_offline [OF assms(1,2) t] show ?case
    using Cons.IH [OF rest] by (auto simp: first_of_def)
qed (use assms(1) in \<open>auto split: if_splits\<close>)

lemma validate_each_online:
  assumes "c_MaxRunners c' = c_MaxRunners c" "c_offline c'"
  shows "validate_each E c seen i w ts = None \<Longrightarrow> validate_each E c' seen i w ts = None"
proof (induction ts arbitrary: seen i w)
  case (Cons t ts)
  then show ?case using validateTier_online [OF assms] by simp
qed (use assms(1) in \<open>auto split: if_splits\<close>)

text \<open>
  \<open>config check --catalog\<close> and the daemon agree: a catalog accepted for a slot budget is, under that
  budget, accepted by the daemon's own validation or refused only for the tool cache file of one of its
  tiers; and every catalog the daemon accepts passes the check.
\<close>

theorem check_catalog_agrees:
  assumes "loadTiers E path = Inr (c_Tiers c)"
  shows "(CheckCatalog E path (c_MaxRunners c) = Inr (c_Tiers c) \<longrightarrow>
      validateTiers E c = None \<or>
      (\<exists>t \<in> set (c_Tiers c). validateTiers E c = Some (InTier (ti_Name t) (TierToolCacheMissing (ti_ToolCache t))))) \<and>
    (validateTiers E c = None \<longrightarrow> CheckCatalog E path (c_MaxRunners c) = Inr (c_Tiers c))"
proof -
  let ?c = "zeroConfig\<lparr>c_Tiers := c_Tiers c, c_MaxRunners := c_MaxRunners c, c_offline := True\<rparr>"
  have "CheckCatalog E path (c_MaxRunners c) = Inr (c_Tiers c) \<longleftrightarrow> validateTiers E ?c = None"
    using assms by (auto simp: CheckCatalog_def split: option.splits)
  then show ?thesis
    using validate_each_offline [of ?c c E "[]" 0 0 "c_Tiers c"] validate_each_online [of ?c c E "[]" 0 0 "c_Tiers c"]
    by (auto simp: validateTiers_def)
qed

lemma check_catalog_agrees_witness: "CheckCatalog demo_cenv ''f'' 4 = Inr demo_loaded"
  using check_catalog_agrees [of demo_cenv "''f''" demo_config] demo_load demo_valid by simp

section \<open>The JIT endpoint\<close>

lemma set_join: "set (join sep ps) \<subseteq> \<Union> (set ` set ps) \<union> set sep"
  by (induction sep ps rule: join.induct) auto

lemma validHostname_colon: "validHostname s \<Longrightarrow> CHR '':'' \<notin> set s"
proof
  assume v: "validHostname s" and c: "CHR '':'' \<in> set s"
  have "CHR '':'' \<in> set (trim_suffix s ''.'')"
    using c by (auto simp: trim_suffix_def suffix_def split: if_splits)
  then have "CHR '':'' \<in> set (join ''.'' (split_on CHR ''.'' (trim_suffix s ''.'')))"
    by (simp add: join_split_on)
  with set_join [of "''.''"] obtain l where l: "l \<in> set (split_on CHR ''.'' (trim_suffix s ''.''))" "CHR '':'' \<in> set l" by auto
  then have "host_label l" using v by (auto simp: validHostname_def list_all_iff)
  with l(2) have "let n = (of_char CHR '':'' :: nat) in
      CHR '':'' = CHR ''-'' \<or> is_digit CHR '':'' \<or> (97 \<le> n \<and> n \<le> 122) \<or> (65 \<le> n \<and> n \<le> 90)"
    unfolding host_label_def list_all_iff by blast
  then show False by (simp add: is_digit_def)
qed

text \<open>
  The endpoint instances are sent to: a configuration with an EC2 tier that passes the check has an
  address and a port other than 0, the address is not the unspecified one, nor loopback, multicast or
  link-local, a configuration waits at least 30 seconds to be fetched, and the endpoint is the configured
  address or the configured name with that same port.
\<close>

theorem jit_endpoint_concrete:
  assumes "validateJIT c = None" "UsesEC2 c"
  shows "\<exists>a p. parse_addr_port (c_JITAddr c) = Some (a, p) \<and> 0 < p \<and>
    \<not> is_unspecified (unmap_addr a) \<and> \<not> is_loopback (unmap_addr a) \<and> \<not> is_multicast (unmap_addr a) \<and>
    \<not> is_link_local (unmap_addr a) \<and> 30 * second \<le> c_JITTTL c \<and>
    JITEndpoint c = (if c_JITHost c = [] then c_JITAddr c else c_JITHost c @ '':'' @ show_nat p)"
proof -
  have "c_JITAddr c \<noteq> []" using assms by (auto simp: validateJIT_def)
  with assms(1) obtain a p where ap: "parse_addr_port (c_JITAddr c) = Some (a, p)"
    by (auto simp: validateJIT_def split: option.splits)
  with assms(1) \<open>c_JITAddr c \<noteq> []\<close>
  have v: "\<not> is_unspecified (unmap_addr a)" "\<not> is_loopback (unmap_addr a)" "\<not> is_multicast (unmap_addr a)"
    "\<not> is_link_local (unmap_addr a)" "p \<noteq> 0" "30 * second \<le> c_JITTTL c" "c_JITHost c \<noteq> [] \<longrightarrow> validHostname (c_JITHost c)"
    by (auto simp: validateJIT_def Let_def first_error_None_iff)
  moreover have "JITEndpoint c = (if c_JITHost c = [] then c_JITAddr c else c_JITHost c @ '':'' @ show_nat p)"
    using ap v(7) validHostname_colon by (auto simp: JITEndpoint_def join_host_port_def)
  ultimately show ?thesis using ap by (intro exI [of _ a] exI [of _ p]) simp
qed

definition demo_jit :: Config where
  "demo_jit = demo_config\<lparr>c_JITAddr := ''10.0.0.5:8098'', c_JITHost := ''control.internal'', c_JITTTL := 5 * minute\<rparr>"

lemma demo_addr: "parse_addr_port ''10.0.0.5:8098'' = Some (A4 [10, 0, 0, 5], 8098)"
proof -
  have p: "parse_port ''8098'' = Some 8098"
    by (simp add: parse_port_def parse_nat_def is_digit_def digit_val_def)
  have a: "parse_addr ''10.0.0.5'' = Some (A4 [10, 0, 0, 5])" by code_simp
  show ?thesis by (simp add: parse_addr_port_def p a is_addr4_def)
qed

lemma demo_jit_ok:
  assumes "c_JITHost c = ''control.internal''" "c_JITAddr c = ''10.0.0.5:8098''" "c_JITTTL c = 5 * minute"
  shows "validateJIT c = None"
proof -
  have "validHostname ''control.internal''" "parse_addr ''control.internal'' = None" by code_simp+
  then show ?thesis
    by (simp add: validateJIT_def assms demo_addr unmap_addr_def first_error.simps(2) is_unspecified_def is_loopback_def
        is_multicast_def is_link_local_def)
qed

lemma jit_endpoint_concrete_witness: "JITEndpoint demo_jit = ''control.internal:8098''"
proof -
  have e: "c_JITHost demo_jit = ''control.internal''" "c_JITAddr demo_jit = ''10.0.0.5:8098''" "c_JITTTL demo_jit = 5 * minute"
    by (simp_all add: demo_jit_def)
  have u: "UsesEC2 demo_jit" by code_simp
  have "show_nat 8098 = ''8098''" by (simp add: show_eval)
  with jit_endpoint_concrete [OF demo_jit_ok [OF e] u] e demo_addr show ?thesis by auto
qed

section \<open>Devices of a slot\<close>

definition devices :: "Config \<Rightarrow> nat \<Rightarrow> string list" where
  "devices c slot =
     (let f = with_defaults (c_Firecracker c); n = slotNet slot (f_TapPrefix f) (f_NetBase f);
          s = slotNetNS n (f_NetBase f) (f_TapPrefix f)
      in [n_tap n, ns_hostVeth s, ns_nsVeth s])"

definition tap_prefix :: "Config \<Rightarrow> string" where
  "tap_prefix c = f_TapPrefix (with_defaults (c_Firecracker c))"

definition dev_name :: "string \<Rightarrow> nat \<Rightarrow> string \<Rightarrow> string" where
  "dev_name p n x = p @ show_nat n @ x"

lemma devices_eq:
  "devices c slot = [dev_name (tap_prefix c) slot [], dev_name (tap_prefix c @ ''v'') slot ''h'',
     dev_name (tap_prefix c @ ''v'') slot ''g'']"
  by (simp add: dev_name_def devices_def tap_prefix_def Let_def slotNet_def slotNetNS_def)

lemma letter_not_digit: "ascii_letter c \<Longrightarrow> \<not> is_digit c"
  by (auto simp: ascii_letter_def is_digit_def Let_def)

lemma show_nat_Cons: obtains d ds where "show_nat n = d # ds" "is_digit d"
  using show_nat_digits [of n] show_nat_not_Nil [of n] by (cases "show_nat n") auto

lemma letters_then_number:
  assumes "list_all ascii_letter p" "list_all ascii_letter q" "p @ show_nat m @ x = q @ show_nat n @ y"
  shows "p = q"
  using assms
proof (induction p arbitrary: q)
  case Nil
  obtain d ds where d: "show_nat m = d # ds" "is_digit d" by (rule show_nat_Cons)
  with Nil show ?case using letter_not_digit by (cases q) auto
next
  case (Cons a p)
  obtain d ds where d: "show_nat n = d # ds" "is_digit d" by (rule show_nat_Cons)
  with Cons show ?case using letter_not_digit by (cases q) auto
qed

lemma dev_name_eq:
  assumes "list_all ascii_letter p" "list_all ascii_letter q" "x = [] \<or> \<not> is_digit (hd x)" "y = [] \<or> \<not> is_digit (hd y)"
  shows "dev_name p m x = dev_name q n y \<longleftrightarrow> p = q \<and> m = n \<and> x = y"
proof
  assume "dev_name p m x = dev_name q n y"
  then have e: "p @ show_nat m @ x = q @ show_nat n @ y" by (simp only: dev_name_def)
  have p: "p = q" by (rule letters_then_number [OF assms(1,2) e])
  have "m = n \<and> x = y" by (rule show_nat_append_eq [OF assms(3,4)]) (use e p in simp)
  with p show "p = q \<and> m = n \<and> x = y" by simp
qed simp

lemma valid_tap_prefix:
  assumes "validate E c = None"
  shows "list_all ascii_letter (tap_prefix c)" "length (tap_prefix c) \<le> 11"
proof -
  have "validateRest E c = None" using assms by (simp add: validate_def)
  then have "f_TapPrefix (c_Firecracker c) = [] \<or> length (f_TapPrefix (c_Firecracker c)) \<le> 11"
    "list_all ascii_letter (f_TapPrefix (c_Firecracker c))"
    unfolding validateRest_def Let_def first_error_None_iff by (simp_all add: not_less)
  then show "list_all ascii_letter (tap_prefix c)" "length (tap_prefix c) \<le> 11"
    by (auto simp: tap_prefix_def with_defaults_def or_default_def ascii_letter_def)
qed

text \<open>
  C28. Device names never collide: for two accepted configurations on one host that differ in their tap
  prefix, or one configuration and two slots, the tap and the two ends of the veth pair have six different
  names, and a slot below 100 gives names within the 15 bytes Linux allows.
\<close>

theorem devices_never_collide:
  assumes "validate E c = None" "validate E' c' = None" "tap_prefix c \<noteq> tap_prefix c' \<or> slot \<noteq> slot'"
  shows "distinct (devices c slot @ devices c' slot') \<and> (slot < 100 \<longrightarrow> (\<forall>d \<in> set (devices c slot). length d \<le> 15))"
proof -
  let ?p = "tap_prefix c" and ?q = "tap_prefix c'"
  have v: "ascii_letter CHR ''v''" and nd: "\<not> is_digit CHR ''h''" "\<not> is_digit CHR ''g''" by code_simp+
  note l = valid_tap_prefix [OF assms(1)] valid_tap_prefix [OF assms(2)]
  have L: "list_all ascii_letter ?p" "list_all ascii_letter ?q" "list_all ascii_letter (?p @ ''v'')"
    "list_all ascii_letter (?q @ ''v'')" using l v by simp_all
  have "distinct (devices c slot)" "distinct (devices c' slot')" "set (devices c slot) \<inter> set (devices c' slot') = {}"
    using assms(3) by (simp_all add: devices_eq dev_name_eq L nd del: list_all_append)
  moreover have "length d \<le> 15" if "slot < 100" "d \<in> set (devices c slot)" for d
    using that l(2) length_show_nat_mono [of slot 2] unfolding devices_eq dev_name_def by auto
  ultimately show ?thesis by auto
qed

definition demo_daemon :: "string \<Rightarrow> int \<Rightarrow> Config" where
  "demo_daemon pre runners =
     zeroConfig\<lparr>c_URL := ''u'', c_Token := ''t'', c_VCPU := 1, c_MemMiB := 128, c_EC2Reaper := ''on'', c_MaxRunners := runners,
       c_Firecracker := (c_Firecracker zeroConfig)
         \<lparr>f_KernelImage := ''k'', f_GoldenRootFS := ''g'', f_ExtIface := ''e'', f_TapPrefix := pre, f_MaxVMs := runners,
          f_Jailer := True, f_JailUID := 1, f_JailGID := 1, f_NetNS := True\<rparr>\<rparr>"

lemma demo_daemon_valid:
  assumes "list_all ascii_letter p" "length p \<le> 11" "1 \<le> n"
  shows "validate demo_cenv (demo_daemon p n) = None"
proof -
  have "\<not> IsEC2 t" if "ti_Provisioner t = []" for t
    using that by (simp add: IsEC2_def ProvisionerName_def)
  with assms show ?thesis
    by (auto simp: validate_def validateRequired_def validateJIT_def validateRest_def UsesEC2_def EffectiveTiers_def
        demo_daemon_def zeroConfig_def Let_def first_error_None_iff)
qed

lemma devices_never_collide_witness:
  "distinct (devices (demo_daemon ''fr'' 4) 1 @ devices (demo_daemon ''frv'' 4) 1)"
proof -
  have l: "list_all ascii_letter ''fr''" "list_all ascii_letter ''frv''" by code_simp+
  have "tap_prefix (demo_daemon ''fr'' 4) \<noteq> tap_prefix (demo_daemon ''frv'' 4)"
    by (simp add: tap_prefix_def demo_daemon_def with_defaults_def or_default_def)
  with devices_never_collide [OF demo_daemon_valid [OF l(1), of 4] demo_daemon_valid [OF l(2), of 4], of 1 1]
  show ?thesis by simp
qed

text \<open>
  The slot count is bounded by nothing: an accepted configuration with \<open>--max-runners 300\<close> hands out slot
  299 first, whose guest address is no address, and slot 100 of one with an 11-byte prefix in netns mode gets a veth name
  of 16 bytes, one too many.
\<close>

theorem max_runners_unbounded:
  "\<exists>c. validate demo_cenv c = None \<and> c_MaxRunners c = 300 \<and> f_NetNS (c_Firecracker c) \<and>
     (\<exists>f pool slot pool'. NewFirecracker (c_Firecracker c) = (f, pool) \<and> acquire pool = (Some slot, pool') \<and>
        parse_addr4 (n_guestIP (slotNet slot (f_TapPrefix f) (f_NetBase f))) = None \<and>
        100 \<in> set pool \<and> (\<exists>d \<in> set (devices c 100). length d = 16))"
proof -
  let ?c = "demo_daemon ''abcdefghijk'' 300"
  have l: "list_all ascii_letter ''abcdefghijk''" by code_simp
  have v: "validate demo_cenv ?c = None" by (rule demo_daemon_valid [OF l]) simp_all
  have p: "snd (NewFirecracker (c_Firecracker ?c)) = [0..<300]"
    by (simp add: NewFirecracker_def with_defaults_def demo_daemon_def newIPAM_def Let_def)
  have a: "acquire [0..<300] = (Some 299, [0..<299])"
    using upt_Suc_append [of 0 299] by (simp add: acquire_Some)
  have "parse_addr4 (''172.'' @ show_nat b @ ''.'' @ show_nat 299 @ ''.2'') = None" for b
  proof -
    have "parse_field (show_nat 299) = None" by (simp add: parse_field_def parse_show_nat)
    then show ?thesis
      by (simp add: parse_addr4_def split_on_append split_on_none show_nat_no dot_not_digit split: option.splits)
  qed
  then have n: "parse_addr4 (n_guestIP (slotNet 299 q b)) = None" for q b
    by (simp add: slotNet_def)
  have d: "\<exists>d \<in> set (devices ?c 100). length d = 16"
  proof -
    have "tap_prefix ?c = ''abcdefghijk''" by (simp add: tap_prefix_def demo_daemon_def with_defaults_def or_default_def)
    moreover have "show_nat 100 = ''100''" by (simp add: show_eval)
    ultimately show ?thesis by (simp add: devices_eq dev_name_def)
  qed
  obtain f pool where f: "NewFirecracker (c_Firecracker ?c) = (f, pool)" by fastforce
  show ?thesis
    using v f p a n d by (intro exI [of _ ?c]) (auto simp: demo_daemon_def)
qed

end
