(* ===== verification/AppKey.thy ===== *)
theory AppKey
  imports Config
begin

text \<open>
  The GitHub App key (\<open>internal/config/appkey.go\<close>): where it comes from, when it is accepted, and what
  the errors say.  The file system and the PEM, PKCS#1, PKCS#8 and EC parsers of the standard library's
  \<open>crypto\<close> packages are an environment; errors are their texts, because the property is about them.
\<close>

datatype read_result = ReadOk string | ReadNotExist | ReadDenied | ReadFailed

datatype pkcs8_key = RSAKey | ECKey | Ed25519Key | OtherKey

record key_env =
  k_read :: "string \<Rightarrow> read_result"
  k_stat :: "string \<Rightarrow> bool"
  k_pem :: "string \<Rightarrow> (string \<times> string) option"
  k_pkcs1 :: "string \<Rightarrow> bool"
  k_pkcs8 :: "string \<Rightarrow> pkcs8_key option"
  k_ec :: "string \<Rightarrow> bool"

definition keyKind :: "pkcs8_key \<Rightarrow> string" where
  "keyKind k = (case k of ECKey \<Rightarrow> ''EC'' | Ed25519Key \<Rightarrow> ''Ed25519'' | _ \<Rightarrow> ''non-RSA'')"

definition label_text :: "string \<Rightarrow> bool" where
  "label_text t \<longleftrightarrow>
     t \<noteq> [] \<and> length t \<le> 40 \<and>
     list_all (\<lambda>c. (let n = (of_char c :: nat) in 65 \<le> n \<and> n \<le> 90) \<or> c = CHR '' '') t"

text \<open>Why a key is refused or a file is not read; a PEM block may be quoted by its label.\<close>

datatype key_reason =
    FileEmpty | OnlyWhitespace | NoPEMBlock | ECPrivateKey | NotPKCS "string option" | NotRSA pkcs8_key
  | FileMissing | FileDenied | FileUnreadable

text \<open>\<open>%q\<close> of capitals and spaces adds the quotes only.\<close>

definition blockType :: "string \<Rightarrow> string option" where
  "blockType t = (if label_text t then Some t else None)"

definition block_text :: "string option \<Rightarrow> string" where
  "block_text b = (case b of Some t \<Rightarrow> [CHR 0x22] @ t @ [CHR 0x22] | None \<Rightarrow> ''of an unexpected type'')"

definition reason_text :: "key_reason \<Rightarrow> string" where
  "reason_text r =
     (case r of
        FileEmpty \<Rightarrow> ''file is empty''
      | OnlyWhitespace \<Rightarrow> ''file holds only whitespace''
      | NoPEMBlock \<Rightarrow> ''no PEM block''
      | ECPrivateKey \<Rightarrow> ''not an RSA private key (an EC private key)''
      | NotPKCS b \<Rightarrow> ''not an RSA private key (PEM block '' @ block_text b @ '' does not parse as PKCS#1 or PKCS#8)''
      | NotRSA k \<Rightarrow> ''not an RSA private key (a PKCS#8 '' @ keyKind k @ '' key)''
      | FileMissing \<Rightarrow> ''file does not exist''
      | FileDenied \<Rightarrow> ''file is not readable (permission denied)''
      | FileUnreadable \<Rightarrow> ''file could not be read'')"

definition ParseAppPrivateKey :: "key_env \<Rightarrow> string \<Rightarrow> key_reason option" where
  "ParseAppPrivateKey E data =
     (if data = [] then Some FileEmpty
      else if trim_space data = [] then Some OnlyWhitespace
      else (case k_pem E data of
              None \<Rightarrow> Some NoPEMBlock
            | Some (label, bytes) \<Rightarrow>
                if k_pkcs1 E bytes then None
                else (case k_pkcs8 E bytes of
                        None \<Rightarrow> Some (if k_ec E bytes then ECPrivateKey else NotPKCS (blockType label))
                      | Some k \<Rightarrow> if k = RSAKey then None else Some (NotRSA k))))"

definition flagName :: string where "flagName = ''--app-private-key''"

definition keySource :: "key_env \<Rightarrow> string \<Rightarrow> string" where
  "keySource E path =
     (if has_prefix path ''/'' then flagName @ '' '' @ path
      else if k_stat E path then flagName @ '' '' @ path
      else flagName)"

definition ResolvePrivateKey :: "key_env \<Rightarrow> Config \<Rightarrow> string + string" where
  "ResolvePrivateKey E c =
     (let v = c_AppPrivateKey c in
      if v = [] then
        (if c_AppClientID c \<noteq> [] \<and> c_Token c = []
         then Inl (flagName @ '' is required with --app-client-id (or set --token)'') else Inr [])
      else if contains v ''PRIVATE KEY'' then
        (case ParseAppPrivateKey E v of
           Some e \<Rightarrow> Inl (flagName @ '' (inline PEM): '' @ reason_text e)
         | None \<Rightarrow> Inr v)
      else if contains_any v [CHR 0x0A, CHR 0x0D] then
        Inl (flagName @ '' is neither PEM with a '' @ [CHR 0x22] @ ''PRIVATE KEY'' @ [CHR 0x22] @ '' header nor a file path'')
      else (case k_read E v of
              ReadNotExist \<Rightarrow> Inl (keySource E v @ '': '' @ reason_text FileMissing)
            | ReadDenied \<Rightarrow> Inl (keySource E v @ '': '' @ reason_text FileDenied)
            | ReadFailed \<Rightarrow> Inl (keySource E v @ '': '' @ reason_text FileUnreadable)
            | ReadOk b \<Rightarrow>
                (case ParseAppPrivateKey E b of
                   Some e \<Rightarrow> Inl (keySource E v @ '': '' @ reason_text e)
                 | None \<Rightarrow> Inr b)))"

section \<open>What the errors say\<close>

text \<open>A reason that quotes a label quotes one of capitals and spaces.\<close>

definition quotes_label :: "key_reason \<Rightarrow> bool" where
  "quotes_label r \<longleftrightarrow> (case r of NotPKCS (Some t) \<Rightarrow> label_text t | _ \<Rightarrow> True)"

definition key_heads :: "string set" where
  "key_heads =
     {flagName @ '' is required with --app-client-id (or set --token)'',
      flagName @ '' is neither PEM with a '' @ [CHR 0x22] @ ''PRIVATE KEY'' @ [CHR 0x22] @ '' header nor a file path''}"

definition names_file :: "key_env \<Rightarrow> string \<Rightarrow> bool" where
  "names_file E v \<longleftrightarrow>
     \<not> contains v ''PRIVATE KEY'' \<and> \<not> contains_any v [CHR 0x0A, CHR 0x0D] \<and> (has_prefix v ''/'' \<or> k_stat E v)"

lemma ParseAppPrivateKey_reason: "ParseAppPrivateKey E data = Some r \<Longrightarrow> quotes_label r"
  by (auto simp: ParseAppPrivateKey_def quotes_label_def blockType_def split: if_splits option.splits)

text \<open>What an error may say, given the configured value.\<close>

definition key_error_text :: "key_env \<Rightarrow> string \<Rightarrow> string \<Rightarrow> bool" where
  "key_error_text E v msg \<longleftrightarrow>
     msg \<in> key_heads \<or>
     (\<exists>r. quotes_label r \<and>
        (msg = flagName @ '' (inline PEM): '' @ reason_text r \<or> msg = flagName @ '': '' @ reason_text r \<or>
         names_file E v \<and> msg = flagName @ '' '' @ v @ '': '' @ reason_text r))"

lemma resolve_key_outcome:
  "case ResolvePrivateKey E c of
     Inr k \<Rightarrow> k = [] \<and> c_AppPrivateKey c = [] \<and> \<not> (c_AppClientID c \<noteq> [] \<and> c_Token c = []) \<or>
             ParseAppPrivateKey E k = None
   | Inl msg \<Rightarrow> key_error_text E (c_AppPrivateKey c) msg"
proof -
  let ?v = "c_AppPrivateKey c"
  consider (none) "?v = []" | (inline) "?v \<noteq> []" "contains ?v ''PRIVATE KEY''"
    | (lines) "?v \<noteq> []" "\<not> contains ?v ''PRIVATE KEY''" "contains_any ?v [CHR 0x0A, CHR 0x0D]"
    | (path) "?v \<noteq> []" "\<not> contains ?v ''PRIVATE KEY''" "\<not> contains_any ?v [CHR 0x0A, CHR 0x0D]" by blast
  then show ?thesis
  proof cases
    case none
    then show ?thesis by (simp add: ResolvePrivateKey_def key_heads_def key_error_text_def)
  next
    case inline
    then show ?thesis
      using ParseAppPrivateKey_reason [of E ?v]
      by (cases "ParseAppPrivateKey E ?v") (auto simp: ResolvePrivateKey_def key_error_text_def)
  next
    case lines
    then show ?thesis by (simp add: ResolvePrivateKey_def key_heads_def key_error_text_def)
  next
    case path
    have src: "keySource E ?v @ '': '' @ reason_text r = flagName @ '': '' @ reason_text r \<or>
        names_file E ?v \<and> keySource E ?v @ '': '' @ reason_text r = flagName @ '' '' @ ?v @ '': '' @ reason_text r" for r
      using path by (simp add: keySource_def names_file_def)
    have other: "quotes_label FileMissing" "quotes_label FileDenied" "quotes_label FileUnreadable"
      by (simp_all add: quotes_label_def)
    show ?thesis
    proof (cases "\<exists>b. k_read E ?v = ReadOk b \<and> ParseAppPrivateKey E b = None")
      case True
      with path show ?thesis by (auto simp: ResolvePrivateKey_def)
    next
      case False
      then obtain r where "ResolvePrivateKey E c = Inl (keySource E ?v @ '': '' @ reason_text r)" "quotes_label r"
        using path other ParseAppPrivateKey_reason [of E]
        by (cases "k_read E ?v") (auto simp: ResolvePrivateKey_def split: option.splits)
      with src [of r] show ?thesis by (auto simp: key_error_text_def)
    qed
  qed
qed

text \<open>
  C29. No error names key material: its text is one of the fixed ones, quoting at most a PEM label of
  capitals, behind the flag's name, and it holds the configured value only when that value has neither a
  PEM header nor a line break and is absolute or names an existing file.  A key that is returned is empty
  because none is needed, or parses as an RSA key.
\<close>

theorem key_outcome:
  "case ResolvePrivateKey E c of
     Inr k \<Rightarrow> k = [] \<and> c_AppPrivateKey c = [] \<and> \<not> (c_AppClientID c \<noteq> [] \<and> c_Token c = []) \<or>
             ParseAppPrivateKey E k = None
   | Inl msg \<Rightarrow> msg \<in> key_heads \<or>
       (\<exists>r. quotes_label r \<and>
          (msg = flagName @ '' (inline PEM): '' @ reason_text r \<or> msg = flagName @ '': '' @ reason_text r \<or>
           names_file E (c_AppPrivateKey c) \<and> msg = flagName @ '' '' @ c_AppPrivateKey c @ '': '' @ reason_text r))"
  using resolve_key_outcome [of E c] unfolding key_error_text_def .

end
