(* ===== verification/Health.thy ===== *)
theory Health
  imports FR_Prelude
begin

text \<open>
  The health of a tier's listener (\<open>internal/health/health.go\<close>): the tracker each tier's goroutines
  write through, one method at a time under its mutex, and the publication of the state file.

  Times are arguments; \<open>None\<close> is the zero time.  A backoff is kept as the duration it is the seconds of.
\<close>

section \<open>The tracker\<close>

datatype conn_state = Connected | Reconnecting | Failed

record github_stats =
  gs_Available :: int
  gs_Acquired :: int
  gs_Assigned :: int
  gs_Running :: int
  gs_Registered :: int
  gs_Busy :: int
  gs_Idle :: int

record published_stats = github_stats +
  gs_At :: time
  gs_Tracked :: int

record applied_sizes =
  as_Min :: int
  as_Pool :: int
  as_Window :: string
  as_Since :: time

record tier_health =
  th_Name :: string
  th_State :: conn_state
  th_Reconnects :: nat
  th_Backoff :: duration
  th_LastMessage :: "time option"
  th_LastError :: string
  th_Since :: time
  th_GitHub :: "published_stats option"
  th_Drift :: string
  th_Recycles :: nat
  th_LostRunners :: nat
  th_Sizes :: "applied_sizes option"

definition NewTracker :: "string \<Rightarrow> time \<Rightarrow> tier_health" where
  "NewTracker name now =
     \<lparr>th_Name = name, th_State = Connected, th_Reconnects = 0, th_Backoff = 0, th_LastMessage = None,
      th_LastError = [], th_Since = now, th_GitHub = None, th_Drift = [], th_Recycles = 0, th_LostRunners = 0,
      th_Sizes = None\<rparr>"

definition set_conn :: "conn_state \<Rightarrow> time \<Rightarrow> tier_health \<Rightarrow> tier_health" where
  "set_conn s now t = (if th_State t \<noteq> s then t\<lparr>th_State := s, th_Since := now\<rparr> else t)"

definition MessageOK :: "time \<Rightarrow> tier_health \<Rightarrow> tier_health" where
  "MessageOK now t = set_conn Connected now (t\<lparr>th_LastMessage := Some now, th_Backoff := 0\<rparr>)"

definition health_Reconnecting :: "string \<Rightarrow> duration \<Rightarrow> time \<Rightarrow> tier_health \<Rightarrow> tier_health" where
  "health_Reconnecting err backoff now t = set_conn Reconnecting now (t\<lparr>th_LastError := err, th_Backoff := backoff\<rparr>)"

definition Reconnected :: "time \<Rightarrow> tier_health \<Rightarrow> tier_health" where
  "Reconnected now t = set_conn Connected now (t\<lparr>th_Reconnects := th_Reconnects t + 1, th_Backoff := 0\<rparr>)"

definition health_Failed :: "string \<Rightarrow> time \<Rightarrow> tier_health \<Rightarrow> tier_health" where
  "health_Failed err now t = set_conn Failed now (t\<lparr>th_LastError := err, th_Backoff := 0\<rparr>)"

definition record_GitHubStats :: "published_stats \<Rightarrow> tier_health \<Rightarrow> tier_health" where
  "record_GitHubStats st t = t\<lparr>th_GitHub := Some st\<rparr>"

definition SetDrift :: "string \<Rightarrow> tier_health \<Rightarrow> tier_health" where
  "SetDrift d t = t\<lparr>th_Drift := d\<rparr>"

definition SetSizes :: "applied_sizes \<Rightarrow> tier_health \<Rightarrow> tier_health" where
  "SetSizes sz t = t\<lparr>th_Sizes := Some sz\<rparr>"

definition Recycled :: "tier_health \<Rightarrow> tier_health" where
  "Recycled t = t\<lparr>th_Recycles := th_Recycles t + 1\<rparr>"

definition LostRunner :: "tier_health \<Rightarrow> tier_health" where
  "LostRunner t = t\<lparr>th_LostRunners := th_LostRunners t + 1\<rparr>"

lemma set_conn_fields [simp]:
  "th_State (set_conn s now t) = s" "th_Reconnects (set_conn s now t) = th_Reconnects t"
  "th_Backoff (set_conn s now t) = th_Backoff t" "th_LastError (set_conn s now t) = th_LastError t"
  "th_Recycles (set_conn s now t) = th_Recycles t" "th_LostRunners (set_conn s now t) = th_LostRunners t"
  "th_GitHub (set_conn s now t) = th_GitHub t" "th_Drift (set_conn s now t) = th_Drift t"
  by (simp_all add: set_conn_def)

section \<open>The state file\<close>

text \<open>
  \<open>Write\<close> through a temporary file.  A directory maps names to contents; a partial content is what a failed
  \<open>Write\<close> call leaves.  The stage at which the file system fails is an argument.
\<close>

datatype write_stage = MkdirStage | CreateTempStage | WriteStage | ChmodStage | CloseStage | RenameStage

type_synonym 'c file_dir = "string \<Rightarrow> 'c option"

definition publish :: "write_stage option \<Rightarrow> string \<Rightarrow> string \<Rightarrow> 'c \<Rightarrow> 'c \<Rightarrow> 'c file_dir \<Rightarrow> bool \<times> 'c file_dir" where
  "publish fails tmp path part content d =
     (if fails = Some MkdirStage \<or> fails = Some CreateTempStage then (False, d)
      else if fails = Some WriteStage then (False, (d(tmp \<mapsto> part))(tmp := None))
      else if fails = Some ChmodStage \<or> fails = Some CloseStage \<or> fails = Some RenameStage
      then (False, (d(tmp \<mapsto> content))(tmp := None))
      else (True, ((d(tmp \<mapsto> content))(path \<mapsto> content))(tmp := None)))"

lemma publish_atomic:
  assumes "tmp \<noteq> path" "d tmp = None"
  shows "publish fails tmp path part content d =
    (if fails = None then (True, d(path \<mapsto> content)) else (False, d))"
  using assms by (cases fails; cases "the fails") (auto simp: publish_def fun_eq_iff)

end
