(* ===== verification/Reconcile.thy ===== *)
theory Reconcile
  imports Health Sched_Core
begin

text \<open>
  The reconciler of one tier (\<open>internal/reconcile/reconcile.go\<close>): each check compares the statistics
  GitHub sent last with the scheduler's own count, recycles a session whose jobs nobody acquires, and
  cancels idle runners GitHub no longer knows.

  What the listener and GitHub answer during a check is the record \<open>recon_in\<close>; the scheduler is the one of
  theory \<open>Sched_Core\<close>, and the calls a check makes on it are made here.  A drift is kept as data;
  \<open>drift_text\<close> is the text published for it.  A check is one step here: scheduler steps between its look
  at the idle runners and its \<open>CancelLost\<close> are not interleaved; \<open>CancelLost\<close> itself looks again whether the VM is
  busy, which \<open>Sched_Machine\<close> covers in every interleaving.
\<close>

section \<open>State and inputs\<close>

record recon_options =
  ro_StuckAfter :: duration
  ro_RecycleEvery :: duration
  ro_LostAfter :: duration
  ro_LostEvery :: duration
  ro_RegisteredGrace :: duration
  ro_Tick :: duration
  ro_hasHealth :: bool
  ro_hasLookup :: bool

record Reconciler =
  rc_o :: recon_options
  rc_availableSince :: "time option"
  rc_lastRecycle :: "time option"
  rc_lastLostCheck :: "time option"
  rc_overRegisteredAt :: "time option"
  rc_health :: tier_health
  rc_sched :: scheduler

definition or_pos :: "duration \<Rightarrow> duration \<Rightarrow> duration" where
  "or_pos d v = (if d \<le> 0 then v else d)"

definition NewReconciler :: "recon_options \<Rightarrow> tier_health \<Rightarrow> scheduler \<Rightarrow> Reconciler" where
  "NewReconciler o' h s =
     \<lparr>rc_o = o'\<lparr>ro_StuckAfter := or_pos (ro_StuckAfter o') minute,
                ro_RecycleEvery := or_pos (ro_RecycleEvery o') (5 * minute),
                ro_LostAfter := or_pos (ro_LostAfter o') (2 * minute),
                ro_LostEvery := or_pos (ro_LostEvery o') minute,
                ro_RegisteredGrace := or_pos (ro_RegisteredGrace o') (3 * minute),
                ro_Tick := or_pos (ro_Tick o') (10 * second)\<rparr>,
      rc_availableSince = None, rc_lastRecycle = None, rc_lastLostCheck = None, rc_overRegisteredAt = None,
      rc_health = h, rc_sched = s\<rparr>"

text \<open>
  One check's inputs: the statistics and when they came, the clock, whether \<open>Recycle\<close> finds a live
  session, and what looking a runner up gives (\<open>None\<close>: an error).
\<close>

record recon_in =
  in_stats :: "(github_stats \<times> time) option"
  in_now :: time
  in_live :: bool
  in_known :: "string \<Rightarrow> bool option"

datatype drift = Unacquired int duration | OverRegistered int int

datatype recon_act = RecycleSession | CancelRunner string

section \<open>A check\<close>

text \<open>\<open>Duration.Round\<close> to the second, half away from zero (no wait is negative), and \<open>String\<close> of it.\<close>

definition round_secs :: "duration \<Rightarrow> nat" where
  "round_secs d = nat ((d + 500 * millisecond) div second)"

definition secs_text :: "nat \<Rightarrow> string" where
  "secs_text n =
     (if n < 60 then show_nat n @ ''s''
      else if n < 3600 then show_nat (n div 60) @ ''m'' @ show_nat (n mod 60) @ ''s''
      else show_nat (n div 3600) @ ''h'' @ show_nat (n mod 3600 div 60) @ ''m'' @ show_nat (n mod 60) @ ''s'')"

definition drift_text :: "drift \<Rightarrow> string" where
  "drift_text d =
     (case d of
        Unacquired n w \<Rightarrow> show_int n @ '' job(s) available but unacquired for '' @ secs_text (round_secs w)
      | OverRegistered g t \<Rightarrow>
          ''GitHub lists '' @ show_int g @ '' registered runner(s), firerunner tracks '' @ show_int t)"

text \<open>Whether a pace has passed since an earlier moment; nothing happened at the zero time.\<close>

definition due :: "time option \<Rightarrow> time \<Rightarrow> duration \<Rightarrow> bool" where
  "due prev now every = (case prev of None \<Rightarrow> True | Some t \<Rightarrow> now - t \<ge> every)"

text \<open>Jobs available but unacquired: the drift found and whether the session was recycled.\<close>

definition check_available :: "recon_in \<Rightarrow> github_stats \<Rightarrow> Reconciler \<Rightarrow> drift list \<times> recon_act list \<times> Reconciler" where
  "check_available i st r =
     (if gs_Available st > 0 then
        let since = (case rc_availableSince r of None \<Rightarrow> in_now i | Some t \<Rightarrow> t);
            r = r\<lparr>rc_availableSince := Some since\<rparr>;
            waited = in_now i - since in
        if waited \<ge> ro_StuckAfter (rc_o r) then
          (if due (rc_lastRecycle r) (in_now i) (ro_RecycleEvery (rc_o r)) \<and> in_live i
           then ([Unacquired (gs_Available st) waited], [RecycleSession],
                 r\<lparr>rc_lastRecycle := Some (in_now i),
                   rc_health := (if ro_hasHealth (rc_o r) then Recycled (rc_health r) else rc_health r)\<rparr>)
           else ([Unacquired (gs_Available st) waited], [], r))
        else ([], [], r)
      else ([], [], r\<lparr>rc_availableSince := None\<rparr>))"

definition check_registered :: "github_stats \<Rightarrow> time \<Rightarrow> int \<Rightarrow> Reconciler \<Rightarrow> drift list \<times> Reconciler" where
  "check_registered st at tracked r =
     (if gs_Registered st > tracked then
        let since = (case rc_overRegisteredAt r of None \<Rightarrow> at | Some t \<Rightarrow> t) in
        (if at - since \<ge> ro_RegisteredGrace (rc_o r) then [OverRegistered (gs_Registered st) tracked] else [],
         r\<lparr>rc_overRegisteredAt := Some since\<rparr>)
      else ([], r\<lparr>rc_overRegisteredAt := None\<rparr>))"

fun cancel_lost :: "(string \<Rightarrow> bool option) \<Rightarrow> string list \<Rightarrow> Reconciler \<Rightarrow> recon_act list \<times> Reconciler" where
  "cancel_lost known [] r = ([], r)"
| "cancel_lost known (name # names) r =
     (case known name of
        Some False \<Rightarrow>
          (case CancelLost name (rc_sched r) of
             (s, cancelled) \<Rightarrow>
               (let r = r\<lparr>rc_sched := s,
                          rc_health := (if cancelled \<and> ro_hasHealth (rc_o r) then LostRunner (rc_health r) else rc_health r)\<rparr>
                in case cancel_lost known names r of
                     (as, r) \<Rightarrow> (if cancelled then CancelRunner name # as else as, r)))
      | _ \<Rightarrow> cancel_lost known names r)"

definition check_lost :: "recon_in \<Rightarrow> Reconciler \<Rightarrow> recon_act list \<times> Reconciler" where
  "check_lost i r =
     (if ro_hasLookup (rc_o r) \<and> due (rc_lastLostCheck r) (in_now i) (ro_LostEvery (rc_o r)) then
        cancel_lost (in_known i) (IdleRunners (in_now i) (ro_LostAfter (rc_o r)) (rc_sched r))
          (r\<lparr>rc_lastLostCheck := Some (in_now i)\<rparr>)
      else ([], r))"

definition publish_check :: "github_stats \<Rightarrow> time \<Rightarrow> int \<Rightarrow> drift list \<Rightarrow> Reconciler \<Rightarrow> Reconciler" where
  "publish_check st at tracked ds r =
     (if ro_hasHealth (rc_o r)
      then r\<lparr>rc_health :=
               SetDrift (join ''; '' (map drift_text ds))
                 (record_GitHubStats
                    \<lparr>gs_Available = gs_Available st, gs_Acquired = gs_Acquired st, gs_Assigned = gs_Assigned st,
                     gs_Running = gs_Running st, gs_Registered = gs_Registered st, gs_Busy = gs_Busy st,
                     gs_Idle = gs_Idle st, gs_At = at, gs_Tracked = tracked\<rparr> (rc_health r))\<rparr>
      else r)"

definition check_with ::
  "recon_in \<Rightarrow> github_stats \<Rightarrow> time \<Rightarrow> Reconciler \<Rightarrow> drift list \<times> recon_act list \<times> Reconciler" where
  "check_with i st at r =
     (let tracked = s_running (rc_sched r) in
      case check_available i st r of
        (d1, a1, r) \<Rightarrow>
          (case check_registered st at tracked r of
             (d2, r) \<Rightarrow>
               (case check_lost i r of
                  (a2, r) \<Rightarrow> (d1 @ d2, a1 @ a2, publish_check st at tracked (d1 @ d2) r))))"

definition recon_Check :: "recon_in \<Rightarrow> Reconciler \<Rightarrow> recon_act list \<times> Reconciler" where
  "recon_Check i r =
     (case in_stats i of
        None \<Rightarrow> ([], r)
      | Some (st, at) \<Rightarrow> (case check_with i st at r of (_, as, r) \<Rightarrow> (as, r)))"

text \<open>
  \<open>Run\<close>: one check per tick.  Between two checks the other goroutines move the scheduler and the tracker;
  \<open>between\<close> says how.
\<close>

fun recon_Run :: "(nat \<Rightarrow> Reconciler \<Rightarrow> Reconciler) \<Rightarrow> recon_in list \<Rightarrow> Reconciler \<Rightarrow> (recon_in \<times> recon_act list) list" where
  "recon_Run between [] r = []"
| "recon_Run between (i # is) r =
     (case recon_Check i (between (length is) r) of (as, r) \<Rightarrow> (i, as) # recon_Run between is r)"

end
