(* ===== verification/Reconcile_Claims.thy ===== *)
theory Reconcile_Claims
  imports Reconcile
begin

text \<open>
  The properties of the reconciler over whole runs, whatever the scheduler's and the listener's
  goroutines do between two checks: how recycling is paced, and whom it cancels.
\<close>

section \<open>What the parts of a check keep\<close>

text \<open>The fields only the reconciler's own goroutine writes.\<close>

definition own_fields :: "Reconciler \<Rightarrow> recon_options \<times> time option \<times> time option \<times> time option \<times> time option" where
  "own_fields r = (rc_o r, rc_availableSince r, rc_lastRecycle r, rc_lastLostCheck r, rc_overRegisteredAt r)"

definition keeps_own :: "(nat \<Rightarrow> Reconciler \<Rightarrow> Reconciler) \<Rightarrow> bool" where
  "keeps_own between \<longleftrightarrow> (\<forall>n r. own_fields (between n r) = own_fields r)"

lemma cancel_lost_fields:
  "cancel_lost known names r = (as, r') \<Longrightarrow>
     own_fields r' = own_fields r \<and> (\<forall>a \<in> set as. \<exists>n \<in> set names. a = CancelRunner n \<and> known n = Some False)"
  by (induction names arbitrary: r as)
     (fastforce simp: own_fields_def Let_def split: option.splits bool.splits prod.splits if_splits)+

lemma check_lost_fields:
  assumes "check_lost i r = (as, r')"
  shows "rc_o r' = rc_o r \<and> rc_availableSince r' = rc_availableSince r \<and> rc_lastRecycle r' = rc_lastRecycle r \<and>
    (\<forall>a \<in> set as. \<exists>n \<in> set (IdleRunners (in_now i) (ro_LostAfter (rc_o r)) (rc_sched r)).
       a = CancelRunner n \<and> in_known i n = Some False)"
  using assms cancel_lost_fields [of "in_known i"]
  by (auto simp: check_lost_def own_fields_def split: if_splits)

lemma check_registered_fields:
  "check_registered st at tr r = (ds, r') \<Longrightarrow>
     rc_o r' = rc_o r \<and> rc_availableSince r' = rc_availableSince r \<and> rc_lastRecycle r' = rc_lastRecycle r \<and>
     rc_sched r' = rc_sched r"
  by (auto simp: check_registered_def Let_def split: if_splits)

lemma publish_fields [simp]:
  "rc_o (publish_check st at tr ds r) = rc_o r" "rc_availableSince (publish_check st at tr ds r) = rc_availableSince r"
  "rc_lastRecycle (publish_check st at tr ds r) = rc_lastRecycle r"
  by (simp_all add: publish_check_def)

text \<open>How one check moves the two fields the recycling is decided by.\<close>

definition jobs_waiting :: "recon_in \<Rightarrow> bool" where
  "jobs_waiting i \<longleftrightarrow> (case in_stats i of None \<Rightarrow> True | Some (st, _) \<Rightarrow> gs_Available st > 0)"

lemma check_recycles:
  assumes "recon_Check i r = (as, r')"
  shows "rc_o r' = rc_o r \<and>
    (if RecycleSession \<in> set as
     then in_live i \<and> jobs_waiting i \<and> rc_lastRecycle r' = Some (in_now i) \<and>
       (\<forall>t. rc_lastRecycle r = Some t \<longrightarrow> in_now i - t \<ge> ro_RecycleEvery (rc_o r)) \<and>
       in_now i - (case rc_availableSince r of None \<Rightarrow> in_now i | Some t \<Rightarrow> t) \<ge> ro_StuckAfter (rc_o r)
     else rc_lastRecycle r' = rc_lastRecycle r) \<and>
    (rc_availableSince r' = None \<or> jobs_waiting i \<and>
       (rc_availableSince r' = rc_availableSince r \<or> rc_availableSince r = None \<and> rc_availableSince r' = Some (in_now i)))"
proof (cases "in_stats i")
  case None
  with assms show ?thesis by (auto simp: recon_Check_def jobs_waiting_def)
next
  case (Some p)
  obtain st at where p: "p = (st, at)" by fastforce
  obtain d1 a1 r1 where 1: "check_available i st r = (d1, a1, r1)" by (metis prod_cases3)
  obtain d2 r2 where 2: "check_registered st at (s_running (rc_sched r)) r1 = (d2, r2)" by fastforce
  obtain a2 r3 where 3: "check_lost i r2 = (a2, r3)" by fastforce
  have r': "as = a1 @ a2" "r' = publish_check st at (s_running (rc_sched r)) (d1 @ d2) r3"
    using assms by (simp_all add: recon_Check_def Some p check_with_def Let_def 1 2 3)
  have no: "RecycleSession \<notin> set a2" using check_lost_fields [OF 3] by auto
  have f: "rc_o r3 = rc_o r1" "rc_lastRecycle r3 = rc_lastRecycle r1" "rc_availableSince r3 = rc_availableSince r1"
    using check_registered_fields [OF 2] check_lost_fields [OF 3] by simp_all
  show ?thesis
  proof (cases "gs_Available st > 0")
    case False
    with 1 show ?thesis by (auto simp: check_available_def f r' no)
  next
    case True
    then have w: "jobs_waiting i" by (simp add: jobs_waiting_def Some p)
    from 1 True show ?thesis
      by (auto simp: check_available_def Let_def f r' no w due_def split: if_splits option.splits)
  qed
qed

lemma length_recon_Run [simp]: "length (recon_Run b is r) = length is"
  by (induction "is" arbitrary: r) (auto split: prod.splits)

lemma recon_Run_fst: "k < length is \<Longrightarrow> fst (recon_Run b is r ! k) = is ! k"
  by (induction "is" arbitrary: r k) (auto split: prod.splits simp: nth_Cons')

lemma between_fields:
  assumes "keeps_own b"
  shows "rc_o (b n r) = rc_o r" "rc_lastRecycle (b n r) = rc_lastRecycle r" "rc_availableSince (b n r) = rc_availableSince r"
  using assms by (simp_all add: keeps_own_def own_fields_def)

section \<open>Recycling\<close>

definition recycles :: "(recon_in \<times> recon_act list) list \<Rightarrow> nat \<Rightarrow> bool" where
  "recycles out k \<longleftrightarrow> k < length out \<and> RecycleSession \<in> set (snd (out ! k))"

lemma recycles_Cons: "recycles (x # out) k \<longleftrightarrow> (if k = 0 then RecycleSession \<in> set (snd x) else recycles out (k - 1))"
  by (cases k) (auto simp: recycles_def)

lemma paced_from:
  assumes "keeps_own b" "0 \<le> ro_RecycleEvery (rc_o r)" "rc_lastRecycle r = Some t"
  shows "recycles (recon_Run b is r) k \<Longrightarrow> in_now (is ! k) - t \<ge> ro_RecycleEvery (rc_o r)"
  using assms(2,3)
proof (induction "is" arbitrary: r t k)
  case (Cons i "is")
  let ?r = "b (length is) r"
  obtain as r' where c: "recon_Check i ?r = (as, r')" by fastforce
  note f = between_fields [OF assms(1), of "length is" r] and cr = check_recycles [OF c]
  have o': "rc_o r' = rc_o r" using cr f by simp
  show ?case
  proof (cases k)
    case 0
    with Cons.prems c cr f show ?thesis by (simp add: recycles_Cons split: if_splits)
  next
    case (Suc m)
    then have m: "recycles (recon_Run b is r') m" using Cons.prems(1) c by (simp add: recycles_Cons)
    obtain u where u: "rc_lastRecycle r' = Some u" "u = t \<or> u - t \<ge> ro_RecycleEvery (rc_o r)"
      using cr f Cons.prems(3) by (auto split: if_splits)
    have "in_now (is ! m) - u \<ge> ro_RecycleEvery (rc_o r')"
      using Cons.IH [OF m _ u(1)] Cons.prems(2) o' by simp
    with u(2) o' Suc Cons.prems(2) show ?thesis by auto
  qed
qed (simp add: recycles_def)

lemma paced:
  assumes "keeps_own b" "0 \<le> ro_RecycleEvery (rc_o r)" "j < k"
    and "recycles (recon_Run b is r) j" "recycles (recon_Run b is r) k"
  shows "in_now (is ! k) - in_now (is ! j) \<ge> ro_RecycleEvery (rc_o r)"
  using assms(2-)
proof (induction "is" arbitrary: r j k)
  case (Cons i "is")
  let ?r = "b (length is) r"
  obtain as r' where c: "recon_Check i ?r = (as, r')" by fastforce
  have o': "rc_o r' = rc_o r" using check_recycles [OF c] between_fields [OF assms(1), of "length is" r] by simp
  obtain m where m: "k = Suc m" "recycles (recon_Run b is r') m"
    using Cons.prems c by (cases k) (auto simp: recycles_Cons)
  show ?case
  proof (cases j)
    case 0
    with Cons.prems c check_recycles [OF c] have "rc_lastRecycle r' = Some (in_now i)" by (simp add: recycles_Cons)
    from paced_from [OF assms(1) _ this m(2)] Cons.prems(1) o' 0 m(1) show ?thesis by simp
  next
    case (Suc n)
    then have "recycles (recon_Run b is r') n" using Cons.prems c by (simp add: recycles_Cons)
    from Cons.IH [OF _ _ this m(2)] Cons.prems o' Suc m(1) show ?thesis by simp
  qed
qed (simp add: recycles_def)

text \<open>A recycled session's jobs have been waiting, at every check since, for the whole of \<open>StuckAfter\<close>.\<close>

definition waiting_since :: "recon_in list \<Rightarrow> nat \<Rightarrow> nat \<Rightarrow> bool" where
  "waiting_since is j k \<longleftrightarrow> j \<le> k \<and> (\<forall>m. j \<le> m \<and> m \<le> k \<longrightarrow> jobs_waiting (is ! m))"

lemma stuck_from:
  assumes "keeps_own b"
  shows "recycles (recon_Run b is r) k \<Longrightarrow>
    (\<exists>t. rc_availableSince r = Some t \<and> in_now (is ! k) - t \<ge> ro_StuckAfter (rc_o r) \<and> waiting_since is 0 k) \<or>
    (\<exists>j. waiting_since is j k \<and> in_now (is ! k) - in_now (is ! j) \<ge> ro_StuckAfter (rc_o r))"
proof (induction "is" arbitrary: r k)
  case (Cons i "is")
  let ?r = "b (length is) r"
  obtain as r' where c: "recon_Check i ?r = (as, r')" by fastforce
  note f = between_fields [OF assms, of "length is" r] and cr = check_recycles [OF c]
  have o': "rc_o r' = rc_o r" using cr f by simp
  show ?case
  proof (cases k)
    case 0
    then have "RecycleSession \<in> set as" using Cons.prems c by (simp add: recycles_Cons)
    with cr f have "jobs_waiting i" "in_now i - (case rc_availableSince r of None \<Rightarrow> in_now i | Some t \<Rightarrow> t) \<ge> ro_StuckAfter (rc_o r)"
      by simp_all
    with 0 show ?thesis by (cases "rc_availableSince r") (auto simp: waiting_since_def)
  next
    case (Suc m)
    then have m: "recycles (recon_Run b is r') m" using Cons.prems c by (simp add: recycles_Cons)
    have lift: "waiting_since is j m \<Longrightarrow> waiting_since (i # is) (Suc j) k" for j
      by (auto simp: waiting_since_def Suc nth_Cons split: nat.splits)
    have lift0: "waiting_since is 0 m \<Longrightarrow> jobs_waiting i \<Longrightarrow> waiting_since (i # is) 0 k"
      by (auto simp: waiting_since_def Suc nth_Cons split: nat.splits)
    from Cons.IH [OF m] o' show ?thesis
    proof (elim disjE exE conjE)
      fix t assume t: "rc_availableSince r' = Some t" "in_now (is ! m) - t \<ge> ro_StuckAfter (rc_o r')" "waiting_since is 0 m"
      then have "jobs_waiting i" "rc_availableSince r = Some t \<or> t = in_now i" using cr f by auto
      then show ?thesis
      proof (elim disjE)
        assume "rc_availableSince r = Some t"
        with t lift0 [OF t(3) \<open>jobs_waiting i\<close>] o' Suc show ?thesis by auto
      next
        assume "t = in_now i"
        with t lift0 [OF t(3) \<open>jobs_waiting i\<close>] o' Suc show ?thesis by (intro disjI2 exI [of _ 0]) simp
      qed
    next
      fix j assume "waiting_since is j m" "in_now (is ! m) - in_now (is ! j) \<ge> ro_StuckAfter (rc_o r')"
      with lift o' Suc show ?thesis by (intro disjI2 exI [of _ "Suc j"]) simp
    qed
  qed
qed (simp add: recycles_def)

text \<open>
  Recycling is paced and justified: over any run of checks, whatever the scheduler and the tracker do in
  between, two recycled sessions are at least \<open>RecycleEvery\<close> apart, and when a session is recycled it was
  live, and every check since one at least \<open>StuckAfter\<close> earlier saw jobs available.
\<close>

theorem recycling_paced:
  assumes "keeps_own b" "recycles (recon_Run b is (NewReconciler o' h s)) k"
  shows "in_live (is ! k) \<and>
    (\<exists>j. waiting_since is j k \<and> in_now (is ! k) - in_now (is ! j) \<ge> or_pos (ro_StuckAfter o') minute) \<and>
    (\<forall>j. j < k \<and> recycles (recon_Run b is (NewReconciler o' h s)) j \<longrightarrow>
       in_now (is ! k) - in_now (is ! j) \<ge> or_pos (ro_RecycleEvery o') (5 * minute))"
proof -
  let ?r = "NewReconciler o' h s"
  have opts: "rc_availableSince ?r = None" "ro_StuckAfter (rc_o ?r) = or_pos (ro_StuckAfter o') minute"
    "ro_RecycleEvery (rc_o ?r) = or_pos (ro_RecycleEvery o') (5 * minute)" "0 \<le> ro_RecycleEvery (rc_o ?r)"
    by (simp_all add: NewReconciler_def or_pos_def)
  have "recycles (recon_Run b is r) k \<Longrightarrow> in_live (is ! k)" for r
  proof (induction "is" arbitrary: r k)
    case (Cons i "is")
    then show ?case
      using check_recycles [of i "b (length is) r"] by (cases k) (auto simp: recycles_Cons split: prod.splits)
  qed (simp add: recycles_def)
  with assms stuck_from [OF assms] paced [OF assms(1) opts(4)] show ?thesis by (simp add: opts)
qed

definition demo_stats :: github_stats where
  "demo_stats = \<lparr>gs_Available = 1, gs_Acquired = 0, gs_Assigned = 0, gs_Running = 0, gs_Registered = 1, gs_Busy = 0, gs_Idle = 1\<rparr>"

definition demo_check :: "time \<Rightarrow> recon_in" where
  "demo_check t = \<lparr>in_stats = Some (demo_stats, 0), in_now = t, in_live = True, in_known = \<lambda>n. Some (n \<noteq> ''lost'')\<rparr>"

definition demo_rhandle :: vmHandle where
  "demo_rhandle = \<lparr>h_cancel = 0, h_busy = False, h_since = 0, h_cancelled = False, h_removing = False,
     h_completed = False, h_completedAt = 0\<rparr>"

definition demo_rsched :: scheduler where
  "demo_rsched = (new_scheduler 4 0 True None)\<lparr>s_running := 2, s_active := [(''ok'', demo_rhandle), (''lost'', demo_rhandle)]\<rparr>"

definition demo_ropts :: recon_options where
  "demo_ropts = \<lparr>ro_StuckAfter = 0, ro_RecycleEvery = 0, ro_LostAfter = 0, ro_LostEvery = 0, ro_RegisteredGrace = 0, ro_Tick = 0,
     ro_hasHealth = True, ro_hasLookup = True\<rparr>"

definition demo_rec :: Reconciler where
  "demo_rec = NewReconciler demo_ropts (NewTracker ''t'' 0) demo_rsched"

definition demo_checks :: "recon_in list" where
  "demo_checks = [demo_check 0, demo_check minute, demo_check (2 * minute), demo_check (6 * minute)]"

lemma recycling_paced_witness:
  "recycles (recon_Run (\<lambda>_ r. r) demo_checks demo_rec) 1 \<and> recycles (recon_Run (\<lambda>_ r. r) demo_checks demo_rec) 3 \<and>
   in_now (demo_checks ! 3) - in_now (demo_checks ! 1) \<ge> 5 * minute"
proof -
  have k: "keeps_own (\<lambda>_ r. r)" by (simp add: keeps_own_def)
  have r: "recycles (recon_Run (\<lambda>_ r. r) demo_checks demo_rec) 1" "recycles (recon_Run (\<lambda>_ r. r) demo_checks demo_rec) 3"
    by code_simp+
  have o': "or_pos (ro_RecycleEvery demo_ropts) (5 * minute) = 5 * minute" by (simp add: or_pos_def demo_ropts_def)
  have "in_now (demo_checks ! 3) - in_now (demo_checks ! 1) \<ge> or_pos (ro_RecycleEvery demo_ropts) (5 * minute)"
    using recycling_paced [OF k, of demo_checks demo_ropts "NewTracker ''t'' 0" demo_rsched 3] r
    unfolding demo_rec_def [symmetric] by simp
  with r o' show ?thesis by simp
qed

section \<open>Lost runners\<close>

lemma CancelLost_other:
  "CancelLost n s = (s', b) \<Longrightarrow> m \<noteq> n \<Longrightarrow> mlookup (s_active s') m = mlookup (s_active s) m"
  by (auto simp: CancelLost_def cancel_handle_def split: option.splits if_splits)

text \<open>A handle \<open>CancelLost\<close> cancels.\<close>

definition idle_handle :: "scheduler \<Rightarrow> string \<Rightarrow> bool" where
  "idle_handle s n \<longleftrightarrow>
     (\<exists>h. mlookup (s_active s) n = Some h \<and> \<not> h_busy h \<and> \<not> h_cancelled h \<and> \<not> h_removing h)"

lemma CancelLost_result: "snd (CancelLost n s) \<longleftrightarrow> idle_handle s n"
  by (auto simp: CancelLost_def idle_handle_def split: option.splits if_splits)

lemma idle_handle_other:
  "CancelLost n s = (s', b) \<Longrightarrow> m \<noteq> n \<Longrightarrow> idle_handle s' m = idle_handle s m"
  by (simp add: idle_handle_def CancelLost_other)

lemma cancel_lost_exact:
  assumes "distinct names" "cancel_lost known names r = (as, r')"
  shows "CancelRunner n \<in> set as \<longleftrightarrow> n \<in> set names \<and> known n = Some False \<and> idle_handle (rc_sched r) n"
  using assms
proof (induction names arbitrary: r as)
  case (Cons m names)
  obtain s b where s: "CancelLost m (rc_sched r) = (s, b)" by fastforce
  have b: "b \<longleftrightarrow> idle_handle (rc_sched r) m" using CancelLost_result [of m "rc_sched r"] s by simp
  show ?case
  proof (cases "known m = Some False")
    case True
    let ?r = "r\<lparr>rc_sched := s, rc_health := (if b \<and> ro_hasHealth (rc_o r) then LostRunner (rc_health r) else rc_health r)\<rparr>"
    obtain as' where as': "cancel_lost known names ?r = (as', r')" "as = (if b then CancelRunner m # as' else as')"
      using Cons.prems(2) True s by (auto simp: Let_def split: prod.splits)
    have ih: "CancelRunner n \<in> set as' \<longleftrightarrow> n \<in> set names \<and> known n = Some False \<and> idle_handle s n"
      using Cons.IH [OF _ as'(1)] Cons.prems(1) by simp
    show ?thesis
    proof (cases "n = m")
      case True
      with ih as'(2) b Cons.prems(1) \<open>known m = Some False\<close> show ?thesis by simp
    next
      case False
      with ih as'(2) idle_handle_other [OF s False] show ?thesis by simp
    qed
  next
    case False
    then have "cancel_lost known names r = (as, r')"
      using Cons.prems(2) by (auto split: option.splits bool.splits)
    with Cons.IH [of r as] Cons.prems(1) False show ?thesis by auto
  qed
qed simp

lemma IdleRunners_names:
  assumes "wf_map (s_active s)"
  shows "distinct (IdleRunners now d s)"
    "n \<in> set (IdleRunners now d s) \<longleftrightarrow>
      (\<exists>h. mlookup (s_active s) n = Some h \<and> \<not> h_busy h \<and> \<not> h_cancelled h \<and> \<not> h_removing h \<and> h_since h < now - d)"
proof -
  show "distinct (IdleRunners now d s)"
    using assms by (simp add: IdleRunners_def wf_map_def keys_def Let_def distinct_map_filter)
  show "n \<in> set (IdleRunners now d s) \<longleftrightarrow>
      (\<exists>h. mlookup (s_active s) n = Some h \<and> \<not> h_busy h \<and> \<not> h_cancelled h \<and> \<not> h_removing h \<and> h_since h < now - d)"
    using mlookup_in_set [OF assms] by (force simp: IdleRunners_def Let_def)
qed

text \<open>
  C33. A check cancels exactly the lost runners: when it looks runners up at all (statistics have come, there
  is a lookup and its pace has passed), it cancels a runner if and only if it has sat idle for longer than
  \<open>LostAfter\<close>, is neither busy nor cancelled nor being removed, and GitHub says it does not know it; a
  failed lookup cancels nothing.
\<close>

theorem lost_runners_exact:
  assumes "wf_map (s_active (rc_sched r))"
  shows "CancelRunner n \<in> set (fst (recon_Check i r)) \<longleftrightarrow>
    in_stats i \<noteq> None \<and> ro_hasLookup (rc_o r) \<and> due (rc_lastLostCheck r) (in_now i) (ro_LostEvery (rc_o r)) \<and>
    in_known i n = Some False \<and>
    (\<exists>h. mlookup (s_active (rc_sched r)) n = Some h \<and> \<not> h_busy h \<and> \<not> h_cancelled h \<and> \<not> h_removing h \<and>
       h_since h < in_now i - ro_LostAfter (rc_o r))"
proof (cases "in_stats i")
  case (Some p)
  obtain st at where p: "p = (st, at)" by fastforce
  obtain d1 a1 r1 where 1: "check_available i st r = (d1, a1, r1)" by (metis prod_cases3)
  obtain d2 r2 where 2: "check_registered st at (s_running (rc_sched r)) r1 = (d2, r2)" by fastforce
  obtain a2 r3 where 3: "check_lost i r2 = (a2, r3)" by fastforce
  have "rc_o r1 = rc_o r \<and> rc_sched r1 = rc_sched r \<and> rc_lastLostCheck r1 = rc_lastLostCheck r \<and> (\<forall>n. CancelRunner n \<notin> set a1)"
    using 1 by (auto simp: check_available_def Let_def split: if_splits)
  moreover have "rc_lastLostCheck r2 = rc_lastLostCheck r1"
    using 2 by (auto simp: check_registered_def Let_def split: if_splits)
  ultimately have r2: "rc_o r2 = rc_o r" "rc_sched r2 = rc_sched r" "rc_lastLostCheck r2 = rc_lastLostCheck r"
    and a1: "CancelRunner n \<notin> set a1"
    using check_registered_fields [OF 2] by simp_all
  have "CancelRunner n \<in> set (fst (recon_Check i r)) \<longleftrightarrow> CancelRunner n \<in> set a2"
    using a1 by (simp add: recon_Check_def Some p check_with_def Let_def 1 2 3)
  also have "\<dots> \<longleftrightarrow> ro_hasLookup (rc_o r) \<and> due (rc_lastLostCheck r) (in_now i) (ro_LostEvery (rc_o r)) \<and>
      in_known i n = Some False \<and> n \<in> set (IdleRunners (in_now i) (ro_LostAfter (rc_o r)) (rc_sched r)) \<and>
      idle_handle (rc_sched r) n"
  proof (cases "ro_hasLookup (rc_o r) \<and> due (rc_lastLostCheck r) (in_now i) (ro_LostEvery (rc_o r))")
    case True
    then have "cancel_lost (in_known i) (IdleRunners (in_now i) (ro_LostAfter (rc_o r)) (rc_sched r))
        (r2\<lparr>rc_lastLostCheck := Some (in_now i)\<rparr>) = (a2, r3)"
      using 3 by (simp add: check_lost_def r2)
    from cancel_lost_exact [OF IdleRunners_names(1) [OF assms] this] True show ?thesis by (auto simp: r2)
  next
    case False
    with 3 show ?thesis by (auto simp: check_lost_def r2)
  qed
  also have "\<dots> \<longleftrightarrow> in_stats i \<noteq> None \<and> ro_hasLookup (rc_o r) \<and> due (rc_lastLostCheck r) (in_now i) (ro_LostEvery (rc_o r)) \<and>
    in_known i n = Some False \<and>
    (\<exists>h. mlookup (s_active (rc_sched r)) n = Some h \<and> \<not> h_busy h \<and> \<not> h_cancelled h \<and> \<not> h_removing h \<and>
       h_since h < in_now i - ro_LostAfter (rc_o r))"
    using Some by (auto simp: IdleRunners_names(2) [OF assms] idle_handle_def)
  finally show ?thesis .
qed (simp add: recon_Check_def)

lemma lost_runners_exact_witness:
  "CancelRunner ''lost'' \<in> set (fst (recon_Check (demo_check (3 * minute)) demo_rec)) \<and>
   CancelRunner ''ok'' \<notin> set (fst (recon_Check (demo_check (3 * minute)) demo_rec))"
proof -
  have "wf_map (s_active (rc_sched demo_rec))" by code_simp
  from lost_runners_exact [OF this] show ?thesis
    by (simp add: demo_check_def demo_rec_def NewReconciler_def demo_rsched_def demo_rhandle_def demo_ropts_def due_def or_pos_def)
qed

end
