(* ===== verification/Listener.thy ===== *)
theory Listener
  imports Health Sched_Core JobIdentity
begin

text \<open>
  The scale-set listener (\<open>internal/listener/scaleset.go\<close>): registering the scale set, opening message
  sessions, the loop that reconnects them, the callbacks that drive the scheduler, and the JIT source with
  its pool of clients and its removals.

  The client library (\<open>actions/scaleset\<close>) is outside the repository: what each of its calls gives is an
  argument, and the calls made are returned in order.  An error of the library is its text, which is all
  the code looks at; \<open>None\<close> in the place of an error is success.
\<close>

section \<open>Reading errors\<close>

definition isSessionConflict :: "string \<Rightarrow> bool" where
  "isSessionConflict msg \<longleftrightarrow> contains (to_lower msg) ''conflict''"

definition isFatal :: "string \<Rightarrow> bool" where
  "isFatal err \<longleftrightarrow>
     (let msg = to_lower err in
      \<not> contains msg ''rate limit'' \<and>
      list_ex (\<lambda>status. contains msg status) [''401 unauthorized'', ''403 forbidden''])"

definition isScaleSetGone :: "string \<Rightarrow> bool" where
  "isScaleSetGone msg \<longleftrightarrow> contains (to_lower msg) ''404 not found''"

section \<open>Registration\<close>

record listener_config =
  lc_Name :: string
  lc_RunnerGroup :: string
  lc_Labels :: "string list"
  lc_MaxRunners :: int
  lc_Version :: string
  lc_CommitSHA :: string
  lc_hasApp :: bool

definition DefaultRunnerGroup :: string where "DefaultRunnerGroup = ''default''"

definition buildLabels :: "string \<Rightarrow> string list \<Rightarrow> string list" where
  "buildLabels name labels = name # filter (\<lambda>l. l \<noteq> name) labels"

record SystemInfo =
  si_System :: string
  si_Subsystem :: string
  si_Version :: string
  si_CommitSHA :: string
  si_ScaleSetID :: nat

definition systemInfo :: "listener_config \<Rightarrow> nat \<Rightarrow> SystemInfo" where
  "systemInfo cfg sid =
     \<lparr>si_System = ''firerunner'', si_Subsystem = ''listener'',
      si_Version = (if lc_Version cfg = [] then ''dev'' else lc_Version cfg),
      si_CommitSHA = (if lc_CommitSHA cfg = [] then ''NA'' else lc_CommitSHA cfg), si_ScaleSetID = sid\<rparr>"

record scale_set_setting =
  ss_Name :: string
  ss_RunnerGroupID :: nat
  ss_Labels :: "string list"
  ss_DisableUpdate :: bool

datatype gh_call =
    NewClient bool
  | GetRunnerGroupByName string
  | GetRunnerScaleSet nat string
  | UpdateRunnerScaleSet nat scale_set_setting
  | CreateRunnerScaleSet scale_set_setting
  | SetSystemInfo SystemInfo
  | OpenSession nat string
  | DeleteRunnerScaleSet nat
  | CloseSession nat

text \<open>
  The answers: whether the n-th client can be made, the group, the existing set, the updated or created one,
  what the n-th attempt to open a session gives, whether the context ends during the n-th wait.
\<close>

record gh_answers =
  ga_client :: "nat \<Rightarrow> string option"
  ga_group :: "string + nat"
  ga_existing :: "string + nat option"
  ga_registered :: "string + nat"
  ga_open :: "nat \<Rightarrow> string + nat"
  ga_done :: "nat \<Rightarrow> bool"

definition runnerGroupID :: "gh_answers \<Rightarrow> string \<Rightarrow> gh_call list \<times> (string + nat)" where
  "runnerGroupID A name =
     (if name = DefaultRunnerGroup then ([], Inr 1) else ([GetRunnerGroupByName name], ga_group A))"

definition registerScaleSet ::
  "gh_answers \<Rightarrow> listener_config \<Rightarrow> nat \<Rightarrow> nat \<Rightarrow> gh_call list \<times> (string + nat \<times> bool)" where
  "registerScaleSet A cfg groupID others =
     (let desired = \<lparr>ss_Name = lc_Name cfg, ss_RunnerGroupID = groupID,
                     ss_Labels = buildLabels (lc_Name cfg) (lc_Labels cfg), ss_DisableUpdate = True\<rparr>;
          look = GetRunnerScaleSet groupID (lc_Name cfg) in
      case ga_existing A of
        Inl e \<Rightarrow> ([look], Inl e)
      | Inr existing \<Rightarrow>
          (let put = (case existing of Some sid \<Rightarrow> UpdateRunnerScaleSet sid desired | None \<Rightarrow> CreateRunnerScaleSet desired) in
           case ga_registered A of
             Inl e \<Rightarrow> ([look, put], Inl e)
           | Inr sid \<Rightarrow>
               ([look, put] @ replicate (1 + others) (SetSystemInfo (systemInfo cfg sid)), Inr (sid, existing \<noteq> None))))"

text \<open>Twelve attempts, ten seconds apart; only a conflict is tried again.\<close>

definition session_attempts :: nat where "session_attempts = 12"

fun open_attempts ::
  "gh_answers \<Rightarrow> nat \<Rightarrow> string \<Rightarrow> nat list \<Rightarrow> string \<Rightarrow> gh_call list \<times> (string + nat)" where
  "open_attempts A sid owner [] err = ([], Inl err)"
| "open_attempts A sid owner (i # is) err =
     (case ga_open A i of
        Inr sess \<Rightarrow> ([OpenSession sid owner], Inr sess)
      | Inl e \<Rightarrow>
          if \<not> isSessionConflict e then ([OpenSession sid owner], Inl e)
          else if ga_done A i then ([OpenSession sid owner], Inl ''context canceled'')
          else (case open_attempts A sid owner is e of (cs, r) \<Rightarrow> (OpenSession sid owner # cs, r)))"

definition openSessionWithRetry :: "gh_answers \<Rightarrow> nat \<Rightarrow> string \<Rightarrow> gh_call list \<times> (string + nat)" where
  "openSessionWithRetry A sid owner = open_attempts A sid owner [0..<session_attempts] []"

record ScaleSet =
  ls_scaleSetID :: nat
  ls_created :: bool
  ls_session :: nat

text \<open>The clients made first: one to register with and for JIT, one to remove runners, one for sessions.\<close>

fun make_clients :: "gh_answers \<Rightarrow> listener_config \<Rightarrow> nat list \<Rightarrow> gh_call list \<times> string option" where
  "make_clients A cfg [] = ([], None)"
| "make_clients A cfg (k # ks) =
     (case ga_client A k of
        Some e \<Rightarrow> ([NewClient (lc_hasApp cfg)], Some e)
      | None \<Rightarrow> (case make_clients A cfg ks of (cs, r) \<Rightarrow> (NewClient (lc_hasApp cfg) # cs, r)))"

definition NewListener :: "gh_answers \<Rightarrow> listener_config \<Rightarrow> string \<Rightarrow> gh_call list \<times> (string + ScaleSet)" where
  "NewListener A cfg owner =
     (let cfg = (if lc_RunnerGroup cfg = [] then cfg\<lparr>lc_RunnerGroup := DefaultRunnerGroup\<rparr> else cfg) in
      case make_clients A cfg [0, 1, 2] of
        (c0, Some e) \<Rightarrow> (c0, Inl e)
      | (c0, None) \<Rightarrow>
          (case runnerGroupID A (lc_RunnerGroup cfg) of
             (c1, Inl e) \<Rightarrow> (c0 @ c1, Inl e)
           | (c1, Inr gid) \<Rightarrow>
               (case registerScaleSet A cfg gid 2 of
                  (c2, Inl e) \<Rightarrow> (c0 @ c1 @ c2, Inl e)
                | (c2, Inr (sid, reused)) \<Rightarrow>
                    (case openSessionWithRetry A sid owner of
                       (c3, Inl e) \<Rightarrow>
                         (c0 @ c1 @ c2 @ c3 @ (if reused then [] else [DeleteRunnerScaleSet sid]), Inl e)
                     | (c3, Inr sess) \<Rightarrow>
                         (c0 @ c1 @ c2 @ c3,
                          Inr \<lparr>ls_scaleSetID = sid, ls_created = (\<not> reused), ls_session = sess\<rparr>)))))"

definition CloseListener :: "ScaleSet \<Rightarrow> gh_call list" where
  "CloseListener s =
     CloseSession (ls_session s) # (if ls_created s then [DeleteRunnerScaleSet (ls_scaleSetID s)] else [])"

section \<open>The pool of JIT clients\<close>

definition maxJITClients :: int where "maxJITClients = 32"

definition jitParallelism :: "int \<Rightarrow> int" where
  "jitParallelism maxRunners = min (max maxRunners 1) maxJITClients"

text \<open>
  A goroutine in \<open>get\<close> is creating a client or waiting for an idle one; \<open>out\<close> are the clients handed out.
  Each step below is one channel operation or one section under \<open>p.mu\<close>.  The channel \<open>idle\<close> holds at most
  \<open>limit\<close> clients: a \<open>put\<close> at capacity blocks.
\<close>

record clientPool =
  cp_idle :: "nat list"
  cp_out :: "nat list"
  cp_making :: nat
  cp_waiting :: nat
  cp_created :: nat
  cp_limit :: nat
  cp_next :: nat

definition newClientPool :: "nat \<Rightarrow> clientPool" where
  "newClientPool limit =
     \<lparr>cp_idle = [], cp_out = [], cp_making = 0, cp_waiting = 0, cp_created = 0, cp_limit = limit, cp_next = 0\<rparr>"

definition can_put :: "clientPool \<Rightarrow> bool" where
  "can_put p \<longleftrightarrow> length (cp_idle p) < cp_limit p"

definition put_client :: "nat \<Rightarrow> clientPool \<Rightarrow> clientPool" where
  "put_client c p = p\<lparr>cp_idle := cp_idle p @ [c]\<rparr>"

definition seed :: "clientPool \<Rightarrow> clientPool" where
  "seed p = put_client (cp_next p) (p\<lparr>cp_created := cp_created p + 1, cp_next := cp_next p + 1\<rparr>)"

text \<open>\<open>get\<close>: an idle client at once; else reserve a place and make one; else wait.\<close>

datatype get_result = GotIdle nat | Making | MustWait

definition get_client :: "clientPool \<Rightarrow> get_result \<times> clientPool" where
  "get_client p =
     (case cp_idle p of
        c # rest \<Rightarrow> (GotIdle c, p\<lparr>cp_idle := rest, cp_out := c # cp_out p\<rparr>)
      | [] \<Rightarrow>
          if cp_created p < cp_limit p
          then (Making, p\<lparr>cp_created := cp_created p + 1, cp_making := cp_making p + 1\<rparr>)
          else (MustWait, p\<lparr>cp_waiting := cp_waiting p + 1\<rparr>))"

definition made_client :: "bool \<Rightarrow> clientPool \<Rightarrow> clientPool" where
  "made_client ok p =
     (if ok then p\<lparr>cp_making := cp_making p - 1, cp_out := cp_next p # cp_out p, cp_next := cp_next p + 1\<rparr>
      else p\<lparr>cp_making := cp_making p - 1, cp_created := cp_created p - 1\<rparr>)"

datatype pool_label = PGet | PMade bool | PServe | PGiveUp | PPut nat

inductive pool_step :: "pool_label \<Rightarrow> clientPool \<Rightarrow> clientPool \<Rightarrow> bool" where
  pool_get: "get_client p = (r, p') \<Longrightarrow> pool_step PGet p p'"
| pool_made: "0 < cp_making p \<Longrightarrow> pool_step (PMade ok) p (made_client ok p)"
| pool_serve: "0 < cp_waiting p \<Longrightarrow> cp_idle p = c # rest \<Longrightarrow>
     pool_step PServe p (p\<lparr>cp_waiting := cp_waiting p - 1, cp_idle := rest, cp_out := c # cp_out p\<rparr>)"
| pool_giveup: "0 < cp_waiting p \<Longrightarrow> pool_step PGiveUp p (p\<lparr>cp_waiting := cp_waiting p - 1\<rparr>)"
| pool_put: "c \<in> set (cp_out p) \<Longrightarrow> can_put p \<Longrightarrow>
     pool_step (PPut c) p (put_client c (p\<lparr>cp_out := remove1 c (cp_out p)\<rparr>))"

definition pool_start :: "clientPool \<Rightarrow> bool" where
  "pool_start p \<longleftrightarrow> (\<exists>n. 1 \<le> n \<and> p = seed (newClientPool n))"

section \<open>Removing runners\<close>

text \<open>What GitHub answers a lookup and a removal, and how its world moves on; a runner has a number.\<close>

datatype remove_reply = RemoveDone | RunnerNotFound | JobStillRunning | RemoveError

record 'w runner_api =
  ra_lookup :: "'w \<Rightarrow> string \<Rightarrow> (unit + nat option) \<times> 'w"
  ra_remove :: "'w \<Rightarrow> nat \<Rightarrow> remove_reply \<times> 'w"

definition runner_Exists :: "'w runner_api \<Rightarrow> string \<Rightarrow> 'w \<Rightarrow> bool option \<times> 'w" where
  "runner_Exists G name w =
     (case ra_lookup G w name of (Inl _, w) \<Rightarrow> (None, w) | (Inr r, w) \<Rightarrow> (Some (r \<noteq> None), w))"

text \<open>The result as the scheduler reads it, and whether a removal was sent.\<close>

definition RemoveRunner :: "'w runner_api \<Rightarrow> string \<Rightarrow> 'w \<Rightarrow> removal_error option \<times> bool \<times> 'w" where
  "RemoveRunner G name w =
     (case ra_lookup G w name of
        (Inl _, w) \<Rightarrow> (Some ErrOther, False, w)
      | (Inr None, w) \<Rightarrow> (None, False, w)
      | (Inr (Some sid), w) \<Rightarrow>
          (case ra_remove G w sid of
             (RemoveDone, w) \<Rightarrow> (None, True, w)
           | (RunnerNotFound, w) \<Rightarrow> (None, True, w)
           | (JobStillRunning, w) \<Rightarrow> (Some ErrRunnerBusy, True, w)
           | (RemoveError, w) \<Rightarrow>
               (case ra_lookup G w name of
                  (Inl _, w) \<Rightarrow> (Some ErrRemovalUnknown, True, w)
                | (Inr None, w) \<Rightarrow> (None, True, w)
                | (Inr (Some _), w) \<Rightarrow> (Some ErrOther, True, w))))"

section \<open>Callbacks\<close>

text \<open>What the callbacks do: calls into the scheduler and the registry, and the capacity pushed to GitHub.\<close>

datatype callback_act = OnDesired int | OnBusy string | OnCompleted string | OnJobStarted Job | SetCapacity int

definition clamp_capacity :: "int \<Rightarrow> int \<Rightarrow> int" where
  "clamp_capacity maxRunners c = (let c = (if c > maxRunners then maxRunners else c) in if c < 1 then 1 else c)"

definition advertiseCapacity :: "int \<Rightarrow> int option \<Rightarrow> callback_act list" where
  "advertiseCapacity maxRunners capacity =
     (case capacity of None \<Rightarrow> [] | Some c \<Rightarrow> [SetCapacity (clamp_capacity maxRunners c)])"

definition HandleDesiredRunnerCount :: "int \<Rightarrow> int option \<Rightarrow> int \<Rightarrow> callback_act list" where
  "HandleDesiredRunnerCount maxRunners capacity n = OnDesired n # advertiseCapacity maxRunners capacity"

record JobStarted =
  js_JobWorkflowRef :: string
  js_RunnerName :: string
  js_OwnerName :: string
  js_RepositoryName :: string
  js_EventName :: string
  js_WorkflowRunID :: int
  js_JobID :: string

definition HandleJobStarted :: "bool \<Rightarrow> bool \<Rightarrow> JobStarted \<Rightarrow> callback_act list" where
  "HandleJobStarted hasBusy hasStarted j =
     (if hasBusy \<and> js_RunnerName j \<noteq> [] then [OnBusy (js_RunnerName j)] else []) @
     (if hasStarted
      then [OnJobStarted \<lparr>jWorkflowRef = js_JobWorkflowRef j, jRunner = js_RunnerName j,
              jRepository = js_OwnerName j @ ''/'' @ js_RepositoryName j, jEvent = js_EventName j,
              jRunID = js_WorkflowRunID j, jJobID = js_JobID j\<rparr>]
      else [])"

definition HandleJobCompleted :: "bool \<Rightarrow> string \<Rightarrow> callback_act list" where
  "HandleJobCompleted hasCompleted runner = (if hasCompleted \<and> runner \<noteq> [] then [OnCompleted runner] else [])"

text \<open>\<open>Generate\<close>, with the suffix \<open>rand.Read\<close> gave: the name, and the configuration GitHub answers.\<close>

definition Generate :: "string \<Rightarrow> string \<Rightarrow> bool \<Rightarrow> (string \<Rightarrow> string + string) \<Rightarrow> string + string \<times> string" where
  "Generate namePrefix rnd gotClient answer =
     (if \<not> gotClient then Inl ''generate JIT config''
      else (let name = namePrefix @ ''-'' @ rnd in
            case answer name of Inl e \<Rightarrow> Inl e | Inr cfg \<Rightarrow> Inr (name, cfg)))"

end
