(* ===== verification/Listener_Loop.thy ===== *)
theory Listener_Loop
  imports Listener
begin

text \<open>
  The loop of \<open>ScaleSet.Run\<close> (\<open>internal/listener/scaleset.go\<close>) as a state machine: a session that is
  listened on, the waits between attempts to open a new one, a session that was asked to be recycled,
  and the ends of the loop.  Each event is what the loop's next blocking call gives, with the clock and
  the jittered wait that follows it; \<open>ERecycle\<close> is another goroutine's call of \<open>Recycle\<close>.
\<close>

section \<open>The machine\<close>

abbreviation reconnectMin :: duration where "reconnectMin \<equiv> 2 * second"
abbreviation reconnectMax :: duration where "reconnectMax \<equiv> 2 * minute"
abbreviation reconnectReset :: duration where "reconnectReset \<equiv> minute"

text \<open>Why the loop ends: the context, rejected credentials, a scale set that is gone.\<close>

datatype loop_end = CtxEnded | ErrFatal string | ErrRestart string

datatype loop_phase = InSession | Waiting string duration | Reopening | Stopped loop_end

record listen_loop =
  ll_phase :: loop_phase
  ll_backoff :: duration
  ll_session :: nat
  ll_recycle :: bool
  ll_asked :: bool
  ll_health :: "tier_health option"
  ll_open :: "nat list"

definition loop_start :: "nat \<Rightarrow> tier_health option \<Rightarrow> listen_loop" where
  "loop_start sess h =
     \<lparr>ll_phase = InSession, ll_backoff = reconnectMin, ll_session = sess, ll_recycle = True, ll_asked = False,
      ll_health = h, ll_open = [sess]\<rparr>"

definition on_health :: "(tier_health \<Rightarrow> tier_health) \<Rightarrow> listen_loop \<Rightarrow> listen_loop" where
  "on_health f s = s\<lparr>ll_health := map_option f (ll_health s)\<rparr>"

text \<open>\<open>jitter\<close>: within a fifth of the duration.\<close>

definition jittered :: "duration \<Rightarrow> duration \<Rightarrow> bool" where
  "jittered d w \<longleftrightarrow> 4 * d \<le> 5 * w \<and> 5 * w \<le> 6 * d"

definition start_session :: "nat \<Rightarrow> listen_loop \<Rightarrow> listen_loop" where
  "start_session sess s =
     s\<lparr>ll_phase := InSession, ll_session := sess, ll_recycle := True, ll_asked := False, ll_open := sess # ll_open s\<rparr>"

definition wait_again :: "string \<Rightarrow> duration \<Rightarrow> time \<Rightarrow> listen_loop \<Rightarrow> listen_loop" where
  "wait_again err wait now s = on_health (health_Reconnecting err wait now) (s\<lparr>ll_phase := Waiting err wait\<rparr>)"

definition stop :: "loop_end \<Rightarrow> listen_loop \<Rightarrow> listen_loop" where
  "stop e s = s\<lparr>ll_phase := Stopped e\<rparr>"

definition Recycle :: "listen_loop \<Rightarrow> bool \<times> listen_loop" where
  "Recycle s = (if ll_recycle s then (True, s\<lparr>ll_asked := True\<rparr>) else (False, s))"

text \<open>
  The session's end: \<open>hasRun\<close> says that the listener was created and hasRun, so that the cause of its context is
  looked at; \<open>up\<close> is how long it was up.
\<close>

definition session_ended :: "bool \<Rightarrow> string \<Rightarrow> duration \<Rightarrow> bool \<Rightarrow> duration \<Rightarrow> time \<Rightarrow> listen_loop \<Rightarrow> listen_loop" where
  "session_ended hasRun err up ctx_done wait now s =
     (let s = s\<lparr>ll_recycle := False\<rparr> in
      if ctx_done then stop CtxEnded s
      else
        let s = s\<lparr>ll_backoff := (if up \<ge> reconnectReset then reconnectMin else ll_backoff s),
                  ll_open := remove1 (ll_session s) (ll_open s)\<rparr> in
        if hasRun \<and> ll_asked s then s\<lparr>ll_phase := Reopening\<rparr>
        else wait_again err wait now s)"

definition reopened :: "string + nat \<Rightarrow> bool \<Rightarrow> duration \<Rightarrow> time \<Rightarrow> listen_loop \<Rightarrow> listen_loop" where
  "reopened r ctx_done wait now s =
     (case r of
        Inr sess \<Rightarrow> start_session sess s
      | Inl e \<Rightarrow> if ctx_done then stop CtxEnded s else wait_again e wait now s)"

text \<open>After the wait: the backoff doubles, and the attempt decides.\<close>

definition retried :: "string + nat \<Rightarrow> bool \<Rightarrow> duration \<Rightarrow> time \<Rightarrow> listen_loop \<Rightarrow> listen_loop" where
  "retried r ctx_done wait now s =
     (let s = s\<lparr>ll_backoff := min (2 * ll_backoff s) reconnectMax\<rparr> in
      case r of
        Inr sess \<Rightarrow> on_health (Reconnected now) (start_session sess s)
      | Inl e \<Rightarrow>
          if ctx_done then stop CtxEnded s
          else if isFatal e then stop (ErrFatal e) (on_health (health_Failed e now) s)
          else if isScaleSetGone e then stop (ErrRestart e) (on_health (health_Failed e now) s)
          else wait_again e wait now s)"

datatype loop_event =
    ERecycle
  | EMessage time
  | EEnded bool string duration bool duration time
  | EReopen "string + nat" bool duration time
  | ERetry "string + nat" bool duration time
  | ECtxDone

text \<open>The wait an event announces, if it leads to one.\<close>

definition announces :: "loop_event \<Rightarrow> duration option" where
  "announces e =
     (case e of EEnded _ _ _ _ w _ \<Rightarrow> Some w | EReopen _ _ w _ \<Rightarrow> Some w | ERetry _ _ w _ \<Rightarrow> Some w | _ \<Rightarrow> None)"

inductive loop_step :: "loop_event \<Rightarrow> listen_loop \<Rightarrow> listen_loop \<Rightarrow> bool" where
  step_recycle: "Recycle s = (b, s') \<Longrightarrow> loop_step ERecycle s s'"
| step_message: "ll_phase s = InSession \<Longrightarrow> loop_step (EMessage now) s (on_health (MessageOK now) s)"
| step_ended: "ll_phase s = InSession \<Longrightarrow> s' = session_ended hasRun err up cd wait now s \<Longrightarrow>
     jittered (ll_backoff s') wait \<Longrightarrow> loop_step (EEnded hasRun err up cd wait now) s s'"
| step_reopen: "ll_phase s = Reopening \<Longrightarrow> s' = reopened r cd wait now s \<Longrightarrow>
     jittered (ll_backoff s') wait \<Longrightarrow> loop_step (EReopen r cd wait now) s s'"
| step_retry: "ll_phase s = Waiting err w \<Longrightarrow> s' = retried r cd wait now s \<Longrightarrow>
     jittered (ll_backoff s') wait \<Longrightarrow> loop_step (ERetry r cd wait now) s s'"
| step_ctx: "ll_phase s = Waiting err w \<Longrightarrow> loop_step ECtxDone s (stop CtxEnded s)"

definition loop_init :: "listen_loop \<Rightarrow> bool" where
  "loop_init s \<longleftrightarrow> (\<exists>sess h. s = loop_start sess h \<and> (\<forall>t. h = Some t \<longrightarrow> th_State t = Connected))"

section \<open>The invariant\<close>

definition health_is :: "(tier_health \<Rightarrow> bool) \<Rightarrow> listen_loop \<Rightarrow> bool" where
  "health_is P s \<longleftrightarrow> (\<forall>t. ll_health s = Some t \<longrightarrow> P t)"

definition phase_ok :: "listen_loop \<Rightarrow> bool" where
  "phase_ok s \<longleftrightarrow>
     (case ll_phase s of
        InSession \<Rightarrow> ll_open s = [ll_session s] \<and> ll_recycle s \<and> health_is (\<lambda>t. th_State t = Connected) s
      | Waiting e w \<Rightarrow>
          ll_open s = [] \<and> \<not> ll_recycle s \<and> jittered (ll_backoff s) w \<and>
          health_is (\<lambda>t. th_State t = Reconnecting \<and> th_LastError t = e \<and> th_Backoff t = w) s
      | Reopening \<Rightarrow> ll_open s = [] \<and> \<not> ll_recycle s \<and> health_is (\<lambda>t. th_State t = Connected) s
      | Stopped e \<Rightarrow>
          length (ll_open s) \<le> 1 \<and> \<not> ll_recycle s \<and>
          (case e of
             CtxEnded \<Rightarrow> True
           | ErrFatal m \<Rightarrow> isFatal m \<and> health_is (\<lambda>t. th_State t = Failed \<and> th_LastError t = m) s
           | ErrRestart m \<Rightarrow> isScaleSetGone m \<and> \<not> isFatal m \<and> health_is (\<lambda>t. th_State t = Failed \<and> th_LastError t = m) s))"

definition loop_inv :: "listen_loop \<Rightarrow> bool" where
  "loop_inv s \<longleftrightarrow> reconnectMin \<le> ll_backoff s \<and> ll_backoff s \<le> reconnectMax \<and> phase_ok s"

lemma health_is_map: "health_is P (on_health f s) \<longleftrightarrow> health_is (\<lambda>t. P (f t)) s"
  by (auto simp: health_is_def on_health_def)

lemma on_health_fields [simp]:
  "ll_phase (on_health f s) = ll_phase s" "ll_backoff (on_health f s) = ll_backoff s"
  "ll_session (on_health f s) = ll_session s" "ll_recycle (on_health f s) = ll_recycle s"
  "ll_open (on_health f s) = ll_open s" "ll_asked (on_health f s) = ll_asked s"
  by (simp_all add: on_health_def)

lemma health_is_other [simp]:
  "health_is P (s\<lparr>ll_phase := p\<rparr>) = health_is P s" "health_is P (s\<lparr>ll_open := os\<rparr>) = health_is P s"
  "health_is P (s\<lparr>ll_backoff := b\<rparr>) = health_is P s" "health_is P (s\<lparr>ll_asked := a\<rparr>) = health_is P s"
  "health_is P (s\<lparr>ll_recycle := a\<rparr>) = health_is P s"
  by (simp_all add: health_is_def)

lemma health_ops [simp]:
  "th_State (health_Reconnecting e w now t) = Reconnecting" "th_LastError (health_Reconnecting e w now t) = e"
  "th_Backoff (health_Reconnecting e w now t) = w" "th_State (Reconnected now t) = Connected"
  "th_State (health_Failed e now t) = Failed" "th_LastError (health_Failed e now t) = e"
  "th_State (MessageOK now t) = Connected"
  by (simp_all add: health_Reconnecting_def Reconnected_def health_Failed_def MessageOK_def)

lemma loop_inv_start: "loop_init s \<Longrightarrow> loop_inv s"
  by (auto simp: loop_init_def loop_inv_def phase_ok_def loop_start_def health_is_def)

lemma loop_inv_wait:
  assumes "ll_open s = []" "\<not> ll_recycle s" "reconnectMin \<le> ll_backoff s" "ll_backoff s \<le> reconnectMax"
    "jittered (ll_backoff s) w"
  shows "loop_inv (wait_again e w now s)"
  using assms by (simp add: loop_inv_def phase_ok_def wait_again_def health_is_map) (simp add: health_is_def)

lemma loop_inv_session:
  assumes "ll_open s = []" "reconnectMin \<le> ll_backoff s" "ll_backoff s \<le> reconnectMax"
    "health_is (\<lambda>t. th_State t = Connected) s"
  shows "loop_inv (start_session sess s)"
  using assms by (simp add: loop_inv_def phase_ok_def start_session_def health_is_def)

lemma loop_inv_stop:
  assumes "length (ll_open s) \<le> 1" "\<not> ll_recycle s" "reconnectMin \<le> ll_backoff s" "ll_backoff s \<le> reconnectMax"
  shows "loop_inv (stop CtxEnded s)"
    "isFatal m \<Longrightarrow> loop_inv (stop (ErrFatal m) (on_health (health_Failed m now) s))"
    "isScaleSetGone m \<Longrightarrow> \<not> isFatal m \<Longrightarrow> loop_inv (stop (ErrRestart m) (on_health (health_Failed m now) s))"
  using assms by (simp_all add: loop_inv_def phase_ok_def stop_def health_is_map) (simp_all add: health_is_def)

text \<open>Every event keeps the invariant.\<close>

lemma phase_backoff: "loop_inv s \<Longrightarrow> reconnectMin \<le> ll_backoff s \<and> ll_backoff s \<le> reconnectMax"
  by (simp add: loop_inv_def)

lemma loop_inv_recycle:
  assumes "loop_inv s" "Recycle s = (b, s')"
  shows "loop_inv s'"
proof -
  have "phase_ok (s\<lparr>ll_asked := True\<rparr>) = phase_ok s"
    by (cases "ll_phase s") (simp_all add: phase_ok_def split: loop_end.splits)
  with assms show ?thesis by (auto simp: Recycle_def loop_inv_def split: if_splits)
qed

lemma loop_inv_message:
  "loop_inv s \<Longrightarrow> ll_phase s = InSession \<Longrightarrow> loop_inv (on_health (MessageOK now) s)"
  by (simp add: loop_inv_def phase_ok_def health_is_map) (simp add: health_is_def)

lemma loop_inv_ended:
  assumes inv: "loop_inv s" and p: "ll_phase s = InSession" and s': "s' = session_ended hasRun err up cd wait now s"
    and w: "jittered (ll_backoff s') wait"
  shows "loop_inv s'"
proof -
  let ?b = "if up \<ge> reconnectReset then reconnectMin else ll_backoff s"
  let ?s = "s\<lparr>ll_recycle := False\<rparr>\<lparr>ll_backoff := ?b, ll_open := remove1 (ll_session s) (ll_open s)\<rparr>"
  have b: "reconnectMin \<le> ll_backoff s" "ll_backoff s \<le> reconnectMax" using phase_backoff [OF inv] by simp_all
  have o': "ll_open s = [ll_session s]" and h: "health_is (\<lambda>t. th_State t = Connected) s"
    using inv p by (simp_all add: loop_inv_def phase_ok_def)
  show ?thesis
  proof (cases cd)
    case True
    then have "s' = stop CtxEnded (s\<lparr>ll_recycle := False\<rparr>)" by (simp add: s' session_ended_def)
    then show ?thesis using b o' by (simp add: loop_inv_stop)
  next
    case False
    show ?thesis
    proof (cases "hasRun \<and> ll_asked s")
      case True
      with False have "s' = ?s\<lparr>ll_phase := Reopening\<rparr>" by (simp add: s' session_ended_def Let_def)
      then show ?thesis using b o' h by (simp add: loop_inv_def phase_ok_def)
    next
      case no: False
      with False have e: "s' = wait_again err wait now ?s" by (auto simp: s' session_ended_def Let_def)
      have "jittered ?b wait" using w by (simp add: e wait_again_def)
      then show ?thesis unfolding e by (intro loop_inv_wait) (use b o' in simp_all)
    qed
  qed
qed

lemma loop_inv_reopen:
  assumes inv: "loop_inv s" and p: "ll_phase s = Reopening" and s': "s' = reopened r cd wait now s"
    and w: "jittered (ll_backoff s') wait"
  shows "loop_inv s'"
proof -
  have b: "reconnectMin \<le> ll_backoff s" "ll_backoff s \<le> reconnectMax" using phase_backoff [OF inv] by simp_all
  have o': "ll_open s = []" "\<not> ll_recycle s" and h: "health_is (\<lambda>t. th_State t = Connected) s"
    using inv p by (simp_all add: loop_inv_def phase_ok_def)
  show ?thesis
  proof (cases r)
    case (Inr sess)
    with s' loop_inv_session [OF o'(1) b h] show ?thesis by (simp add: reopened_def)
  next
    case (Inl e)
    show ?thesis
    proof (cases cd)
      case True
      with Inl s' loop_inv_stop(1) [OF _ o'(2) b] o' show ?thesis by (simp add: reopened_def)
    next
      case False
      with Inl s' w have "s' = wait_again e wait now s" "jittered (ll_backoff s) wait"
        by (simp_all add: reopened_def wait_again_def)
      with loop_inv_wait [OF o' b] show ?thesis by simp
    qed
  qed
qed

lemma loop_inv_retry:
  assumes inv: "loop_inv s" and p: "ll_phase s = Waiting err v" and s': "s' = retried r cd wait now s"
    and w: "jittered (ll_backoff s') wait"
  shows "loop_inv s'"
proof -
  let ?s = "s\<lparr>ll_backoff := min (2 * ll_backoff s) reconnectMax\<rparr>"
  have b: "reconnectMin \<le> ll_backoff ?s" "ll_backoff ?s \<le> reconnectMax" using phase_backoff [OF inv] by simp_all
  have o': "ll_open ?s = []" "\<not> ll_recycle ?s"
    using inv p by (simp_all add: loop_inv_def phase_ok_def)
  show ?thesis
  proof (cases r)
    case (Inr sess)
    let ?t = "on_health (Reconnected now) ?s"
    have "start_session sess ?t = on_health (Reconnected now) (start_session sess ?s)"
      by (simp add: start_session_def on_health_def)
    moreover have "loop_inv (start_session sess ?t)"
      by (rule loop_inv_session) (use o' b in \<open>simp_all add: health_is_map\<close>, simp add: health_is_def)
    ultimately show ?thesis using Inr by (simp add: s' retried_def Let_def)
  next
    case (Inl e)
    have len: "length (ll_open ?s) \<le> 1" using o' by simp
    note stops = loop_inv_stop [OF len o'(2) b]
    consider "cd" | "\<not> cd" "isFatal e" | "\<not> cd" "\<not> isFatal e" "isScaleSetGone e"
      | "\<not> cd" "\<not> isFatal e" "\<not> isScaleSetGone e" by blast
    then show ?thesis
    proof cases
      case 4
      with Inl have e: "s' = wait_again e wait now ?s" by (simp add: s' retried_def Let_def)
      have "jittered (ll_backoff ?s) wait" using w by (simp add: e wait_again_def)
      with loop_inv_wait [OF o' b] e show ?thesis by simp
    qed (use Inl stops in \<open>simp_all add: s' retried_def Let_def\<close>)
  qed
qed

lemma loop_inv_ctx:
  assumes "loop_inv s" "ll_phase s = Waiting err w"
  shows "loop_inv (stop CtxEnded s)"
  using assms loop_inv_stop(1) [of s] by (auto simp: loop_inv_def phase_ok_def)

interpretation listen_loop: invariant_system loop_init loop_step loop_inv
proof
  fix s assume "loop_init s" then show "loop_inv s" by (rule loop_inv_start)
next
  fix s e s' assume inv: "loop_inv s" and "loop_step e s s'"
  then show "loop_inv s'"
    by (cases rule: loop_step.cases [OF \<open>loop_step e s s'\<close>, case_names rec msg ended re retry cx])
      (auto intro: loop_inv_recycle loop_inv_message loop_inv_ended loop_inv_reopen loop_inv_retry loop_inv_ctx)
qed

end
