(* ===== verification/Listener_Claims.thy ===== *)
theory Listener_Claims
  imports Listener_Loop
begin

text \<open>
  The properties of the listener: when its loop ends and what it shows meanwhile, that it reconnects, the
  pool of JIT clients, what a removal's result says about GitHub, and whose scale set is deleted.
\<close>

section \<open>The loop\<close>

text \<open>
  C30. The listener gives up only for a reason: in every reachable state at most one session is open, the
  loop has ended only on the context, on an error that says GitHub rejected the credentials (and is no rate
  limit) or on one that says the scale set is gone; the tier's health is connected exactly as long as a
  session is listened on, reconnecting with the error and the wait while it waits, and failed with the error
  once the loop ended on one; and no wait exceeds 144 seconds.
\<close>

theorem listener_gives_up_only:
  assumes "reach loop_init loop_step s"
  shows "length (ll_open s) \<le> 1 \<and>
    (case ll_phase s of
       InSession \<Rightarrow> ll_open s = [ll_session s] \<and> health_is (\<lambda>t. th_State t = Connected) s
     | Reopening \<Rightarrow> ll_open s = []
     | Waiting e w \<Rightarrow> ll_open s = [] \<and> w \<le> 144 * second \<and>
         health_is (\<lambda>t. th_State t = Reconnecting \<and> th_LastError t = e \<and> th_Backoff t = w) s
     | Stopped CtxEnded \<Rightarrow> True
     | Stopped (ErrFatal m) \<Rightarrow> isFatal m \<and> health_is (\<lambda>t. th_State t = Failed \<and> th_LastError t = m) s
     | Stopped (ErrRestart m) \<Rightarrow> isScaleSetGone m \<and> \<not> isFatal m \<and>
         health_is (\<lambda>t. th_State t = Failed \<and> th_LastError t = m) s)"
proof -
  have inv: "loop_inv s" by (rule listen_loop.reach_inv [OF assms])
  show ?thesis
  proof (cases "ll_phase s")
    case (Waiting e w)
    with inv have "jittered (ll_backoff s) w" "ll_backoff s \<le> reconnectMax"
      by (simp_all add: loop_inv_def phase_ok_def)
    then have "w \<le> 144 * second" by (simp add: jittered_def)
    with inv Waiting show ?thesis by (simp add: loop_inv_def phase_ok_def)
  qed (use inv in \<open>auto simp: loop_inv_def phase_ok_def split: loop_end.splits\<close>)
qed

definition demo_tracker :: tier_health where "demo_tracker = NewTracker ''t'' 0"

definition demo_loop1 :: listen_loop where
  "demo_loop1 = session_ended True ''502 Bad Gateway'' 0 False (2 * second) 5 (loop_start 1 (Some demo_tracker))"

definition demo_loop2 :: listen_loop where
  "demo_loop2 = retried (Inl ''401 Unauthorized'') False (4 * second) 9 demo_loop1"

lemma demo_loop_reach: "reach loop_init loop_step demo_loop1" "reach loop_init loop_step demo_loop2"
proof -
  have i: "reach loop_init loop_step (loop_start 1 (Some demo_tracker))"
    by (rule reach_init, unfold loop_init_def, intro exI conjI, rule refl) (simp add: demo_tracker_def NewTracker_def)
  have 1: "ll_phase demo_loop1 = Waiting ''502 Bad Gateway'' (2 * second)" "ll_backoff demo_loop1 = 2 * second"
    by code_simp+
  have p: "ll_phase (loop_start 1 (Some demo_tracker)) = InSession" by (simp add: loop_start_def)
  have j1: "jittered (ll_backoff demo_loop1) (2 * second)" unfolding 1(2) jittered_def by simp
  have st1: "loop_step (EEnded True ''502 Bad Gateway'' 0 False (2 * second) 5) (loop_start 1 (Some demo_tracker)) demo_loop1"
    by (rule step_ended [OF p demo_loop1_def j1])
  show r1: "reach loop_init loop_step demo_loop1" by (rule reach_step [OF i, OF st1])
  have 2: "ll_backoff demo_loop2 = 4 * second" by code_simp
  have j2: "jittered (ll_backoff demo_loop2) (4 * second)" unfolding 2 jittered_def by simp
  have st2: "loop_step (ERetry (Inl ''401 Unauthorized'') False (4 * second) 9) demo_loop1 demo_loop2"
    by (rule step_retry [OF 1(1) demo_loop2_def j2])
  show "reach loop_init loop_step demo_loop2" by (rule reach_step [OF r1, OF st2])
qed

lemma listener_gives_up_only_witness:
  "ll_phase demo_loop2 = Stopped (ErrFatal ''401 Unauthorized'') \<and> isFatal ''401 Unauthorized'' \<and>
   health_is (\<lambda>t. th_State t = Failed) demo_loop2"
proof -
  have "ll_phase demo_loop2 = Stopped (ErrFatal ''401 Unauthorized'')" by code_simp
  with listener_gives_up_only [OF demo_loop_reach(2)] show ?thesis by (simp add: health_is_def)
qed

lemma capped_doubling:
  assumes "0 \<le> b"
  shows "min (2 ^ n * min (2 * b) reconnectMax) reconnectMax = min (2 ^ Suc n * b) reconnectMax"
proof (cases "2 * b \<le> reconnectMax")
  case False
  have one: "(1::int) \<le> 2 ^ n" by simp
  have 1: "reconnectMax \<le> 2 ^ n * reconnectMax" using mult_right_mono [OF one, of reconnectMax] by simp
  have "2 ^ n * reconnectMax \<le> 2 ^ n * (2 * b)" using False by (intro mult_left_mono) simp_all
  with 1 have "reconnectMax \<le> 2 ^ n * (2 * b)" by (rule order_trans)
  then have 2: "reconnectMax \<le> 2 ^ Suc n * b" by simp
  have "min (2 * b) reconnectMax = reconnectMax" using False by (simp add: min_absorb2)
  with 1 2 show ?thesis by (simp only: min_absorb2)
qed (simp add: mult.assoc min_absorb1)

definition retry_fails :: "string \<times> duration \<times> time \<Rightarrow> listen_loop \<Rightarrow> listen_loop" where
  "retry_fails f s = (case f of (e, w, now) \<Rightarrow> retried (Inl e) False w now s)"

text \<open>
  C31. A tier reconnects: while it waits, as long as the attempts fail with errors that are neither fatal nor
  the scale set's absence, it keeps waiting and doubles its backoff up to two minutes; the first attempt
  GitHub answers opens a session, the tier listens on it and its health is connected with one more reconnect.
\<close>

theorem listener_reconnects:
  assumes "ll_phase s = Waiting err w" "ll_backoff s = b" "0 \<le> b" "b \<le> reconnectMax"
    and "\<forall>(e, _) \<in> set fails. \<not> isFatal e \<and> \<not> isScaleSetGone e"
  shows "(\<exists>err' w'. ll_phase (fold retry_fails fails s) = Waiting err' w') \<and>
    ll_backoff (fold retry_fails fails s) = min (2 ^ length fails * b) reconnectMax \<and>
    (let s' = retried (Inr sess) False w'' now (fold retry_fails fails s) in
     ll_phase s' = InSession \<and> ll_session s' = sess \<and> ll_recycle s' \<and>
     (\<forall>t. ll_health s = Some t \<longrightarrow>
        (\<exists>t'. ll_health s' = Some t' \<and> th_State t' = Connected \<and> th_Reconnects t' = th_Reconnects t + 1)))"
  using assms
proof (induction fails arbitrary: s err w b)
  case Nil
  then show ?case
    by (simp add: retried_def Let_def start_session_def) (auto simp: on_health_def Reconnected_def)
next
  case (Cons f fails)
  obtain e v now' where f: "f = (e, v, now')" by (metis prod_cases3)
  let ?s = "retry_fails f s"
  have ok: "\<not> isFatal e" "\<not> isScaleSetGone e" using Cons.prems(5) by (simp_all add: f)
  have s: "?s = wait_again e v now' (s\<lparr>ll_backoff := min (2 * b) reconnectMax\<rparr>)"
    using ok Cons.prems(2) by (simp add: f retry_fails_def retried_def Let_def)
  have p: "ll_phase ?s = Waiting e v" "ll_backoff ?s = min (2 * b) reconnectMax" by (simp_all add: s wait_again_def)
  have h: "ll_health ?s = map_option (health_Reconnecting e v now') (ll_health s)"
    by (simp add: s wait_again_def on_health_def)
  have r: "th_Reconnects (health_Reconnecting e v now' t) = th_Reconnects t" for t
    by (simp add: health_Reconnecting_def)
  have ih: "0 \<le> min (2 * b) reconnectMax" "min (2 * b) reconnectMax \<le> reconnectMax"
    "\<forall>(e, _) \<in> set fails. \<not> isFatal e \<and> \<not> isScaleSetGone e"
    using Cons.prems(3,5) by simp_all
  note q = Cons.IH [OF p ih]
  have e: "fold retry_fails (f # fails) s = fold retry_fails fails ?s" by simp
  show ?case unfolding e length_Cons capped_doubling [OF Cons.prems(3), symmetric] Let_def
  proof (intro conjI allI impI)
    fix t assume "ll_health s = Some t"
    then have "ll_health ?s = Some (health_Reconnecting e v now' t)" using h by simp
    with q r show "\<exists>t'. ll_health (retried (Inr sess) False w'' now (fold retry_fails fails ?s)) = Some t' \<and>
        th_State t' = Connected \<and> th_Reconnects t' = th_Reconnects t + 1" unfolding Let_def by metis
  qed (use q in \<open>unfold Let_def, blast+\<close>)
qed

lemma listener_reconnects_witness:
  "ll_phase (retried (Inr 7) False 0 20 (fold retry_fails [(''503'', 4 * second, 9), (''503'', 8 * second, 14)] demo_loop1)) = InSession"
proof -
  have p: "ll_phase demo_loop1 = Waiting ''502 Bad Gateway'' (2 * second)" "ll_backoff demo_loop1 = 2 * second"
    and e: "\<not> isFatal ''503''" "\<not> isScaleSetGone ''503''" by code_simp+
  from listener_reconnects [OF p, of "[(''503'', 4 * second, 9), (''503'', 8 * second, 14)]" 7 0 20] e
  show ?thesis by (simp add: Let_def)
qed

section \<open>The pool of JIT clients\<close>

definition jit_pool_inv :: "clientPool \<Rightarrow> bool" where
  "jit_pool_inv p \<longleftrightarrow>
     cp_created p = length (cp_idle p) + length (cp_out p) + cp_making p \<and> cp_created p \<le> cp_limit p \<and>
     distinct (cp_idle p @ cp_out p) \<and> (\<forall>c \<in> set (cp_idle p @ cp_out p). c < cp_next p)"

interpretation jit_pool: invariant_system pool_start pool_step jit_pool_inv
proof
  fix p assume "pool_start p"
  then show "jit_pool_inv p" by (auto simp: pool_start_def jit_pool_inv_def seed_def put_client_def newClientPool_def)
next
  fix p l p' assume inv: "jit_pool_inv p" and "pool_step l p p'"
  from \<open>pool_step l p p'\<close> show "jit_pool_inv p'"
  proof cases
    case (pool_get r)
    with inv show ?thesis by (auto simp: get_client_def jit_pool_inv_def split: list.splits if_splits)
  next
    case (pool_made ok)
    with inv show ?thesis by (cases ok) (fastforce simp: made_client_def jit_pool_inv_def less_Suc_eq)+
  next
    case (pool_serve c rest)
    with inv show ?thesis by (auto simp: jit_pool_inv_def)
  next
    case pool_giveup
    with inv show ?thesis by (simp add: jit_pool_inv_def)
  next
    case (pool_put c)
    have "length (cp_out p) > 0" using pool_put by auto
    with inv pool_put show ?thesis
      by (auto simp: put_client_def jit_pool_inv_def length_remove1 dest: notin_set_remove1)
  qed
qed

text \<open>
  The JIT client pool: in every state the clients made, being made, handed out and idle are those it
  counts, never more than its limit; no client is with two goroutines or both handed out and idle; whoever
  holds a client can put it back without blocking; and a goroutine that must wait does so only while all of
  the limit are in use.
\<close>

theorem jit_pool_safe:
  assumes "reach pool_start pool_step p"
  shows "length (cp_idle p) + length (cp_out p) + cp_making p = cp_created p \<and> cp_created p \<le> cp_limit p \<and>
    distinct (cp_idle p @ cp_out p) \<and> (cp_out p \<noteq> [] \<longrightarrow> can_put p) \<and>
    (fst (get_client p) = MustWait \<longleftrightarrow> length (cp_out p) + cp_making p = cp_limit p)"
proof -
  have inv: "jit_pool_inv p" by (rule jit_pool.reach_inv [OF assms])
  then have "cp_out p \<noteq> [] \<longrightarrow> can_put p"
    by (cases "cp_out p") (auto simp: jit_pool_inv_def can_put_def)
  moreover have "fst (get_client p) = MustWait \<longleftrightarrow> length (cp_out p) + cp_making p = cp_limit p"
    using inv by (cases "cp_idle p") (auto simp: jit_pool_inv_def get_client_def)
  ultimately show ?thesis using inv by (simp add: jit_pool_inv_def)
qed

lemma jit_pool_safe_witness:
  "fst (get_client (snd (get_client (seed (newClientPool 1))))) = MustWait \<and>
   can_put (snd (get_client (seed (newClientPool 1))))"
proof -
  let ?p = "seed (newClientPool 1)"
  have i: "reach pool_start pool_step ?p" by (rule reach_init) (auto simp: pool_start_def)
  have "pool_step PGet ?p (snd (get_client ?p))" by (rule pool_get [of _ "fst (get_client ?p)"]) simp
  from reach_step [OF i, OF this] have r: "reach pool_start pool_step (snd (get_client ?p))" .
  have "cp_out (snd (get_client ?p)) = [0]" "cp_making (snd (get_client ?p)) = 0" "cp_limit (snd (get_client ?p)) = 1"
    by (simp_all add: seed_def newClientPool_def put_client_def get_client_def)
  with jit_pool_safe [OF r] show ?thesis by simp
qed

section \<open>Removals\<close>

text \<open>
  What GitHub documents: a lookup answers for the moment it is served, a removal that is done or finds no
  runner leaves none of that number, one refused for a running job leaves the runner, and nothing here
  registers a runner; \<open>reg\<close> gives the number of the runner registered under a name.
\<close>

definition truthful :: "'w runner_api \<Rightarrow> ('w \<Rightarrow> string \<Rightarrow> nat option) \<Rightarrow> bool" where
  "truthful G reg \<longleftrightarrow>
     (\<forall>w n r w'. ra_lookup G w n = (r, w') \<longrightarrow>
        (\<forall>x. r = Inr x \<longrightarrow> reg w' n = x) \<and> (\<forall>m. reg w' m = None \<or> reg w' m = reg w m)) \<and>
     (\<forall>w k r w'. ra_remove G w k = (r, w') \<longrightarrow>
        (r = RemoveDone \<or> r = RunnerNotFound \<longrightarrow> (\<forall>m. reg w' m \<noteq> Some k)) \<and>
        (r = JobStillRunning \<longrightarrow> (\<forall>m. reg w m = Some k \<longrightarrow> reg w' m = Some k)) \<and>
        (\<forall>m. reg w' m = None \<or> reg w' m = reg w m))"

lemma truthful_lookup:
  assumes "truthful G reg" "ra_lookup G w n = (r, w')"
  shows "r = Inr x \<Longrightarrow> reg w' n = x" "reg w' m = None \<or> reg w' m = reg w m"
  using assms unfolding truthful_def by blast+

lemma truthful_remove:
  assumes "truthful G reg" "ra_remove G w k = (r, w')"
  shows "r = RemoveDone \<or> r = RunnerNotFound \<Longrightarrow> reg w' m \<noteq> Some k"
    "r = JobStillRunning \<Longrightarrow> reg w m = Some k \<Longrightarrow> reg w' m = Some k"
    "reg w' m = None \<or> reg w' m = reg w m"
proof -
  note law = assms(1) [unfolded truthful_def, THEN conjunct2, THEN spec, THEN spec, THEN spec, THEN spec, THEN mp, OF assms(2)]
  show "r = RemoveDone \<or> r = RunnerNotFound \<Longrightarrow> reg w' m \<noteq> Some k"
    "r = JobStillRunning \<Longrightarrow> reg w m = Some k \<Longrightarrow> reg w' m = Some k" "reg w' m = None \<or> reg w' m = reg w m"
    using law by simp_all
qed

text \<open>
  A removal never guesses: with a GitHub that answers truthfully, success means the runner is not
  registered any more, a refusal that it still is and has a job, and a plain error that it still is or that
  nothing was sent which could have removed it; only when both the removal and the lookup after it failed
  is the outcome unknown.
\<close>

theorem removal_never_guesses:
  assumes "truthful G reg" "RemoveRunner G name w = (res, sent, w')"
  shows "case res of
      None \<Rightarrow> reg w' name = None
    | Some ErrRunnerBusy \<Rightarrow> reg w' name \<noteq> None \<and> sent
    | Some ErrOther \<Rightarrow> \<not> sent \<or> reg w' name \<noteq> None
    | Some ErrRemovalUnknown \<Rightarrow> sent"
proof -
  obtain r1 w1 where 1: "ra_lookup G w name = (r1, w1)" by fastforce
  show ?thesis
  proof (cases r1)
    case (Inl u)
    with assms(2) 1 show ?thesis by (auto simp: RemoveRunner_def)
  next
    case (Inr x)
    have x: "reg w1 name = x" by (rule truthful_lookup(1) [OF assms(1) 1 Inr])
    show ?thesis
    proof (cases x)
      case None
      with assms(2) 1 Inr x show ?thesis by (auto simp: RemoveRunner_def)
    next
      case (Some k)
      obtain r2 w2 where 2: "ra_remove G w1 k = (r2, w2)" by fastforce
      note t = truthful_remove [OF assms(1) 2]
      have keep: "reg w2 name = None \<or> reg w2 name = Some k" using t(3) [of name] x Some by auto
      show ?thesis
      proof (cases r2)
        case RemoveError
        obtain r3 w3 where 3: "ra_lookup G w2 name = (r3, w3)" by fastforce
        show ?thesis
        proof (cases r3)
          case (Inl u)
          with assms(2) 1 2 Inr Some RemoveError 3 show ?thesis by (auto simp: RemoveRunner_def)
        next
          case ok: (Inr y)
          with assms(2) 1 2 Inr Some RemoveError 3 truthful_lookup(1) [OF assms(1) 3 ok] show ?thesis
            by (cases y) (auto simp: RemoveRunner_def)
        qed
      next
        case JobStillRunning
        with t(2) [of name] x Some assms(2) 1 2 Inr show ?thesis by (auto simp: RemoveRunner_def)
      next
        case RemoveDone
        with t(1) [of name] keep assms(2) 1 2 Inr Some show ?thesis by (auto simp: RemoveRunner_def)
      next
        case RunnerNotFound
        with t(1) [of name] keep assms(2) 1 2 Inr Some show ?thesis by (auto simp: RemoveRunner_def)
      qed
    qed
  qed
qed

text \<open>A GitHub that applies a removal and loses the answer.\<close>

definition demo_reg :: "bool \<Rightarrow> string \<Rightarrow> nat option" where
  "demo_reg w n = (if w \<and> n = ''vm'' then Some 1 else None)"

definition demo_github :: "bool runner_api" where
  "demo_github = \<lparr>ra_lookup = (\<lambda>w n. (Inr (demo_reg w n), w)), ra_remove = (\<lambda>w k. (RemoveError, w \<and> k \<noteq> 1))\<rparr>"

lemma demo_github_truthful: "truthful demo_github demo_reg"
  by (simp add: truthful_def demo_github_def) (simp add: demo_reg_def)

lemma demo_removal: "RemoveRunner demo_github ''vm'' True = (None, True, False)"
  by (simp add: RemoveRunner_def demo_github_def demo_reg_def)

lemma removal_never_guesses_witness:
  "RemoveRunner demo_github ''vm'' True = (None, True, False) \<and> demo_reg False ''vm'' = None"
  using removal_never_guesses [OF demo_github_truthful demo_removal] demo_removal by simp

text \<open>
  C32. Scaling down ends no job: when the scheduler settles a removal with what the JIT source reports and
  cancels the VM on it, the runner is not registered with a truthful GitHub any more, so no job can be
  assigned to it, and the VM had none.
\<close>

theorem scale_down_ends_no_job:
  assumes "truthful G reg" "RemoveRunner G name w = (res, sent, w')"
    and "mlookup (s_active s) name = Some h" "\<not> h_cancelled h"
    and "settleRemoval name res s = (s', again)" "mlookup (s_active s') name = Some h'" "h_cancelled h'"
  shows "reg w' name = None \<and> \<not> h_busy h"
proof -
  have "res = None \<and> \<not> h_busy h"
    using assms(3-7) by (auto simp: settleRemoval_def Let_def split: if_splits option.splits removal_error.splits)
  moreover obtain r1 w1 where 1: "ra_lookup G w name = (r1, w1)" by fastforce
  have "reg w' name = None" if "res = None"
  proof -
    from 1 that assms(2) consider (gone) "r1 = Inr None" "w' = w1"
      | (sent) k r2 w2 where "r1 = Inr (Some k)" "ra_remove G w1 k = (r2, w2)"
          "(r2 = RemoveDone \<or> r2 = RunnerNotFound) \<and> w' = w2 \<or>
           (\<exists>w3. ra_lookup G w2 name = (Inr None, w3) \<and> w' = w3)"
      by (auto simp: RemoveRunner_def split: prod.splits sum.splits option.splits remove_reply.splits)
    then show ?thesis
    proof cases
      case gone
      then show ?thesis using truthful_lookup(1) [OF assms(1) 1] by simp
    next
      case (sent k r2 w2)
      have "reg w1 name = Some k" using truthful_lookup(1) [OF assms(1) 1 sent(1)] by simp
      with sent truthful_remove(1,3) [OF assms(1) sent(2), of name] truthful_lookup(1) [OF assms(1)]
      show ?thesis by fastforce
    qed
  qed
  ultimately show ?thesis by blast
qed

definition demo_idle_handle :: vmHandle where
  "demo_idle_handle = \<lparr>h_cancel = 0, h_busy = False, h_since = 0, h_cancelled = False, h_removing = True,
     h_completed = False, h_completedAt = 0\<rparr>"

lemma scale_down_ends_no_job_witness:
  "\<exists>s'. settleRemoval ''vm'' None ((new_scheduler 4 0 True None)\<lparr>s_active := [(''vm'', demo_idle_handle)]\<rparr>) = (s', False) \<and>
     demo_reg False ''vm'' = None"
proof -
  let ?s = "(new_scheduler 4 0 True None)\<lparr>s_active := [(''vm'', demo_idle_handle)]\<rparr>"
  obtain s' where s': "settleRemoval ''vm'' None ?s = (s', False)"
    "mlookup (s_active s') ''vm'' = Some (demo_idle_handle\<lparr>h_removing := False, h_cancelled := True\<rparr>)"
    by (simp add: settleRemoval_def demo_idle_handle_def cancel_handle_def)
  have "mlookup (s_active ?s) ''vm'' = Some demo_idle_handle" "\<not> h_cancelled demo_idle_handle"
    "h_cancelled (demo_idle_handle\<lparr>h_removing := False, h_cancelled := True\<rparr>)"
    by (simp_all add: demo_idle_handle_def)
  from scale_down_ends_no_job [OF demo_github_truthful demo_removal this(1,2) s' this(3)] s'(1) show ?thesis by blast
qed

section \<open>Sessions and scale sets\<close>

lemma open_attempts_Inr:
  "snd (open_attempts A sid owner is err) = Inr sess \<longleftrightarrow>
     (\<exists>k < length is. ga_open A (is ! k) = Inr sess \<and>
        (\<forall>j < k. \<exists>e. ga_open A (is ! j) = Inl e \<and> isSessionConflict e \<and> \<not> ga_done A (is ! j)))"
proof (induction "is" arbitrary: err)
  case (Cons i "is")
  let ?P = "\<lambda>xs. \<exists>k < length xs. ga_open A (xs ! k) = Inr sess \<and>
        (\<forall>j < k. \<exists>e. ga_open A (xs ! j) = Inl e \<and> isSessionConflict e \<and> \<not> ga_done A (xs ! j))"
  have shift: "?P (i # is) \<longleftrightarrow> ga_open A i = Inr sess \<or>
      ((\<exists>e. ga_open A i = Inl e \<and> isSessionConflict e \<and> \<not> ga_done A i) \<and> ?P is)"
    by (auto simp: Ex_less_Suc2 All_less_Suc2)
  show ?case
  proof (cases "ga_open A i")
    case (Inl a)
    then have "snd (open_attempts A sid owner (i # is) err) = Inr sess \<longleftrightarrow>
        isSessionConflict a \<and> \<not> ga_done A i \<and> snd (open_attempts A sid owner is a) = Inr sess"
      by (cases "open_attempts A sid owner is a") auto
    with Inl show ?thesis unfolding shift Cons.IH [of a] by auto
  next
    case (Inr b)
    then have "snd (open_attempts A sid owner (i # is) err) = Inr sess \<longleftrightarrow> b = sess" by simp
    with Inr show ?thesis unfolding shift by simp
  qed
qed simp

text \<open>
  Opening a session survives an unclean shutdown: it succeeds exactly when one of the first twelve
  attempts is answered while every earlier one met a session conflict that was waited out; the first other
  error ends it at once.
\<close>

theorem session_open_retries:
  "snd (openSessionWithRetry A sid owner) = Inr sess \<longleftrightarrow>
     (\<exists>k < 12. ga_open A k = Inr sess \<and>
        (\<forall>j < k. \<exists>e. ga_open A j = Inl e \<and> isSessionConflict e \<and> \<not> ga_done A j))"
  by (auto simp: openSessionWithRetry_def open_attempts_Inr session_attempts_def)

lemma only_makes_clients: "make_clients A cfg ks = (cs, r) \<Longrightarrow> set cs \<subseteq> {NewClient (lc_hasApp cfg)}"
  by (induction ks arbitrary: cs r) (auto split: option.splits prod.splits)

lemma only_opens: "open_attempts A sid owner is err = (cs, r) \<Longrightarrow> set cs \<subseteq> {OpenSession sid owner}"
  by (induction "is" arbitrary: err cs r) (fastforce split: sum.splits if_splits prod.splits)+

text \<open>
  A scale set this process did not create is never deleted: whatever GitHub answers, starting and then
  closing the listener deletes a scale set only when the lookup found none, this process asked GitHub to
  create one, and it is the one GitHub created.
\<close>

theorem only_own_set_deleted:
  assumes "NewListener A cfg owner = (cs, r)"
    and "DeleteRunnerScaleSet x \<in> set (cs @ (case r of Inr ss \<Rightarrow> CloseListener ss | Inl _ \<Rightarrow> []))"
  shows "ga_existing A = Inr None \<and> ga_registered A = Inr x \<and> (\<exists>d. CreateRunnerScaleSet d \<in> set cs)"
proof -
  obtain cfg' where cfg': "cfg' = (if lc_RunnerGroup cfg = [] then cfg\<lparr>lc_RunnerGroup := DefaultRunnerGroup\<rparr> else cfg)" by blast
  obtain c0 e0 where 0: "make_clients A cfg' [0, 1, 2] = (c0, e0)" by fastforce
  note no0 = only_makes_clients [OF 0]
  obtain c1 g where 1: "runnerGroupID A (lc_RunnerGroup cfg') = (c1, g)" by fastforce
  have no1: "DeleteRunnerScaleSet x \<notin> set c1" using 1 by (auto simp: runnerGroupID_def split: if_splits)
  have dead: False if "cs = c0 \<or> cs = c0 @ c1" "\<exists>e. r = Inl e"
    using assms(2) that no0 no1 by auto
  have "e0 = None \<and> (\<exists>gid. g = Inr gid)"
    using assms(1) dead unfolding NewListener_def cfg' [symmetric] Let_def 0 1
    by (cases e0; cases g) auto
  then obtain gid where g: "e0 = None" "g = Inr gid" by blast
  obtain c2 q where 2: "registerScaleSet A cfg' gid 2 = (c2, q)" by fastforce
  have no2: "DeleteRunnerScaleSet x \<notin> set c2"
    using 2 by (auto simp: registerScaleSet_def Let_def split: sum.splits option.splits)
  have "\<exists>sid reused. q = Inr (sid, reused)"
  proof (cases q)
    case (Inl e)
    then have "cs = c0 @ c1 @ c2" "r = Inl e"
      using assms(1) unfolding NewListener_def cfg' [symmetric] Let_def 0 1 g by (simp_all add: 2)
    with assms(2) no0 no1 no2 show ?thesis by auto
  qed auto
  then obtain sid reused where q: "q = Inr (sid, reused)" by blast
  obtain c3 o3 where 3: "openSessionWithRetry A sid owner = (c3, o3)" by fastforce
  have no3: "DeleteRunnerScaleSet x \<notin> set c3"
    using only_opens [of A sid owner "[0..<session_attempts]" "[]" c3 o3] 3 by (auto simp: openSessionWithRetry_def)
  have "\<not> reused \<and> x = sid \<and> set c2 \<subseteq> set cs"
    using assms no0 no1 no2 no3 unfolding NewListener_def cfg' [symmetric] Let_def 0 1 g
    by (cases o3) (auto simp: 2 q 3 CloseListener_def split: if_splits)
  moreover from this 2 q have "ga_existing A = Inr None \<and> ga_registered A = Inr sid \<and> (\<exists>d. CreateRunnerScaleSet d \<in> set c2)"
    by (auto simp: registerScaleSet_def Let_def split: sum.splits option.splits)
  ultimately show ?thesis by auto
qed

definition demo_answers :: gh_answers where
  "demo_answers = \<lparr>ga_client = \<lambda>_. None, ga_group = Inr 4, ga_existing = Inr None, ga_registered = Inr 9,
     ga_open = (\<lambda>_. Inl ''401 Unauthorized''), ga_done = (\<lambda>_. False)\<rparr>"

definition demo_lconfig :: listener_config where
  "demo_lconfig = \<lparr>lc_Name = ''fr'', lc_RunnerGroup = [], lc_Labels = [''x'', ''fr''], lc_MaxRunners = 4, lc_Version = [],
     lc_CommitSHA = [], lc_hasApp = True\<rparr>"

lemma only_own_set_deleted_witness: "ga_existing demo_answers = Inr None \<and> ga_registered demo_answers = Inr 9"
proof -
  obtain cs r where n: "NewListener demo_answers demo_lconfig ''me'' = (cs, r)" by fastforce
  have "DeleteRunnerScaleSet 9 \<in> set (fst (NewListener demo_answers demo_lconfig ''me''))" by code_simp
  with n have "DeleteRunnerScaleSet 9 \<in> set (cs @ (case r of Inr ss \<Rightarrow> CloseListener ss | Inl _ \<Rightarrow> []))" by simp
  from only_own_set_deleted [OF n this] show ?thesis by blast
qed

text \<open>The capacity pushed to GitHub is at least one, and at most the tier's own maximum.\<close>

lemma clamp_capacity_range: "1 \<le> mx \<Longrightarrow> 1 \<le> clamp_capacity mx c \<and> clamp_capacity mx c \<le> mx"
  by (simp add: clamp_capacity_def Let_def)

text \<open>A tier can be reached by its own name, and no label is its name twice.\<close>

lemma buildLabels_name: "hd (buildLabels name ls) = name \<and> name \<notin> set (tl (buildLabels name ls)) \<and> set ls \<subseteq> set (buildLabels name ls)"
  by (auto simp: buildLabels_def)

end
