(* ===== verification/Serve.thy ===== *)
theory Serve
  imports Listener_Loop Config
begin

text \<open>
  The daemon's main loop (\<open>cmd/firerunner/main.go\<close>): \<open>serveTiers\<close>, which runs every tier's listener until
  nothing is left to serve, and what \<open>run\<close> makes of its result.

  One goroutine per tier runs the listener, looks at the shared context and, if that is still live, records
  the tier's end under a mutex.  The look and the critical section are two steps, so other tiers and the
  signal handler may act between them.
\<close>

section \<open>The state\<close>

text \<open>
  The error a tier's run returns: \<open>errors.Is(err, ErrRestart)\<close> or any other.  \<open>no_error\<close> stands for the error
  made when a run returns nil.
\<close>

datatype tier_error = Restart string | Ended string

definition no_error :: tier_error where
  "no_error = Ended ''listener returned without an error''"

fun is_restart :: "tier_error \<Rightarrow> bool" where
  "is_restart (Restart m) = True"
| "is_restart (Ended m) = False"

datatype tier_phase = Serving | Returning tier_error | Gone

text \<open>
  \<open>sv_signalled\<close> says that the caller ended the context, \<open>sv_cancelled\<close> that \<open>serveTiers\<close> called \<open>cancel\<close>;
  the context is over when either holds.  \<open>sv_live\<close> tells which tiers' own contexts were not cancelled by
  their goroutine.  \<open>sv_ends\<close> lists the ends recorded, in order; nothing reads it.
\<close>

record serve =
  sv_signalled :: bool
  sv_cancelled :: bool
  sv_phase :: "tier_phase list"
  sv_live :: "bool list"
  sv_stopped :: nat
  sv_first :: "(string \<times> tier_error) option"
  sv_restart :: bool
  sv_ends :: "(nat \<times> tier_error) list"

definition serve_start :: "nat \<Rightarrow> serve" where
  "serve_start n =
     \<lparr>sv_signalled = False, sv_cancelled = False, sv_phase = replicate n Serving, sv_live = replicate n True,
      sv_stopped = 0, sv_first = None, sv_restart = False, sv_ends = []\<rparr>"

definition ctx_over :: "serve \<Rightarrow> bool" where
  "ctx_over s \<longleftrightarrow> sv_signalled s \<or> sv_cancelled s"

section \<open>The steps\<close>

text \<open>\<open>run\<close> has returned; \<open>tierCancel\<close>, then the look at \<open>ctx.Err()\<close>.\<close>

definition tier_returns :: "nat \<Rightarrow> tier_error option \<Rightarrow> serve \<Rightarrow> serve" where
  "tier_returns i err s =
     s\<lparr>sv_live := (sv_live s)[i := False],
       sv_phase := (sv_phase s)[i := if ctx_over s then Gone
                                     else Returning (case err of None \<Rightarrow> no_error | Some e \<Rightarrow> e)]\<rparr>"

text \<open>The critical section.\<close>

definition record_end :: "string list \<Rightarrow> nat \<Rightarrow> tier_error \<Rightarrow> serve \<Rightarrow> serve" where
  "record_end names i e s =
     (let k = Suc (sv_stopped s);
          s = s\<lparr>sv_stopped := k, sv_phase := (sv_phase s)[i := Gone], sv_ends := sv_ends s @ [(i, e)],
                sv_first := (if sv_first s = None \<or> is_restart e then Some (names ! i, e) else sv_first s)\<rparr> in
      if is_restart e then s\<lparr>sv_restart := True, sv_cancelled := True\<rparr>
      else if k = length (sv_phase s) then s\<lparr>sv_cancelled := True\<rparr>
      else s)"

datatype serve_event = Signal | TierReturns nat "tier_error option" | TierRecords nat

inductive serve_step :: "string list \<Rightarrow> serve_event \<Rightarrow> serve \<Rightarrow> serve \<Rightarrow> bool" for names where
  step_signal: "serve_step names Signal s (s\<lparr>sv_signalled := True\<rparr>)"
| step_returns: "i < length (sv_phase s) \<Longrightarrow> sv_phase s ! i = Serving \<Longrightarrow>
    serve_step names (TierReturns i err) s (tier_returns i err s)"
| step_records: "i < length (sv_phase s) \<Longrightarrow> sv_phase s ! i = Returning e \<Longrightarrow>
    serve_step names (TierRecords i) s (record_end names i e s)"

inductive_cases serve_stepE: "serve_step names l s t"

abbreviation serve_reach :: "string list \<Rightarrow> serve \<Rightarrow> bool" where
  "serve_reach names \<equiv> reach (\<lambda>s. s = serve_start (length names)) (serve_step names)"

text \<open>\<open>wg.Wait\<close> is over.\<close>

definition all_gone :: "serve \<Rightarrow> bool" where
  "all_gone s \<longleftrightarrow> list_all (\<lambda>p. p = Gone) (sv_phase s)"

definition serve_result :: "serve \<Rightarrow> (string \<times> tier_error) option" where
  "serve_result s = (if sv_restart s \<or> sv_stopped s = length (sv_phase s) then sv_first s else None)"

text \<open>The end of \<open>run\<close>: the drain follows either way, and the error counts unless a signal asked to stop.\<close>

definition daemon_result :: "serve \<Rightarrow> (string \<times> tier_error) option" where
  "daemon_result s = (if serve_result s \<noteq> None \<and> \<not> sv_signalled s then serve_result s else None)"

text \<open>What the listener's loop returns to its tier's goroutine.\<close>

fun loop_error :: "loop_end \<Rightarrow> tier_error" where
  "loop_error loop_end.CtxEnded = Ended ''context canceled''"
| "loop_error (ErrFatal m) = Ended m"
| "loop_error (ErrRestart m) = Restart m"

section \<open>The invariant\<close>

text \<open>The end the daemon answers for: the last restart, or else the first end.\<close>

definition end_error :: "string list \<Rightarrow> (nat \<times> tier_error) list \<Rightarrow> (string \<times> tier_error) option" where
  "end_error names es =
     (let rs = filter (\<lambda>x. is_restart (snd x)) es; x = (if rs = [] then hd es else last rs) in
      if es = [] then None else Some (names ! fst x, snd x))"

lemma end_error_snoc:
  "end_error names (es @ [(i, e)]) =
     (if es = [] \<or> is_restart e then Some (names ! i, e) else end_error names es)"
  by (auto simp: end_error_def Let_def)

lemma end_error_None [simp]: "end_error names es = None \<longleftrightarrow> es = []"
  by (simp add: end_error_def Let_def)

text \<open>
  Every recorded end is of a tier that is gone and no tier records twice; the counters are what the recorded
  ends say; the context was cancelled exactly on a restart or when all have stopped.
\<close>

definition serve_inv :: "string list \<Rightarrow> serve \<Rightarrow> bool" where
  "serve_inv names s \<longleftrightarrow>
     length (sv_phase s) = length names \<and> length (sv_live s) = length names \<and>
     distinct (map fst (sv_ends s)) \<and>
     (\<forall>i \<in> set (map fst (sv_ends s)). i < length names \<and> sv_phase s ! i = Gone) \<and>
     sv_stopped s = length (sv_ends s) \<and>
     sv_first s = end_error names (sv_ends s) \<and>
     (sv_restart s \<longleftrightarrow> list_ex (\<lambda>x. is_restart (snd x)) (sv_ends s)) \<and>
     (sv_cancelled s \<longleftrightarrow> sv_ends s \<noteq> [] \<and> (sv_restart s \<or> length (sv_ends s) = length names)) \<and>
     (\<forall>i < length names. sv_live s ! i \<longleftrightarrow> sv_phase s ! i = Serving) \<and>
     (\<forall>i < length names. sv_phase s ! i = Gone \<longrightarrow> i \<notin> set (map fst (sv_ends s)) \<longrightarrow> ctx_over s)"

lemma serve_inv_start: "serve_inv names (serve_start (length names))"
  by (auto simp: serve_inv_def serve_start_def end_error_def)

lemma serve_inv_signal: "serve_inv names s \<Longrightarrow> serve_inv names (s\<lparr>sv_signalled := True\<rparr>)"
  by (auto simp: serve_inv_def ctx_over_def)

lemma serve_inv_returns:
  assumes "serve_inv names s" "i < length (sv_phase s)" "sv_phase s ! i = Serving"
  shows "serve_inv names (tier_returns i err s)"
  using assms by (auto simp: serve_inv_def tier_returns_def ctx_over_def nth_list_update split: if_splits)

text \<open>Not all tiers have stopped while one is about to record its end.\<close>

lemma ends_room:
  assumes "serve_inv names s" "i < length names" "i \<notin> set (map fst (sv_ends s))"
  shows "length (sv_ends s) < length names"
proof -
  have d: "distinct (map fst (sv_ends s))" and sub: "set (map fst (sv_ends s)) \<subseteq> {..<length names} - {i}"
    using assms by (auto simp: serve_inv_def)
  have "length (sv_ends s) = card (set (map fst (sv_ends s)))" using distinct_card [OF d] by simp
  also have "\<dots> \<le> card ({..<length names} - {i})" by (rule card_mono [OF _ sub]) simp
  finally show ?thesis using assms(2) by simp
qed

lemma record_end_fields:
  "sv_phase (record_end names i e s) = (sv_phase s)[i := Gone]"
  "sv_live (record_end names i e s) = sv_live s"
  "sv_ends (record_end names i e s) = sv_ends s @ [(i, e)]"
  "sv_stopped (record_end names i e s) = Suc (sv_stopped s)"
  "sv_signalled (record_end names i e s) = sv_signalled s"
  "sv_first (record_end names i e s) = (if sv_first s = None \<or> is_restart e then Some (names ! i, e) else sv_first s)"
  "sv_restart (record_end names i e s) \<longleftrightarrow> sv_restart s \<or> is_restart e"
  "sv_cancelled (record_end names i e s) \<longleftrightarrow>
     sv_cancelled s \<or> is_restart e \<or> Suc (sv_stopped s) = length (sv_phase s)"
  by (simp_all add: record_end_def Let_def)

lemma serve_inv_records:
  assumes inv: "serve_inv names s" and i: "i < length (sv_phase s)" "sv_phase s ! i = Returning e"
  shows "serve_inv names (record_end names i e s)"
proof -
  have n: "i < length names" "i \<notin> set (map fst (sv_ends s))"
    using inv i by (auto simp: serve_inv_def)
  note room = ends_room [OF inv n]
  show ?thesis
    unfolding serve_inv_def record_end_fields ctx_over_def
    using inv i n room
    by (auto simp: serve_inv_def ctx_over_def nth_list_update end_error_snoc)
qed

interpretation serve_loop: invariant_system
  "\<lambda>s. s = serve_start (length names)" "serve_step names" "serve_inv names" for names
  by unfold_locales
     (auto elim!: serve_stepE intro: serve_inv_start serve_inv_signal serve_inv_returns serve_inv_records)

end
