(* ===== verification/Wiring.thy ===== *)
theory Wiring
  imports Serve Config_Props EC2_Provisioner EC2_Reaper Sched_Core
begin

text \<open>
  How \<open>run\<close> (\<open>cmd/firerunner/main.go\<close>) joins the components: the provisioner and the scheduler of every
  tier, the options of an EC2 tier and of the reaper, and the subcommand an argument list names.
\<close>

section \<open>Provisioners\<close>

text \<open>\<open>newEC2\<close> is a parameter of \<open>tierProvisioner\<close>; \<open>None\<close> is a nil one.\<close>

datatype tier_provisioner = SharedFirecracker | EC2Provisioner Options

datatype wiring_error = NoFirecrackerProvisioner | NoEC2Provisioner | UnknownTierProvisioner string

definition tierProvisioner :: "Tier \<Rightarrow> bool \<Rightarrow> (Tier \<Rightarrow> Options) option \<Rightarrow> wiring_error + tier_provisioner" where
  "tierProvisioner t fc newEC2 =
     (if ProvisionerName t = ProvisionerFirecracker then
        (if fc then Inr SharedFirecracker else Inl NoFirecrackerProvisioner)
      else if ProvisionerName t = ProvisionerEC2 then
        (case newEC2 of
           None \<Rightarrow> Inl NoEC2Provisioner
         | Some mk \<Rightarrow> if ti_EC2 t = None then Inl NoEC2Provisioner else Inr (EC2Provisioner (mk t)))
      else Inl (UnknownTierProvisioner (ti_Provisioner t)))"

text \<open>\<open>jitserver.URL\<close>: in a host, \<open>url.String\<close> escapes the zone's percent sign.\<close>

definition jit_URL :: "string \<Rightarrow> string" where
  "jit_URL addr = ''http://'' @ concat (map (\<lambda>c. if c = CHR ''%'' then ''%25'' else [c]) addr) @ jit_Path"

text \<open>
  The closure \<open>newEC2\<close> of \<open>run\<close>.  It dereferences the tier's EC2 block, which \<open>tierProvisioner\<close> has checked.
\<close>

definition tier_options :: "Config \<Rightarrow> string \<Rightarrow> time \<Rightarrow> Tier \<Rightarrow> Options" where
  "tier_options c owner tm t =
     \<lparr>o_Tier = ti_Name t, o_Owner = owner,
      o_EC2 = (the (ti_EC2 t))\<lparr>t_Pool := sz_Pool (SizesAt t tm)\<rparr>,
      o_JITURL = jit_URL (JITEndpoint c), o_MaxLifetime = f_MaxVMLifetime (c_Firecracker c),
      o_Pooled = (tier_MaxPool t > 0)\<rparr>"

fun provision_each ::
  "bool \<Rightarrow> (Tier \<Rightarrow> Options) option \<Rightarrow> Tier list \<Rightarrow> (string \<times> wiring_error) + tier_provisioner list" where
  "provision_each fc newEC2 [] = Inr []"
| "provision_each fc newEC2 (t # ts) =
     (case tierProvisioner t fc newEC2 of
        Inl e \<Rightarrow> Inl (ti_Name t, e)
      | Inr p \<Rightarrow>
          (case provision_each fc newEC2 ts of Inl e \<Rightarrow> Inl e | Inr ps \<Rightarrow> Inr (p # ps)))"

definition run_provisioners :: "Config \<Rightarrow> string \<Rightarrow> time \<Rightarrow> (string \<times> wiring_error) + tier_provisioner list" where
  "run_provisioners c owner tm =
     provision_each (UsesFirecracker c) (if UsesEC2 c then Some (tier_options c owner tm) else None) (EffectiveTiers c)"

section \<open>Schedulers\<close>

text \<open>A nil counter becomes the scheduler's own; \<open>shared\<close> is the count of the one the Firecracker tiers share.\<close>

definition tierPending :: "Tier \<Rightarrow> int \<Rightarrow> int option" where
  "tierPending t shared = (if IsEC2 t then None else Some shared)"

definition tier_scheduler :: "Tier \<Rightarrow> time \<Rightarrow> int \<Rightarrow> scheduler" where
  "tier_scheduler t tm shared = new_scheduler (ti_Max t) (sz_Min (SizesAt t tm)) True (tierPending t shared)"

definition tierNames :: "Tier list \<Rightarrow> string list" where
  "tierNames ts = map ti_Name ts"

text \<open>
  The listener of a tier.  The runner group and the version are not part of the model's \<open>Config\<close>; \<open>app\<close> says
  whether the App's credentials are complete.
\<close>

definition tier_listener_config :: "string \<Rightarrow> string \<Rightarrow> bool \<Rightarrow> Tier \<Rightarrow> listener_config" where
  "tier_listener_config runnerGroup vers app t =
     \<lparr>lc_Name = ti_Name t, lc_RunnerGroup = runnerGroup, lc_Labels = ti_Labels t, lc_MaxRunners = ti_Max t,
      lc_Version = vers, lc_CommitSHA = [], lc_hasApp = app\<rparr>"

text \<open>Job identities are kept only when VMs are pointed at a cache.\<close>

definition with_jobs :: "Config \<Rightarrow> Config" where
  "with_jobs c =
     (let f = c_Firecracker c in
      if f_CachePort f \<noteq> 0 \<or> f_CacheURL f \<noteq> [] then c\<lparr>c_Firecracker := f\<lparr>f_hasJobs := True\<rparr>\<rparr> else c)"

text \<open>
  What the schedule of a tier resizes: its stopped pool, if the provisioner keeps one, then the scheduler's
  floor; the applied sizes go to the health tracker.
\<close>

definition has_pool :: "tier_provisioner \<Rightarrow> bool" where
  "has_pool p = (case p of SharedFirecracker \<Rightarrow> False | EC2Provisioner Op \<Rightarrow> keeps_pool Op)"

definition tier_follow :: "Tier \<Rightarrow> tier_provisioner \<Rightarrow> time list \<Rightarrow> follow_call list" where
  "tier_follow t p ticks = (if ti_Schedule t = None then [] else follow (SizesAt t) (has_pool p) True ticks None)"

section \<open>The reaper\<close>

definition pooledTiers :: "Tier list \<Rightarrow> string list" where
  "pooledTiers ts = map ti_Name (filter (\<lambda>t. IsEC2 t \<and> tier_MaxPool t > 0) ts)"

definition reaperOptions :: "Config \<Rightarrow> string \<Rightarrow> Tier list \<Rightarrow> ReaperOptions" where
  "reaperOptions c owner ts =
     \<lparr>ro_Owner = owner, ro_PooledTiers = pooledTiers ts, ro_MaxLifetime = f_MaxVMLifetime (c_Firecracker c),
      ro_Grace = 0, ro_DryRun = (c_EC2Reaper c = ''dry-run'')\<rparr>"

text \<open>
  The \<open>Remove\<close> closure: the JIT source of the tier, if the tier is configured.  \<open>removers\<close> gives a JIT
  source's \<open>RemoveRunner\<close> by the index of its listener; the last of two equal names wins in the map.
\<close>

definition reaper_source :: "Tier list \<Rightarrow> string \<Rightarrow> nat option" where
  "reaper_source ts tier =
     map_of (rev (map (\<lambda>(i, t). (ti_Name t, i)) (filter (\<lambda>(i, t). IsEC2 t) (enumerate 0 ts)))) tier"

definition reaper_Remove ::
  "(nat \<Rightarrow> string \<Rightarrow> aws_error option) \<Rightarrow> Tier list \<Rightarrow> string \<Rightarrow> string \<Rightarrow> aws_error option" where
  "reaper_Remove removers ts tier runner =
     (case reaper_source ts tier of None \<Rightarrow> Some OtherError | Some i \<Rightarrow> removers i runner)"

text \<open>Whether \<open>run\<close> starts a reaper.\<close>

definition reaps :: "Config \<Rightarrow> bool" where
  "reaps c \<longleftrightarrow> UsesEC2 c \<and> c_EC2Reaper c \<noteq> ''off''"

text \<open>The owner name: \<open>--owner\<close>, else what \<open>os.Hostname\<close> gives, else a fixed one.\<close>

definition install_owner :: "Config \<Rightarrow> string option \<Rightarrow> string" where
  "install_owner c hostname =
     (if c_Owner c \<noteq> [] then c_Owner c
      else (case hostname of None \<Rightarrow> ''firerunner'' | Some h \<Rightarrow> if h = [] then ''firerunner'' else h))"

section \<open>The command line\<close>

text \<open>\<open>debug.ReadBuildInfo\<close> gives the module version, when there is build information.\<close>

definition buildVersion :: "string \<Rightarrow> string option \<Rightarrow> string" where
  "buildVersion ldflags info =
     (if ldflags \<noteq> ''dev'' then ldflags
      else (case info of
              None \<Rightarrow> ldflags
            | Some v \<Rightarrow> if v \<noteq> [] \<and> v \<noteq> ''(devel)'' then v else ldflags))"

datatype subcommand =
    Diagnose string "string list" | ConfigCommand "string list" | CacheServe "string list"
  | PrintVersion | PrintUsage | Daemon "string list"

definition main_command :: "string list \<Rightarrow> subcommand" where
  "main_command args =
     (case args of
        [] \<Rightarrow> Daemon []
      | a # rest \<Rightarrow>
          if a = ''status'' \<or> a = ''doctor'' then Diagnose a rest
          else if a = ''config'' then ConfigCommand rest
          else if a = ''cache-server'' then CacheServe rest
          else if a = ''version'' \<or> a = ''--version'' \<or> a = ''-version'' then PrintVersion
          else if a = ''help'' \<or> a = ''-h'' \<or> a = ''--help'' then PrintUsage
          else Daemon args)"

text \<open>\<open>diagnose\<close> takes \<open>--json\<close> out of the arguments, wherever it stands.\<close>

definition diagnose_args :: "string list \<Rightarrow> bool \<times> string list" where
  "diagnose_args args =
     (list_ex (\<lambda>a. a = ''--json'' \<or> a = ''-json'') args, filter (\<lambda>a. \<not> (a = ''--json'' \<or> a = ''-json'')) args)"

section \<open>Facts\<close>

lemma provision_each_Inr:
  "(\<forall>t \<in> set ts. \<exists>p. tierProvisioner t fc newEC2 = Inr p) \<Longrightarrow>
   provision_each fc newEC2 ts = Inr (map (\<lambda>t. projr (tierProvisioner t fc newEC2)) ts)"
proof (induction ts)
  case (Cons t ts)
  then obtain p where "tierProvisioner t fc newEC2 = Inr p" by auto
  with Cons show ?case by simp
qed simp

lemma validate_tiers: "validate E c = None \<Longrightarrow> c_Tiers c \<noteq> [] \<Longrightarrow> validateTiers E c = None"
  by (auto simp: validate_def)

text \<open>In an accepted configuration every served tier is of one kind, and the kinds decide what is built.\<close>

lemma effective_kind:
  assumes "validate E c = None" "t \<in> set (EffectiveTiers c)"
  shows "if IsEC2 t then UsesEC2 c \<and> ti_EC2 t \<noteq> None
    else ProvisionerName t = ProvisionerFirecracker \<and> UsesFirecracker c \<and> ti_EC2 t = None"
proof (cases "c_Tiers c = []")
  case True
  with assms(2) have "ti_Provisioner t = []" "ti_EC2 t = None" by (simp_all add: EffectiveTiers_def)
  then have "ProvisionerName t = ProvisionerFirecracker" "ti_EC2 t = None" by (simp_all add: ProvisionerName_def)
  with assms(2) show ?thesis by (auto simp: IsEC2_def UsesFirecracker_def list_ex_iff intro!: bexI [of _ t])
next
  case False
  with assms(2) have t: "t \<in> set (c_Tiers c)" by (simp add: EffectiveTiers_def)
  note kind = validateTiers_None(4) [OF validate_tiers [OF assms(1) False] t]
  show ?thesis
  proof (cases "IsEC2 t")
    case True
    with kind tier_kinds(1) have "ec2_tier t" by blast
    then have "ti_EC2 t \<noteq> None" by (auto simp: ec2_tier_def)
    with True assms(2) show ?thesis by (auto simp: UsesEC2_def list_ex_iff)
  next
    case False
    with kind tier_kinds(2) have f: "firecracker_tier c t" by blast
    then have "ti_EC2 t = None" by (simp add: firecracker_tier_def)
    with False assms(2) tier_kinds(4) [OF f] show ?thesis by (auto simp: UsesFirecracker_def list_ex_iff)
  qed
qed

lemma effective_provisioner:
  assumes "validate E c = None" "t \<in> set (EffectiveTiers c)"
  shows "tierProvisioner t (UsesFirecracker c) (if UsesEC2 c then Some mk else None) =
    Inr (if IsEC2 t then EC2Provisioner (mk t) else SharedFirecracker)"
  using effective_kind [OF assms] by (auto simp: tierProvisioner_def IsEC2_def split: if_splits)

lemma pooled_iff:
  "t \<in> set ts \<Longrightarrow> IsEC2 t \<Longrightarrow> o_Pooled (tier_options c owner tm t) \<Longrightarrow>
   ti_Name t \<in> set (ro_PooledTiers (reaperOptions c owner ts))"
  by (auto simp: tier_options_def reaperOptions_def pooledTiers_def)

lemma NewReaper_options [simp]:
  "ro_PooledTiers (NewReaper ro) = ro_PooledTiers ro" "ro_Owner (NewReaper ro) = ro_Owner ro"
  "ro_DryRun (NewReaper ro) = ro_DryRun ro" "ro_MaxLifetime (NewReaper ro) = ro_MaxLifetime ro"
  by (simp_all add: NewReaper_def)

lemma follow_pool_calls:
  "SetPoolCall n \<in> set (follow sizes hasPool hasApplied ticks prev) \<Longrightarrow> hasPool \<and> (\<exists>m. n = sz_Pool (sizes m))"
  by (induction sizes hasPool hasApplied ticks prev rule: follow.induct)
     (auto simp: follow_apply_def Let_def split: if_splits prod.splits)

text \<open>A schedule resizes only pools, and a pool only to a size of its tier.\<close>

lemma schedule_resizes_pools:
  "SetPoolCall n \<in> set (tier_follow t p ticks) \<Longrightarrow>
   \<exists>Op m. p = EC2Provisioner Op \<and> n = sz_Pool (SizesAt t m)"
  by (auto simp: tier_follow_def has_pool_def dest!: follow_pool_calls split: if_splits tier_provisioner.splits)

end
