(* ===== verification/Serve_Claims.thy ===== *)
theory Serve_Claims
  imports Wiring EC2_Claims Config_Claims
begin

text \<open>
  What the wiring guarantees: how the daemon's tiers end together, that every tier of an accepted
  configuration gets a provisioner of its own kind, and that the reaper and the pools agree on what is kept.
\<close>

section \<open>Serving all tiers\<close>

text \<open>The last restart among the recorded ends.\<close>

definition last_restart :: "(nat \<times> tier_error) list \<Rightarrow> nat \<Rightarrow> string \<Rightarrow> bool" where
  "last_restart es i m \<longleftrightarrow>
     (\<exists>pre post. es = pre @ (i, Restart m) # post \<and> \<not> (\<exists>x \<in> set post. is_restart (snd x)))"

lemma end_error_restart:
  assumes "\<exists>x \<in> set es. is_restart (snd x)"
  obtains i m where "last_restart es i m" "end_error names es = Some (names ! i, Restart m)"
proof -
  from split_list_last_prop [OF assms] obtain pre x post where es: "es = pre @ x # post" "is_restart (snd x)"
    "\<forall>y \<in> set post. \<not> is_restart (snd y)" by blast
  then obtain i m where x: "x = (i, Restart m)" by (cases x; cases "snd x") auto
  have "filter (\<lambda>x. is_restart (snd x)) post = []" using es(3) by (simp add: filter_empty_conv)
  then have "end_error names es = Some (names ! i, Restart m)" by (simp add: end_error_def Let_def es(1) x)
  moreover have "last_restart es i m" unfolding last_restart_def using es x by blast
  ultimately show thesis using that by blast
qed

lemma end_error_first:
  "\<not> (\<exists>x \<in> set es. is_restart (snd x)) \<Longrightarrow> es \<noteq> [] \<Longrightarrow> end_error names es = Some (names ! fst (hd es), snd (hd es))"
  by (simp add: end_error_def Let_def filter_empty_conv)

lemma all_ended:
  assumes inv: "serve_inv names s" and gone: "all_gone s" and live: "\<not> ctx_over s"
  shows "set (map fst (sv_ends s)) = {..<length names}"
proof -
  have "i \<in> set (map fst (sv_ends s))" if "i < length names" for i
  proof -
    have "sv_phase s ! i = Gone" using gone inv that by (simp add: all_gone_def list_all_length serve_inv_def)
    with inv live that show ?thesis unfolding serve_inv_def by metis
  qed
  with inv show ?thesis by (auto simp: serve_inv_def)
qed

text \<open>
  C35. How the tiers of the daemon end together, for every interleaving of their goroutines with a signal.
  A tier that stops takes only itself down: the shared context is cancelled exactly once a tier needs a
  restart or every tier has recorded its end, and a tier's own context lives exactly as long as it serves.
  When the last goroutine is gone, the last restart recorded is what \<open>serveTiers\<close> returns; without one the
  first recorded end is, if every tier recorded one, and nil otherwise, which takes a signal.  So the daemon never
  exits cleanly unless it was asked to.
\<close>

theorem serve_outcome:
  assumes "serve_reach names s" "names \<noteq> []"
  shows "(sv_cancelled s \<longleftrightarrow> (\<exists>x \<in> set (sv_ends s). is_restart (snd x)) \<or> length (sv_ends s) = length names) \<and>
    distinct (map fst (sv_ends s)) \<and>
    (\<forall>i < length names. sv_live s ! i \<longleftrightarrow> sv_phase s ! i = Serving) \<and>
    (all_gone s \<longrightarrow>
       (if \<exists>x \<in> set (sv_ends s). is_restart (snd x)
        then \<exists>i m. last_restart (sv_ends s) i m \<and> serve_result s = Some (names ! i, Restart m)
        else if length (sv_ends s) = length names
        then serve_result s = Some (names ! fst (hd (sv_ends s)), snd (hd (sv_ends s)))
        else serve_result s = None \<and> sv_signalled s) \<and>
       (daemon_result s = None \<longleftrightarrow> sv_signalled s))"
proof -
  have inv: "serve_inv names s" using serve_loop.reach_inv [OF assms(1)] .
  then have f: "distinct (map fst (sv_ends s))" "sv_stopped s = length (sv_ends s)"
    "sv_first s = end_error names (sv_ends s)" "length (sv_phase s) = length names"
    "sv_restart s \<longleftrightarrow> (\<exists>x \<in> set (sv_ends s). is_restart (snd x))"
    "\<forall>i < length names. sv_live s ! i \<longleftrightarrow> sv_phase s ! i = Serving"
    by (auto simp: serve_inv_def list_ex_iff)
  have canc: "sv_cancelled s \<longleftrightarrow> sv_restart s \<or> length (sv_ends s) = length names"
    using inv assms(2) by (auto simp: serve_inv_def list_ex_iff)
  have out: "(if \<exists>x \<in> set (sv_ends s). is_restart (snd x)
        then \<exists>i m. last_restart (sv_ends s) i m \<and> serve_result s = Some (names ! i, Restart m)
        else if length (sv_ends s) = length names
        then serve_result s = Some (names ! fst (hd (sv_ends s)), snd (hd (sv_ends s)))
        else serve_result s = None \<and> sv_signalled s)" if gone: "all_gone s"
  proof (cases "\<exists>x \<in> set (sv_ends s). is_restart (snd x)")
    case True
    obtain i m where "last_restart (sv_ends s) i m" "end_error names (sv_ends s) = Some (names ! i, Restart m)"
      by (rule end_error_restart [OF True, of names])
    with True f(3,5) show ?thesis by (auto simp: serve_result_def)
  next
    case no: False
    show ?thesis
    proof (cases "length (sv_ends s) = length names")
      case True
      with assms(2) have "sv_ends s \<noteq> []" by auto
      with True no f end_error_first [OF no, of names] show ?thesis by (simp add: serve_result_def)
    next
      case False
      have "ctx_over s"
      proof (rule ccontr)
        assume "\<not> ctx_over s"
        from all_ended [OF inv gone this] have "length (sv_ends s) = card {..<length names}"
          using distinct_card [OF f(1)] by simp
        with False show False by simp
      qed
      with no False f canc show ?thesis by (auto simp: serve_result_def ctx_over_def)
    qed
  qed
  moreover have "daemon_result s = None \<longleftrightarrow> sv_signalled s" if "all_gone s"
    using out [OF that] by (auto simp: daemon_result_def split: if_splits)
  ultimately show ?thesis using f canc by blast
qed

text \<open>Both tiers need a restart, and the first to return is the last to record it.\<close>

definition demo_returning :: serve where
  "demo_returning = tier_returns 1 (Some (Restart ''gone'')) (tier_returns 0 (Some (Restart ''old'')) (serve_start 2))"

definition demo_served :: serve where
  "demo_served = record_end [''a'', ''b''] 0 (Restart ''old'') (record_end [''a'', ''b''] 1 (Restart ''gone'') demo_returning)"

lemma demo_served_reach: "serve_reach [''a'', ''b''] demo_served"
proof -
  let ?n = "[''a'', ''b'']"
  have 0: "serve_reach ?n (serve_start 2)" by (rule reach_init) (simp add: numeral_2_eq_2)
  have 1: "serve_reach ?n (tier_returns 0 (Some (Restart ''old'')) (serve_start 2))"
    by (rule reach_step [OF 0], rule step_returns) (simp_all add: serve_start_def)
  have 2: "serve_reach ?n demo_returning" unfolding demo_returning_def
    by (rule reach_step [OF 1], rule step_returns)
      (simp_all add: serve_start_def tier_returns_def ctx_over_def numeral_2_eq_2)
  have 3: "serve_reach ?n (record_end ?n 1 (Restart ''gone'') demo_returning)"
    by (rule reach_step [OF 2], rule step_records)
      (simp_all add: demo_returning_def serve_start_def tier_returns_def ctx_over_def numeral_2_eq_2)
  show ?thesis unfolding demo_served_def
    by (rule reach_step [OF 3], rule step_records)
      (simp_all add: demo_returning_def serve_start_def tier_returns_def ctx_over_def record_end_fields numeral_2_eq_2)
qed

lemma serve_outcome_witness:
  "all_gone demo_served \<and> sv_cancelled demo_served \<and> sv_ends demo_served = [(1, Restart ''gone''), (0, Restart ''old'')] \<and>
   (\<exists>i m. last_restart (sv_ends demo_served) i m \<and> serve_result demo_served = Some ([''a'', ''b''] ! i, Restart m))"
proof -
  have g: "all_gone demo_served" "sv_cancelled demo_served" "\<exists>x \<in> set (sv_ends demo_served). is_restart (snd x)"
    "sv_ends demo_served = [(1, Restart ''gone''), (0, Restart ''old'')]"
    by code_simp+
  with serve_outcome [OF demo_served_reach] show ?thesis by simp
qed

section \<open>Starting every tier\<close>

text \<open>
  Every tier of a configuration the daemon accepts is served: \<open>run\<close> builds a provisioner for each, in
  order, the host's shared one for a Firecracker tier and its own for an EC2 tier, with that tier's name,
  its EC2 block and the pool size of the moment.  Only Firecracker tiers share the pending counter, and at
  every moment the scheduler starts with a floor no tier exceeds.
\<close>

theorem every_tier_launches:
  assumes "validate E c = None"
  shows "run_provisioners c owner tm =
      Inr (map (\<lambda>t. if IsEC2 t then EC2Provisioner (tier_options c owner tm t) else SharedFirecracker) (EffectiveTiers c)) \<and>
    (\<forall>t \<in> set (EffectiveTiers c).
       (IsEC2 t \<longleftrightarrow> ti_EC2 t \<noteq> None) \<and>
       s_pendingAll (tier_scheduler t tm shared) = (if IsEC2 t then 0 else shared) \<and>
       (\<forall>e. ti_EC2 t = Some e \<longrightarrow>
          o_EC2 (tier_options c owner tm t) = e\<lparr>t_Pool := sz_Pool (SizesAt t tm)\<rparr> \<and>
          t_InstanceTypes e \<noteq> [] \<and> t_Subnets e \<noteq> []))"
proof (intro conjI ballI)
  let ?mk = "tier_options c owner tm"
  have "\<forall>t \<in> set (EffectiveTiers c). \<exists>p. tierProvisioner t (UsesFirecracker c) (if UsesEC2 c then Some ?mk else None) = Inr p"
    using effective_provisioner [OF assms] by blast
  from provision_each_Inr [OF this] show "run_provisioners c owner tm =
      Inr (map (\<lambda>t. if IsEC2 t then EC2Provisioner (tier_options c owner tm t) else SharedFirecracker) (EffectiveTiers c))"
    using effective_provisioner [OF assms] by (auto simp: run_provisioners_def)
next
  fix t assume t: "t \<in> set (EffectiveTiers c)"
  note k = effective_kind [OF assms t]
  show "IsEC2 t \<longleftrightarrow> ti_EC2 t \<noteq> None" using k by (auto split: if_splits)
  show "s_pendingAll (tier_scheduler t tm shared) = (if IsEC2 t then 0 else shared)"
    by (simp add: tier_scheduler_def new_scheduler_def tierPending_def)
  show "\<forall>e. ti_EC2 t = Some e \<longrightarrow>
          o_EC2 (tier_options c owner tm t) = e\<lparr>t_Pool := sz_Pool (SizesAt t tm)\<rparr> \<and>
          t_InstanceTypes e \<noteq> [] \<and> t_Subnets e \<noteq> []"
  proof (intro allI impI conjI)
    fix e assume e: "ti_EC2 t = Some e"
    with k have ec2: "IsEC2 t" by (auto split: if_splits)
    have ne: "c_Tiers c \<noteq> []"
    proof
      assume "c_Tiers c = []"
      with t e show False by (simp add: EffectiveTiers_def)
    qed
    with t have "t \<in> set (c_Tiers c)" by (simp add: EffectiveTiers_def)
    with validateTiers_None(4) [OF validate_tiers [OF assms ne]] tier_kinds(1) ec2 have "ec2_tier t" by blast
    then show "t_InstanceTypes e \<noteq> []" "t_Subnets e \<noteq> []" using e by (auto simp: ec2_tier_def nonEmptyUnique_def)
    show "o_EC2 (tier_options c owner tm t) = e\<lparr>t_Pool := sz_Pool (SizesAt t tm)\<rparr>" by (simp add: tier_options_def e)
  qed
qed

definition demo_mixed :: Config where
  "demo_mixed =
     (demo_daemon ''fr'' 4)\<lparr>c_Tiers := demo_loaded, c_JITHost := ''control.internal'',
       c_JITAddr := ''10.0.0.5:8098'', c_JITTTL := 5 * minute\<rparr>"

lemma demo_mixed_valid: "validate demo_cenv demo_mixed = None"
proof -
  have "list_all ascii_letter ''fr''" by code_simp
  then have base: "validate demo_cenv (demo_daemon ''fr'' 4) = None" by (rule demo_daemon_valid) simp_all
  have r: "validateRequired demo_mixed = None"
    by (simp add: validateRequired_def demo_mixed_def demo_daemon_def zeroConfig_def Let_def first_error_None_iff)
  have t: "validateTiers demo_cenv demo_mixed = None" by code_simp
  have j: "validateJIT demo_mixed = None" by (rule demo_jit_ok) (simp_all add: demo_mixed_def)
  have "validateRest demo_cenv demo_mixed = validateRest demo_cenv (demo_daemon ''fr'' 4)"
    by (simp add: validateRest_def demo_mixed_def)
  with base have "validateRest demo_cenv demo_mixed = None" by (simp add: validate_def)
  with r t j show ?thesis by (simp add: validate_def)
qed

lemma every_tier_launches_witness:
  "run_provisioners demo_mixed ''o'' 0 =
     Inr [SharedFirecracker, EC2Provisioner (tier_options demo_mixed ''o'' 0 (demo_loaded ! 1))]"
proof -
  have "map IsEC2 demo_loaded = [False, True]" by code_simp
  then obtain a b where ab: "demo_loaded = [a, b]" "\<not> IsEC2 a" "IsEC2 b" by (auto simp: map_eq_Cons_conv)
  have "c_Tiers demo_mixed = [a, b]" by (simp add: demo_mixed_def ab(1))
  then have "EffectiveTiers demo_mixed = [a, b]" by (simp add: EffectiveTiers_def)
  with every_tier_launches [OF demo_mixed_valid, of "''o''" 0] ab(2,3) show ?thesis unfolding ab(1) by simp
qed

section \<open>The reaper and the pools\<close>

text \<open>
  C40. The reaper of an install leaves the pools of its tiers alone: when a tier was given a pool, no sweep
  of the reaper \<open>run\<close> builds terminates an instance listed as ready or warming of that tier, for
  any reply of AWS.  What a sweep does terminate it found in its one listing, and not as such an instance.
\<close>

theorem pools_survive_sweeps:
  assumes "Sweep E (NewReaper (reaperOptions c owner (EffectiveTiers c))) s = (rep, s')"
    and "t \<in> set (EffectiveTiers c)" "IsEC2 t" "o_Pooled (tier_options c owner tm t)"
  shows "\<exists>new. trace s' = trace s @ new \<and>
    (\<forall>j r. (TerminateInstances j, r) \<in> set new \<longrightarrow>
       (\<exists>is x. (DescribeOwned owner, Found is) \<in> set new \<and> x \<in> set is \<and> i_id x = j \<and>
          \<not> (tagValue (i_tags x) TagTier = ti_Name t \<and> tagValue (i_tags x) TagPool \<in> {PoolReady, PoolWarming})))"
proof -
  let ?ro = "NewReaper (reaperOptions c owner (EffectiveTiers c))"
  have o': "ro_Owner ?ro = owner" by (simp add: reaperOptions_def)
  have p: "ti_Name t \<in> set (ro_PooledTiers ?ro)" using pooled_iff [OF assms(2-4)] by simp
  from sweep_reasons [OF assms(1) refl] obtain new where n: "trace s' = trace s @ new"
    and r: "\<And>a j q b. new = a @ (TerminateInstances j, q) # b \<Longrightarrow>
      \<exists>is x. (DescribeOwned owner, Found is) \<in> set a \<and> x \<in> set is \<and> i_id x = j \<and>
        (tagValue (i_tags x) TagPool \<in> {PoolReady, PoolWarming} \<longrightarrow> tagValue (i_tags x) TagTier \<notin> set (ro_PooledTiers ?ro))"
    unfolding o' by (metis (no_types, lifting))
  show ?thesis
  proof (intro exI [of _ new] conjI n allI impI)
    fix j q assume "(TerminateInstances j, q) \<in> set new"
    then obtain a b where ab: "new = a @ (TerminateInstances j, q) # b" by (meson split_list)
    from r [OF ab] obtain "is" x where x: "(DescribeOwned owner, Found is) \<in> set a" "x \<in> set is" "i_id x = j"
      "tagValue (i_tags x) TagPool \<in> {PoolReady, PoolWarming} \<longrightarrow> tagValue (i_tags x) TagTier \<notin> set (ro_PooledTiers ?ro)" by blast
    have "(DescribeOwned owner, Found is) \<in> set new" using x(1) ab by simp
    with x p show "\<exists>is x. (DescribeOwned owner, Found is) \<in> set new \<and> x \<in> set is \<and> i_id x = j \<and>
          \<not> (tagValue (i_tags x) TagTier = ti_Name t \<and> tagValue (i_tags x) TagPool \<in> {PoolReady, PoolWarming})" by metis
  qed
qed

definition demo_keeper :: Tier where
  "demo_keeper =
     \<lparr>ti_Name = ''t'', ti_Labels = [], ti_Provisioner = ''ec2'', ti_VCPU = 0, ti_MemMiB = 0, ti_Golden = [],
      ti_ToolCache = [], ti_EC2 = Some demo_ec2, ti_Min = 0, ti_Max = 9, ti_Schedule = None\<rparr>"

definition demo_swept :: "unit ec2" where
  "demo_swept =
     snd (Sweep demo_env (NewReaper (reaperOptions (demo_mixed\<lparr>c_Tiers := [demo_keeper]\<rparr>) ''o'' [demo_keeper]))
            (start_ec2 demo_opts () (jit_New 0)))"

lemma pools_survive_sweeps_witness:
  "(TerminateInstances ''i-b'', Done) \<in> set (trace demo_swept) \<and>
   (\<exists>is x. (DescribeOwned ''o'', Found is) \<in> set (trace demo_swept) \<and> x \<in> set is \<and> i_id x = ''i-b'' \<and>
      \<not> (tagValue (i_tags x) TagTier = ''t'' \<and> tagValue (i_tags x) TagPool \<in> {PoolReady, PoolWarming}))"
proof -
  let ?c = "demo_mixed\<lparr>c_Tiers := [demo_keeper]\<rparr>" and ?s = "start_ec2 demo_opts () (jit_New 0)"
  have tiers: "EffectiveTiers ?c = [demo_keeper]" by (simp add: EffectiveTiers_def)
  obtain rep where s: "Sweep demo_env (NewReaper (reaperOptions ?c ''o'' (EffectiveTiers ?c))) ?s = (rep, demo_swept)"
    unfolding tiers demo_swept_def using prod.collapse [symmetric] by blast
  have "IsEC2 demo_keeper" "tier_MaxPool demo_keeper > 0" by code_simp+
  then have k: "IsEC2 demo_keeper" "o_Pooled (tier_options ?c ''o'' 0 demo_keeper)" by (simp_all add: tier_options_def)
  have "demo_keeper \<in> set (EffectiveTiers ?c)" by (simp add: tiers)
  from pools_survive_sweeps [OF s this k] obtain new where n: "trace demo_swept = trace ?s @ new"
    and all: "\<forall>j r. (TerminateInstances j, r) \<in> set new \<longrightarrow>
       (\<exists>is x. (DescribeOwned ''o'', Found is) \<in> set new \<and> x \<in> set is \<and> i_id x = j \<and>
          \<not> (tagValue (i_tags x) TagTier = ti_Name demo_keeper \<and> tagValue (i_tags x) TagPool \<in> {PoolReady, PoolWarming}))"
    by blast
  have "last (trace demo_swept) = (TerminateInstances ''i-b'', Done)" "trace demo_swept \<noteq> []" by code_simp+
  then have "(TerminateInstances ''i-b'', Done) \<in> set (trace demo_swept)" by (metis last_in_set)
  moreover have "trace ?s = []" by code_simp
  then have eq: "new = trace demo_swept" using n by simp
  moreover have "ti_Name demo_keeper = ''t''" by (simp add: demo_keeper_def)
  ultimately show ?thesis using all [unfolded eq, THEN spec, THEN spec, THEN mp] by metis
qed

end
