(* ===== verification/Config_Flags.thy ===== *)
theory Config_Flags
  imports AppKey
begin

text \<open>
  Reading the configuration (\<open>internal/config/config.go\<close>: \<open>newFlagSet\<close>, \<open>Parse\<close>, \<open>FromFlags\<close>, \<open>envReader\<close>) and
  \<open>firerunner config check\<close> (\<open>cmd/firerunner/configcheck.go\<close>).

  The flags are a table of names, environment variables and defaults; \<open>flag.FlagSet.Parse\<close> is written out.
  The syntax of a flag's integer (\<open>strconv.ParseInt\<close> with base 0) and of a duration
  (\<open>time.ParseDuration\<close>) is an argument.  A \<open>--net-base\<close> below zero is outside the model, which keeps the
  octet as a natural number.
\<close>

section \<open>Values\<close>

datatype flag_value = FStr string | FInt int | FBool bool | FDur duration

record parsers =
  p_parseInt :: "string \<Rightarrow> int option"
  p_parseDuration :: "string \<Rightarrow> duration option"

definition go_atoi :: "string \<Rightarrow> int option" where
  "go_atoi s =
     (case atoi s of None \<Rightarrow> None | Some n \<Rightarrow> if - (2 ^ 63) \<le> n \<and> n < 2 ^ 63 then Some n else None)"

definition parseBool :: "string \<Rightarrow> bool option" where
  "parseBool s =
     (if s \<in> {''1'', ''t'', ''T'', ''true'', ''TRUE'', ''True''} then Some True
      else if s \<in> {''0'', ''f'', ''F'', ''false'', ''FALSE'', ''False''} then Some False else None)"

text \<open>Reading a variable, and setting a flag, of the kind of a default.\<close>

fun env_value :: "parsers \<Rightarrow> flag_value \<Rightarrow> string \<Rightarrow> flag_value option" where
  "env_value P (FStr _) v = Some (FStr v)"
| "env_value P (FInt _) v = map_option FInt (go_atoi v)"
| "env_value P (FBool _) v = map_option FBool (parseBool v)"
| "env_value P (FDur _) v = map_option FDur (p_parseDuration P v)"

fun set_value :: "parsers \<Rightarrow> flag_value \<Rightarrow> string \<Rightarrow> flag_value option" where
  "set_value P (FStr _) v = Some (FStr v)"
| "set_value P (FInt _) v = map_option FInt (p_parseInt P v)"
| "set_value P (FBool _) v = map_option FBool (parseBool v)"
| "set_value P (FDur _) v = map_option FDur (p_parseDuration P v)"

fun same_kind :: "flag_value \<Rightarrow> flag_value \<Rightarrow> bool" where
  "same_kind (FStr _) (FStr _) = True"
| "same_kind (FInt _) (FInt _) = True"
| "same_kind (FBool _) (FBool _) = True"
| "same_kind (FDur _) (FDur _) = True"
| "same_kind _ _ = False"

section \<open>The flags\<close>

text \<open>Name, variable and default; an empty variable is one the flag is not read from.\<close>

type_synonym flag_spec = "string \<times> string \<times> flag_value"

definition flags_scale_set :: "flag_spec list" where
  "flags_scale_set =
     [(''url'', ''FR_URL'', FStr []),
      (''name'', ''FR_NAME'', FStr ''firerunner''),
      (''runner-group'', ''FR_RUNNER_GROUP'', FStr ''default''),
      (''labels'', ''FR_LABELS'', FStr []),
      (''max-runners'', ''FR_MAX_RUNNERS'', FInt 4),
      (''min-runners'', ''FR_MIN_RUNNERS'', FInt 0),
      (''token'', [], FStr []),
      (''app-client-id'', ''FR_APP_CLIENT_ID'', FStr []),
      (''app-installation-id'', ''FR_APP_INSTALLATION_ID'', FInt 0),
      (''app-private-key'', [], FStr []),
      (''vcpu'', ''FR_VCPU'', FInt 4),
      (''mem-mib'', ''FR_MEM_MIB'', FInt 8192),
      (''tiers'', ''FR_TIERS'', FStr [])]"

definition flags_firecracker :: "flag_spec list" where
  "flags_firecracker =
     [(''firecracker-bin'', ''FR_FIRECRACKER_BIN'', FStr ''firecracker''),
      (''kernel'', ''FR_KERNEL'', FStr []),
      (''golden'', ''FR_GOLDEN'', FStr []),
      (''workdir'', ''FR_WORKDIR'', FStr ''/var/tmp/firerunner''),
      (''tap-prefix'', ''FR_TAP_PREFIX'', FStr ''fr''),
      (''net-base'', ''FR_NET_BASE'', FInt 16),
      (''nft-table'', ''FR_NFT_TABLE'', FStr ''firerunner''),
      (''boot-args'', ''FR_BOOT_ARGS'', FStr []),
      (''ext-iface'', ''FR_EXT_IFACE'', FStr []),
      (''log-dir'', ''FR_LOG_DIR'', FStr []),
      (''jailer'', ''FR_JAILER'', FBool False),
      (''jailer-bin'', ''FR_JAILER_BIN'', FStr ''jailer''),
      (''chroot-base'', ''FR_CHROOT_BASE'', FStr ''/srv/jailer''),
      (''jail-uid'', ''FR_JAIL_UID'', FInt 0),
      (''jail-gid'', ''FR_JAIL_GID'', FInt 0),
      (''jailer-cgroup'', ''FR_JAILER_CGROUP'', FStr []),
      (''netns'', ''FR_NETNS'', FBool False),
      (''toolcache'', ''FR_TOOLCACHE'', FStr []),
      (''cache-jobs-dir'', ''FR_CACHE_JOBS_DIR'', FStr ''/run/firerunner/jobs''),
      (''cache-port'', ''FR_CACHE_PORT'', FInt 0),
      (''cache-url'', ''FR_CACHE_URL'', FStr []),
      (''max-vm-lifetime'', ''FR_MAX_VM_LIFETIME'', FDur (6 * hour)),
      (''vm-connect-timeout'', ''FR_VM_CONNECT_TIMEOUT'', FDur (5 * minute))]"

definition flags_rest :: "flag_spec list" where
  "flags_rest =
     [(''jit-addr'', ''FR_JIT_ADDR'', FStr []),
      (''aws-region'', ''FR_AWS_REGION'', FStr []),
      (''jit-host'', ''FR_JIT_HOST'', FStr []),
      (''jit-ttl'', ''FR_JIT_TTL'', FDur (5 * minute)),
      (''owner'', ''FR_OWNER'', FStr []),
      (''ec2-reaper'', ''FR_EC2_REAPER'', FStr ''on''),
      (''egress'', ''FR_EGRESS'', FStr ''api,actions,git,dns,packages,ntp''),
      (''dns-servers'', ''FR_DNS_SERVERS'', FStr ''1.1.1.1,8.8.8.8''),
      (''meta-refresh'', ''FR_META_REFRESH'', FDur (24 * hour)),
      (''log-level'', ''FR_LOG_LEVEL'', FStr ''info''),
      (''log-format'', ''FR_LOG_FORMAT'', FStr ''text'')]"

definition flag_table :: "flag_spec list" where
  "flag_table = flags_scale_set @ flags_firecracker @ flags_rest"

text \<open>The default a flag is registered with, which \<open>-h\<close> and every parse error print.\<close>

definition flag_default :: "parsers \<Rightarrow> (string \<Rightarrow> string option) \<Rightarrow> flag_spec \<Rightarrow> flag_value" where
  "flag_default P getenv spec =
     (case spec of (_, var, d) \<Rightarrow>
        if var = [] then d
        else (case getenv var of
                None \<Rightarrow> d
              | Some v \<Rightarrow> (case env_value P d v of None \<Rightarrow> d | Some x \<Rightarrow> x)))"

definition flag_defaults :: "parsers \<Rightarrow> (string \<Rightarrow> string option) \<Rightarrow> (string, flag_value) gomap" where
  "flag_defaults P getenv = map (\<lambda>f. (fst f, flag_default P getenv f)) flag_table"

text \<open>The errors \<open>envReader\<close> collects: the variables that do not parse, with their values.\<close>

definition env_errs :: "parsers \<Rightarrow> (string \<Rightarrow> string option) \<Rightarrow> flag_spec list \<Rightarrow> (string \<times> string) list" where
  "env_errs P getenv T =
     concat (map (\<lambda>(_, var, d). if var = [] then []
                    else (case getenv var of
                            None \<Rightarrow> []
                          | Some v \<Rightarrow> if env_value P d v = None then [(var, v)] else [])) T)"

datatype flag_error = BadSyntax string | HelpAsked | NotDefined string | BadValue string string | NeedsArgument string

definition flag_kind :: "flag_spec list \<Rightarrow> string \<Rightarrow> flag_value option" where
  "flag_kind T name = map_option snd (map_of T name)"

text \<open>\<open>FlagSet.Parse\<close>: it stops, without an error, at the first argument that is no flag.\<close>

fun parse_flags ::
  "parsers \<Rightarrow> flag_spec list \<Rightarrow> string list \<Rightarrow> (string, flag_value) gomap \<Rightarrow> flag_error + (string, flag_value) gomap" where
  "parse_flags P T [] vals = Inr vals"
| "parse_flags P T (s # args) vals =
     (if length s < 2 \<or> hd s \<noteq> CHR ''-'' \<or> s = ''--'' then Inr vals
      else
        let body = (if has_prefix s ''--'' then drop 2 s else drop 1 s) in
        if body = [] \<or> hd body = CHR ''-'' \<or> hd body = CHR ''='' then Inl (BadSyntax s)
        else
          (case cut CHR ''='' body of (name, val, has) \<Rightarrow>
             (case flag_kind T name of
                None \<Rightarrow> Inl (if name = ''help'' \<or> name = ''h'' then HelpAsked else NotDefined name)
              | Some d \<Rightarrow>
                  if has \<or> same_kind d (FBool True) then
                    (case (if has then set_value P d val else Some (FBool True)) of
                       None \<Rightarrow> Inl (BadValue name val)
                     | Some x \<Rightarrow> parse_flags P T args (mput name x vals))
                  else
                    (case args of
                       [] \<Rightarrow> Inl (NeedsArgument name)
                     | v # rest \<Rightarrow>
                         (case set_value P d v of
                            None \<Rightarrow> Inl (BadValue name v)
                          | Some x \<Rightarrow> parse_flags P T rest (mput name x vals))))))"

section \<open>The configuration\<close>

definition get_str :: "(string, flag_value) gomap \<Rightarrow> string \<Rightarrow> string" where
  "get_str vals n = (case mlookup vals n of Some (FStr s) \<Rightarrow> s | _ \<Rightarrow> [])"

definition get_int :: "(string, flag_value) gomap \<Rightarrow> string \<Rightarrow> int" where
  "get_int vals n = (case mlookup vals n of Some (FInt i) \<Rightarrow> i | _ \<Rightarrow> 0)"

definition get_bool :: "(string, flag_value) gomap \<Rightarrow> string \<Rightarrow> bool" where
  "get_bool vals n = (case mlookup vals n of Some (FBool b) \<Rightarrow> b | _ \<Rightarrow> False)"

definition get_dur :: "(string, flag_value) gomap \<Rightarrow> string \<Rightarrow> duration" where
  "get_dur vals n = (case mlookup vals n of Some (FDur d) \<Rightarrow> d | _ \<Rightarrow> 0)"

text \<open>A credential: the flag, or else its variable.\<close>

definition secret :: "(string \<Rightarrow> string option) \<Rightarrow> string \<Rightarrow> string \<Rightarrow> string" where
  "secret getenv var v = (if v = [] then (case getenv var of None \<Rightarrow> [] | Some s \<Rightarrow> s) else v)"

definition build_firecracker :: "(string, flag_value) gomap \<Rightarrow> FirecrackerConfig" where
  "build_firecracker vals =
     \<lparr>f_hasJobs = False, f_Binary = get_str vals ''firecracker-bin'', f_KernelImage = get_str vals ''kernel'',
      f_GoldenRootFS = get_str vals ''golden'', f_BootArgs = get_str vals ''boot-args'',
      f_WorkDir = get_str vals ''workdir'', f_TapPrefix = get_str vals ''tap-prefix'',
      f_NetBase = nat (get_int vals ''net-base''), f_NFTTable = get_str vals ''nft-table'',
      f_ExtIface = get_str vals ''ext-iface'',
      f_Egress = \<lparr>e_Categories = splitCSV (get_str vals ''egress''), e_DNSServers = splitCSV (get_str vals ''dns-servers''),
                  e_RefreshInterval = get_dur vals ''meta-refresh''\<rparr>,
      f_LogDir = get_str vals ''log-dir'', f_MaxVMs = get_int vals ''max-runners'', f_Jailer = get_bool vals ''jailer'',
      f_JailerBin = get_str vals ''jailer-bin'', f_ChrootBase = get_str vals ''chroot-base'',
      f_JailUID = get_int vals ''jail-uid'', f_JailGID = get_int vals ''jail-gid'',
      f_CgroupLimits = splitSemi (get_str vals ''jailer-cgroup''), f_NetNS = get_bool vals ''netns'',
      f_ToolCacheImage = get_str vals ''toolcache'', f_CachePort = get_int vals ''cache-port'',
      f_CacheURL = get_str vals ''cache-url'', f_MaxVMLifetime = get_dur vals ''max-vm-lifetime'',
      f_ConnectTimeout = get_dur vals ''vm-connect-timeout''\<rparr>"

definition build_config :: "(string \<Rightarrow> string option) \<Rightarrow> (string, flag_value) gomap \<Rightarrow> Config" where
  "build_config getenv vals =
     \<lparr>c_URL = get_str vals ''url'', c_ScaleSetName = get_str vals ''name'', c_Labels = splitCSV (get_str vals ''labels''),
      c_MaxRunners = get_int vals ''max-runners'', c_MinRunners = get_int vals ''min-runners'',
      c_Token = secret getenv ''FR_TOKEN'' (get_str vals ''token''), c_AppClientID = get_str vals ''app-client-id'',
      c_AppInstallID = get_int vals ''app-installation-id'',
      c_AppPrivateKey = secret getenv ''FR_APP_PRIVATE_KEY'' (get_str vals ''app-private-key''),
      c_VCPU = get_int vals ''vcpu'', c_MemMiB = get_int vals ''mem-mib'', c_Tiers = [],
      c_CacheJobsDir = get_str vals ''cache-jobs-dir'', c_Firecracker = build_firecracker vals,
      c_JITAddr = get_str vals ''jit-addr'', c_JITTTL = get_dur vals ''jit-ttl'', c_JITHost = get_str vals ''jit-host'',
      c_EC2Reaper = get_str vals ''ec2-reaper'', c_Owner = get_str vals ''owner'', c_offline = False\<rparr>"

datatype parse_error = FlagError flag_error | EnvErrors "(string \<times> string) list" | CatalogError config_error

definition config_Parse ::
  "parsers \<Rightarrow> config_env \<Rightarrow> (string \<Rightarrow> string option) \<Rightarrow> string list \<Rightarrow> parse_error + Config" where
  "config_Parse P E getenv args =
     (case parse_flags P flag_table args (flag_defaults P getenv) of
        Inl e \<Rightarrow> Inl (FlagError e)
      | Inr vals \<Rightarrow>
          if env_errs P getenv flag_table \<noteq> [] then Inl (EnvErrors (env_errs P getenv flag_table))
          else if get_str vals ''tiers'' \<noteq> [] then
            (case loadTiers E (get_str vals ''tiers'') of
               Inl e \<Rightarrow> Inl (CatalogError e)
             | Inr ts \<Rightarrow> Inr ((build_config getenv vals)\<lparr>c_Tiers := ts\<rparr>))
          else Inr (build_config getenv vals))"

datatype start_error = NotParsed parse_error | NotValid config_error | KeyError string

definition FromFlags ::
  "parsers \<Rightarrow> config_env \<Rightarrow> (string \<Rightarrow> string option) \<Rightarrow> string list \<Rightarrow> start_error + Config" where
  "FromFlags P E getenv args =
     (case config_Parse P E getenv args of
        Inl e \<Rightarrow> Inl (NotParsed e)
      | Inr c \<Rightarrow> (case validate E c of Some e \<Rightarrow> Inl (NotValid e) | None \<Rightarrow> Inr c))"

end
