(* ===== verification/Config_Check.thy ===== *)
theory Config_Check
  imports Config_Flags Config_Claims
begin

text \<open>
  \<open>firerunner config check\<close> (\<open>cmd/firerunner/configcheck.go\<close>), and what reading the configuration guarantees:
  a malformed variable never falls back to a default, and no refusal before the daemon contacts anything,
  nor a report of the check, says more of the credentials in the environment than whether there is a token
  and what a key's error may quote.
\<close>

section \<open>The command\<close>

record checkTier =
  ct_Name :: string
  ct_Provisioner :: string
  ct_Labels :: "string list"
  ct_Min :: int
  ct_Max :: int
  ct_VCPU :: int
  ct_MemMiB :: int
  ct_Golden :: string
  ct_InstanceTypes :: "string list"
  ct_Market :: string

text \<open>An EC2 tier is read through its block, which validation has required.\<close>

definition check_tier :: "Tier \<Rightarrow> checkTier" where
  "check_tier t =
     (let ct = \<lparr>ct_Name = ti_Name t, ct_Provisioner = ProvisionerName t, ct_Labels = ti_Labels t, ct_Min = ti_Min t,
                ct_Max = ti_Max t, ct_VCPU = 0, ct_MemMiB = 0, ct_Golden = [], ct_InstanceTypes = [], ct_Market = []\<rparr> in
      if IsEC2 t then ct\<lparr>ct_InstanceTypes := t_InstanceTypes (the (ti_EC2 t)), ct_Market := t_Market (the (ti_EC2 t))\<rparr>
      else ct\<lparr>ct_VCPU := ti_VCPU t, ct_MemMiB := ti_MemMiB t, ct_Golden := ti_Golden t\<rparr>)"

definition checkTiers :: "Tier list \<Rightarrow> checkTier list" where
  "checkTiers ts = map check_tier ts"

text \<open>A report: valid with its tiers and, for the daemon's configuration, URL and kind of credential; or the error.\<close>

datatype check_report =
    ValidCatalog "checkTier list" int
  | ValidDaemon "checkTier list" string string
  | InvalidCatalog config_error
  | InvalidDaemon start_error

datatype args_scan = ScanHelp | ScanNoFile | ScanArgs bool string "string list"

fun scan_args :: "bool \<Rightarrow> string \<Rightarrow> string list \<Rightarrow> string list \<Rightarrow> args_scan" where
  "scan_args js cat rest [] = ScanArgs js cat rest"
| "scan_args js cat rest (a # args) =
     (if a = ''--json'' \<or> a = ''-json'' then scan_args True cat rest args
      else if a = ''-h'' \<or> a = ''--help'' then ScanHelp
      else if a = ''--catalog'' \<or> a = ''-catalog'' then
        (case args of [] \<Rightarrow> ScanNoFile | f # args' \<Rightarrow> scan_args js f rest args')
      else if has_prefix a ''--catalog='' then scan_args js (trim_prefix a ''--catalog='') rest args
      else scan_args js cat (rest @ [a]) args)"

text \<open>The arguments beside \<open>--catalog\<close>: the budget, or \<open>None\<close> for a usage error.\<close>

fun budget_args :: "int \<Rightarrow> string list \<Rightarrow> int option" where
  "budget_args n [] = Some n"
| "budget_args n (a # args) =
     (if (a = ''--max-runners'' \<or> a = ''-max-runners'') \<and> args \<noteq> [] then
        (case go_atoi (hd args) of None \<Rightarrow> None | Some k \<Rightarrow> budget_args k (tl args))
      else if has_prefix a ''--max-runners='' \<or> has_prefix a ''-max-runners='' then
        (case go_atoi (drop 1 (dropWhile (\<lambda>c. c \<noteq> CHR ''='') a)) of None \<Rightarrow> None | Some k \<Rightarrow> budget_args k args)
      else None)"

definition default_budget :: "(string \<Rightarrow> string option) \<Rightarrow> int option" where
  "default_budget getenv =
     (case getenv ''FR_MAX_RUNNERS'' of
        None \<Rightarrow> Some 4
      | Some v \<Rightarrow> if v = [] then Some 4 else go_atoi v)"

text \<open>What the daemon does with its arguments before it contacts anything.\<close>

definition daemon_start ::
  "parsers \<Rightarrow> config_env \<Rightarrow> key_env \<Rightarrow> (string \<Rightarrow> string option) \<Rightarrow> string list \<Rightarrow> start_error + Config" where
  "daemon_start P E K getenv args =
     (case FromFlags P E getenv args of
        Inl e \<Rightarrow> Inl e
      | Inr c \<Rightarrow> (case ResolvePrivateKey K c of Inl e \<Rightarrow> Inl (KeyError e) | Inr _ \<Rightarrow> Inr c))"

definition check_catalog_report :: "config_env \<Rightarrow> string \<Rightarrow> int \<Rightarrow> int \<times> check_report option" where
  "check_catalog_report E path n =
     (if n < 1 then (2, None)
      else (case CheckCatalog E path n of
              Inl e \<Rightarrow> (1, Some (InvalidCatalog e))
            | Inr ts \<Rightarrow> (0, Some (ValidCatalog (checkTiers ts) n))))"

definition check_daemon_report ::
  "parsers \<Rightarrow> config_env \<Rightarrow> key_env \<Rightarrow> (string \<Rightarrow> string option) \<Rightarrow> string list \<Rightarrow> int \<times> check_report option" where
  "check_daemon_report P E K getenv rest =
     (case config_Parse P E getenv rest of
        Inl _ \<Rightarrow> (2, None)
      | Inr _ \<Rightarrow>
          (case FromFlags P E getenv rest of
             Inl e \<Rightarrow> (1, Some (InvalidDaemon e))
           | Inr c \<Rightarrow>
               (case ResolvePrivateKey K c of
                  Inl e \<Rightarrow> (1, Some (InvalidDaemon (KeyError e)))
                | Inr _ \<Rightarrow>
                    (0, Some (ValidDaemon (checkTiers (EffectiveTiers c)) (c_URL c)
                           (if c_AppClientID c \<noteq> [] then ''github-app'' else ''token''))))))"

definition configCmd ::
  "parsers \<Rightarrow> config_env \<Rightarrow> key_env \<Rightarrow> (string \<Rightarrow> string option) \<Rightarrow> string list \<Rightarrow> int \<times> check_report option" where
  "configCmd P E K getenv args =
     (case args of
        [] \<Rightarrow> (2, None)
      | a # as \<Rightarrow>
          if a \<noteq> ''check'' then (2, None)
          else (case default_budget getenv of
                  None \<Rightarrow> (2, None)
                | Some n \<Rightarrow>
                    (case scan_args False [] [] as of
                       ScanHelp \<Rightarrow> (0, None)
                     | ScanNoFile \<Rightarrow> (2, None)
                     | ScanArgs js cat rest \<Rightarrow>
                         if cat \<noteq> [] then
                           (case budget_args n rest of None \<Rightarrow> (2, None) | Some k \<Rightarrow> check_catalog_report E cat k)
                         else check_daemon_report P E K getenv rest)))"

section \<open>The exit status\<close>

text \<open>Arguments the command passes on to the daemon's parser unchanged.\<close>

definition plain_arg :: "string \<Rightarrow> bool" where
  "plain_arg a \<longleftrightarrow>
     a \<notin> {''--json'', ''-json'', ''-h'', ''--help'', ''--catalog'', ''-catalog''} \<and> \<not> has_prefix a ''--catalog=''"

lemma scan_plain: "list_all plain_arg args \<Longrightarrow> scan_args js cat rest args = ScanArgs js cat (rest @ args)"
  by (induction args arbitrary: rest) (auto simp: plain_arg_def)

lemma daemon_report_status:
  "fst (check_daemon_report P E K getenv rest) =
     (case daemon_start P E K getenv rest of
        Inr _ \<Rightarrow> 0 | Inl (NotParsed _) \<Rightarrow> 2 | Inl _ \<Rightarrow> 1)"
  by (auto simp: check_daemon_report_def daemon_start_def FromFlags_def split: sum.splits option.splits)

lemma catalog_report_valid:
  "check_catalog_report E path k = (0, Some (ValidCatalog ts n)) \<longleftrightarrow>
     k = n \<and> 1 \<le> n \<and> (\<exists>tiers. CheckCatalog E path n = Inr tiers \<and> ts = checkTiers tiers)"
  by (auto simp: check_catalog_report_def split: sum.splits)

text \<open>\<open>FR_MAX_RUNNERS\<close> is read before the mode is known, so the check refuses a value even where a flag overrides it.\<close>

lemma default_budget_table:
  "default_budget getenv = None \<Longrightarrow> env_errs P getenv flag_table \<noteq> []"
proof -
  assume n: "default_budget getenv = None"
  then obtain v where v: "getenv ''FR_MAX_RUNNERS'' = Some v" "go_atoi v = None"
    by (auto simp: default_budget_def split: option.splits if_splits)
  have "(''max-runners'', ''FR_MAX_RUNNERS'', FInt 4) \<in> set flag_table"
    by (simp add: flag_table_def flags_scale_set_def)
  then have "(''FR_MAX_RUNNERS'', v) \<in> set (env_errs P getenv flag_table)"
    using v by (force simp: env_errs_def)
  then show ?thesis by auto
qed

text \<open>
  C37. The check agrees with the start.  For every environment and arguments, \<open>config check\<close> with the daemon's
  arguments exits with 0 exactly when the daemon would get through its flags, its validation and its key, and
  with 2 exactly when they do not parse; an argument list it reads as a catalog check never reports a
  catalog valid that \<open>CheckCatalog\<close> refuses under the budget it names.
\<close>

theorem config_check_agrees:
  "(list_all plain_arg args \<longrightarrow>
      fst (configCmd P E K getenv (''check'' # args)) =
        (case daemon_start P E K getenv args of Inr _ \<Rightarrow> 0 | Inl (NotParsed _) \<Rightarrow> 2 | Inl _ \<Rightarrow> 1)) \<and>
   (\<forall>ts n. configCmd P E K getenv (''check'' # args) = (0, Some (ValidCatalog ts n)) \<longrightarrow>
      1 \<le> n \<and> (\<exists>path tiers. CheckCatalog E path n = Inr tiers \<and> ts = checkTiers tiers))"
proof (intro conjI impI allI)
  assume p: "list_all plain_arg args"
  have scan: "scan_args False [] [] args = ScanArgs False [] args" using scan_plain [OF p, of False "[]" "[]"] by simp
  show "fst (configCmd P E K getenv (''check'' # args)) =
        (case daemon_start P E K getenv args of Inr _ \<Rightarrow> 0 | Inl (NotParsed _) \<Rightarrow> 2 | Inl _ \<Rightarrow> 1)"
  proof (cases "default_budget getenv")
    case None
    have "\<exists>e. config_Parse P E getenv args = Inl e"
      using default_budget_table [OF None, of P] by (auto simp: config_Parse_def split: sum.split)
    with None show ?thesis by (auto simp: configCmd_def daemon_start_def FromFlags_def)
  next
    case (Some n)
    then show ?thesis by (simp add: configCmd_def scan daemon_report_status)
  qed
next
  fix ts n assume "configCmd P E K getenv (''check'' # args) = (0, Some (ValidCatalog ts n))"
  then have "\<exists>path. check_catalog_report E path n = (0, Some (ValidCatalog ts n))"
    by (auto simp: configCmd_def check_daemon_report_def catalog_report_valid
        split: option.splits args_scan.splits if_splits sum.splits)
  then show "1 \<le> n" "\<exists>path tiers. CheckCatalog E path n = Inr tiers \<and> ts = checkTiers tiers"
    by (auto simp: catalog_report_valid)
qed

definition demo_parsers :: parsers where
  "demo_parsers = \<lparr>p_parseInt = go_atoi, p_parseDuration = \<lambda>_. None\<rparr>"

lemma flags_parse_nil: "config_Parse P E (\<lambda>_. None) [] = Inr (build_config (\<lambda>_. None) (flag_defaults P (\<lambda>_. None)))"
proof -
  have "flag_defaults P (\<lambda>_. None) = map (\<lambda>f. (fst f, snd (snd f))) flag_table"
    by (auto simp: flag_defaults_def flag_default_def)
  moreover have "map_of (map (\<lambda>f. (fst f, snd (snd f))) flag_table) ''tiers'' = Some (FStr [])"
    by (simp add: flag_table_def flags_scale_set_def)
  moreover have "env_errs P (\<lambda>_. None) flag_table = []" by (auto simp: env_errs_def)
  ultimately show ?thesis by (simp add: config_Parse_def get_str_def)
qed

lemma config_check_agrees_witness:
  "\<forall>K. fst (configCmd demo_parsers demo_cenv K (\<lambda>_. None) [''check'']) = 1 \<and>
   configCmd demo_parsers demo_cenv K (\<lambda>_. None) [''check'', ''--catalog'', ''f''] = (0, Some (ValidCatalog (checkTiers demo_loaded) 4)) \<and>
   (\<exists>path tiers. CheckCatalog demo_cenv path 4 = Inr tiers \<and> checkTiers demo_loaded = checkTiers tiers)"
proof
  fix K
  let ?vals = "flag_defaults demo_parsers (\<lambda>_. None)"
  have u: "get_str ?vals ''url'' = []"
    by (simp add: get_str_def flag_defaults_def flag_default_def flag_table_def flags_scale_set_def)
  have "validate demo_cenv (build_config (\<lambda>_. None) ?vals) = Some (Required UrlRequired)"
    by (simp add: validate_def first_of_def validateRequired_def Let_def build_config_def u)
  then have d: "\<exists>e. daemon_start demo_parsers demo_cenv K (\<lambda>_. None) [] = Inl (NotValid e)"
    by (simp add: daemon_start_def FromFlags_def flags_parse_nil)
  have c: "CheckCatalog demo_cenv ''f'' 4 = Inr demo_loaded"
    using check_catalog_agrees [of demo_cenv "''f''" demo_config] demo_load demo_valid by simp
  have r: "configCmd demo_parsers demo_cenv K (\<lambda>_. None) [''check'', ''--catalog'', ''f''] =
      (0, Some (ValidCatalog (checkTiers demo_loaded) 4))"
    by (simp add: configCmd_def default_budget_def catalog_report_valid c)
  show "fst (configCmd demo_parsers demo_cenv K (\<lambda>_. None) [''check'']) = 1 \<and>
   configCmd demo_parsers demo_cenv K (\<lambda>_. None) [''check'', ''--catalog'', ''f''] = (0, Some (ValidCatalog (checkTiers demo_loaded) 4)) \<and>
   (\<exists>path tiers. CheckCatalog demo_cenv path 4 = Inr tiers \<and> checkTiers demo_loaded = checkTiers tiers)"
    using config_check_agrees [of "[]" demo_parsers demo_cenv K "\<lambda>_. None"] d
      config_check_agrees [of "[''--catalog'', ''f'']" demo_parsers demo_cenv K "\<lambda>_. None"] r by auto
qed

text \<open>The reported kind of credential is the App's whenever a client id is set, also beside a token it is incomplete with.\<close>

lemma auth_kind_reported:
  assumes "daemon_start P E K getenv rest = Inr c" "c_AppClientID c \<noteq> []"
  shows "\<exists>ts. check_daemon_report P E K getenv rest = (0, Some (ValidDaemon ts (c_URL c) ''github-app''))"
  using assms by (auto simp: daemon_start_def check_daemon_report_def FromFlags_def split: sum.splits option.splits)

section \<open>What reading the configuration guarantees\<close>

definition secret_vars :: "string set" where
  "secret_vars = {''FR_TOKEN'', ''FR_APP_PRIVATE_KEY''}"

lemma table_names: "distinct (map fst flag_table)"
  by code_simp

lemma table_vars: "list_all (\<lambda>f. fst (snd f) \<notin> secret_vars) flag_table"
  by (simp add: flag_table_def flags_scale_set_def flags_firecracker_def flags_rest_def secret_vars_def)

lemma default_same_env:
  "fst (snd f) \<notin> secret_vars \<Longrightarrow> \<forall>v. v \<notin> secret_vars \<longrightarrow> g v = h v \<Longrightarrow> flag_default P g f = flag_default P h f"
  by (auto simp: flag_default_def split: prod.split)

lemma errs_same_env:
  "list_all (\<lambda>f. fst (snd f) \<notin> secret_vars) T \<Longrightarrow> \<forall>v. v \<notin> secret_vars \<longrightarrow> g v = h v \<Longrightarrow> env_errs P g T = env_errs P h T"
  by (induction T) (auto simp: env_errs_def)

lemma same_kind_default [simp]: "same_kind (snd (snd f)) (flag_default P g f)"
proof -
  have "same_kind d d" for d by (cases d) simp_all
  moreover have "env_value P d v = Some x \<Longrightarrow> same_kind d x" for d v x by (cases d) auto
  ultimately show ?thesis by (auto simp: flag_default_def split: prod.split option.split)
qed

lemma set_value_kind: "set_value P d v = Some x \<Longrightarrow> same_kind d x"
  by (cases d) auto

definition typed_values :: "flag_spec list \<Rightarrow> (string, flag_value) gomap \<Rightarrow> bool" where
  "typed_values T vals \<longleftrightarrow> (\<forall>n d. flag_kind T n = Some d \<longrightarrow> (\<exists>x. mlookup vals n = Some x \<and> same_kind d x))"

lemma typed_mput: "typed_values T vals \<Longrightarrow> flag_kind T n = Some d \<Longrightarrow> same_kind d x \<Longrightarrow> typed_values T (mput n x vals)"
  by (auto simp: typed_values_def)

lemma parse_flags_typed: "parse_flags P T args vals = Inr out \<Longrightarrow> typed_values T vals \<Longrightarrow> typed_values T out"
proof (induction P T args vals rule: parse_flags.induct)
  case (2 P T s args vals)
  show ?case
  proof (cases "length s < 2 \<or> hd s \<noteq> CHR ''-'' \<or> s = ''--''")
    case True
    with 2(3,4) show ?thesis by auto
  next
    case go: False
    define body where "body = (if has_prefix s ''--'' then drop 2 s else drop 1 s)"
    obtain name val has where c: "cut CHR ''='' body = (name, val, has)" by (metis prod_cases3)
    have ok: "\<not> (body = [] \<or> hd body = CHR ''-'' \<or> hd body = CHR ''='')"
      using 2(3) go by (auto simp: body_def [symmetric] Let_def split: if_splits)
    obtain d where d: "flag_kind T name = Some d"
      using 2(3) go ok c by (auto simp: body_def [symmetric] Let_def split: option.splits)
    show ?thesis
    proof (cases "has \<or> same_kind d (FBool True)")
      case True
      obtain x where x: "(if has then set_value P d val else Some (FBool True)) = Some x"
        "parse_flags P T args (mput name x vals) = Inr out"
        using 2(3) go ok c d True by (auto simp: body_def [symmetric] Let_def split: option.splits if_splits)
      then have "same_kind d x" using True set_value_kind by (auto split: if_splits)
      with 2(1) [OF go body_def ok c [symmetric] refl d True x] typed_mput [OF 2(4) d] show ?thesis by blast
    next
      case False
      then obtain v rest x where x: "args = v # rest" "set_value P d v = Some x" "parse_flags P T rest (mput name x vals) = Inr out"
        using 2(3) go ok c d by (auto simp: body_def [symmetric] Let_def split: option.splits list.splits)
      show ?thesis
        using 2(2) [OF go body_def ok c [symmetric] refl d False x(1,2)] x(3)
          typed_mput [OF 2(4) d set_value_kind [OF x(2)]] by blast
    qed
  qed
qed simp

lemma defaults_typed: "typed_values flag_table (flag_defaults P g)"
  unfolding typed_values_def flag_kind_def
proof (intro allI impI)
  fix n d assume "map_option snd (map_of flag_table n) = Some d"
  then obtain var where f: "(n, var, d) \<in> set flag_table" by (auto dest: map_of_SomeD)
  then have "(n, flag_default P g (n, var, d)) \<in> set (flag_defaults P g)" by (force simp: flag_defaults_def)
  moreover have "distinct (map fst (flag_defaults P g))" using table_names by (simp add: flag_defaults_def comp_def)
  ultimately have "mlookup (flag_defaults P g) n = Some (flag_default P g (n, var, d))" by simp
  then show "\<exists>x. mlookup (flag_defaults P g) n = Some x \<and> same_kind d x" using same_kind_default [of "(n, var, d)" P g] by auto
qed

text \<open>The credentials in a configuration: validation looks only at whether there is a token.\<close>

definition with_secrets :: "Config \<Rightarrow> string \<Rightarrow> string \<Rightarrow> Config" where
  "with_secrets c t k = c\<lparr>c_Token := t, c_AppPrivateKey := k\<rparr>"

lemma secrets_tiers [simp]:
  "EffectiveTiers (with_secrets c t k) = EffectiveTiers c" "UsesFirecracker (with_secrets c t k) = UsesFirecracker c"
  "UsesEC2 (with_secrets c t k) = UsesEC2 c"
  by (simp_all add: UsesFirecracker_def UsesEC2_def EffectiveTiers_def with_secrets_def)

lemma secrets_fields [simp]:
  "c_Tiers (with_secrets c t k) = c_Tiers c" "c_URL (with_secrets c t k) = c_URL c"
  "c_AppClientID (with_secrets c t k) = c_AppClientID c" "c_Token (with_secrets c t k) = t"
  "c_AppPrivateKey (with_secrets c t k) = k" "c_JITAddr (with_secrets c t k) = c_JITAddr c"
  "c_JITHost (with_secrets c t k) = c_JITHost c" "c_JITTTL (with_secrets c t k) = c_JITTTL c"
  "c_Firecracker (with_secrets c t k) = c_Firecracker c" "c_MaxRunners (with_secrets c t k) = c_MaxRunners c"
  "c_VCPU (with_secrets c t k) = c_VCPU c" "c_MemMiB (with_secrets c t k) = c_MemMiB c"
  "c_AppInstallID (with_secrets c t k) = c_AppInstallID c" "c_EC2Reaper (with_secrets c t k) = c_EC2Reaper c"
  "c_Owner (with_secrets c t k) = c_Owner c" "c_CacheJobsDir (with_secrets c t k) = c_CacheJobsDir c"
  by (simp_all add: with_secrets_def)

lemma validate_each_secrets [simp]: "validate_each E (with_secrets c t k) seen i warm ts = validate_each E c seen i warm ts"
  by (induction E c seen i warm ts rule: validate_each.induct)
    (simp_all add: validateTier_def validateFirecrackerTier_def with_secrets_def)

lemma validate_secrets:
  assumes "t = [] \<longleftrightarrow> c_Token c = []"
  shows "validate E (with_secrets c t k) = validate E c"
proof -
  have "validateRequired (with_secrets c t k) = validateRequired c"
    unfolding validateRequired_def secrets_tiers secrets_fields assms ..
  moreover have "validateJIT (with_secrets c t k) = validateJIT c"
    unfolding validateJIT_def secrets_tiers secrets_fields ..
  moreover have "validateRest E (with_secrets c t k) = validateRest E c"
    unfolding validateRest_def secrets_fields ..
  ultimately show ?thesis by (simp add: validate_def validateTiers_def)
qed

lemma resolve_secrets:
  assumes "t = [] \<longleftrightarrow> c_Token c = []"
  shows "ResolvePrivateKey K (with_secrets c t (c_AppPrivateKey c)) = ResolvePrivateKey K c"
  unfolding ResolvePrivateKey_def secrets_fields assms ..

definition same_but_secrets :: "(string \<Rightarrow> string option) \<Rightarrow> (string \<Rightarrow> string option) \<Rightarrow> bool" where
  "same_but_secrets g h \<longleftrightarrow> (\<forall>v. v \<notin> secret_vars \<longrightarrow> g v = h v)"

lemma defaults_agree: "same_but_secrets g h \<Longrightarrow> flag_defaults P g = flag_defaults P h"
  using table_vars default_same_env [of _ g h] by (auto simp: flag_defaults_def list_all_iff same_but_secrets_def)

lemma errs_agree: "same_but_secrets g h \<Longrightarrow> env_errs P g flag_table = env_errs P h flag_table"
  unfolding same_but_secrets_def by (rule errs_same_env [OF table_vars])

text \<open>What a token's variable gives: whether there is one.\<close>

definition token_set :: "(string \<Rightarrow> string option) \<Rightarrow> bool" where
  "token_set g \<longleftrightarrow> secret g ''FR_TOKEN'' [] \<noteq> []"

lemma secret_agree: "token_set g = token_set h \<Longrightarrow> secret g ''FR_TOKEN'' v = [] \<longleftrightarrow> secret h ''FR_TOKEN'' v = []"
  by (auto simp: token_set_def secret_def)

lemma build_agree:
  "build_config h vals =
     with_secrets (build_config g vals) (secret h ''FR_TOKEN'' (get_str vals ''token''))
       (secret h ''FR_APP_PRIVATE_KEY'' (get_str vals ''app-private-key''))"
  by (simp add: build_config_def with_secrets_def)

lemma parse_agree:
  assumes "same_but_secrets g h"
  obtains (refused) e where "config_Parse P E g args = Inl e" "config_Parse P E h args = Inl e"
  | (read) c t k where "config_Parse P E g args = Inr c" "config_Parse P E h args = Inr (with_secrets c t k)"
      "token_set g = token_set h \<longrightarrow> (t = [] \<longleftrightarrow> c_Token c = [])"
      "g ''FR_APP_PRIVATE_KEY'' = h ''FR_APP_PRIVATE_KEY'' \<longrightarrow> k = c_AppPrivateKey c"
proof (cases "config_Parse P E g args")
  case (Inl e)
  then have "config_Parse P E h args = Inl e"
    by (auto simp: config_Parse_def defaults_agree [OF assms] errs_agree [OF assms] split: sum.splits if_splits)
  with Inl show thesis by (rule refused)
next
  case (Inr c)
  then obtain vals where v: "parse_flags P flag_table args (flag_defaults P h) = Inr vals"
    and e: "env_errs P h flag_table = []"
    and c: "get_str vals ''tiers'' = [] \<and> c = build_config g vals \<or>
      get_str vals ''tiers'' \<noteq> [] \<and> (\<exists>ts. loadTiers E (get_str vals ''tiers'') = Inr ts \<and> c = (build_config g vals)\<lparr>c_Tiers := ts\<rparr>)"
    by (auto simp: config_Parse_def defaults_agree [OF assms] errs_agree [OF assms] split: sum.splits if_splits)
  let ?t = "secret h ''FR_TOKEN'' (get_str vals ''token'')"
    and ?k = "secret h ''FR_APP_PRIVATE_KEY'' (get_str vals ''app-private-key'')"
  have "config_Parse P E h args = Inr (with_secrets c ?t ?k)"
    using v e c by (auto simp: config_Parse_def build_agree [of h vals g] with_secrets_def)
  moreover have "c_Token c = secret g ''FR_TOKEN'' (get_str vals ''token'')"
    "c_AppPrivateKey c = secret g ''FR_APP_PRIVATE_KEY'' (get_str vals ''app-private-key'')"
    using c by (auto simp: build_config_def)
  ultimately show thesis using Inr secret_agree [of g h "get_str vals ''token''"] by (intro read) (auto simp: secret_def)
qed

lemma from_flags_agree:
  assumes "same_but_secrets g h" "token_set g = token_set h"
  obtains (refused) e where "FromFlags P E g args = Inl e" "FromFlags P E h args = Inl e"
  | (read) c t k where "FromFlags P E g args = Inr c" "FromFlags P E h args = Inr (with_secrets c t k)"
      "t = [] \<longleftrightarrow> c_Token c = []" "g ''FR_APP_PRIVATE_KEY'' = h ''FR_APP_PRIVATE_KEY'' \<longrightarrow> k = c_AppPrivateKey c"
proof (cases rule: parse_agree [OF assms(1), of P E args])
  case (1 e)
  then show thesis by (intro refused [of "NotParsed e"]) (simp_all add: FromFlags_def)
next
  case (2 c t k)
  with assms(2) have t: "t = [] \<longleftrightarrow> c_Token c = []" by blast
  note v = validate_secrets [OF t, of E k]
  show thesis
  proof (cases "validate E c")
    case None
    with 2 v t show thesis by (intro read [of c t k]) (simp_all add: FromFlags_def)
  next
    case (Some e)
    with 2 v show thesis by (intro refused [of "NotValid e"]) (simp_all add: FromFlags_def)
  qed
qed

text \<open>With the same key, everything the start refuses and everything the check reports is the same.\<close>

lemma start_agree:
  assumes "same_but_secrets g h" "token_set g = token_set h" "g ''FR_APP_PRIVATE_KEY'' = h ''FR_APP_PRIVATE_KEY''"
  shows "daemon_start P E K g args = Inl e \<longleftrightarrow> daemon_start P E K h args = Inl e"
proof (cases rule: from_flags_agree [OF assms(1,2), of P E args])
  case (1 e)
  then show ?thesis by (simp add: daemon_start_def)
next
  case (2 c t k)
  with assms(3) resolve_secrets [OF 2(3), of K] show ?thesis by (simp add: daemon_start_def split: sum.split)
qed

lemma report_agree:
  assumes "same_but_secrets g h" "token_set g = token_set h" "g ''FR_APP_PRIVATE_KEY'' = h ''FR_APP_PRIVATE_KEY''"
  shows "check_daemon_report P E K g rest = check_daemon_report P E K h rest"
proof (cases rule: parse_agree [OF assms(1), of P E rest])
  case (1 e)
  then show ?thesis by (simp add: check_daemon_report_def)
next
  case read: (2 d u l)
  show ?thesis
  proof (cases rule: from_flags_agree [OF assms(1,2), of P E rest])
    case (1 e)
    with read show ?thesis by (simp add: check_daemon_report_def)
  next
    case (2 c t k)
    with read assms(3) resolve_secrets [OF 2(3), of K] show ?thesis by (simp add: check_daemon_report_def split: sum.split)
  qed
qed

lemma check_agree:
  assumes "same_but_secrets g h" "token_set g = token_set h" "g ''FR_APP_PRIVATE_KEY'' = h ''FR_APP_PRIVATE_KEY''"
  shows "configCmd P E K g args = configCmd P E K h args"
proof -
  have "g ''FR_MAX_RUNNERS'' = h ''FR_MAX_RUNNERS''" using assms(1) by (simp add: same_but_secrets_def secret_vars_def)
  then have d: "default_budget g = default_budget h" by (simp add: default_budget_def)
  show ?thesis unfolding configCmd_def report_agree [OF assms] d ..
qed

lemma start_key_error:
  assumes "daemon_start P E K g args = Inl (KeyError m)"
  shows "\<exists>c. FromFlags P E g args = Inr c \<and> key_error_text K (c_AppPrivateKey c) m"
proof -
  from assms obtain c where c: "FromFlags P E g args = Inr c" "ResolvePrivateKey K c = Inl m"
    by (auto simp: daemon_start_def FromFlags_def split: sum.splits option.splits)
  with resolve_key_outcome [of K c] show ?thesis by auto
qed

text \<open>
  C36. Reading the configuration fails closed and keeps secrets.  Take two environments that differ only in
  \<open>FR_TOKEN\<close> and \<open>FR_APP_PRIVATE_KEY\<close>.  The defaults that help and errors print are the same and every refusal
  to parse is the same.  When both set a token or neither does, every refusal to validate is the same too;
  when moreover the key is the same, so is every refusal of the key, and the whole answer of
  \<open>config check\<close>, its exit status and its report.  So a token shows only in whether there is one; and the
  message that refuses a key is one of the fixed ones, quoting at most a PEM label of capitals or a value
  that names a file.  An accepted reading leaves no typed variable unparsed, whichever flags override them,
  and gives every flag a value of its own kind.
\<close>

theorem reading_fails_closed:
  assumes "\<forall>v. v \<notin> {''FR_TOKEN'', ''FR_APP_PRIVATE_KEY''} \<longrightarrow> g v = h v"
  shows "flag_defaults P g = flag_defaults P h \<and>
    (\<forall>e. config_Parse P E g args = Inl e \<longleftrightarrow> config_Parse P E h args = Inl e) \<and>
    (token_set g = token_set h \<longrightarrow>
       (\<forall>e. FromFlags P E g args = Inl e \<longleftrightarrow> FromFlags P E h args = Inl e) \<and>
       (g ''FR_APP_PRIVATE_KEY'' = h ''FR_APP_PRIVATE_KEY'' \<longrightarrow>
          (\<forall>K. (\<forall>e. daemon_start P E K g args = Inl e \<longleftrightarrow> daemon_start P E K h args = Inl e) \<and>
               configCmd P E K g args = configCmd P E K h args))) \<and>
    (\<forall>K m. daemon_start P E K g args = Inl (KeyError m) \<longrightarrow>
       (\<exists>c. FromFlags P E g args = Inr c \<and> key_error_text K (c_AppPrivateKey c) m)) \<and>
    (\<forall>c. config_Parse P E g args = Inr c \<longrightarrow>
       (\<forall>n var d v. (n, var, d) \<in> set flag_table \<longrightarrow> var \<noteq> [] \<longrightarrow> g var = Some v \<longrightarrow> env_value P d v \<noteq> None) \<and>
       (\<exists>vals. parse_flags P flag_table args (flag_defaults P g) = Inr vals \<and> typed_values flag_table vals))"
proof (intro conjI allI impI)
  have agree: "same_but_secrets g h" using assms by (simp add: same_but_secrets_def secret_vars_def)
  show "flag_defaults P g = flag_defaults P h" by (rule defaults_agree [OF agree])
  show "config_Parse P E g args = Inl x \<longleftrightarrow> config_Parse P E h args = Inl x" for x
    by (cases rule: parse_agree [OF agree, of P E args]) auto
  fix K e assume t: "token_set g = token_set h"
  show "FromFlags P E g args = Inl e \<longleftrightarrow> FromFlags P E h args = Inl e"
    by (cases rule: from_flags_agree [OF agree t, of P E args]) auto
  assume k: "g ''FR_APP_PRIVATE_KEY'' = h ''FR_APP_PRIVATE_KEY''"
  show "daemon_start P E K g args = Inl e \<longleftrightarrow> daemon_start P E K h args = Inl e" by (rule start_agree [OF agree t k])
  show "configCmd P E K g args = configCmd P E K h args" by (rule check_agree [OF agree t k])
next
  fix K m assume "daemon_start P E K g args = Inl (KeyError m)"
  then show "\<exists>c. FromFlags P E g args = Inr c \<and> key_error_text K (c_AppPrivateKey c) m" by (rule start_key_error)
next
  fix c n var d v
  assume "config_Parse P E g args = Inr c" "(n, var, d) \<in> set flag_table" "var \<noteq> []" "g var = Some v"
  then show "env_value P d v \<noteq> None"
    by (force simp: config_Parse_def env_errs_def split: sum.splits if_splits)
next
  fix c assume "config_Parse P E g args = Inr c"
  then obtain vals where "parse_flags P flag_table args (flag_defaults P g) = Inr vals"
    by (auto simp: config_Parse_def split: sum.splits)
  with parse_flags_typed [OF this defaults_typed]
  show "\<exists>vals. parse_flags P flag_table args (flag_defaults P g) = Inr vals \<and> typed_values flag_table vals" by blast
qed

definition demo_token :: "string \<Rightarrow> string \<Rightarrow> string option" where
  "demo_token t v = (if v = ''FR_TOKEN'' then Some t else None)"

lemma reading_fails_closed_witness:
  "\<forall>K. flag_defaults demo_parsers (demo_token ''ghp_a'') = flag_defaults demo_parsers (\<lambda>_. None) \<and>
   configCmd demo_parsers demo_cenv K (demo_token ''ghp_a'') [''check''] =
     configCmd demo_parsers demo_cenv K (demo_token ''ghp_b'') [''check''] \<and>
   (\<exists>vals. parse_flags demo_parsers flag_table [] (flag_defaults demo_parsers (\<lambda>_. None)) = Inr vals \<and> typed_values flag_table vals)"
proof
  fix K
  have a: "\<forall>v. v \<notin> {''FR_TOKEN'', ''FR_APP_PRIVATE_KEY''} \<longrightarrow> demo_token t v = None" for t by (simp add: demo_token_def)
  have b: "\<forall>v. v \<notin> {''FR_TOKEN'', ''FR_APP_PRIVATE_KEY''} \<longrightarrow> demo_token ''ghp_a'' v = demo_token ''ghp_b'' v"
    by (simp add: demo_token_def)
  have c: "token_set (demo_token ''ghp_a'') = token_set (demo_token ''ghp_b'')"
    "demo_token ''ghp_a'' ''FR_APP_PRIVATE_KEY'' = demo_token ''ghp_b'' ''FR_APP_PRIVATE_KEY''"
    by (simp_all add: token_set_def secret_def demo_token_def)
  have d: "\<forall>v. v \<notin> {''FR_TOKEN'', ''FR_APP_PRIVATE_KEY''} \<longrightarrow> None = (None :: string option)" by simp
  have "configCmd demo_parsers demo_cenv K (demo_token ''ghp_a'') [''check''] =
     configCmd demo_parsers demo_cenv K (demo_token ''ghp_b'') [''check'']"
    using reading_fails_closed [OF b, of demo_parsers demo_cenv "[''check'']"] c by blast
  with reading_fails_closed [OF a [of "''ghp_a''"], of demo_parsers demo_cenv "[]"]
    reading_fails_closed [OF d, of demo_parsers demo_cenv "[]"] flags_parse_nil [of demo_parsers demo_cenv]
  show "flag_defaults demo_parsers (demo_token ''ghp_a'') = flag_defaults demo_parsers (\<lambda>_. None) \<and>
   configCmd demo_parsers demo_cenv K (demo_token ''ghp_a'') [''check''] =
     configCmd demo_parsers demo_cenv K (demo_token ''ghp_b'') [''check''] \<and>
   (\<exists>vals. parse_flags demo_parsers flag_table [] (flag_defaults demo_parsers (\<lambda>_. None)) = Inr vals \<and> typed_values flag_table vals)"
    by blast
qed

end
