(* ===== verification/Paths.thy ===== *)
theory Paths
  imports FR_Prelude
begin

text \<open>
  The parts of Go's \<open>path/filepath\<close> the diagnostics walk the file system with: \<open>Clean\<close>, \<open>Dir\<close> and \<open>Join\<close>,
  and the walk from a path to its nearest existing ancestor, which ends because \<open>Dir\<close> shortens every path
  but the last one.
\<close>

section \<open>Cleaning\<close>

text \<open>\<open>out\<close> holds the components kept so far, the last one first.\<close>

fun clean_comps :: "bool \<Rightarrow> string list \<Rightarrow> string list \<Rightarrow> string list" where
  "clean_comps rooted out [] = out"
| "clean_comps rooted out (p # ps) =
     (if p = [] \<or> p = ''.'' then clean_comps rooted out ps
      else if p = ''..'' then
        (if out \<noteq> [] \<and> hd out \<noteq> ''..'' then clean_comps rooted (tl out) ps
         else if rooted then clean_comps rooted out ps
         else clean_comps rooted (''..'' # out) ps)
      else clean_comps rooted (p # out) ps)"

definition path_clean :: "string \<Rightarrow> string" where
  "path_clean p =
     (let rooted = (p \<noteq> [] \<and> hd p = CHR ''/'');
          body = join ''/'' (rev (clean_comps rooted [] (split_on CHR ''/'' p))) in
      if rooted then CHR ''/'' # body else if body = [] then ''.'' else body)"

text \<open>\<open>Dir\<close> cleans what stands up to the last slash.\<close>

definition upto_slash :: "string \<Rightarrow> string" where
  "upto_slash p = rev (dropWhile (\<lambda>c. c \<noteq> CHR ''/'') (rev p))"

definition path_dir :: "string \<Rightarrow> string" where
  "path_dir p = path_clean (upto_slash p)"

definition file_join :: "string \<Rightarrow> string \<Rightarrow> string" where
  "file_join d f = (if d = [] then path_clean f else path_clean (d @ ''/'' @ f))"

section \<open>Lengths\<close>

definition weight :: "string list \<Rightarrow> nat" where
  "weight ps = sum_list (map (\<lambda>p. Suc (length p)) ps)"

lemma weight_simps [simp]: "weight [] = 0" "weight (p # ps) = Suc (length p) + weight ps"
  by (simp_all add: weight_def)

lemma weight_rev [simp]: "weight (rev ps) = weight ps"
  by (simp add: weight_def rev_map [symmetric])

lemma weight_append [simp]: "weight (ps @ qs) = weight ps + weight qs"
  by (simp add: weight_def)

lemma weight_tl: "weight (tl ps) \<le> weight ps"
  by (cases ps) auto

lemma length_join: "length (join ''/'' ps) = weight ps - 1"
  by (induction "''/''" ps rule: join.induct) auto

lemma weight_split_on: "weight (split_on c s) = Suc (length s)"
proof (induction s)
  case (Cons x s)
  then show ?case by (cases "split_on c s") auto
qed simp

lemma weight_clean_comps: "weight (clean_comps r out ps) \<le> weight out + weight (filter (\<lambda>p. p \<noteq> []) ps)"
proof (induction r out ps rule: clean_comps.induct)
  case (2 r out p ps)
  then show ?case using weight_tl [of out] by auto
qed simp

text \<open>A leading and a trailing slash each make an empty component.\<close>

lemma split_on_head: "s \<noteq> [] \<Longrightarrow> hd s = c \<Longrightarrow> split_on c s = [] # split_on c (tl s)"
  by (cases s) auto

lemma split_on_last: "split_on c (s @ [c]) = split_on c s @ [[]]"
proof (induction s)
  case (Cons x s)
  then show ?case by (cases "split_on c s") auto
qed simp

lemma weight_nonempty: "weight (filter (\<lambda>p. p \<noteq> []) ps) \<le> weight ps"
  by (induction ps) auto

lemma length_clean: "length (path_clean p) \<le> max 1 (length p)"
proof (cases "p \<noteq> [] \<and> hd p = CHR ''/''")
  case True
  then have "weight (filter (\<lambda>q. q \<noteq> []) (split_on CHR ''/'' p)) \<le> length p"
    using weight_nonempty [of "split_on CHR ''/'' (tl p)"] by (simp add: split_on_head weight_split_on)
  with weight_clean_comps [of True "[]" "split_on CHR ''/'' p"] True show ?thesis
    by (auto simp: path_clean_def length_join Let_def)
next
  case False
  with weight_clean_comps [of False "[]" "split_on CHR ''/'' p"] weight_nonempty [of "split_on CHR ''/'' p"]
  show ?thesis by (auto simp: path_clean_def length_join Let_def weight_split_on)
qed

lemma length_clean_slash:
  assumes "p \<noteq> []" "p \<noteq> ''/''" "last p = CHR ''/''"
  shows "length (path_clean p) < length p"
proof -
  obtain q where q: "p = q @ ''/''" "q \<noteq> []" using assms by (cases p rule: rev_cases) auto
  show ?thesis
  proof (cases "hd q = CHR ''/''")
    case True
    with q have "weight (filter (\<lambda>r. r \<noteq> []) (split_on CHR ''/'' p)) \<le> length q"
      using weight_nonempty [of "split_on CHR ''/'' (tl q)"] by (simp add: split_on_last split_on_head weight_split_on)
    with weight_clean_comps [of True "[]" "split_on CHR ''/'' p"] True q show ?thesis
      by (cases q) (auto simp: path_clean_def length_join Let_def)
  next
    case False
    with q have "weight (filter (\<lambda>r. r \<noteq> []) (split_on CHR ''/'' p)) \<le> Suc (length q)"
      using weight_nonempty [of "split_on CHR ''/'' q"] by (simp add: split_on_last weight_split_on)
    with weight_clean_comps [of False "[]" "split_on CHR ''/'' p"] False q show ?thesis
      by (auto simp: path_clean_def length_join Let_def)
  qed
qed

lemma upto_slash_cases:
  obtains "upto_slash p = p" | "length (upto_slash p) < length p"
proof -
  have "length (upto_slash p) \<le> length p" 
    using length_dropWhile_le [of "\<lambda>c. c \<noteq> CHR ''/''" "rev p"] by (simp add: upto_slash_def)
  moreover have "p = upto_slash p @ rev (takeWhile (\<lambda>c. c \<noteq> CHR ''/'') (rev p))"
    unfolding upto_slash_def by (metis rev_append rev_rev_ident takeWhile_dropWhile_id)
  ultimately show thesis using that by (metis append_eq_conv_conj length_append le_neq_implies_less take_all_iff)
qed

lemma upto_slash_last: "upto_slash p = [] \<or> last (upto_slash p) = CHR ''/''"
proof (cases "upto_slash p")
  case (Cons c cs)
  let ?d = "dropWhile (\<lambda>c. c \<noteq> CHR ''/'') (rev p)"
  have "?d \<noteq> []" using Cons by (auto simp: upto_slash_def)
  then have "hd ?d = CHR ''/''" using hd_dropWhile by blast
  with \<open>?d \<noteq> []\<close> show ?thesis by (simp add: upto_slash_def last_rev)
qed simp

definition path_size :: "string \<Rightarrow> nat" where
  "path_size p = (if p = ''.'' then 0 else Suc (length p))"

lemma path_dir_shrinks:
  assumes "p \<noteq> ''/''" "p \<noteq> ''.''"
  shows "path_size (path_dir p) < path_size p"
proof (cases "upto_slash p = []")
  case True
  then have "path_dir p = ''.''" by (simp add: path_dir_def path_clean_def)
  with assms show ?thesis by (simp add: path_size_def)
next
  case False
  have "length (path_clean (upto_slash p)) < length p \<or> path_clean (upto_slash p) = ''.'' \<or> length p = 1"
  proof (cases p rule: upto_slash_cases)
    case 1
    with length_clean_slash [of p] upto_slash_last [of p] False assms(1) show ?thesis by auto
  next
    case 2
    with length_clean [of "upto_slash p"] show ?thesis by (cases "length p") auto
  qed
  moreover have "length p \<noteq> 1"
  proof
    assume "length p = 1"
    then obtain c where "p = [c]" by (cases p) auto
    with False assms(1) show False by (auto simp: upto_slash_def split: if_splits)
  qed
  ultimately show ?thesis using assms by (auto simp: path_size_def path_dir_def)
qed

section \<open>The nearest existing ancestor\<close>

text \<open>
  The loop of \<open>deviceID\<close> and, from the parent on, of \<open>parentWritable\<close>: \<open>f\<close> is \<open>stat\<close>.
\<close>

function nearest :: "(string \<Rightarrow> 'a option) \<Rightarrow> string \<Rightarrow> 'a option" where
  "nearest f p =
     (case f p of
        Some x \<Rightarrow> Some x
      | None \<Rightarrow> if p = ''/'' \<or> p = ''.'' \<or> p = [] then None else nearest f (path_dir p))"
  by pat_completeness auto

termination
  by (relation "measure (\<lambda>(f, p). path_size p)") (auto intro: path_dir_shrinks)

declare nearest.simps [simp del]

lemma nearest_here [simp]: "f p = Some x \<Longrightarrow> nearest f p = Some x"
  by (subst nearest.simps) simp

lemma nearest_Some: "nearest f p = Some x \<Longrightarrow> \<exists>q. f q = Some x"
proof (induction f p rule: nearest.induct)
  case (1 f p)
  then show ?case by (subst (asm) nearest.simps) (auto split: option.splits if_splits)
qed

end
