(* ===== verification/Diag.thy ===== *)
theory Diag
  imports Paths AppKey Health
begin

text \<open>
  The preflight checks of \<open>firerunner doctor\<close> (\<open>internal/diag/diag.go\<close>, \<open>auth.go\<close>): every check with its
  level and name, in the order the report lists them.  What the checks ask the host, the network and the
  clock is the record \<open>diag_host\<close>; the text of a check is left out.
\<close>

section \<open>The host\<close>

text \<open>\<open>os.Stat\<close> of a path, with the size.\<close>

datatype stat_result = NotThere | StatFails | IsDirectory int | IsFile int

text \<open>The answer to the authenticated request: a status, and the permissions its body decodes to.\<close>

datatype auth_reply = NoAnswer | Answered int "(string, string) gomap option"

datatype credential = PAT string | AppJWT string

text \<open>The daemon's health file: when it was written and the tiers it lists.\<close>

datatype health_read = NoHealthFile | BadHealthFile | HealthFile time "tier_health list"

record diag_host =
  d_euid :: nat
  d_kvm :: bool
  d_lookPath :: "string \<Rightarrow> string option"
  d_versionOK :: "string \<Rightarrow> bool"
  d_stat :: "string \<Rightarrow> stat_result"
  d_open :: "string \<Rightarrow> bool"
  d_iface :: "string \<Rightarrow> bool"
  d_ip_forward :: string
  d_probe :: "string \<Rightarrow> bool"
  d_reflink :: "string \<Rightarrow> bool"
  d_dev :: "string \<Rightarrow> nat option"
  d_get :: "string \<Rightarrow> int option"
  d_auth :: "string \<Rightarrow> credential \<Rightarrow> auth_reply"
  d_health :: health_read
  d_url :: "string \<Rightarrow> url option"
  d_keys :: key_env
  d_jwt :: "string \<Rightarrow> string \<Rightarrow> string option"
  d_now :: time

section \<open>Checks\<close>

datatype check_level = LevelPass | LevelWarn | LevelFail

type_synonym check = "check_level \<times> string"

definition ck_pass :: "string \<Rightarrow> check" where "ck_pass n = (LevelPass, n)"
definition ck_warn :: "string \<Rightarrow> check" where "ck_warn n = (LevelWarn, n)"
definition ck_fail :: "string \<Rightarrow> check" where "ck_fail n = (LevelFail, n)"

definition privileges :: "diag_host \<Rightarrow> FirecrackerConfig \<Rightarrow> check" where
  "privileges H f =
     (if f_Jailer f \<and> d_euid H \<noteq> 0 then ck_fail ''privileges''
      else if d_euid H = 0 then ck_pass ''privileges'' else ck_pass ''privileges'')"

definition binVersion :: "diag_host \<Rightarrow> string \<Rightarrow> string \<Rightarrow> check" where
  "binVersion H name bin =
     (case d_lookPath H bin of
        None \<Rightarrow> ck_fail name
      | Some path \<Rightarrow> if d_versionOK H path then ck_pass name else ck_warn name)"

definition fileCheck :: "diag_host \<Rightarrow> string \<Rightarrow> string \<Rightarrow> int \<Rightarrow> check" where
  "fileCheck H name path minBytes =
     (if path = [] then ck_fail name
      else (case (case d_stat H path of IsDirectory n \<Rightarrow> Some n | IsFile n \<Rightarrow> Some n | _ \<Rightarrow> None) of
              None \<Rightarrow> ck_fail name
            | Some bytes \<Rightarrow>
                if \<not> d_open H path then ck_fail name
                else if bytes < minBytes then ck_warn name else ck_pass name))"

definition parentWritable :: "diag_host \<Rightarrow> string \<Rightarrow> bool" where
  "parentWritable H path =
     (nearest (\<lambda>q. case d_stat H q of
                     IsDirectory _ \<Rightarrow> Some (d_probe H q) | IsFile _ \<Rightarrow> Some False | _ \<Rightarrow> None) (path_dir path) = Some True)"

definition workdirCheck :: "diag_host \<Rightarrow> string \<Rightarrow> check" where
  "workdirCheck H dir =
     (if dir = [] then ck_fail ''workdir''
      else (case d_stat H dir of
              NotThere \<Rightarrow> if \<not> parentWritable H dir then ck_fail ''workdir'' else ck_warn ''workdir''
            | StatFails \<Rightarrow> ck_fail ''workdir''
            | IsFile _ \<Rightarrow> ck_fail ''workdir''
            | IsDirectory _ \<Rightarrow>
                if \<not> d_probe H dir then ck_fail ''workdir''
                else if \<not> d_reflink H dir then ck_warn ''workdir'' else ck_pass ''workdir''))"

definition logDirCheck :: "diag_host \<Rightarrow> string \<Rightarrow> check" where
  "logDirCheck H dir =
     (case d_stat H dir of
        NotThere \<Rightarrow> if \<not> parentWritable H dir then ck_fail ''log-dir'' else ck_warn ''log-dir''
      | StatFails \<Rightarrow> ck_fail ''log-dir''
      | IsFile _ \<Rightarrow> ck_fail ''log-dir''
      | IsDirectory _ \<Rightarrow> if \<not> d_probe H dir then ck_fail ''log-dir'' else ck_pass ''log-dir'')"

definition deviceID :: "diag_host \<Rightarrow> string \<Rightarrow> nat option" where
  "deviceID H path = nearest (d_dev H) path"

definition goldens_elsewhere :: "diag_host \<Rightarrow> nat \<Rightarrow> string list \<Rightarrow> string list" where
  "goldens_elsewhere H wdev goldens =
     filter (\<lambda>g. g \<noteq> [] \<and> (case deviceID H g of None \<Rightarrow> False | Some d \<Rightarrow> d \<noteq> wdev)) goldens"

definition reflinkLocalityCheck :: "diag_host \<Rightarrow> string \<Rightarrow> string list \<Rightarrow> check" where
  "reflinkLocalityCheck H workdir goldens =
     (case deviceID H workdir of
        None \<Rightarrow> ck_warn ''reflink-locality''
      | Some wdev \<Rightarrow>
          if goldens_elsewhere H wdev goldens \<noteq> [] then ck_warn ''reflink-locality''
          else ck_pass ''reflink-locality'')"

text \<open>The images: per Firecracker tier of a catalog, or the one of the flags; with the goldens they name.\<close>

definition tier_images :: "diag_host \<Rightarrow> Tier \<Rightarrow> check list" where
  "tier_images H t =
     fileCheck H (''golden['' @ ti_Name t @ '']'') (ti_Golden t) 67108864 #
     (if ti_ToolCache t \<noteq> [] then [fileCheck H (''toolcache['' @ ti_Name t @ '']'') (ti_ToolCache t) 1048576] else [])"

definition image_checks :: "diag_host \<Rightarrow> Config \<Rightarrow> check list \<times> string list" where
  "image_checks H c =
     (let f = c_Firecracker c; ts = filter (\<lambda>t. \<not> IsEC2 t) (c_Tiers c) in
      if c_Tiers c \<noteq> [] then (concat (map (tier_images H) ts), map ti_Golden ts)
      else (fileCheck H ''golden'' (f_GoldenRootFS f) 67108864 #
              (if f_ToolCacheImage f \<noteq> [] then [fileCheck H ''toolcache'' (f_ToolCacheImage f) 1048576] else []),
            [f_GoldenRootFS f]))"

definition extIfaceCheck :: "diag_host \<Rightarrow> FirecrackerConfig \<Rightarrow> check" where
  "extIfaceCheck H f =
     (if f_ExtIface f = [] then ck_fail ''ext-iface''
      else if \<not> d_iface H (f_ExtIface f) then ck_fail ''ext-iface'' else ck_pass ''ext-iface'')"

definition forwardCheck :: "diag_host \<Rightarrow> check" where
  "forwardCheck H = (if trim_space (d_ip_forward H) = ''1'' then ck_pass ''ip_forward'' else ck_warn ''ip_forward'')"

definition nftCheck :: "diag_host \<Rightarrow> check" where
  "nftCheck H = (if d_lookPath H ''nft'' = None then ck_warn ''nftables'' else ck_pass ''nftables'')"

section \<open>Credentials\<close>

definition githubAPIBase :: "diag_host \<Rightarrow> string \<Rightarrow> string" where
  "githubAPIBase H rawURL =
     (case d_url H rawURL of
        None \<Rightarrow> ''https://api.github.com''
      | Some u \<Rightarrow>
          if u_Host u = [] then ''https://api.github.com''
          else if to_lower (u_Host u) = ''github.com'' \<or> to_lower (u_Host u) = ''www.github.com''
          then ''https://api.github.com''
          else (if u_Scheme u = [] then ''https'' else u_Scheme u) @ ''://'' @ u_Host u @ ''/api/v3'')"

definition authCheck :: "diag_host \<Rightarrow> Config \<Rightarrow> check" where
  "authCheck H c =
     (if c_Token c = [] \<and> c_AppClientID c = [] then ck_fail ''auth''
      else if c_Token c = [] \<and> c_AppInstallID c = 0 then ck_fail ''auth''
      else (case ResolvePrivateKey (d_keys H) c of Inl _ \<Rightarrow> ck_fail ''auth'' | Inr _ \<Rightarrow> ck_pass ''auth''))"

definition trim_slashes :: "string \<Rightarrow> string" where
  "trim_slashes s = rev (dropWhile (\<lambda>c. c = CHR ''/'') (rev (dropWhile (\<lambda>c. c = CHR ''/'') s)))"

definition repoScoped :: "diag_host \<Rightarrow> string \<Rightarrow> bool" where
  "repoScoped H rawURL =
     (case d_url H rawURL of
        None \<Rightarrow> False
      | Some u \<Rightarrow> length (split_on CHR ''/'' (trim_slashes (u_Path u))) \<ge> 2)"

text \<open>The request \<open>authVerify\<close> makes, with the credential it presents; \<open>None\<close> when there is none to make.\<close>

definition verify_request :: "diag_host \<Rightarrow> Config \<Rightarrow> string \<Rightarrow> (string \<times> credential) option" where
  "verify_request H c base =
     (if c_Token c \<noteq> [] then Some (base @ ''/rate_limit'', PAT (c_Token c))
      else (case ResolvePrivateKey (d_keys H) c of
              Inl _ \<Rightarrow> None
            | Inr key \<Rightarrow>
                (case d_jwt H (c_AppClientID c) key of
                   None \<Rightarrow> None
                 | Some jwt \<Rightarrow> Some (base @ ''/app/installations/'' @ show_int (c_AppInstallID c), AppJWT jwt))))"

definition appPermissions :: "(string, string) gomap \<Rightarrow> bool \<Rightarrow> check" where
  "appPermissions granted repo =
     (let need = (if repo then ''administration'' else ''organization_self_hosted_runners'') in
      if mlookup granted need \<noteq> Some ''write'' then ck_fail ''app-permissions''
      else if filter (\<lambda>k. \<not> (k = need \<or> k = ''metadata'')) (keys granted) = [] then ck_pass ''app-permissions''
      else ck_warn ''app-permissions'')"

definition authVerify :: "diag_host \<Rightarrow> Config \<Rightarrow> string \<Rightarrow> check list" where
  "authVerify H c base =
     (case verify_request H c base of
        None \<Rightarrow> [ck_fail ''auth-verify'']
      | Some (u, cred) \<Rightarrow>
          (case d_auth H u cred of
             NoAnswer \<Rightarrow> [ck_warn ''auth-verify'']
           | Answered status perms \<Rightarrow>
               if status = 200 then
                 ck_pass ''auth-verify'' #
                 (if c_Token c = [] then
                    [case perms of None \<Rightarrow> ck_warn ''app-permissions'' | Some g \<Rightarrow> appPermissions g (repoScoped H (c_URL c))]
                  else [])
               else if status = 401 \<or> status = 403 then [ck_fail ''auth-verify'']
               else [ck_warn ''auth-verify'']))"

section \<open>The network and the daemon\<close>

definition apiReach :: "diag_host \<Rightarrow> string \<Rightarrow> check" where
  "apiReach H u =
     (case d_get H u of
        None \<Rightarrow> ck_warn ''github-api''
      | Some status \<Rightarrow> if status \<ge> 500 then ck_warn ''github-api'' else ck_pass ''github-api'')"

definition cacheCheck :: "diag_host \<Rightarrow> FirecrackerConfig \<Rightarrow> check option" where
  "cacheCheck H f =
     (let ask = (\<lambda>u. Some (if d_get H u = None then ck_warn ''dep-cache'' else ck_pass ''dep-cache'')) in
      if f_CacheURL f \<noteq> [] then ask (f_CacheURL f)
      else if f_CachePort f \<noteq> 0 then ask (''http://127.0.0.1:'' @ show_int (f_CachePort f) @ ''/'')
      else None)"

definition listenerStaleAfter :: duration where "listenerStaleAfter = 30 * second"

definition tier_listener :: "tier_health \<Rightarrow> check" where
  "tier_listener t =
     (let name = ''listener['' @ th_Name t @ '']'' in
      case th_State t of
        Failed \<Rightarrow> ck_fail name
      | Reconnecting \<Rightarrow> ck_warn name
      | Connected \<Rightarrow> if th_Drift t \<noteq> [] then ck_warn name else ck_pass name)"

definition listenerChecks :: "diag_host \<Rightarrow> check list" where
  "listenerChecks H =
     (case d_health H of
        NoHealthFile \<Rightarrow> [ck_pass ''listeners'']
      | BadHealthFile \<Rightarrow> [ck_warn ''listeners'']
      | HealthFile written tiers \<Rightarrow>
          if d_now H - written > listenerStaleAfter then [ck_warn ''listeners'']
          else map tier_listener tiers)"

section \<open>The report\<close>

definition doctor_checks :: "diag_host \<Rightarrow> Config \<Rightarrow> check list" where
  "doctor_checks H c =
     (let f = c_Firecracker c; (images, goldens) = image_checks H c; base = githubAPIBase H (c_URL c);
          auth = authCheck H c in
      [privileges H f, if d_kvm H then ck_pass ''kvm'' else ck_fail ''kvm'', binVersion H ''firecracker'' (f_Binary f)] @
      (if f_Jailer f then [binVersion H ''jailer'' (f_JailerBin f)] else []) @
      [fileCheck H ''kernel'' (f_KernelImage f) 1048576] @ images @
      [extIfaceCheck H f, forwardCheck H, nftCheck H, workdirCheck H (f_WorkDir f),
       reflinkLocalityCheck H (f_WorkDir f) goldens] @
      (if f_LogDir f \<noteq> [] then [logDirCheck H (f_LogDir f)] else []) @
      [auth] @ (if fst auth = LevelPass then authVerify H c base else []) @ [apiReach H base] @
      (case cacheCheck H f of None \<Rightarrow> [] | Some k \<Rightarrow> [k]) @ listenerChecks H)"

record DoctorReport =
  dr_Checks :: "check list"
  dr_Total :: nat
  dr_Failed :: nat
  dr_OK :: bool

definition runDoctor :: "diag_host \<Rightarrow> Config \<Rightarrow> DoctorReport" where
  "runDoctor H c =
     (let cs = doctor_checks H c;
          failed = foldl (\<lambda>n k. if fst k = LevelFail then Suc n else n) 0 cs in
      \<lparr>dr_Checks = cs, dr_Total = length cs, dr_Failed = failed, dr_OK = (failed = 0)\<rparr>)"

text \<open>\<open>Doctor\<close> returns an error, and the process a status other than 0, when a check failed or a write did.\<close>

definition Doctor :: "diag_host \<Rightarrow> Config \<Rightarrow> bool \<Rightarrow> bool \<Rightarrow> bool" where
  "Doctor H c asJSON writes \<longleftrightarrow> \<not> (asJSON \<and> \<not> writes) \<and> dr_Failed (runDoctor H c) = 0"

end
