(* ===== verification/Diag_Claims.thy ===== *)
theory Diag_Claims
  imports Diag Config_Claims GitHub
begin

text \<open>
  What \<open>doctor\<close> vouches for: it succeeds exactly on a host and a configuration with everything the checks
  are about, and where it looks at something else than the daemon does.
\<close>

section \<open>The specification\<close>

definition readable :: "diag_host \<Rightarrow> string \<Rightarrow> bool" where
  "readable H p \<longleftrightarrow> p \<noteq> [] \<and> (\<exists>n. d_stat H p = IsDirectory n \<or> d_stat H p = IsFile n) \<and> d_open H p"

text \<open>A directory files can be made in, or that can itself be made: its nearest existing ancestor is one.\<close>

definition usable_dir :: "diag_host \<Rightarrow> string \<Rightarrow> bool" where
  "usable_dir H p \<longleftrightarrow>
     (\<exists>n. d_stat H p = IsDirectory n) \<and> d_probe H p \<or> d_stat H p = NotThere \<and> parentWritable H p"

definition images_of :: "Config \<Rightarrow> string set" where
  "images_of c =
     (if c_Tiers c \<noteq> []
      then \<Union> {{ti_Golden t} \<union> ({ti_ToolCache t} - {[]}) | t. t \<in> set (c_Tiers c) \<and> \<not> IsEC2 t}
      else {f_GoldenRootFS (c_Firecracker c)} \<union> ({f_ToolCacheImage (c_Firecracker c)} - {[]}))"

text \<open>The credential is complete, and GitHub does not refuse it or lack the grant runners need.\<close>

definition needed_permission :: "diag_host \<Rightarrow> Config \<Rightarrow> string" where
  "needed_permission H c =
     (if repoScoped H (c_URL c) then ''administration'' else ''organization_self_hosted_runners'')"

definition credentials_hold :: "diag_host \<Rightarrow> Config \<Rightarrow> bool" where
  "credentials_hold H c \<longleftrightarrow>
     (c_Token c \<noteq> [] \<or> c_AppClientID c \<noteq> [] \<and> c_AppInstallID c \<noteq> 0) \<and>
     (\<exists>k. ResolvePrivateKey (d_keys H) c = Inr k) \<and>
     (\<exists>u cred. verify_request H c (githubAPIBase H (c_URL c)) = Some (u, cred) \<and>
        (\<forall>st g. d_auth H u cred = Answered st g \<longrightarrow>
           st \<noteq> 401 \<and> st \<noteq> 403 \<and>
           (\<forall>perms. st = 200 \<longrightarrow> c_Token c = [] \<longrightarrow> g = Some perms \<longrightarrow>
              mlookup perms (needed_permission H c) = Some ''write'')))"

definition no_tier_failed :: "diag_host \<Rightarrow> bool" where
  "no_tier_failed H \<longleftrightarrow>
     (\<forall>w ts. d_health H = HealthFile w ts \<longrightarrow> d_now H - w \<le> 30 * second \<longrightarrow> (\<forall>t \<in> set ts. th_State t \<noteq> Failed))"

definition host_ready :: "diag_host \<Rightarrow> Config \<Rightarrow> bool" where
  "host_ready H c \<longleftrightarrow>
     (let f = c_Firecracker c in
      (f_Jailer f \<longrightarrow> d_euid H = 0) \<and> d_kvm H \<and> d_lookPath H (f_Binary f) \<noteq> None \<and>
      (f_Jailer f \<longrightarrow> d_lookPath H (f_JailerBin f) \<noteq> None) \<and>
      readable H (f_KernelImage f) \<and> (\<forall>p \<in> images_of c. readable H p) \<and>
      f_ExtIface f \<noteq> [] \<and> d_iface H (f_ExtIface f) \<and>
      f_WorkDir f \<noteq> [] \<and> usable_dir H (f_WorkDir f) \<and>
      (f_LogDir f \<noteq> [] \<longrightarrow> usable_dir H (f_LogDir f)) \<and>
      credentials_hold H c \<and> no_tier_failed H)"

section \<open>Check by check\<close>

definition fine :: "check \<Rightarrow> bool" where
  "fine k \<longleftrightarrow> fst k \<noteq> LevelFail"

lemma fine_levels [simp]: "fine (ck_pass n)" "fine (ck_warn n)" "\<not> fine (ck_fail n)"
  by (simp_all add: fine_def ck_pass_def ck_warn_def ck_fail_def)

lemma fine_privileges: "fine (privileges H f) \<longleftrightarrow> (f_Jailer f \<longrightarrow> d_euid H = 0)"
  by (simp add: privileges_def)

lemma fine_binVersion: "fine (binVersion H n b) \<longleftrightarrow> d_lookPath H b \<noteq> None"
  by (auto simp: binVersion_def split: option.splits)

lemma fine_fileCheck: "fine (fileCheck H n p m) \<longleftrightarrow> readable H p"
  by (auto simp: fileCheck_def readable_def split: stat_result.splits)

lemma fine_workdirCheck: "fine (workdirCheck H p) \<longleftrightarrow> p \<noteq> [] \<and> usable_dir H p"
  by (auto simp: workdirCheck_def usable_dir_def split: stat_result.splits)

lemma fine_logDirCheck: "fine (logDirCheck H p) \<longleftrightarrow> usable_dir H p"
  by (auto simp: logDirCheck_def usable_dir_def split: stat_result.splits)

lemma fine_never:
  "fine (reflinkLocalityCheck H w gs)" "fine (forwardCheck H)" "fine (nftCheck H)" "fine (apiReach H u)"
  "cacheCheck H f = Some k \<Longrightarrow> fine k"
  by (auto simp: reflinkLocalityCheck_def forwardCheck_def nftCheck_def apiReach_def cacheCheck_def Let_def
      split: option.splits if_splits)

lemma fine_extIface: "fine (extIfaceCheck H f) \<longleftrightarrow> f_ExtIface f \<noteq> [] \<and> d_iface H (f_ExtIface f)"
  by (simp add: extIfaceCheck_def)

lemma fine_images: "list_all fine (fst (image_checks H c)) \<longleftrightarrow> (\<forall>p \<in> images_of c. readable H p)"
proof (cases "c_Tiers c = []")
  case True
  then show ?thesis by (auto simp: image_checks_def images_of_def fine_fileCheck Let_def)
next
  case False
  have "list_all fine (tier_images H t) \<longleftrightarrow> (\<forall>p \<in> {ti_Golden t} \<union> ({ti_ToolCache t} - {[]}). readable H p)" for t
    by (auto simp: tier_images_def fine_fileCheck)
  then have "list_all fine (concat (map (tier_images H) ts)) \<longleftrightarrow>
      (\<forall>t \<in> set ts. \<forall>p \<in> {ti_Golden t} \<union> ({ti_ToolCache t} - {[]}). readable H p)" for ts
    by (induction ts) auto
  with False show ?thesis by (simp add: image_checks_def images_of_def Let_def) blast
qed

lemma fine_auth: "fine (authCheck H c) \<longleftrightarrow>
   (c_Token c \<noteq> [] \<or> c_AppClientID c \<noteq> [] \<and> c_AppInstallID c \<noteq> 0) \<and> (\<exists>k. ResolvePrivateKey (d_keys H) c = Inr k)"
  by (auto simp: authCheck_def split: sum.splits)

lemma auth_level: "fst (authCheck H c) = LevelPass \<longleftrightarrow> fine (authCheck H c)"
  by (auto simp: authCheck_def fine_def ck_pass_def ck_fail_def split: sum.splits)

lemma fine_permissions:
  "fine (appPermissions g repo) \<longleftrightarrow>
     mlookup g (if repo then ''administration'' else ''organization_self_hosted_runners'') = Some ''write''"
  by (simp add: appPermissions_def Let_def)

lemma fine_verify:
  "list_all fine (authVerify H c base) \<longleftrightarrow>
     (\<exists>u cred. verify_request H c base = Some (u, cred) \<and>
        (\<forall>st g. d_auth H u cred = Answered st g \<longrightarrow>
           st \<noteq> 401 \<and> st \<noteq> 403 \<and>
           (\<forall>perms. st = 200 \<longrightarrow> c_Token c = [] \<longrightarrow> g = Some perms \<longrightarrow>
              mlookup perms (needed_permission H c) = Some ''write'')))"
proof (cases "verify_request H c base")
  case (Some r)
  obtain u cred where r: "r = (u, cred)" by fastforce
  show ?thesis
    by (cases "d_auth H u cred")
       (auto simp: authVerify_def Some r fine_permissions needed_permission_def split: option.splits)
qed (simp add: authVerify_def)

lemma fine_listeners: "list_all fine (listenerChecks H) \<longleftrightarrow> no_tier_failed H"
proof -
  have t: "fine (tier_listener t) \<longleftrightarrow> th_State t \<noteq> Failed" for t
    by (cases "th_State t") (simp_all add: tier_listener_def Let_def)
  show ?thesis
    by (cases "d_health H") (auto simp: listenerChecks_def no_tier_failed_def listenerStaleAfter_def t list_all_iff)
qed

lemma failed_count: "foldl (\<lambda>n k. if fst k = LevelFail then Suc n else n) m cs = m + length (filter (\<lambda>k. \<not> fine k) cs)"
  by (induction cs arbitrary: m) (auto simp: fine_def)

lemma report_counts:
  "dr_Failed (runDoctor H c) = length (filter (\<lambda>k. \<not> fine k) (doctor_checks H c))"
  "dr_OK (runDoctor H c) \<longleftrightarrow> dr_Failed (runDoctor H c) = 0" "dr_Checks (runDoctor H c) = doctor_checks H c"
  by (simp_all add: runDoctor_def Let_def failed_count)

lemma checks_fine: "list_all fine (doctor_checks H c) \<longleftrightarrow> host_ready H c"
proof -
  obtain ims gs where i: "image_checks H c = (ims, gs)" by fastforce
  have im: "list_all fine ims \<longleftrightarrow> (\<forall>p \<in> images_of c. readable H p)" using fine_images [of H c] i by simp
  have cache: "list_all fine (case cacheCheck H f of None \<Rightarrow> [] | Some k \<Rightarrow> [k])" for f
    using fine_never(5) [of H f] by (simp split: option.split)
  have kvm: "fine (if d_kvm H then ck_pass ''kvm'' else ck_fail ''kvm'') \<longleftrightarrow> d_kvm H" by simp
  show ?thesis
    unfolding doctor_checks_def i Let_def case_prod_conv list_all_append
    by (simp add: host_ready_def Let_def auth_level im cache kvm fine_privileges fine_binVersion fine_fileCheck
        fine_workdirCheck fine_logDirCheck fine_never(1-4) fine_extIface fine_verify fine_listeners
        credentials_hold_def fine_auth) blast
qed

lemma ready_iff: "Doctor H c asJSON True \<longleftrightarrow> host_ready H c"
  using checks_fine [of H c] by (simp add: Doctor_def report_counts(1) list_all_iff filter_empty_conv)

text \<open>
  C38. The preflight check succeeds exactly on a ready host: with the report written, \<open>doctor\<close> exits with
  status 0 if and only if the daemon has the privileges its jailer needs, KVM and the binaries, every image
  the configuration names can be read, the uplink exists, the directories can be written or made, GitHub
  accepts the credential with the one grant runners need, and no tier of a live daemon has failed.  The
  report counts the failures and says the same.
\<close>

theorem doctor_exact:
  "Doctor H c asJSON True = host_ready H c \<and>
   dr_OK (runDoctor H c) = host_ready H c \<and>
   dr_Failed (runDoctor H c) = length (filter (\<lambda>k. fst k = LevelFail) (dr_Checks (runDoctor H c)))"
  using ready_iff [of H c asJSON] report_counts [of H c] by (simp add: Doctor_def fine_def)

section \<open>Where it looks at something else\<close>

text \<open>
  The credential the scale set client gets (\<open>newClient\<close>): the App's when it is complete, which the client
  library's \<open>Validate\<close> decides, the personal token otherwise.
\<close>

datatype client_auth = ByApp string int string | ByPAT string

definition newClient :: "(string \<Rightarrow> int \<Rightarrow> string \<Rightarrow> bool) \<Rightarrow> Config \<Rightarrow> string \<Rightarrow> client_auth" where
  "newClient app_valid c key =
     (if app_valid (c_AppClientID c) (c_AppInstallID c) key
      then ByApp (c_AppClientID c) (c_AppInstallID c) key else ByPAT (c_Token c))"

text \<open>With a token beside a complete App the daemon uses the App and \<open>doctor\<close> verifies the token.\<close>

lemma doctor_other_credential:
  assumes "c_Token c \<noteq> []" "ResolvePrivateKey (d_keys H) c = Inr key"
    and "app_valid (c_AppClientID c) (c_AppInstallID c) key"
  shows "newClient app_valid c key = ByApp (c_AppClientID c) (c_AppInstallID c) key"
    and "verify_request H c base = Some (base @ ''/rate_limit'', PAT (c_Token c))"
    and "list_all (\<lambda>k. snd k \<noteq> ''app-permissions'') (authVerify H c base)"
  using assms by (auto simp: newClient_def verify_request_def authVerify_def ck_pass_def ck_fail_def ck_warn_def
      split: auth_reply.splits)

text \<open>An install with EC2 tiers only needs no kernel, but \<open>doctor\<close> refuses every host without one.\<close>

definition demo_ec2_only :: Config where
  "demo_ec2_only =
     zeroConfig\<lparr>c_URL := ''u'', c_Token := ''t'', c_VCPU := 1, c_MemMiB := 128, c_EC2Reaper := ''on'', c_MaxRunners := 1,
       c_Tiers := tl demo_loaded, c_JITHost := ''control.internal'', c_JITAddr := ''10.0.0.5:8098'', c_JITTTL := 5 * minute\<rparr>"

lemma demo_ec2_only_valid: "validate demo_cenv demo_ec2_only = None"
proof -
  have "\<not> UsesFirecracker demo_ec2_only" by code_simp
  moreover have "c_Tiers demo_ec2_only \<noteq> []" by code_simp
  ultimately have r: "validateRequired demo_ec2_only = None"
    by (simp add: validateRequired_def Let_def first_error_None_iff demo_ec2_only_def zeroConfig_def)
  have t: "validateTiers demo_cenv demo_ec2_only = None" by code_simp
  have j: "validateJIT demo_ec2_only = None" by (rule demo_jit_ok) (simp_all add: demo_ec2_only_def)
  have "validateRest demo_cenv demo_ec2_only = None"
    by (simp add: validateRest_def demo_ec2_only_def zeroConfig_def Let_def first_error_None_iff)
  with r t j show ?thesis by (simp add: validate_def)
qed

lemma doctor_refuses_ec2_only:
  "validate demo_cenv demo_ec2_only = None \<and> \<not> Doctor H demo_ec2_only asJSON writes"
proof -
  have "\<not> readable H (f_KernelImage (c_Firecracker demo_ec2_only))"
    by (simp add: readable_def demo_ec2_only_def zeroConfig_def)
  then have "\<not> Doctor H demo_ec2_only asJSON True" using ready_iff by (simp add: host_ready_def Let_def)
  then show ?thesis using demo_ec2_only_valid by (simp add: Doctor_def)
qed

text \<open>For a data residency host \<open>doctor\<close> asks another address than the resolver of job identities.\<close>

lemma doctor_other_api:
  assumes "d_url H u = Some p" "u_Scheme p = ''https''" "u_Host p = ''acme.ghe.com''"
  shows "githubAPIBase H u = ''https://acme.ghe.com/api/v3''"
    and "NewGitHub (Some (''https'', ''acme.ghe.com'')) False = Some ''https://api.acme.ghe.com''"
proof -
  have l: "to_lower ''acme.ghe.com'' = ''acme.ghe.com''" by code_simp
  show "githubAPIBase H u = ''https://acme.ghe.com/api/v3''" using assms by (simp add: githubAPIBase_def l)
  show "NewGitHub (Some (''https'', ''acme.ghe.com'')) False = Some ''https://api.acme.ghe.com''" by code_simp
qed

end
