(* ===== verification/Status.thy ===== *)
theory Status
  imports Diag
begin

text \<open>
  The snapshot \<open>firerunner status\<close> reports (\<open>internal/diag/diag.go\<close>): the deployment, the tiers, the
  listeners and the live microVMs, and the small texts its table is made of.  The directory listings, the
  process table and the interfaces are arguments.  The version, the runner group, the kind of the work dir's
  file system, sizes and ages of VMs, the cache's own counters, numbers printed through floating point (sizes, the hit
  rate), the layout of the table and the JSON are left out.
\<close>

section \<open>Small texts\<close>

definition or_dash :: "string \<Rightarrow> string \<Rightarrow> string" where
  "or_dash s d = (if s = [] then d else s)"

definition nonEmpty :: "string list \<Rightarrow> string list" where
  "nonEmpty xs = filter (\<lambda>s. trim_space s \<noteq> []) xs"

definition isPID :: "string \<Rightarrow> bool" where
  "isPID name \<longleftrightarrow> name \<noteq> [] \<and> list_all is_digit name"

definition firstLine :: "string \<Rightarrow> string" where
  "firstLine s = trim_space (takeWhile (\<lambda>c. c \<noteq> CHR 0x0A) s)"

text \<open>On ASCII text a rune is a byte; the mark of the cut is one rune of three bytes.\<close>

definition ellipsis :: string where "ellipsis = [CHR 0xE2, CHR 0x80, CHR 0xA6]"

definition truncate_text :: "string \<Rightarrow> nat \<Rightarrow> string" where
  "truncate_text s n = (if length s \<le> n then s else take (n - 1) s @ ellipsis)"

definition egressDesc :: "string list \<Rightarrow> string" where
  "egressDesc cats = (if cats = [] then ''none (deny-all)'' else join ''+'' cats)"

definition ifaceStateStr :: "string \<Rightarrow> bool \<Rightarrow> string" where
  "ifaceStateStr name up = (if name = [] then ''(unset)'' else if \<not> up then name @ ''(missing)'' else name)"

definition ifaceUp :: "diag_host \<Rightarrow> string \<Rightarrow> bool" where
  "ifaceUp H name \<longleftrightarrow> name \<noteq> [] \<and> d_iface H name"

text \<open>\<open>Round(time.Second)\<close>: to the nearest second, halves away from zero.\<close>

definition round_second :: "duration \<Rightarrow> int" where
  "round_second d = (if d \<ge> 0 then (d + second div 2) div second else - ((- d + second div 2) div second))"

definition humanDuration :: "duration \<Rightarrow> string" where
  "humanDuration d =
     (let s = round_second d in
      if s < 60 then show_int s @ ''s''
      else if s < 3600 then show_int (s div 60) @ ''m'' @ show_int (s mod 60) @ ''s''
      else show_int (s div 3600) @ ''h'' @ show_int (s div 60 mod 60) @ ''m'')"

record FileStat =
  fs_Path :: string
  fs_Exists :: bool
  fs_Bytes :: int

definition statFile :: "diag_host \<Rightarrow> string \<Rightarrow> FileStat" where
  "statFile H path =
     (let none = \<lparr>fs_Path = path, fs_Exists = False, fs_Bytes = 0\<rparr> in
      if path = [] then none
      else (case d_stat H path of
              NotThere \<Rightarrow> none
            | StatFails \<Rightarrow> none
            | IsDirectory n \<Rightarrow> none\<lparr>fs_Exists := True, fs_Bytes := n\<rparr>
            | IsFile n \<Rightarrow> none\<lparr>fs_Exists := True, fs_Bytes := n\<rparr>))"

section \<open>Live microVMs\<close>

text \<open>A process: the name of its \<open>/proc\<close> entry, \<open>comm\<close>, \<open>cmdline\<close> and where its root link points.\<close>

record proc =
  pr_name :: string
  pr_isDir :: bool
  pr_comm :: string
  pr_cmdline :: string
  pr_root :: string

definition procMatchesInstance :: "string \<Rightarrow> string \<Rightarrow> FirecrackerConfig \<Rightarrow> bool" where
  "procMatchesInstance cmdline rootLink f \<longleftrightarrow>
     f_WorkDir f \<noteq> [] \<and> contains cmdline (path_clean (f_WorkDir f) @ ''/'') \<or>
     f_ChrootBase f \<noteq> [] \<and> rootLink \<noteq> [] \<and> has_prefix rootLink (path_clean (f_ChrootBase f) @ ''/'')"

definition nul_to_space :: "string \<Rightarrow> string" where
  "nul_to_space s = map (\<lambda>c. if c = CHR 0x00 then CHR '' '' else c) s"

definition procBelongsToInstance :: "proc \<Rightarrow> FirecrackerConfig \<Rightarrow> bool" where
  "procBelongsToInstance p f \<longleftrightarrow> procMatchesInstance (nul_to_space (pr_cmdline p)) (pr_root p) f"

definition firecrackerProcs :: "FirecrackerConfig \<Rightarrow> proc list option \<Rightarrow> int" where
  "firecrackerProcs f entries =
     (case entries of
        None \<Rightarrow> - 1
      | Some ps \<Rightarrow>
          int (length (filter (\<lambda>p. pr_isDir p \<and> isPID (pr_name p) \<and> trim_space (pr_comm p) = ''firecracker'' \<and>
                                   procBelongsToInstance p f) ps)))"

definition countTaps :: "string \<Rightarrow> string list option \<Rightarrow> int" where
  "countTaps tap ifaces =
     (case ifaces of None \<Rightarrow> - 1 | Some is \<Rightarrow> int (length (filter (\<lambda>i. has_prefix i tap) is)))"

text \<open>
  The names \<open>activeVMs\<close> gives the sockets the two globs found: the direct ones, and with the jailer those of
  the chroots.  It also sorts them, which only the printed table shows.
\<close>

definition path_base :: "string \<Rightarrow> string" where
  "path_base p =
     (if p = [] then ''.''
      else (let q = rev (dropWhile (\<lambda>c. c = CHR ''/'') (rev p)) in
            if q = [] then ''/'' else rev (takeWhile (\<lambda>c. c \<noteq> CHR ''/'') (rev q))))"

definition vm_name :: "string \<Rightarrow> string" where
  "vm_name sock =
     (if has_suffix sock ''firecracker.socket'' then path_base (path_dir (path_dir (path_dir sock)))
      else path_base (path_dir sock))"

definition activeVMs :: "FirecrackerConfig \<Rightarrow> string list \<Rightarrow> string list \<Rightarrow> string list" where
  "activeVMs f socks jailSocks = map vm_name (socks @ (if f_Jailer f then jailSocks else []))"

section \<open>The report\<close>

record TierInfo =
  tn_Name :: string
  tn_Labels :: "string list"
  tn_Provisioner :: string
  tn_VCPU :: int
  tn_MemMiB :: int
  tn_Golden :: "FileStat option"
  tn_ToolCache :: "FileStat option"
  tn_InstanceTypes :: "string list"
  tn_Market :: string
  tn_Min :: int
  tn_Max :: int

definition tier_info :: "diag_host \<Rightarrow> Tier \<Rightarrow> TierInfo" where
  "tier_info H t =
     (let ti = \<lparr>tn_Name = ti_Name t, tn_Labels = ti_Labels t, tn_Provisioner = ProvisionerName t, tn_VCPU = 0, tn_MemMiB = 0,
                tn_Golden = None, tn_ToolCache = None, tn_InstanceTypes = [], tn_Market = [], tn_Min = ti_Min t,
                tn_Max = ti_Max t\<rparr> in
      if IsEC2 t then
        (case ti_EC2 t of None \<Rightarrow> ti | Some e \<Rightarrow> ti\<lparr>tn_InstanceTypes := t_InstanceTypes e, tn_Market := t_Market e\<rparr>)
      else ti\<lparr>tn_VCPU := ti_VCPU t, tn_MemMiB := ti_MemMiB t, tn_Golden := Some (statFile H (ti_Golden t)),
              tn_ToolCache := (if ti_ToolCache t \<noteq> [] then Some (statFile H (ti_ToolCache t)) else None)\<rparr>)"

datatype cache_mode = CacheURL string | CacheGateway int

definition cache_info :: "FirecrackerConfig \<Rightarrow> cache_mode option" where
  "cache_info f =
     (if f_CacheURL f \<noteq> [] then Some (CacheURL (f_CacheURL f))
      else if f_CachePort f \<noteq> 0 then Some (CacheGateway (f_CachePort f)) else None)"

definition isolation_mode :: "FirecrackerConfig \<Rightarrow> string" where
  "isolation_mode f = (if f_Jailer f then (if f_NetNS f then ''jailer+netns'' else ''jailer'') else ''direct'')"

text \<open>\<open>readListeners\<close>: the tiers of the health file, and whether it is stale.\<close>

definition readListeners :: "diag_host \<Rightarrow> (tier_health list \<times> bool) option" where
  "readListeners H =
     (case d_health H of
        HealthFile written tiers \<Rightarrow> Some (tiers, d_now H - written > listenerStaleAfter)
      | _ \<Rightarrow> None)"

record StatusReport =
  st_ScaleSet :: string
  st_URL :: string
  st_VCPU :: int
  st_MemMiB :: int
  st_ExtIface :: string
  st_TapPrefix :: string
  st_NFTTable :: string
  st_Workdir :: string
  st_ReflinkCapable :: bool
  st_Labels :: "string list"
  st_Warm :: int
  st_Max :: int
  st_Kernel :: FileStat
  st_Golden :: FileStat
  st_ToolCache :: "FileStat option"
  st_Isolation :: string
  st_ExtIfaceUp :: bool
  st_Egress :: string
  st_Subnet :: string
  st_Cache :: "cache_mode option"
  st_Tiers :: "TierInfo list"
  st_Listeners :: "(tier_health list \<times> bool) option"
  st_VMs :: "string list"
  st_Active :: nat
  st_Procs :: int
  st_Taps :: int

definition collectStatus ::
  "diag_host \<Rightarrow> Config \<Rightarrow> string list \<Rightarrow> string list \<Rightarrow> proc list option \<Rightarrow> string list option \<Rightarrow> StatusReport" where
  "collectStatus H c socks jailSocks procs ifaces =
     (let f = c_Firecracker c in
      \<lparr>st_ScaleSet = c_ScaleSetName c, st_URL = c_URL c, st_VCPU = c_VCPU c, st_MemMiB = c_MemMiB c,
       st_ExtIface = f_ExtIface f, st_TapPrefix = f_TapPrefix f, st_NFTTable = f_NFTTable f, st_Workdir = f_WorkDir f,
       st_ReflinkCapable = d_reflink H (f_WorkDir f),
       st_Labels = nonEmpty (c_ScaleSetName c # c_Labels c), st_Warm = c_MinRunners c, st_Max = c_MaxRunners c,
       st_Kernel = statFile H (f_KernelImage f), st_Golden = statFile H (f_GoldenRootFS f),
       st_ToolCache = (if f_ToolCacheImage f \<noteq> [] then Some (statFile H (f_ToolCacheImage f)) else None),
       st_Isolation = isolation_mode f, st_ExtIfaceUp = ifaceUp H (f_ExtIface f),
       st_Egress = egressDesc (e_Categories (f_Egress f)),
       st_Subnet = ''172.'' @ show_nat (f_NetBase f) @ ''.0.0/16'', st_Cache = cache_info f,
       st_Tiers = map (tier_info H) (c_Tiers c), st_Listeners = readListeners H,
       st_VMs = activeVMs f socks jailSocks, st_Active = length (activeVMs f socks jailSocks), st_Procs = firecrackerProcs f procs,
       st_Taps = countTaps (f_TapPrefix f) ifaces\<rparr>)"

section \<open>Whose processes are counted\<close>

lemma clean_comps_append: "clean_comps r out (ps @ qs) = clean_comps r (clean_comps r out ps) qs"
  by (induction r out ps rule: clean_comps.induct) auto

lemma join_snoc: "ps \<noteq> [] \<Longrightarrow> join sep (ps @ [p]) = join sep ps @ sep @ p"
proof (induction sep ps rule: join.induct)
  case (3 sep x y ys)
  then show ?case by (cases ys) simp_all
qed simp_all

definition plain_name :: "string \<Rightarrow> bool" where
  "plain_name n \<longleftrightarrow> n \<noteq> [] \<and> n \<noteq> ''.'' \<and> n \<noteq> ''..'' \<and> CHR ''/'' \<notin> set n"

text \<open>Below a directory other than the root and the current one, a plain name extends the cleaned path.\<close>

lemma file_join_plain:
  assumes n: "plain_name n" and d: "d \<noteq> []" "path_clean d \<noteq> ''/''" "path_clean d \<noteq> ''.''"
  shows "file_join d n = path_clean d @ ''/'' @ n"
proof -
  define r where "r \<longleftrightarrow> hd d = CHR ''/''"
  define kept where "kept = rev (clean_comps r [] (split_on CHR ''/'' d))"
  define body where "body = join ''/'' kept"
  have e: "path_clean d = (if r then CHR ''/'' # body else if body = [] then ''.'' else body)"
    using d(1) by (simp add: path_clean_def Let_def r_def kept_def body_def)
  have ne: "body \<noteq> []" using d(2,3) unfolding e by (auto split: if_splits)
  then have "kept \<noteq> []" by (auto simp: body_def)
  have s: "split_on CHR ''/'' (d @ ''/'' @ n) = split_on CHR ''/'' d @ [n]"
    using split_on_parts [of "CHR ''/''" d n] n by (simp add: split_on_none plain_name_def)
  have "rev (clean_comps r [] (split_on CHR ''/'' (d @ ''/'' @ n))) = kept @ [n]"
    using n unfolding s clean_comps_append by (simp add: plain_name_def kept_def)
  then have "join ''/'' (rev (clean_comps r [] (split_on CHR ''/'' (d @ ''/'' @ n)))) = body @ ''/'' @ n"
    using join_snoc [OF \<open>kept \<noteq> []\<close>, of "''/''" n] by (simp add: body_def)
  then have "path_clean (d @ ''/'' @ n) = (if r then CHR ''/'' # body @ ''/'' @ n else body @ ''/'' @ n)"
    using d(1) unfolding path_clean_def by (cases r) (simp_all add: r_def Let_def)
  with d(1) ne show ?thesis unfolding e by (simp add: file_join_def)
qed

text \<open>A VMM this instance started directly, whose command line names its socket below the work dir, is counted.\<close>

lemma own_vmm_counted:
  assumes d: "f_WorkDir f \<noteq> []" "path_clean (f_WorkDir f) \<noteq> ''/''" "path_clean (f_WorkDir f) \<noteq> ''.''"
    and n: "plain_name name"
    and cmd: "contains cmdline (file_join (f_WorkDir f) name @ rest)"
  shows "procMatchesInstance cmdline rootLink f"
proof -
  have "contains (file_join (f_WorkDir f) name @ rest) (path_clean (f_WorkDir f) @ ''/'')"
    unfolding file_join_plain [OF n d] sublist_def by (rule exI [of _ "[]"]) simp
  with cmd d(1) show ?thesis unfolding procMatchesInstance_def by (auto intro: sublist_order.order.trans)
qed

text \<open>
  The match is anchored at its end only.  A peer whose work dir ends in this instance's is counted too.
\<close>

lemma peer_miscounted:
  "procMatchesInstance ''firecracker --api-sock /var/tmp/firerunner/a/fc.sock --id a'' []
     ((c_Firecracker zeroConfig)\<lparr>f_WorkDir := ''/tmp/firerunner''\<rparr>)"
proof -
  have c: "path_clean ''/tmp/firerunner'' = ''/tmp/firerunner''" by code_simp
  have "contains (''firecracker --api-sock /var'' @ ''/tmp/firerunner/'' @ ''a/fc.sock --id a'') ''/tmp/firerunner/''"
    unfolding sublist_def by blast
  then show ?thesis by (simp add: procMatchesInstance_def c)
qed

end
