(* ===== verification/EC2_Watch.thy ===== *)
theory EC2_Watch
  imports EC2_Api
begin

text \<open>
  The watcher (\<open>internal/ec2/watch.go\<close>): one loop that describes every instance some launch waits on, in
  batches, and hands each waiter its instance's latest state.

  A channel of capacity one is a number with the value it holds.  The empty state name that a map lookup
  of an absent key gives is \<open>None\<close>.  A described instance without an ID counts as one with an empty ID.
\<close>

section \<open>Describing\<close>

definition describeBatch :: nat where "describeBatch = 100"

type_synonym states = "(string, instance_state option) gomap"

fun states_put :: "ec2_instance list \<Rightarrow> states \<Rightarrow> states" where
  "states_put [] m = m"
| "states_put (i # is) m = states_put is (if i_id i \<noteq> [] then mput (i_id i) (Some (i_state i)) m else m)"

definition watch_describe :: "'w env \<Rightarrow> string list \<Rightarrow> 'w ec2 \<Rightarrow> (aws_error + states) \<times> 'w ec2" where
  "watch_describe E ids s =
     (case aws E (DescribeInstances ids) s of
        (Refused e, s) \<Rightarrow> (Inl e, s)
      | (Found is, s) \<Rightarrow> (Inr (states_put is []), s)
      | (_, s) \<Rightarrow> (Inr [], s))"

text \<open>The fallback: each ID alone.  An ID the reply leaves out gets the zero value.\<close>

fun describe_alone :: "'w env \<Rightarrow> string list \<Rightarrow> states \<Rightarrow> 'w ec2 \<Rightarrow> states \<times> 'w ec2" where
  "describe_alone E [] m s = (m, s)"
| "describe_alone E (i # ids) m s =
     (case watch_describe E [i] s of
        (Inr t, s) \<Rightarrow>
          describe_alone E ids (mput i (case mlookup t i of None \<Rightarrow> None | Some v \<Rightarrow> v) m) s
      | (Inl _, s) \<Rightarrow> describe_alone E ids m s)"

text \<open>The states a poll publishes; none when the batch was refused for another reason.\<close>

definition poll_states :: "'w env \<Rightarrow> string list \<Rightarrow> 'w ec2 \<Rightarrow> states \<times> 'w ec2" where
  "poll_states E ids s =
     (case watch_describe E ids s of
        (Inr t, s) \<Rightarrow> (t, s)
      | (Inl e, s) \<Rightarrow>
          if isCode e errNotFound \<and> length ids > 1 then describe_alone E ids [] s else ([], s))"

text \<open>The slices of the loop: \<open>ids[start:min(start+describeBatch, len(ids))]\<close>.\<close>

function batches :: "nat \<Rightarrow> 'a list \<Rightarrow> 'a list list" where
  "batches k xs = (if xs = [] \<or> k = 0 then [] else take k xs # batches k (drop k xs))"
  by pat_completeness auto

termination
  by (relation "measure (\<lambda>(k, xs). length xs)") auto

declare batches.simps [simp del]

section \<open>The watcher\<close>

text \<open>What the loop's goroutine is doing, when there is one.\<close>

datatype watch_loop = NoLoop | AtTicker | Polling "string list list"

text \<open>
  \<open>wt_loops\<close> counts the loops that run and \<open>wt_told\<close> lists what AWS said of which instance; nothing reads
  either.
\<close>

record watch =
  wt_subs :: "(string, nat) gomap"
  wt_chans :: "(nat, instance_state option) gomap"
  wt_next :: nat
  wt_running :: bool
  wt_loop :: watch_loop
  wt_loops :: nat
  wt_of :: "(nat, string) gomap"
  wt_told :: "(string \<times> instance_state option) list"

definition newWatcher :: watch where
  "newWatcher =
     \<lparr>wt_subs = [], wt_chans = [], wt_next = 0, wt_running = False, wt_loop = NoLoop, wt_loops = 0, wt_of = [], wt_told = []\<rparr>"

text \<open>The first watch starts the loop.  \<open>wt_of\<close> remembers the instance a channel was made for.\<close>

definition watch_id :: "string \<Rightarrow> watch \<Rightarrow> nat \<times> watch" where
  "watch_id i w =
     (let ch = wt_next w;
          w = w\<lparr>wt_next := Suc ch, wt_subs := mput i ch (wt_subs w), wt_of := mput ch i (wt_of w)\<rparr> in
      (ch, if wt_running w then w else w\<lparr>wt_running := True, wt_loop := AtTicker, wt_loops := Suc (wt_loops w)\<rparr>))"

definition unwatch :: "string \<Rightarrow> nat \<Rightarrow> watch \<Rightarrow> watch" where
  "unwatch i ch w = (if mlookup (wt_subs w) i = Some ch then w\<lparr>wt_subs := mdel i (wt_subs w)\<rparr> else w)"

text \<open>A tick: with nothing watched the loop ends, else it takes the IDs, in an order the runtime picks.\<close>

definition watch_tick :: "string list \<Rightarrow> watch \<Rightarrow> watch" where
  "watch_tick ids w =
     (if ids = [] then w\<lparr>wt_running := False, wt_loop := NoLoop, wt_loops := wt_loops w - 1\<rparr>
      else w\<lparr>wt_loop := Polling (batches describeBatch ids)\<rparr>)"

text \<open>The critical section of \<open>poll\<close>: a held state is dropped for the newer one, so the send never blocks.\<close>

fun publish_states :: "states \<Rightarrow> watch \<Rightarrow> watch" where
  "publish_states [] w = w"
| "publish_states ((i, v) # m) w =
     publish_states m
       (case mlookup (wt_subs w) i of
          None \<Rightarrow> w
        | Some ch \<Rightarrow> w\<lparr>wt_chans := mput ch v (wt_chans w), wt_told := (i, v) # wt_told w\<rparr>)"

definition watch_poll :: "states \<Rightarrow> string list list \<Rightarrow> watch \<Rightarrow> watch" where
  "watch_poll m rest w = (publish_states m w)\<lparr>wt_loop := (if rest = [] then AtTicker else Polling rest)\<rparr>"

definition watch_recv :: "nat \<Rightarrow> watch \<Rightarrow> watch" where
  "watch_recv ch w = w\<lparr>wt_chans := mdel ch (wt_chans w)\<rparr>"

datatype watch_event = WWatch string | WStop string nat | WTick | WPoll | WRecv nat

text \<open>A poll may meet any state of the account.\<close>

inductive watch_step :: "'w env \<Rightarrow> watch_event \<Rightarrow> watch \<Rightarrow> watch \<Rightarrow> bool" for E where
  watch_start: "watch_step E (WWatch i) w (snd (watch_id i w))"
| watch_stop: "watch_step E (WStop i ch) w (unwatch i ch w)"
| watch_ticks: "wt_loop w = AtTicker \<Longrightarrow> range_order ids (wt_subs w) \<Longrightarrow> watch_step E WTick w (watch_tick ids w)"
| watch_polls: "wt_loop w = Polling (b # rest) \<Longrightarrow>
    watch_step E WPoll w (watch_poll (fst (poll_states E b s)) rest w)"
| watch_reads: "watch_step E (WRecv ch) w (watch_recv ch w)"

inductive_cases watch_stepE: "watch_step E l w w'"

abbreviation watch_reach :: "'w env \<Rightarrow> watch \<Rightarrow> bool" where
  "watch_reach E \<equiv> reach (\<lambda>w. w = newWatcher) (watch_step E)"

section \<open>Batches\<close>

lemma concat_batches: "k > 0 \<Longrightarrow> concat (batches k xs) = xs"
  by (induction k xs rule: batches.induct) (subst batches.simps, auto)

lemma batches_bounds: "b \<in> set (batches k xs) \<Longrightarrow> b \<noteq> [] \<and> length b \<le> k"
  by (induction k xs rule: batches.induct) (subst (asm) batches.simps, auto split: if_splits)

lemma batches_Nil: "k > 0 \<Longrightarrow> batches k xs = [] \<longleftrightarrow> xs = []"
  by (subst batches.simps) auto

section \<open>The invariant\<close>

text \<open>
  Exactly one loop runs while the flag is set, and it is set while anything is watched; a subscription's
  channel was made for its ID; a channel holds only what was told of its own instance.
\<close>

definition watch_inv :: "watch \<Rightarrow> bool" where
  "watch_inv w \<longleftrightarrow>
     wt_loops w = of_bool (wt_running w) \<and> (wt_running w \<longleftrightarrow> wt_loop w \<noteq> NoLoop) \<and>
     (wt_subs w \<noteq> [] \<longrightarrow> wt_running w) \<and> (\<forall>r. wt_loop w = Polling r \<longrightarrow> r \<noteq> []) \<and>
     (\<forall>i ch. mlookup (wt_subs w) i = Some ch \<longrightarrow> mlookup (wt_of w) ch = Some i) \<and>
     (\<forall>ch i. mlookup (wt_of w) ch = Some i \<longrightarrow> ch < wt_next w) \<and>
     (\<forall>ch v. mlookup (wt_chans w) ch = Some v \<longrightarrow>
        (\<exists>i. mlookup (wt_of w) ch = Some i \<and> (i, v) \<in> set (wt_told w)))"

lemma watch_inv_new: "watch_inv newWatcher"
  by (simp add: watch_inv_def newWatcher_def)

lemma watch_inv_watch: "watch_inv w \<Longrightarrow> watch_inv (snd (watch_id i w))"
  unfolding watch_inv_def watch_id_def Let_def by (auto split: if_splits) fastforce+

lemma watch_inv_unwatch: "watch_inv w \<Longrightarrow> watch_inv (unwatch i ch w)"
  by (auto simp: watch_inv_def unwatch_def split: if_splits)

lemma watch_inv_tick:
  assumes "watch_inv w" "wt_loop w = AtTicker" "range_order ids (wt_subs w)"
  shows "watch_inv (watch_tick ids w)"
proof -
  have "ids = [] \<longleftrightarrow> wt_subs w = []" using assms(3) by (cases "wt_subs w") (auto simp: range_order_def keys_def)
  with assms(1,2) show ?thesis
    by (auto simp: watch_inv_def watch_tick_def describeBatch_def batches_Nil)
qed

lemma publish_frame:
  "wt_subs (publish_states m w) = wt_subs w" "wt_next (publish_states m w) = wt_next w"
  "wt_running (publish_states m w) = wt_running w" "wt_loop (publish_states m w) = wt_loop w"
  "wt_loops (publish_states m w) = wt_loops w" "wt_of (publish_states m w) = wt_of w"
  by (induction m w rule: publish_states.induct) (auto split: option.splits)

lemma watch_inv_publish: "watch_inv w \<Longrightarrow> watch_inv (publish_states m w)"
proof (induction m w rule: publish_states.induct)
  case (2 i v m w)
  have "watch_inv (case mlookup (wt_subs w) i of None \<Rightarrow> w
      | Some ch \<Rightarrow> w\<lparr>wt_chans := mput ch v (wt_chans w), wt_told := (i, v) # wt_told w\<rparr>)"
    using 2(2) unfolding watch_inv_def by (auto split: option.splits) metis+
  from 2(1) [OF this] show ?case by simp
qed simp

lemma watch_inv_poll: "watch_inv w \<Longrightarrow> wt_loop w = Polling (b # rest) \<Longrightarrow> watch_inv (watch_poll m rest w)"
  using watch_inv_publish [of w m] publish_frame [of m w] by (auto simp: watch_inv_def watch_poll_def)

lemma watch_inv_recv: "watch_inv w \<Longrightarrow> watch_inv (watch_recv ch w)"
  by (auto simp: watch_inv_def watch_recv_def)

interpretation watch_system: invariant_system "\<lambda>w. w = newWatcher" "watch_step E" watch_inv for E
  by unfold_locales
     (auto elim!: watch_stepE intro: watch_inv_new watch_inv_watch watch_inv_unwatch watch_inv_tick watch_inv_poll watch_inv_recv)

end
