(* ===== verification/EC2_Watch_Claims.thy ===== *)
theory EC2_Watch_Claims
  imports EC2_Watch
begin

text \<open>
  What the watcher promises a launch that waits: it is polled for as long as it waits, its channel holds
  only states of its own instance, and an instance AWS cannot see yet hides no other.
\<close>

section \<open>One poll\<close>

text \<open>
  What the calls \<open>new\<close> say of an instance: a state an accepted answer gave it; or why they may give none,
  each reason in a call that asked for it: refused for this instance alone, refused for another reason than
  an instance AWS does not know, or accepted with the instance left out.
\<close>

type_synonym calls = "(aws_call \<times> aws_reply) list"

definition answered :: "calls \<Rightarrow> string \<Rightarrow> instance_state \<Rightarrow> bool" where
  "answered new i st \<longleftrightarrow>
     (\<exists>b is x. (DescribeInstances b, Found is) \<in> set new \<and> x \<in> set is \<and> i_id x = i \<and> i_state x = st)"

fun leaves_out :: "string list \<Rightarrow> string \<Rightarrow> aws_reply \<Rightarrow> bool" where
  "leaves_out b i (Refused e) \<longleftrightarrow> b = [i] \<or> e \<noteq> ApiError errNotFound"
| "leaves_out b i (Found is) \<longleftrightarrow> i \<notin> i_id ` set is"
| "leaves_out b i r \<longleftrightarrow> True"

definition unseen :: "calls \<Rightarrow> string \<Rightarrow> bool" where
  "unseen new i \<longleftrightarrow> (\<exists>b r. (DescribeInstances b, r) \<in> set new \<and> i \<in> set b \<and> leaves_out b i r)"

lemma calls_mono:
  "set new \<subseteq> set new' \<Longrightarrow> answered new i st \<Longrightarrow> answered new' i st"
  "set new \<subseteq> set new' \<Longrightarrow> unseen new i \<Longrightarrow> unseen new' i"
  unfolding answered_def unseen_def by blast+

text \<open>What the map of a poll holds of an instance comes from the calls.\<close>

definition from_calls :: "calls \<Rightarrow> states \<Rightarrow> bool" where
  "from_calls new m \<longleftrightarrow>
     wf_map m \<and> (\<forall>i v. mlookup m i = Some v \<longrightarrow> i \<noteq> [] \<longrightarrow> (\<exists>st. v = Some st \<and> answered new i st) \<or> unseen new i)"

lemma from_calls_Nil [simp]: "from_calls new []"
  by (simp add: from_calls_def)

lemma from_calls_mono: "set new \<subseteq> set new' \<Longrightarrow> from_calls new m \<Longrightarrow> from_calls new' m"
  using calls_mono unfolding from_calls_def by metis

lemma from_calls_put:
  "from_calls new m \<Longrightarrow> i \<noteq> [] \<longrightarrow> (\<exists>st. v = Some st \<and> answered new i st) \<or> unseen new i \<Longrightarrow>
   from_calls new (mput i v m)"
  unfolding from_calls_def by simp

lemma states_put_lookup:
  "mlookup (states_put is m) i =
     (if i \<noteq> [] \<and> i \<in> i_id ` set is then Some (Some (i_state (last (filter (\<lambda>x. i_id x = i) is)))) else mlookup m i)"
  by (induction "is" m rule: states_put.induct) (auto simp: filter_empty_conv)

lemma wf_states_put [simp]: "wf_map m \<Longrightarrow> wf_map (states_put is m)"
  by (induction "is" m rule: states_put.induct) auto

lemma last_with_id:
  "i \<in> i_id ` set is \<Longrightarrow> \<exists>x \<in> set is. i_id x = i \<and> last (filter (\<lambda>x. i_id x = i) is) = x"
proof -
  assume "i \<in> i_id ` set is"
  then have "filter (\<lambda>x. i_id x = i) is \<noteq> []" by (auto simp: filter_empty_conv)
  from last_in_set [OF this] show ?thesis by auto
qed

lemma describe_calls:
  assumes w: "watch_describe E ids s = (r, t)"
  shows "\<exists>q. trace t = trace s @ [(DescribeInstances ids, q)] \<and>
    (case r of
       Inl e \<Rightarrow> q = Refused e
     | Inr m \<Rightarrow> from_calls [(DescribeInstances ids, q)] m \<and>
         (\<forall>i \<in> set ids. i \<noteq> [] \<longrightarrow> mlookup m i \<noteq> None \<or> leaves_out ids i q))"
proof -
  obtain q u where q: "aws E (DescribeInstances ids) s = (q, u)" by fastforce
  then have tr: "trace u = trace s @ [(DescribeInstances ids, q)]" by (auto simp: aws_def split: prod.splits)
  show ?thesis
  proof (cases q)
    case (Found xs)
    have "from_calls [(DescribeInstances ids, q)] (states_put xs [])"
      using Found last_with_id [of _ xs] by (auto simp: from_calls_def states_put_lookup answered_def split: if_splits)
    moreover have "mlookup (states_put xs []) i \<noteq> None \<or> leaves_out ids i q" if "i \<noteq> []" for i
      using that Found by (simp add: states_put_lookup)
    ultimately show ?thesis using w q tr Found by (auto simp: watch_describe_def)
  qed (use w q tr in \<open>auto simp: watch_describe_def\<close>)
qed

text \<open>A poll adds calls to the trace; it publishes what they say, and names every instance it was asked for.\<close>

definition polled :: "string list \<Rightarrow> 'w ec2 \<Rightarrow> states \<Rightarrow> 'w ec2 \<Rightarrow> bool" where
  "polled ids s m t \<longleftrightarrow>
     (\<exists>new. trace t = trace s @ new \<and> from_calls new m \<and>
        (\<forall>i \<in> set ids. i \<noteq> [] \<longrightarrow> mlookup m i \<noteq> None \<or> unseen new i))"

lemma alone_calls:
  assumes "trace s = trace s0 @ old" "from_calls old m" "describe_alone E ids m s = (m', t)"
  shows "\<exists>new. trace t = trace s0 @ new \<and> set old \<subseteq> set new \<and> from_calls new m' \<and>
    (\<forall>i. mlookup m i \<noteq> None \<longrightarrow> mlookup m' i \<noteq> None) \<and>
    (\<forall>i \<in> set ids. i \<noteq> [] \<longrightarrow> mlookup m' i \<noteq> None \<or> unseen new i)"
  using assms
proof (induction ids arbitrary: m s old)
  case Nil
  then show ?case by auto
next
  case (Cons j ids)
  obtain r u where r: "watch_describe E [j] s = (r, u)" by fastforce
  from describe_calls [OF r] obtain q where q: "trace u = trace s @ [(DescribeInstances [j], q)]"
    and c: "case r of
       Inl e \<Rightarrow> q = Refused e
     | Inr m \<Rightarrow> from_calls [(DescribeInstances [j], q)] m \<and>
         (\<forall>i \<in> set [j]. i \<noteq> [] \<longrightarrow> mlookup m i \<noteq> None \<or> leaves_out [j] i q)" by blast
  let ?old = "old @ [(DescribeInstances [j], q)]"
  have tr: "trace u = trace s0 @ ?old" using q Cons.prems(1) by simp
  have mono: "from_calls ?old m" by (rule from_calls_mono [OF _ Cons.prems(2)]) auto
  show ?case
  proof (cases r)
    case (Inl e)
    have un: "unseen ?old j" unfolding unseen_def using c Inl by (intro exI [of _ "[j]"] exI [of _ q]) simp
    from Inl r Cons.prems(3) have "describe_alone E ids m u = (m', t)" by simp
    from Cons.IH [OF tr mono this] obtain new where n: "trace t = trace s0 @ new" "set ?old \<subseteq> set new" "from_calls new m'"
      "\<forall>i. mlookup m i \<noteq> None \<longrightarrow> mlookup m' i \<noteq> None"
      "\<forall>i \<in> set ids. i \<noteq> [] \<longrightarrow> mlookup m' i \<noteq> None \<or> unseen new i" by blast
    from calls_mono(2) [OF n(2) un] n show ?thesis by (intro exI [of _ new]) auto
  next
    case (Inr x)
    let ?v = "case mlookup x j of None \<Rightarrow> None | Some v \<Rightarrow> v"
    let ?m = "mput j ?v m"
    have fx: "from_calls ?old x" using c Inr from_calls_mono [of "[(DescribeInstances [j], q)]" ?old x] by simp
    have out: "mlookup x j \<noteq> None \<or> j = [] \<or> leaves_out [j] j q" using c Inr by auto
    have "j \<noteq> [] \<longrightarrow> (\<exists>st. ?v = Some st \<and> answered ?old j st) \<or> unseen ?old j"
    proof (cases "mlookup x j")
      case None
      have "unseen ?old j" if "j \<noteq> []"
        unfolding unseen_def using out None that by (intro exI [of _ "[j]"] exI [of _ q]) simp
      with None show ?thesis by simp
    next
      case (Some v)
      with fx show ?thesis by (simp add: from_calls_def)
    qed
    from Cons.IH [OF tr from_calls_put [OF mono this]] Inr r Cons.prems(3) obtain new where n: "trace t = trace s0 @ new"
      "set ?old \<subseteq> set new" "from_calls new m'"
      "\<forall>i. mlookup ?m i \<noteq> None \<longrightarrow> mlookup m' i \<noteq> None"
      "\<forall>i \<in> set ids. i \<noteq> [] \<longrightarrow> mlookup m' i \<noteq> None \<or> unseen new i" by auto
    then show ?thesis by (intro exI [of _ new]) auto
  qed
qed

lemma poll_calls:
  assumes "poll_states E ids s = (m, t)"
  shows "polled ids s m t"
proof -
  obtain r u where r: "watch_describe E ids s = (r, u)" by fastforce
  from describe_calls [OF r] obtain q where q: "trace u = trace s @ [(DescribeInstances ids, q)]"
    and c: "case r of
       Inl e \<Rightarrow> q = Refused e
     | Inr m \<Rightarrow> from_calls [(DescribeInstances ids, q)] m \<and>
         (\<forall>i \<in> set ids. i \<noteq> [] \<longrightarrow> mlookup m i \<noteq> None \<or> leaves_out ids i q)" by blast
  let ?new = "[(DescribeInstances ids, q)]"
  show ?thesis
  proof (cases r)
    case (Inr x)
    with assms r have "m = x" "t = u" by (simp_all add: poll_states_def)
    with c Inr q show ?thesis unfolding polled_def unseen_def by (intro exI [of _ ?new]) auto
  next
    case e: (Inl e)
    show ?thesis
    proof (cases "isCode e errNotFound \<and> length ids > 1")
      case True
      with assms e r have "describe_alone E ids [] u = (m, t)" by (simp add: poll_states_def)
      from alone_calls [OF q from_calls_Nil this] show ?thesis unfolding polled_def by blast
    next
      case False
      have "unseen ?new i" if "i \<in> set ids" for i
      proof -
        have "ids = [i]" if "\<not> length ids > 1" using that \<open>i \<in> set ids\<close> by (cases ids) auto
        with False c e that show ?thesis unfolding unseen_def isCode_def by auto
      qed
      moreover have "m = []" "t = u" using False assms e r by (auto simp: poll_states_def)
      ultimately show ?thesis unfolding polled_def using q by (intro exI [of _ ?new]) auto
    qed
  qed
qed

section \<open>One tick\<close>

text \<open>Nothing else runs between the tick's polls.\<close>

fun poll_all :: "'w env \<Rightarrow> string list list \<Rightarrow> watch \<Rightarrow> 'w ec2 \<Rightarrow> watch \<times> 'w ec2" where
  "poll_all E [] w s = (w, s)"
| "poll_all E (b # bs) w s = (case poll_states E b s of (m, s) \<Rightarrow> poll_all E bs (watch_poll m bs w) s)"

definition one_to_one :: "(string, nat) gomap \<Rightarrow> bool" where
  "one_to_one m \<longleftrightarrow> (\<forall>i j ch. mlookup m i = Some ch \<longrightarrow> mlookup m j = Some ch \<longrightarrow> i = j)"

lemma inv_one_to_one: "watch_inv w \<Longrightarrow> one_to_one (wt_subs w)"
  unfolding watch_inv_def one_to_one_def by (metis option.inject)

lemma publish_lookup:
  "wf_map m \<Longrightarrow> one_to_one (wt_subs w) \<Longrightarrow> mlookup (wt_subs w) i = Some ch \<Longrightarrow>
   mlookup (wt_chans (publish_states m w)) ch = (case mlookup m i of None \<Rightarrow> mlookup (wt_chans w) ch | Some v \<Rightarrow> Some v)"
proof (induction m w rule: publish_states.induct)
  case (2 j v m w)
  let ?w = "case mlookup (wt_subs w) j of None \<Rightarrow> w
      | Some ch \<Rightarrow> w\<lparr>wt_chans := mput ch v (wt_chans w), wt_told := (j, v) # wt_told w\<rparr>"
  have subs: "wt_subs ?w = wt_subs w" by (simp split: option.split)
  have wf: "wf_map m" "mlookup m j = None"
    using 2(2) by (auto simp: wf_map_def keys_def map_of_eq_None_iff)
  have ih: "mlookup (wt_chans (publish_states m ?w)) ch =
      (case mlookup m i of None \<Rightarrow> mlookup (wt_chans ?w) ch | Some v \<Rightarrow> Some v)"
    by (rule 2(1)) (use wf 2(3,4) subs in auto)
  have "mlookup (wt_chans ?w) ch = (if i = j then Some v else mlookup (wt_chans w) ch)"
    using 2(3,4) by (auto simp: one_to_one_def split: option.split)
  with ih wf(2) show ?case by (auto split: option.splits)
qed simp

text \<open>What a watched instance's channel holds after calls that asked for it.\<close>

definition informed :: "calls \<Rightarrow> watch \<Rightarrow> string \<Rightarrow> nat \<Rightarrow> bool" where
  "informed new w i ch \<longleftrightarrow> (\<exists>st. mlookup (wt_chans w) ch = Some (Some st) \<and> answered new i st) \<or> unseen new i"

lemma informed_poll:
  assumes "informed new w i ch \<or> i \<in> set ids" "i \<noteq> []" "one_to_one (wt_subs w)" "mlookup (wt_subs w) i = Some ch"
    and n: "set new \<subseteq> set new'" "from_calls new' m" "i \<in> set ids \<longrightarrow> mlookup m i \<noteq> None \<or> unseen new' i"
  shows "informed new' (watch_poll m bs w) i ch"
proof -
  have wf: "wf_map m" using n(2) by (simp add: from_calls_def)
  note look = publish_lookup [OF wf assms(3,4)]
  show ?thesis
  proof (cases "mlookup m i")
    case None
    with assms(1) n(1,3) calls_mono [OF n(1)] look show ?thesis by (auto simp: informed_def watch_poll_def)
  next
    case (Some v)
    with n(2) assms(2) have "(\<exists>st. v = Some st \<and> answered new' i st) \<or> unseen new' i" unfolding from_calls_def by blast
    with Some look show ?thesis by (auto simp: informed_def watch_poll_def)
  qed
qed

lemma poll_all_calls:
  assumes "poll_all E bs w s = (w', t)" "one_to_one (wt_subs w)" "mlookup (wt_subs w) i = Some ch" "i \<noteq> []"
    and "trace s = trace s0 @ old" "informed old w i ch \<or> i \<in> set (concat bs)"
  shows "\<exists>new. trace t = trace s0 @ new \<and> informed new w' i ch"
  using assms
proof (induction bs arbitrary: w s old)
  case Nil
  then show ?case by auto
next
  case (Cons b bs)
  obtain m u where m: "poll_states E b s = (m, u)" by fastforce
  from poll_calls [OF m] obtain new where n: "trace u = trace s @ new" "from_calls new m"
    "\<forall>i \<in> set b. i \<noteq> [] \<longrightarrow> mlookup m i \<noteq> None \<or> unseen new i" unfolding polled_def by blast
  let ?w = "watch_poll m bs w" and ?new = "old @ new"
  have f: "wt_subs ?w = wt_subs w" by (simp add: watch_poll_def publish_frame)
  have fc: "from_calls ?new m" by (rule from_calls_mono [OF _ n(2)]) simp
  have seen: "i \<in> set b \<longrightarrow> mlookup m i \<noteq> None \<or> unseen ?new i"
    using n(3) Cons.prems(4) calls_mono(2) [of new ?new i] by auto
  have inf: "informed ?new ?w i ch \<or> i \<in> set (concat bs)"
  proof (cases "informed old w i ch \<or> i \<in> set b")
    case True
    have "informed ?new ?w i ch"
      by (rule informed_poll [OF True Cons.prems(4,2,3) _ fc seen]) simp
    then show ?thesis ..
  next
    case False
    with Cons.prems(6) show ?thesis by auto
  qed
  have tr: "trace u = trace s0 @ ?new" using n(1) Cons.prems(5) by simp
  have "poll_all E bs ?w u = (w', t)" using Cons.prems(1) m by simp
  from Cons.IH [OF this _ _ Cons.prems(4) tr inf] Cons.prems(2,3) f show ?case by simp
qed

section \<open>The property\<close>

text \<open>
  C39. A launch that waits is told the state of its instance.  However watches, stops, ticks, polls and reads
  interleave: while anything is watched exactly one loop runs, and a channel holds only what AWS said of the
  instance it was made for.  A tick asks for every watched instance once, in batches of at most a
  hundred, and after it every watched instance's channel holds a state that one of the tick's answers gives that
  instance, whatever AWS does with the other instances of its batch.  The only ways to miss it are in the
  tick's calls: AWS refused the request that named this instance alone, refused one that named it for
  another reason than an instance it does not know, or left it out of an answer.
\<close>

theorem watcher_informs:
  assumes reached: "watch_reach E w" and ids: "range_order ids (wt_subs w)" "[] \<notin> set ids"
    and tick: "poll_all E (batches describeBatch ids) (watch_tick ids w) s = (w', s')"
  shows "wt_loops w \<le> 1 \<and> (wt_subs w \<noteq> [] \<longrightarrow> wt_loops w = 1) \<and>
    (\<forall>ch v. mlookup (wt_chans w) ch = Some v \<longrightarrow>
       (\<exists>i. mlookup (wt_of w) ch = Some i \<and> (i, v) \<in> set (wt_told w))) \<and>
    concat (batches describeBatch ids) = ids \<and> (\<forall>b \<in> set (batches describeBatch ids). length b \<le> 100) \<and>
    (\<forall>i ch. mlookup (wt_subs w) i = Some ch \<longrightarrow>
       (\<exists>new. trace s' = trace s @ new \<and>
          ((\<exists>st. mlookup (wt_chans w') ch = Some (Some st) \<and> answered new i st) \<or>
           (\<exists>b r. (DescribeInstances b, r) \<in> set new \<and> i \<in> set b \<and> leaves_out b i r))))"
proof -
  have inv: "watch_inv w" by (rule watch_system.reach_inv [OF reached])
  have all: "concat (batches describeBatch ids) = ids" by (simp add: concat_batches describeBatch_def)
  have "length b \<le> 100" if "b \<in> set (batches describeBatch ids)" for b
    using batches_bounds [OF that] by (simp add: describeBatch_def)
  moreover have "\<exists>new. trace s' = trace s @ new \<and> informed new w' i ch" if i: "mlookup (wt_subs w) i = Some ch" for i ch
  proof -
    have t: "wt_subs (watch_tick ids w) = wt_subs w" by (simp add: watch_tick_def)
    have m: "i \<in> set ids" using ids(1) i by (auto simp: range_order_def set_keys_iff)
    show ?thesis
      by (rule poll_all_calls [OF tick, where old = "[]"]) (use t inv_one_to_one [OF inv] i m ids(2) all in auto)
  qed
  ultimately show ?thesis using inv all unfolding watch_inv_def informed_def unseen_def by (auto simp: of_bool_def)
qed

text \<open>Two launches wait; AWS sees only the first instance.\<close>

fun demo_seen_answer :: "aws_call \<Rightarrow> aws_reply" where
  "demo_seen_answer (DescribeInstances ids) =
     (if list_all (\<lambda>i. i = ''i-1'') ids
      then Found (map (\<lambda>i. \<lparr>i_id = i, i_state = StRunning, i_ip = [], i_spotReq = [], i_type = [], i_tags = [], i_launched = None\<rparr>) ids)
      else Refused (ApiError errNotFound))"
| "demo_seen_answer _ = Done"

definition demo_seen_env :: "unit env" where
  "demo_seen_env = \<lparr>api = \<lambda>c w. (demo_seen_answer c, w), ctxDone = \<lambda>_. False, wallclock = \<lambda>_. 0, passes = \<lambda>w. w,
               hasSSM = False, sha256hex = \<lambda>x. x\<rparr>"

definition demo_watching :: watch where
  "demo_watching = snd (watch_id ''i-2'' (snd (watch_id ''i-1'' newWatcher)))"

definition demo_account :: "unit ec2" where
  "demo_account = \<lparr>aws_world = (), trace = [], tracked_ids = [], amis = [],
     pl = \<lparr>pl_target = 0, pl_ready = [], pl_warming = [], pl_wake = False, pl_failures = 0, pl_retryAt = None\<rparr>,
     jits = jit_New 0\<rparr>"

definition demo_tick :: "watch \<times> unit ec2" where
  "demo_tick = poll_all demo_seen_env (batches describeBatch [''i-1'', ''i-2''])
     (watch_tick [''i-1'', ''i-2''] demo_watching) demo_account"

lemma demo_tick_calls:
  "trace (snd demo_tick) =
     [(DescribeInstances [''i-1'', ''i-2''], Refused (ApiError errNotFound)),
      (DescribeInstances [''i-1''], demo_seen_answer (DescribeInstances [''i-1''])),
      (DescribeInstances [''i-2''], Refused (ApiError errNotFound))]"
  by code_simp

lemma watcher_informs_witness:
  "mlookup (wt_chans (fst demo_tick)) 0 = Some (Some StRunning) \<and>
   (DescribeInstances [''i-1'', ''i-2''], Refused (ApiError errNotFound)) \<in> set (trace (snd demo_tick))"
proof -
  have "watch_reach demo_seen_env newWatcher" by (rule reach_init) simp
  from reach_step [OF this watch_start] have "watch_reach demo_seen_env (snd (watch_id ''i-1'' newWatcher))" .
  from reach_step [OF this watch_start] have r: "watch_reach demo_seen_env demo_watching" unfolding demo_watching_def .
  have subs: "wt_subs demo_watching = [(''i-1'', 0), (''i-2'', 1)]" by code_simp
  then have o: "range_order [''i-1'', ''i-2''] (wt_subs demo_watching)" by (simp add: range_order_def keys_def)
  have t: "poll_all demo_seen_env (batches describeBatch [''i-1'', ''i-2''])
     (watch_tick [''i-1'', ''i-2''] demo_watching) demo_account = (fst demo_tick, snd demo_tick)"
    by (simp add: demo_tick_def)
  have "trace demo_account = []" by (simp add: demo_account_def)
  with watcher_informs [OF r o _ t] have "\<forall>i ch. mlookup (wt_subs demo_watching) i = Some ch \<longrightarrow>
       ((\<exists>st. mlookup (wt_chans (fst demo_tick)) ch = Some (Some st) \<and> answered (trace (snd demo_tick)) i st) \<or>
        (\<exists>b r. (DescribeInstances b, r) \<in> set (trace (snd demo_tick)) \<and> i \<in> set b \<and> leaves_out b i r))" by simp
  moreover have "mlookup (wt_subs demo_watching) ''i-1'' = Some 0" by (simp add: subs)
  ultimately have "(\<exists>st. mlookup (wt_chans (fst demo_tick)) 0 = Some (Some st) \<and> answered (trace (snd demo_tick)) ''i-1'' st) \<or>
        (\<exists>b r. (DescribeInstances b, r) \<in> set (trace (snd demo_tick)) \<and> ''i-1'' \<in> set b \<and> leaves_out b ''i-1'' r)" by blast
  moreover have "\<not> (\<exists>b r. (DescribeInstances b, r) \<in> set (trace (snd demo_tick)) \<and> ''i-1'' \<in> set b \<and> leaves_out b ''i-1'' r)"
    by (auto simp: demo_tick_calls)
  ultimately obtain st where "mlookup (wt_chans (fst demo_tick)) 0 = Some (Some st)"
      "answered (trace (snd demo_tick)) ''i-1'' st" by blast
  then show ?thesis by (auto simp: demo_tick_calls answered_def)
qed

end
