(* ===== verification/EC2_Threads.thy ===== *)
theory EC2_Threads
  imports EC2_Pool
begin

text \<open>
  The goroutines of one EC2 tier, interleaved: the launches with the claims they make, the resizings, and the
  loop of \<open>Pool.Run\<close> (\<open>internal/ec2/pool.go\<close>, \<open>provisioner.go\<close>).  A step is one section that holds the pool's
  mutex or the client's \<open>liveMu\<close>, so anything may happen between a claim's \<open>requeue\<close> and its \<open>untrack\<close>.

  A call to AWS changes nothing of this state; what follows it in the goroutine is chosen by its reply, so
  every reply is covered.  Of AWS the steps rely on this: a launch gives an ID it has not given before; a
  describe of given IDs names each of them at most once and no others; and the listing \<open>discover\<close> asks for,
  whose filter wants the pool's tag, names no instance this process has launched, since it has launched
  none for the pool yet and a job's own instances do not carry the tag.
\<close>

section \<open>The goroutines\<close>

text \<open>
  A launch or a resizing.  \<open>GaveBack\<close> and \<open>GivenUp\<close> are a claim before its \<open>untrack\<close>: the instance is back in the
  pool, or discarded or left to the reaper; the flag says that the loop goes on.  From \<open>OnPooled\<close> and \<open>OnCold\<close>
  the launch runs on the instance until the deferred \<open>untrack\<close>.
\<close>

datatype thread =
    ClaimTop | Popped pooled | Preparing pooled | GaveBack string bool | GivenUp string bool | OnPooled pooled
  | ColdStart | Launched string | OnCold string
  | TrimTop | Trimming pooled

text \<open>Where \<open>Run\<close> is; the number is that of the pass.\<close>

datatype run_pc =
    Starting | Discovering "ec2_instance list" | PassTop nat
  | Checking "(string, instance_state) gomap" "string list" nat
  | Rechecked string "(string, instance_state) gomap" "string list" nat
  | Refresh nat | Refreshing "ec2_instance list" nat
  | Trim nat | RunTrimming pooled nat
  | Fill nat | Filling nat nat | Filled string nat nat

text \<open>
  \<open>ty_ids\<close> are the IDs AWS has given out or listed, \<open>ty_back\<close> the instances a claim has put back into the pool;
  no goroutine reads them.
\<close>

record tier_sys =
  ty_pool :: Pool
  ty_live :: "string list"
  ty_threads :: "(nat, thread) gomap"
  ty_run :: run_pc
  ty_ids :: "string list"
  ty_back :: "string list"

definition go_on :: "nat \<Rightarrow> thread option \<Rightarrow> tier_sys \<Rightarrow> tier_sys" where
  "go_on n t y = y\<lparr>ty_threads := (case t of None \<Rightarrow> mdel n (ty_threads y) | Some t \<Rightarrow> mput n t (ty_threads y))\<rparr>"

definition on_pool :: "(Pool \<Rightarrow> Pool) \<Rightarrow> tier_sys \<Rightarrow> tier_sys" where
  "on_pool f y = y\<lparr>ty_pool := f (ty_pool y)\<rparr>"

definition at_run :: "run_pc \<Rightarrow> tier_sys \<Rightarrow> tier_sys" where
  "at_run pc y = y\<lparr>ty_run := pc\<rparr>"

definition track_id :: "string \<Rightarrow> tier_sys \<Rightarrow> tier_sys" where
  "track_id i y = y\<lparr>ty_live := List.insert i (ty_live y)\<rparr>"

definition untrack_id :: "string \<Rightarrow> tier_sys \<Rightarrow> tier_sys" where
  "untrack_id i y = y\<lparr>ty_live := removeAll i (ty_live y)\<rparr>"

definition note_back :: "string \<Rightarrow> tier_sys \<Rightarrow> tier_sys" where
  "note_back i y = y\<lparr>ty_back := i # ty_back y\<rparr>"

definition given_out :: "string list \<Rightarrow> tier_sys \<Rightarrow> tier_sys" where
  "given_out is y = y\<lparr>ty_ids := is @ ty_ids y\<rparr>"

text \<open>What a claim that failed does next: it loops, or returns, and the launch falls back or ends.\<close>

definition after_claim :: "bool \<Rightarrow> bool \<Rightarrow> thread option" where
  "after_claim again falls_back = (if again then Some ClaimTop else if falls_back then Some ColdStart else None)"

section \<open>The steps\<close>

datatype tier_event = NewThread nat | ThreadStep nat | RunStep

text \<open>One instance of \<open>discover\<close>'s listing, its tag written or not.\<close>

definition discover_one :: "bool \<Rightarrow> ec2_instance \<Rightarrow> Pool \<Rightarrow> Pool" where
  "discover_one tagged i p =
     (if tagValue (i_tags i) TagPool \<in> {PoolReady, PoolWarming}
      then (if i_state i = StStopped then (if tagged then sec_ready i p else p) else sec_warm (i_id i) (i_launched i) p)
      else p)"

text \<open>One instance of \<open>refresh\<close>'s answer: \<open>ok\<close> is the outcome of tagging it or of discarding it at time \<open>t\<close>.\<close>

definition refresh_answer :: "bool \<Rightarrow> time \<Rightarrow> ec2_instance \<Rightarrow> Pool \<Rightarrow> Pool" where
  "refresh_answer ok t i p =
     (case i_state i of
        StStopped \<Rightarrow> (if ok then sec_ready i p else p)
      | StShuttingDown \<Rightarrow> sec_forget (i_id i) p
      | StTerminated \<Rightarrow> sec_forget (i_id i) p
      | _ \<Rightarrow> (if overdue t (i_id i) p \<and> ok then sec_forget (i_id i) p else p))"

inductive tier_step :: "tier_event \<Rightarrow> tier_sys \<Rightarrow> tier_sys \<Rightarrow> bool" where
  t_launch: "mlookup (ty_threads y) n = None \<Longrightarrow> t = ClaimTop \<or> t = ColdStart \<Longrightarrow>
    tier_step (NewThread n) y (go_on n (Some t) y)"
| t_resize: "mlookup (ty_threads y) n = None \<Longrightarrow> k \<noteq> pl_target (ty_pool y) \<Longrightarrow>
    tier_step (NewThread n) y (go_on n (Some TrimTop) (on_pool (\<lambda>p. p\<lparr>pl_target := k\<rparr>) y))"
| t_claim_ends: "mlookup (ty_threads y) n = Some ClaimTop \<Longrightarrow>
    tier_step (ThreadStep n) y (go_on n None (on_pool poke y))"
| t_empty: "mlookup (ty_threads y) n = Some ClaimTop \<Longrightarrow> sec_claim (ty_pool y) = None \<Longrightarrow>
    tier_step (ThreadStep n) y (go_on n (Some ColdStart) (on_pool poke y))"
| t_pop: "mlookup (ty_threads y) n = Some ClaimTop \<Longrightarrow> sec_claim (ty_pool y) = Some (d, p) \<Longrightarrow>
    tier_step (ThreadStep n) y (go_on n (Some (Popped d)) (on_pool (\<lambda>_. p) y))"
| t_track: "mlookup (ty_threads y) n = Some (Popped d) \<Longrightarrow>
    tier_step (ThreadStep n) y (go_on n (Some (Preparing d)) (track_id (pd_id d) y))"
| t_claimed: "mlookup (ty_threads y) n = Some (Preparing d) \<Longrightarrow>
    tier_step (ThreadStep n) y (go_on n (Some (OnPooled d)) (on_pool poke y))"
| t_rewarm: "mlookup (ty_threads y) n = Some (Preparing d) \<Longrightarrow>
    tier_step (ThreadStep n) y
      (go_on n (Some (GaveBack (pd_id d) True)) (note_back (pd_id d) (on_pool (sec_warm (pd_id d) (Some t)) y)))"
| t_requeue: "mlookup (ty_threads y) n = Some (Preparing d) \<Longrightarrow>
    tier_step (ThreadStep n) y
      (go_on n (Some (GaveBack (pd_id d) False)) (note_back (pd_id d) (on_pool (sec_requeue d) y)))"
| t_give_up: "mlookup (ty_threads y) n = Some (Preparing d) \<Longrightarrow>
    tier_step (ThreadStep n) y (go_on n (Some (GivenUp (pd_id d) again)) y)"
| t_untrack_back: "mlookup (ty_threads y) n = Some (GaveBack i again) \<Longrightarrow>
    tier_step (ThreadStep n) y (go_on n (after_claim again fb) (untrack_id i y))"
| t_untrack_gone: "mlookup (ty_threads y) n = Some (GivenUp i again) \<Longrightarrow>
    tier_step (ThreadStep n) y (go_on n (after_claim again fb) (untrack_id i y))"
| t_pooled_ends: "mlookup (ty_threads y) n = Some (OnPooled d) \<Longrightarrow>
    tier_step (ThreadStep n) y (go_on n (after_claim False fb) (untrack_id (pd_id d) y))"
| t_cold_fails: "mlookup (ty_threads y) n = Some ColdStart \<Longrightarrow> tier_step (ThreadStep n) y (go_on n None y)"
| t_cold_runs: "mlookup (ty_threads y) n = Some ColdStart \<Longrightarrow> i \<notin> set (ty_ids y) \<Longrightarrow>
    tier_step (ThreadStep n) y (go_on n (Some (Launched i)) (given_out [i] y))"
| t_cold_track: "mlookup (ty_threads y) n = Some (Launched i) \<Longrightarrow>
    tier_step (ThreadStep n) y (go_on n (Some (OnCold i)) (track_id i y))"
| t_cold_ends: "mlookup (ty_threads y) n = Some (OnCold i) \<Longrightarrow>
    tier_step (ThreadStep n) y (go_on n None (untrack_id i y))"
| t_trim_takes: "mlookup (ty_threads y) n = Some TrimTop \<Longrightarrow> sec_trim (ty_pool y) = Some (d, p) \<Longrightarrow>
    tier_step (ThreadStep n) y (go_on n (Some (Trimming d)) (on_pool (\<lambda>_. p) y))"
| t_trim_ends: "mlookup (ty_threads y) n = Some TrimTop \<Longrightarrow>
    tier_step (ThreadStep n) y (go_on n None (on_pool poke y))"
| t_trim_discards: "mlookup (ty_threads y) n = Some (Trimming d) \<Longrightarrow>
    tier_step (ThreadStep n) y (go_on n (Some TrimTop) y)"
| t_trim_fails: "mlookup (ty_threads y) n = Some (Trimming d) \<Longrightarrow>
    tier_step (ThreadStep n) y (go_on n None (on_pool (\<lambda>p. poke (sec_untrim d p)) y))"
| r_list: "ty_run y = Starting \<Longrightarrow> distinct (map i_id is) \<Longrightarrow> i_id ` set is \<inter> set (ty_ids y) = {} \<Longrightarrow>
    tier_step RunStep y (at_run (Discovering is) (given_out (map i_id is) y))"
| r_discover: "ty_run y = Discovering (i # is) \<Longrightarrow>
    tier_step RunStep y (at_run (Discovering is) (on_pool (discover_one tagged i) y))"
| r_discovered: "ty_run y = Discovering [] \<Longrightarrow> tier_step RunStep y (at_run (PassTop 0) y)"
| r_pass: "ty_run y = PassTop k \<Longrightarrow>
    tier_step RunStep y
      (at_run (if k mod readyCheckEvery = 0 then Checking st (map pd_id (pl_ready (ty_pool y))) k else Refresh k) y)"
| r_check_leaves: "ty_run y = Checking st (i # ids) k \<Longrightarrow>
    mlookup st i = None \<or> mlookup st i = Some StStopped \<or> takeReady i (ty_pool y) = None \<Longrightarrow>
    tier_step RunStep y (at_run (Checking st ids k) y)"
| r_check_takes: "ty_run y = Checking st (i # ids) k \<Longrightarrow> mlookup st i = Some x \<Longrightarrow> x \<noteq> StStopped \<Longrightarrow>
    takeReady i (ty_pool y) = Some (d, p) \<Longrightarrow>
    tier_step RunStep y
      (at_run (if x = StShuttingDown \<or> x = StTerminated then Checking st ids k else Rechecked i st ids k)
         (on_pool (\<lambda>_. p) y))"
| r_rewarm: "ty_run y = Rechecked i st ids k \<Longrightarrow>
    tier_step RunStep y (at_run (Checking st ids k) (on_pool (sec_warm i (Some t)) y))"
| r_checked: "ty_run y = Checking st [] k \<Longrightarrow> tier_step RunStep y (at_run (Refresh k) y)"
| r_describe: "ty_run y = Refresh k \<Longrightarrow> distinct (map i_id is) \<Longrightarrow> i_id ` set is \<subseteq> set (keys (pl_warming (ty_pool y))) \<Longrightarrow>
    tier_step RunStep y (at_run (Refreshing is k) y)"
| r_refresh: "ty_run y = Refreshing (i # is) k \<Longrightarrow>
    tier_step RunStep y (at_run (Refreshing is k) (on_pool (refresh_answer ok t i) y))"
| r_refreshed: "ty_run y = Refreshing [] k \<Longrightarrow> tier_step RunStep y (at_run (Trim k) y)"
| r_trim_takes: "ty_run y = Trim k \<Longrightarrow> sec_trim (ty_pool y) = Some (d, p) \<Longrightarrow>
    tier_step RunStep y (at_run (RunTrimming d k) (on_pool (\<lambda>_. p) y))"
| r_trim_ends: "ty_run y = Trim k \<Longrightarrow> tier_step RunStep y (at_run (Fill k) y)"
| r_trim_discards: "ty_run y = RunTrimming d k \<Longrightarrow> tier_step RunStep y (at_run (Trim k) y)"
| r_trim_fails: "ty_run y = RunTrimming d k \<Longrightarrow> tier_step RunStep y (at_run (Fill k) (on_pool (sec_untrim d) y))"
| r_fill: "ty_run y = Fill k \<Longrightarrow> \<not> waiting t (ty_pool y) \<Longrightarrow>
    tier_step RunStep y (at_run (Filling (nat (deficit (ty_pool y))) k) y)"
| r_fill_ends: "ty_run y = Fill k \<or> ty_run y = Filling n k \<Longrightarrow> tier_step RunStep y (at_run (PassTop (Suc k)) y)"
| r_fill_fails: "ty_run y = Fill k \<or> ty_run y = Filling n k \<Longrightarrow>
    tier_step RunStep y (at_run (PassTop (Suc k)) (on_pool (sec_failed t) y))"
| r_fill_runs: "ty_run y = Filling (Suc n) k \<Longrightarrow> 0 < deficit (ty_pool y) \<Longrightarrow> i \<notin> set (ty_ids y) \<Longrightarrow>
    tier_step RunStep y (at_run (Filled i n k) (given_out [i] y))"
| r_filled: "ty_run y = Filled i n k \<Longrightarrow>
    tier_step RunStep y
      (at_run (Filling n k) (on_pool (\<lambda>p. (sec_warm i (Some t) p)\<lparr>pl_failures := 0\<rparr>) y))"

inductive_cases tier_stepE: "tier_step l y z"

definition tier_init :: "int \<Rightarrow> tier_sys \<Rightarrow> bool" where
  "tier_init target y \<longleftrightarrow>
     y = \<lparr>ty_pool = newPool target, ty_live = [], ty_threads = [], ty_run = Starting, ty_ids = [], ty_back = []\<rparr>"

end
