(* ===== verification/EC2_Threads_Claims.thy ===== *)
theory EC2_Threads_Claims
  imports EC2_Threads
begin

text \<open>
  Where the instances of a tier can be while its goroutines interleave: in one place at a time, and tracked
  while a launch is on them, unless a claim had put them back into the pool before.
\<close>

section \<open>Places\<close>

fun holds :: "thread \<Rightarrow> string list" where
  "holds (Popped d) = [pd_id d]"
| "holds (Preparing d) = [pd_id d]"
| "holds (GivenUp i again) = [i]"
| "holds (OnPooled d) = [pd_id d]"
| "holds (Launched i) = [i]"
| "holds (OnCold i) = [i]"
| "holds (Trimming d) = [pd_id d]"
| "holds _ = []"

fun run_holds :: "run_pc \<Rightarrow> string list" where
  "run_holds (Discovering is) = map i_id is"
| "run_holds (Rechecked i st ids k) = [i]"
| "run_holds (RunTrimming d k) = [pd_id d]"
| "run_holds (Filled i n k) = [i]"
| "run_holds _ = []"

definition pool_places :: "Pool \<Rightarrow> string multiset" where
  "pool_places p = mset (map pd_id (pl_ready p)) + mset (keys (pl_warming p))"

definition thread_places :: "(nat, thread) gomap \<Rightarrow> string multiset" where
  "thread_places ts = mset (concat (map (\<lambda>nt. holds (snd nt)) ts))"

definition places :: "tier_sys \<Rightarrow> string multiset" where
  "places y = pool_places (ty_pool y) + thread_places (ty_threads y) + mset (run_holds (ty_run y))"

lemma thread_places_mput:
  "thread_places (mput n u m) + mset (case mlookup m n of None \<Rightarrow> [] | Some t \<Rightarrow> holds t) = thread_places m + mset (holds u)"
  by (induction m) (auto simp: thread_places_def ac_simps)

lemma thread_places_mdel:
  "wf_map m \<Longrightarrow> thread_places (mdel n m) + mset (case mlookup m n of None \<Rightarrow> [] | Some t \<Rightarrow> holds t) = thread_places m"
proof (induction m)
  case (Cons kv m)
  obtain a t where kv: "kv = (a, t)" by fastforce
  have wf: "wf_map m" and a: "a \<notin> fst ` set m" using Cons.prems by (simp_all add: kv wf_map_def keys_def)
  show ?case
  proof (cases "a = n")
    case True
    with a show ?thesis by (simp add: kv delete_id thread_places_def)
  next
    case False
    with Cons.IH [OF wf] show ?thesis by (auto simp: kv thread_places_def ac_simps)
  qed
qed (simp add: thread_places_def)

lemma thread_places_lookup: "mlookup m n = Some t \<Longrightarrow> i \<in> set (holds t) \<Longrightarrow> i \<in># thread_places m"
  by (induction m) (auto simp: thread_places_def split: if_splits)

text \<open>Two goroutines that hold an instance count twice.\<close>

lemma two_hold:
  assumes wf: "wf_map m" and t: "mlookup m n = Some t" "i \<in> set (holds t)"
    and u: "mlookup m k = Some u" "i \<in> set (holds u)" and "k \<noteq> n"
  shows "2 \<le> count (thread_places m) i"
proof -
  have "mlookup (mdel n m) k = Some u" using u assms(6) by simp
  then have "1 \<le> count (thread_places (mdel n m)) i" using thread_places_lookup u(2) by fastforce
  moreover have "1 \<le> count (mset (holds t)) i" using t(2) by (simp add: count_list_0_iff Suc_le_eq)
  moreover have "count (thread_places m) i = count (thread_places (mdel n m)) i + count (mset (holds t)) i"
    using thread_places_mdel [OF wf, of n] t(1) by (metis count_union option.simps(5))
  ultimately show ?thesis by linarith
qed

section \<open>What the sections move\<close>

lemma warm_places: "pool_places (sec_warm i t p) \<subseteq># pool_places p + {#i#}"
proof -
  have "mset (keys (mput i t m)) \<subseteq># mset (keys m) + {#i#}" for m :: "(string, time option) gomap"
    by (induction m) (auto simp: keys_def)
  then show ?thesis by (simp add: sec_warm_def pool_places_def)
qed

lemma keys_mdel: "mset (keys (mdel i m)) \<subseteq># mset (keys m)"
  by (induction m) (auto simp: keys_def subset_mset.add_increasing2 intro: subset_mset.order_trans)

lemma keys_mdel_in: "i \<in> set (keys m) \<Longrightarrow> mset (keys (mdel i m)) + {#i#} \<subseteq># mset (keys m)"
proof (induction m)
  case (Cons kv m)
  show ?case
  proof (cases "fst kv = i")
    case True
    then have "keys (mdel i (kv # m)) = keys (mdel i m)" by (cases kv) (simp add: keys_def)
    with True keys_mdel [of i m] show ?thesis by (simp add: keys_def)
  next
    case False
    with Cons show ?thesis by (cases kv) (auto simp: keys_def)
  qed
qed (simp add: keys_def)

lemma forget_places: "pool_places (sec_forget i p) \<subseteq># pool_places p"
  by (simp add: sec_forget_def pool_places_def keys_mdel)

lemma ready_places: "pool_places (sec_ready i p) \<subseteq># pool_places p + {#i_id i#}"
  by (simp add: sec_ready_def sec_forget_def pool_places_def pooled_of_def keys_mdel)

lemma ready_places_warming:
  "i_id i \<in> set (keys (pl_warming p)) \<Longrightarrow> pool_places (sec_ready i p) \<subseteq># pool_places p"
  using keys_mdel_in [of "i_id i" "pl_warming p"]
  by (simp add: sec_ready_def sec_forget_def pool_places_def pooled_of_def)

lemma claim_places: "sec_claim p = Some (d, q) \<Longrightarrow> pool_places p = pool_places q + {#pd_id d#}"
  by (auto simp: sec_claim_def pool_places_def split: list.splits)

lemma trim_places: "sec_trim p = Some (d, q) \<Longrightarrow> pool_places p = pool_places q + {#pd_id d#}"
proof -
  assume t: "sec_trim p = Some (d, q)"
  then have r: "pl_ready p = pl_ready q @ [d]" "pl_warming q = pl_warming p"
    by (auto simp: sec_trim_def split: if_splits)
  show ?thesis by (simp add: pool_places_def r)
qed

lemma take_places: "takeReady i p = Some (d, q) \<Longrightarrow> pd_id d = i \<and> pool_places p = pool_places q + {#i#}"
proof -
  have f: "take_first i ds = Some (d, es) \<Longrightarrow> pd_id d = i \<and> mset (map pd_id ds) = mset (map pd_id es) + {#i#}" for ds d es
    by (induction ds arbitrary: es) (auto split: if_splits option.splits)
  assume "takeReady i p = Some (d, q)"
  then obtain es where "take_first i (pl_ready p) = Some (d, es)" "q = p\<lparr>pl_ready := es\<rparr>"
    by (auto simp: takeReady_def split: option.splits prod.splits)
  with f [of "pl_ready p" d es] show ?thesis by (auto simp: pool_places_def)
qed

lemma push_places [simp]:
  "pool_places (sec_requeue d p) = pool_places p + {#pd_id d#}"
  "pool_places (sec_untrim d p) = pool_places p + {#pd_id d#}"
  "pool_places (poke p) = pool_places p" "pool_places (p\<lparr>pl_target := k\<rparr>) = pool_places p"
  "pool_places (p\<lparr>pl_failures := f\<rparr>) = pool_places p" "pool_places (sec_failed t p) = pool_places p"
  by (simp_all add: sec_requeue_def sec_untrim_def poke_def sec_failed_def pool_places_def Let_def)

lemma discover_places: "pool_places (discover_one b i p) \<subseteq># pool_places p + {#i_id i#}"
  using ready_places [of i p] warm_places [of "i_id i" "i_launched i" p] by (simp add: discover_one_def)

lemma refresh_places:
  "i_id i \<in> set (keys (pl_warming p)) \<Longrightarrow> pool_places (refresh_answer ok t i p) \<subseteq># pool_places p"
  using ready_places_warming [of i p] forget_places [of "i_id i" p]
  by (simp add: refresh_answer_def split: instance_state.split)

section \<open>The invariant\<close>

fun tracks :: "thread \<Rightarrow> string option" where
  "tracks (Preparing d) = Some (pd_id d)"
| "tracks (GivenUp i again) = Some i"
| "tracks (OnPooled d) = Some (pd_id d)"
| "tracks (OnCold i) = Some i"
| "tracks _ = None"

lemma tracks_holds: "tracks t = Some i \<Longrightarrow> i \<in> set (holds t)"
  by (cases t) auto

definition one_place :: "tier_sys \<Rightarrow> bool" where
  "one_place y \<longleftrightarrow>
     wf_map (ty_threads y) \<and> (\<forall>i. count (places y) i \<le> 1) \<and> set_mset (places y) \<subseteq> set (ty_ids y) \<and>
     (\<forall>is k. ty_run y = Refreshing is k \<longrightarrow> distinct (map i_id is) \<and> i_id ` set is \<subseteq> set (keys (pl_warming (ty_pool y))))"

definition tracked_or_back :: "tier_sys \<Rightarrow> bool" where
  "tracked_or_back y \<longleftrightarrow>
     (\<forall>n t i. mlookup (ty_threads y) n = Some t \<longrightarrow> tracks t = Some i \<longrightarrow> i \<in> set (ty_live y) \<union> set (ty_back y)) \<and>
     (\<forall>n i again. mlookup (ty_threads y) n = Some (GaveBack i again) \<longrightarrow> i \<in> set (ty_back y))"

definition tier_inv :: "tier_sys \<Rightarrow> bool" where
  "tier_inv y \<longleftrightarrow> one_place y \<and> tracked_or_back y"

lemmas thread_ops = on_pool_def track_id_def untrack_id_def note_back_def given_out_def
lemmas tier_ops = thread_ops go_on_def at_run_def

text \<open>A step that moves an instance keeps \<open>one_place\<close>; so does one that brings new ones.\<close>

lemma places_moved:
  assumes "places z \<subseteq># places y + mset new" "\<forall>i. count (places y) i \<le> 1" "set_mset (places y) \<subseteq> set (ty_ids y)"
    and "distinct new" "set new \<inter> set (ty_ids y) = {}" "set new \<union> set (ty_ids y) \<subseteq> set (ty_ids z)"
  shows "(\<forall>i. count (places z) i \<le> 1) \<and> set_mset (places z) \<subseteq> set (ty_ids z)"
proof (intro conjI allI)
  fix i
  have "count (places z) i \<le> count (places y) i + count (mset new) i"
    using mset_subset_eq_count [OF assms(1)] by simp
  moreover have "count (mset new) i \<le> 1" using assms(4) by (simp add: distinct_count_atmost_1)
  moreover have "count (places y) i = 0 \<or> count (mset new) i = 0"
    using assms(3,5) by (metis (no_types, lifting) IntI count_inI empty_iff set_mset_mset subsetD)
  ultimately show "count (places z) i \<le> 1" using assms(2) by (metis add.right_neutral add_0 le_trans)
next
  show "set_mset (places z) \<subseteq> set (ty_ids z)"
    using set_mset_mono [OF assms(1)] assms(3,6) by auto
qed

lemma thread_moved:
  assumes wf: "wf_map (ty_threads y)" and t: "mlookup (ty_threads y) n = t"
    and sub: "pool_places p + mset (case u of None \<Rightarrow> [] | Some u \<Rightarrow> holds u) \<subseteq>#
      pool_places (ty_pool y) + mset (case t of None \<Rightarrow> [] | Some t \<Rightarrow> holds t) + mset new"
    and z: "ty_pool z = p" "ty_run z = ty_run y" "ty_threads z = ty_threads (go_on n u y)"
  shows "places z \<subseteq># places y + mset new"
proof -
  let ?h = "\<lambda>t. mset (case t of None \<Rightarrow> [] | Some t \<Rightarrow> holds t)"
  have e: "thread_places (ty_threads (go_on n u y)) + ?h t = thread_places (ty_threads y) + ?h u"
  proof (cases u)
    case None
    then show ?thesis using thread_places_mdel [OF wf, of n] t by (simp add: go_on_def)
  next
    case (Some x)
    then show ?thesis using thread_places_mput [of n x "ty_threads y"] t by (simp add: go_on_def)
  qed
  have "places z + ?h t = pool_places p + mset (run_holds (ty_run y)) + (thread_places (ty_threads (go_on n u y)) + ?h t)"
    by (simp add: places_def z ac_simps)
  also have "\<dots> = (pool_places p + ?h u) + (mset (run_holds (ty_run y)) + thread_places (ty_threads y))"
    unfolding e by (simp add: ac_simps)
  also have "\<dots> \<subseteq># (pool_places (ty_pool y) + ?h t + mset new) + (mset (run_holds (ty_run y)) + thread_places (ty_threads y))"
    using sub by (rule subset_mset.add_right_mono)
  also have "\<dots> = places y + mset new + ?h t"
    by (simp add: places_def ac_simps)
  finally show ?thesis by simp
qed

lemma run_moved:
  assumes "pool_places (ty_pool z) + mset (run_holds (ty_run z)) \<subseteq>#
      pool_places (ty_pool y) + mset (run_holds (ty_run y)) + mset new"
    and "ty_threads z = ty_threads y"
  shows "places z \<subseteq># places y + mset new"
proof -
  have "pool_places (ty_pool z) + mset (run_holds (ty_run z)) + thread_places (ty_threads y) \<subseteq>#
      pool_places (ty_pool y) + mset (run_holds (ty_run y)) + mset new + thread_places (ty_threads y)"
    using assms(1) by (rule subset_mset.add_right_mono)
  then show ?thesis by (simp add: places_def assms(2) ac_simps)
qed

definition fresh_for :: "string list \<Rightarrow> tier_sys \<Rightarrow> tier_sys \<Rightarrow> bool" where
  "fresh_for new y z \<longleftrightarrow>
     distinct new \<and> set new \<inter> set (ty_ids y) = {} \<and> set new \<union> set (ty_ids y) \<subseteq> set (ty_ids z)"

lemma fresh_for_simps [simp]:
  "fresh_for [] y z \<longleftrightarrow> set (ty_ids y) \<subseteq> set (ty_ids z)"
  "fresh_for [i] y z \<longleftrightarrow> i \<notin> set (ty_ids y) \<and> insert i (set (ty_ids y)) \<subseteq> set (ty_ids z)"
  by (auto simp: fresh_for_def)

lemma one_place_go:
  assumes y: "one_place y"
    and sub: "pool_places (ty_pool w) + mset (case u of None \<Rightarrow> [] | Some u \<Rightarrow> holds u) \<subseteq>#
      pool_places (ty_pool y) + mset (case mlookup (ty_threads y) n of None \<Rightarrow> [] | Some t \<Rightarrow> holds t) + mset new"
    and w: "ty_run w = ty_run y" "ty_threads w = ty_threads y"
    and warm: "set (keys (pl_warming (ty_pool y))) \<subseteq> set (keys (pl_warming (ty_pool w)))"
    and new: "fresh_for new y w"
  shows "one_place (go_on n u w)"
proof -
  let ?z = "go_on n u w"
  have wf: "wf_map (ty_threads y)" using y by (simp add: one_place_def)
  have z: "ty_pool ?z = ty_pool w" "ty_run ?z = ty_run y" "ty_threads ?z = ty_threads (go_on n u y)" "ty_ids ?z = ty_ids w"
    by (simp_all add: go_on_def w split: option.split)
  have "wf_map (ty_threads ?z)" using wf by (simp add: w go_on_def split: option.split)
  moreover have "(\<forall>i. count (places ?z) i \<le> 1) \<and> set_mset (places ?z) \<subseteq> set (ty_ids ?z)"
    by (rule places_moved [OF thread_moved [OF wf refl sub z(1-3)]])
      (use y new in \<open>auto simp: one_place_def fresh_for_def z(4)\<close>)
  ultimately show ?thesis using y warm unfolding one_place_def z(1,2) by blast
qed

lemma one_place_run:
  assumes y: "one_place y" and z: "ty_threads z = ty_threads y"
    and sub: "pool_places (ty_pool z) + mset (run_holds (ty_run z)) \<subseteq>#
      pool_places (ty_pool y) + mset (run_holds (ty_run y)) + mset new"
    and ref: "\<And>is k. ty_run z = Refreshing is k \<Longrightarrow>
      distinct (map i_id is) \<and> i_id ` set is \<subseteq> set (keys (pl_warming (ty_pool z)))"
    and new: "fresh_for new y z"
  shows "one_place z"
proof -
  have "(\<forall>i. count (places z) i \<le> 1) \<and> set_mset (places z) \<subseteq> set (ty_ids z)"
    by (rule places_moved [OF run_moved [OF sub z]]) (use y new in \<open>auto simp: one_place_def fresh_for_def\<close>)
  then show ?thesis using y ref by (simp add: one_place_def z)
qed

lemma section_warming [simp]:
  "pl_warming (sec_requeue d p) = pl_warming p" "pl_warming (sec_untrim d p) = pl_warming p"
  "pl_warming (poke p) = pl_warming p" "set (keys (pl_warming (sec_warm i t p))) = insert i (set (keys (pl_warming p)))"
  by (auto simp: sec_requeue_def sec_untrim_def poke_def sec_warm_def set_keys_iff split: if_splits)

lemma claim_warming: "sec_claim p = Some (d, q) \<Longrightarrow> pl_warming q = pl_warming p"
  by (auto simp: sec_claim_def split: list.splits)

lemma trim_warming: "sec_trim p = Some (d, q) \<Longrightarrow> pl_warming q = pl_warming p"
  by (auto simp: sec_trim_def split: if_splits)

lemma refresh_keeps:
  "j \<noteq> i_id i \<Longrightarrow> j \<in> set (keys (pl_warming p)) \<Longrightarrow> j \<in> set (keys (pl_warming (refresh_answer ok t i p)))"
  by (simp add: refresh_answer_def sec_ready_def sec_forget_def set_keys_iff split: instance_state.split)

lemma one_place_init: "tier_init target y \<Longrightarrow> one_place y"
  by (auto simp: tier_init_def one_place_def places_def pool_places_def thread_places_def newPool_def keys_def)

lemma one_place_threads:
  assumes y: "one_place y" and st: "tier_step l y z" and "l \<noteq> RunStep"
  shows "one_place z"
  using st assms(3)
proof cases
  case (t_rewarm n d t)
  with warm_places [of "pd_id d" "Some t" "ty_pool y"] show ?thesis
    by (auto simp: thread_ops intro!: one_place_go [OF y, where new = "[]"])
next
  case (t_cold_runs n i)
  then show ?thesis by (auto simp: thread_ops intro!: one_place_go [OF y, where new = "[i]"])
qed (auto simp: thread_ops after_claim_def claim_places claim_warming trim_places trim_warming
       intro!: one_place_go [OF y, where new = "[]"])

lemma one_place_runs:
  assumes y: "one_place y" and st: "tier_step RunStep y z"
  shows "one_place z"
  using st
proof cases
  case (r_list "is")
  then show ?thesis
    by (intro one_place_run [OF y, where new = "map i_id is"]) (auto simp: tier_ops fresh_for_def)
next
  case (r_discover i "is" tagged)
  then show ?thesis
    using subset_mset.add_right_mono [OF discover_places [of tagged i "ty_pool y"], of "mset (map i_id is)"]
    by (intro one_place_run [OF y, where new = "[]"]) (auto simp: tier_ops ac_simps)
next
  case (r_refresh i "is" k ok t)
  then have w: "i_id i \<in> set (keys (pl_warming (ty_pool y)))" and
    r: "distinct (map i_id (i # is))" "i_id ` set (i # is) \<subseteq> set (keys (pl_warming (ty_pool y)))"
    using y by (auto simp: one_place_def)
  have "i_id i \<notin> i_id ` set is" using r(1) by simp
  then have "i_id j \<noteq> i_id i" if "j \<in> set is" for j using that by (metis imageI)
  with r(2) have "i_id ` set is \<subseteq> set (keys (pl_warming (refresh_answer ok t i (ty_pool y))))"
    by (auto intro!: refresh_keeps)
  with r_refresh r refresh_places [OF w, of ok t] show ?thesis
    by (intro one_place_run [OF y, where new = "[]"]) (auto simp: tier_ops)
next
  case (r_check_takes st i ids k x d p)
  then show ?thesis
    using take_places [OF r_check_takes(5)]
    by (intro one_place_run [OF y, where new = "[]"]) (auto simp: tier_ops split: if_splits)
next
  case (r_rewarm i st ids k t)
  then show ?thesis
    using warm_places [of i "Some t" "ty_pool y"]
    by (intro one_place_run [OF y, where new = "[]"]) (auto simp: tier_ops)
next
  case (r_trim_takes k d p)
  then show ?thesis
    by (intro one_place_run [OF y, where new = "[]"]) (auto simp: tier_ops trim_places)
next
  case (r_fill_runs n k i)
  then show ?thesis
    by (intro one_place_run [OF y, where new = "[i]"]) (auto simp: tier_ops)
next
  case (r_filled i n k t)
  then show ?thesis
    using warm_places [of i "Some t" "ty_pool y"]
    by (intro one_place_run [OF y, where new = "[]"]) (auto simp: tier_ops)
next
  case (r_describe k "is")
  then show ?thesis
    by (intro one_place_run [OF y, where new = "[]"]) (simp_all add: tier_ops)
qed (auto simp: tier_ops intro!: one_place_run [OF y, where new = "[]"] split: if_splits)

lemma one_place_step: "one_place y \<Longrightarrow> tier_step l y z \<Longrightarrow> one_place z"
  by (cases "l = RunStep") (blast intro: one_place_runs one_place_threads)+

section \<open>Tracking\<close>

text \<open>A thread that holds an instance is the only one to.\<close>

lemma held_once:
  assumes "one_place y" "mlookup (ty_threads y) n = Some t" "i \<in> set (holds t)"
    and "mlookup (ty_threads y) m = Some u" "i \<in> set (holds u)"
  shows "m = n"
proof (rule ccontr)
  assume "m \<noteq> n"
  have wf: "wf_map (ty_threads y)" using assms(1) by (simp add: one_place_def)
  have "count (thread_places (ty_threads y)) i \<le> count (places y) i" by (simp add: places_def)
  with two_hold [OF wf assms(2-5) \<open>m \<noteq> n\<close>] assms(1) show False
    unfolding one_place_def by (metis numeral_le_one_iff le_trans semiring_norm(69))
qed

lemma tracked_frame [simp]:
  "tracked_or_back (y\<lparr>ty_pool := p\<rparr>) = tracked_or_back y" "tracked_or_back (y\<lparr>ty_run := r\<rparr>) = tracked_or_back y"
  "tracked_or_back (y\<lparr>ty_ids := is\<rparr>) = tracked_or_back y"
  by (simp_all add: tracked_or_back_def)

lemma tracked_go:
  assumes y: "tracked_or_back y" and w: "ty_threads w = ty_threads y" "set (ty_back y) \<subseteq> set (ty_back w)"
    and live: "\<And>m t i. m \<noteq> n \<Longrightarrow> mlookup (ty_threads y) m = Some t \<Longrightarrow> tracks t = Some i \<Longrightarrow>
      i \<in> set (ty_live y) \<union> set (ty_back y) \<Longrightarrow> i \<in> set (ty_live w) \<union> set (ty_back w)"
    and own: "\<And>i t. u = Some t \<Longrightarrow> tracks t = Some i \<Longrightarrow> i \<in> set (ty_live w) \<union> set (ty_back w)"
    and gave: "\<And>i again. u = Some (GaveBack i again) \<Longrightarrow> i \<in> set (ty_back w)"
  shows "tracked_or_back (go_on n u w)"
proof -
  have at: "mlookup (ty_threads (go_on n u w)) m = (if m = n then u else mlookup (ty_threads y) m)" for m
    by (simp add: go_on_def w(1) split: option.split)
  have same: "ty_live (go_on n u w) = ty_live w" "ty_back (go_on n u w) = ty_back w" by (simp_all add: go_on_def)
  show ?thesis
    unfolding tracked_or_back_def at same
  proof (intro conjI allI impI)
    fix m t i assume "(if m = n then u else mlookup (ty_threads y) m) = Some t" "tracks t = Some i"
    then show "i \<in> set (ty_live w) \<union> set (ty_back w)"
      using own live [of m t i] y unfolding tracked_or_back_def by (auto split: if_splits)
  next
    fix m i again assume "(if m = n then u else mlookup (ty_threads y) m) = Some (GaveBack i again)"
    then show "i \<in> set (ty_back w)"
      using gave w(2) y unfolding tracked_or_back_def by (metis subsetD)
  qed
qed

text \<open>A thread's own \<open>untrack\<close> leaves the others' instances tracked.\<close>

lemma tracked_untrack:
  assumes one: "one_place y" and y: "tracked_or_back y" and t: "mlookup (ty_threads y) n = Some t" "tracks t = Some i"
    and u: "\<And>x. u = Some x \<Longrightarrow> tracks x = None \<and> (\<forall>i again. x \<noteq> GaveBack i again)"
  shows "tracked_or_back (go_on n u (untrack_id i y))"
proof (rule tracked_go [OF y])
  fix m x j assume m: "m \<noteq> n" "mlookup (ty_threads y) m = Some x" "tracks x = Some j"
    and "j \<in> set (ty_live y) \<union> set (ty_back y)"
  then show "j \<in> set (ty_live (untrack_id i y)) \<union> set (ty_back (untrack_id i y))"
    using held_once [OF one t(1) tracks_holds [OF t(2)] m(2)] tracks_holds [OF m(3)]
    by (auto simp: untrack_id_def)
qed (use u in \<open>auto simp: untrack_id_def\<close>)

lemma tracked_step:
  assumes one: "one_place y" and y: "tracked_or_back y" and st: "tier_step l y z"
  shows "tracked_or_back z"
  using st
proof cases
  case (t_untrack_back n i again fb)
  then have "i \<in> set (ty_back y)" using y unfolding tracked_or_back_def by blast
  with t_untrack_back show ?thesis
    by (auto simp: thread_ops after_claim_def intro!: tracked_go [OF y] split: if_splits)
next
  case (t_untrack_gone n i again fb)
  show ?thesis
    unfolding t_untrack_gone(2)
    by (rule tracked_untrack [OF one y t_untrack_gone(3)]) (auto simp: after_claim_def split: if_splits)
next
  case (t_pooled_ends n d fb)
  show ?thesis
    unfolding t_pooled_ends(2)
    by (rule tracked_untrack [OF one y t_pooled_ends(3)]) (auto simp: after_claim_def split: if_splits)
next
  case (t_cold_ends n i)
  show ?thesis
    unfolding t_cold_ends(2) by (rule tracked_untrack [OF one y t_cold_ends(3)]) auto
next
  case (t_claimed n d)
  then have "pd_id d \<in> set (ty_live y) \<union> set (ty_back y)"
    using y unfolding tracked_or_back_def by (metis tracks.simps(1))
  with t_claimed show ?thesis by (auto simp: thread_ops intro!: tracked_go [OF y])
next
  case (t_give_up n d again)
  then have "pd_id d \<in> set (ty_live y) \<union> set (ty_back y)"
    using y unfolding tracked_or_back_def by (metis tracks.simps(1))
  with t_give_up show ?thesis by (auto intro!: tracked_go [OF y])
next
  case (t_launch n t)
  then show ?thesis by (auto intro!: tracked_go [OF y])
qed (auto simp: y thread_ops at_run_def intro!: tracked_go [OF y])

lemma tier_inv_init: "tier_init target y \<Longrightarrow> tier_inv y"
  using one_place_init by (auto simp: tier_inv_def tracked_or_back_def tier_init_def)

interpretation tier_system: invariant_system "tier_init target" tier_step tier_inv for target
  by unfold_locales (auto simp: tier_inv_init, auto simp: tier_inv_def intro: one_place_step tracked_step)

section \<open>The property\<close>

lemma count_distinct: "(\<And>i. count (mset xs) i \<le> 1) \<Longrightarrow> distinct xs"
  by (simp add: distinct_count_atmost_1 le_Suc_eq)

lemma pool_distinct:
  assumes "one_place y"
  shows "distinct (map pd_id (pl_ready (ty_pool y)) @ keys (pl_warming (ty_pool y)))"
proof (rule count_distinct)
  fix i
  have "count (mset (map pd_id (pl_ready (ty_pool y)) @ keys (pl_warming (ty_pool y)))) i \<le> count (places y) i"
    by (simp add: places_def pool_places_def)
  then show "count (mset (map pd_id (pl_ready (ty_pool y)) @ keys (pl_warming (ty_pool y)))) i \<le> 1"
    using assms unfolding one_place_def by (meson le_trans)
qed

lemma held_not_pooled:
  assumes "one_place y" "mlookup (ty_threads y) n = Some t" "i \<in> set (holds t)"
  shows "i \<notin> pd_id ` set (pl_ready (ty_pool y)) \<union> set (keys (pl_warming (ty_pool y))) \<union> set (run_holds (ty_run y))"
proof
  assume "i \<in> pd_id ` set (pl_ready (ty_pool y)) \<union> set (keys (pl_warming (ty_pool y))) \<union> set (run_holds (ty_run y))"
  then have "i \<in># pool_places (ty_pool y) + mset (run_holds (ty_run y))" by (auto simp: pool_places_def)
  then have "1 \<le> count (pool_places (ty_pool y) + mset (run_holds (ty_run y))) i"
    by (simp only: count_greater_eq_one_iff)
  moreover have "1 \<le> count (thread_places (ty_threads y)) i"
    using thread_places_lookup [OF assms(2,3)] by (simp only: count_greater_eq_one_iff)
  moreover have "count (places y) i =
      count (pool_places (ty_pool y) + mset (run_holds (ty_run y))) i + count (thread_places (ty_threads y)) i"
    by (simp add: places_def)
  ultimately have "2 \<le> count (places y) i" by linarith
  with assms(1) show False unfolding one_place_def by (metis numeral_le_one_iff le_trans semiring_norm(69))
qed

text \<open>
  C23. An instance is in at most one place, in every interleaving of launches, claims, resizings and the loop of
  \<open>Pool.Run\<close>: no instance is ready twice or ready and warming, and one that a launch or a resizing has in its
  hands is neither in the pool nor in the loop's hands nor in those of another goroutine.  So no two launches
  run on one instance, and the pool offers none that a launch runs on.  A launch's instance is tracked, which
  keeps the reaper away from it, unless some claim had put that instance back into the pool before.
\<close>

theorem instance_in_one_place:
  assumes "reach (tier_init target) tier_step y"
  shows "distinct (map pd_id (pl_ready (ty_pool y)) @ keys (pl_warming (ty_pool y))) \<and>
    (\<forall>n t i. mlookup (ty_threads y) n = Some t \<longrightarrow> i \<in> set (holds t) \<longrightarrow>
       i \<notin> pd_id ` set (pl_ready (ty_pool y)) \<union> set (keys (pl_warming (ty_pool y))) \<union> set (run_holds (ty_run y)) \<and>
       (\<forall>m u. mlookup (ty_threads y) m = Some u \<longrightarrow> i \<in> set (holds u) \<longrightarrow> m = n)) \<and>
    (\<forall>n t i. mlookup (ty_threads y) n = Some t \<longrightarrow> tracks t = Some i \<longrightarrow> i \<in> set (ty_live y) \<union> set (ty_back y))"
proof -
  have inv: "one_place y" "tracked_or_back y"
    using tier_system.reach_inv [OF assms] by (simp_all add: tier_inv_def)
  have "\<forall>n t i. mlookup (ty_threads y) n = Some t \<longrightarrow> tracks t = Some i \<longrightarrow> i \<in> set (ty_live y) \<union> set (ty_back y)"
    using inv(2) unfolding tracked_or_back_def by blast
  with pool_distinct [OF inv(1)] held_not_pooled [OF inv(1)] held_once [OF inv(1)] show ?thesis by blast
qed

text \<open>A run: the pool has one instance; a claim of it fails and puts it back, and a second claim takes it.\<close>

definition demo_stopped :: ec2_instance where
  "demo_stopped = \<lparr>i_id = ''i-1'', i_state = StStopped, i_ip = ''10.0.0.9'', i_spotReq = [], i_type = ''m'',
     i_tags = [(TagPool, PoolReady)], i_launched = None\<rparr>"

definition demo_ready :: pooled where "demo_ready = pooled_of demo_stopped"

definition demo_ty0 :: tier_sys where
  "demo_ty0 = \<lparr>ty_pool = newPool 1, ty_live = [], ty_threads = [], ty_run = Starting, ty_ids = [], ty_back = []\<rparr>"

definition demo_ty1 :: tier_sys where
  "demo_ty1 = at_run (Discovering []) (on_pool (discover_one True demo_stopped)
     (at_run (Discovering [demo_stopped]) (given_out [''i-1''] demo_ty0)))"

definition demo_pops :: "nat \<Rightarrow> tier_sys \<Rightarrow> tier_sys" where
  "demo_pops n y = go_on n (Some (Preparing demo_ready)) (track_id (pd_id demo_ready)
     (go_on n (Some (Popped demo_ready)) (on_pool (\<lambda>_. newPool 1) (go_on n (Some ClaimTop) y))))"

definition demo_ty2 :: tier_sys where
  "demo_ty2 = go_on 0 (Some (GaveBack ''i-1'' False))
     (note_back ''i-1'' (on_pool (sec_requeue demo_ready) (demo_pops 0 demo_ty1)))"

definition demo_ty3 :: tier_sys where
  "demo_ty3 = go_on 1 (Some (OnPooled demo_ready)) (on_pool poke (demo_pops 1 demo_ty2))"

definition demo_ty4 :: tier_sys where
  "demo_ty4 = go_on 0 (after_claim False False) (untrack_id ''i-1'' demo_ty3)"

lemma demo_reach_pops:
  assumes y: "reach (tier_init 1) tier_step y" and n: "mlookup (ty_threads y) n = None"
    and p: "sec_claim (ty_pool y) = Some (demo_ready, newPool 1)"
  shows "reach (tier_init 1) tier_step (demo_pops n y)"
proof -
  have 1: "reach (tier_init 1) tier_step (go_on n (Some ClaimTop) y)"
    by (rule reach_step [OF y t_launch [OF n]]) simp
  have 2: "reach (tier_init 1) tier_step (go_on n (Some (Popped demo_ready)) (on_pool (\<lambda>_. newPool 1) (go_on n (Some ClaimTop) y)))"
    by (rule reach_step [OF 1 t_pop]) (simp_all add: go_on_def p)
  show ?thesis
    unfolding demo_pops_def by (rule reach_step [OF 2 t_track]) (simp add: go_on_def)
qed

lemma demo_reach_ty3: "reach (tier_init 1) tier_step demo_ty3"
proof -
  have 0: "reach (tier_init 1) tier_step demo_ty0" by (rule reach_init) (simp add: tier_init_def demo_ty0_def)
  have a: "reach (tier_init 1) tier_step (at_run (Discovering [demo_stopped]) (given_out (map i_id [demo_stopped]) demo_ty0))"
    by (rule reach_step [OF 0 r_list]) (simp_all add: demo_ty0_def)
  have 1: "reach (tier_init 1) tier_step demo_ty1"
    using reach_step [OF a r_discover [where tagged = True]] by (simp add: demo_ty1_def at_run_def demo_stopped_def)
  have c: "sec_claim (ty_pool demo_ty1) = Some (demo_ready, newPool 1)" "mlookup (ty_threads demo_ty1) 0 = None" by code_simp+
  have b: "reach (tier_init 1) tier_step (demo_pops 0 demo_ty1)" by (rule demo_reach_pops [OF 1 c(2,1)])
  have "mlookup (ty_threads (demo_pops 0 demo_ty1)) 0 = Some (Preparing demo_ready)" by code_simp
  from reach_step [OF b t_requeue [OF this]] have 2: "reach (tier_init 1) tier_step demo_ty2"
    by (simp add: demo_ty2_def demo_ready_def pooled_of_def demo_stopped_def)
  have d: "sec_claim (ty_pool demo_ty2) = Some (demo_ready, newPool 1)" "mlookup (ty_threads demo_ty2) 1 = None" by code_simp+
  have e: "reach (tier_init 1) tier_step (demo_pops 1 demo_ty2)" by (rule demo_reach_pops [OF 2 d(2,1)])
  have "mlookup (ty_threads (demo_pops 1 demo_ty2)) 1 = Some (Preparing demo_ready)" by code_simp
  from reach_step [OF e t_claimed [OF this]] show ?thesis by (simp add: demo_ty3_def)
qed

lemma instance_in_one_place_witness:
  "mlookup (ty_threads demo_ty3) 1 = Some (OnPooled demo_ready) \<and> pd_id demo_ready = ''i-1'' \<and>
   ''i-1'' \<notin> pd_id ` set (pl_ready (ty_pool demo_ty3)) \<and> ''i-1'' \<in> set (ty_live demo_ty3) \<union> set (ty_back demo_ty3)"
proof -
  have t: "mlookup (ty_threads demo_ty3) 1 = Some (OnPooled demo_ready)" "pd_id demo_ready = ''i-1''" by code_simp+
  then have "''i-1'' \<in> set (holds (OnPooled demo_ready))" "tracks (OnPooled demo_ready) = Some ''i-1''" by simp_all
  with t instance_in_one_place [OF demo_reach_ty3] show ?thesis by blast
qed

text \<open>
  The exception is real: the first claim's \<open>untrack\<close> comes after the second has taken and tracked the instance, and
  from then on the launch runs on an instance the reaper may look at.
\<close>

lemma tracking_lost:
  "reach (tier_init 1) tier_step demo_ty4 \<and> mlookup (ty_threads demo_ty4) 1 = Some (OnPooled demo_ready) \<and>
   pd_id demo_ready \<notin> set (ty_live demo_ty4)"
proof -
  have "mlookup (ty_threads demo_ty3) 0 = Some (GaveBack ''i-1'' False)" by code_simp
  have "reach (tier_init 1) tier_step demo_ty4"
    unfolding demo_ty4_def by (rule reach_step [OF demo_reach_ty3], rule t_untrack_back, fact)
  moreover have "mlookup (ty_threads demo_ty4) 1 = Some (OnPooled demo_ready)" "pd_id demo_ready \<notin> set (ty_live demo_ty4)"
    by code_simp+
  ultimately show ?thesis by blast
qed

end
