(* ===== verification/Artifact_Proxy.thy ===== *)
theory Artifact_Proxy
  imports Addresses "HOL-Library.Word"
begin

text \<open>
  The forwarding of ArtifactService calls (\<open>internal/cacheserver/artifactproxy.go\<close>): which upstream is
  accepted, which calls go there, what the guest gets when the hop fails, and the counters.

  \<open>httputil.ReverseProxy\<close>, the transport and \<open>url.Parse\<close> are Go's library; of a hop the model takes what
  it ended with.  Headers and the query pass through unchanged and are left out, with \<open>RawPath\<close>: a forwarded
  path is the service's path with one of the five names.  The bound on a body of undeclared length is a field
  of the forwarded call, which the library enforces as it reads.
\<close>

section \<open>The upstream\<close>

definition artifactTwirpBase :: string where
  "artifactTwirpBase = ''/twirp/github.actions.results.api.v1.ArtifactService/''"

definition maxArtifactRPCBody :: int where "maxArtifactRPCBody = 1048576"

definition artifactMethods :: "string list" where
  "artifactMethods = [''CreateArtifact'', ''FinalizeArtifact'', ''ListArtifacts'', ''GetSignedArtifactURL'', ''DeleteArtifact'']"

datatype upstream_error = NotAURL | NotAbsolute | QueryOrFragment | CarriesUserinfo

record artifact_proxy =
  ap_upstream :: "url option"
  ap_rpcs :: "64 word"
  ap_errors :: "64 word"

text \<open>The errors carry nothing of the value.\<close>

definition SetArtifactUpstream ::
  "(string \<Rightarrow> url option) \<Rightarrow> string \<Rightarrow> artifact_proxy \<Rightarrow> upstream_error option \<times> artifact_proxy" where
  "SetArtifactUpstream parse raw s =
     (if raw = [] then (None, s\<lparr>ap_upstream := None\<rparr>)
      else (case parse raw of
              None \<Rightarrow> (Some NotAURL, s)
            | Some u \<Rightarrow>
                if (u_Scheme u \<noteq> ''http'' \<and> u_Scheme u \<noteq> ''https'') \<or> u_Hostname u = [] then (Some NotAbsolute, s)
                else if u_RawQuery u \<noteq> [] \<or> u_Fragment u \<noteq> [] then (Some QueryOrFragment, s)
                else if u_hasUser u then (Some CarriesUserinfo, s)
                else (None, s\<lparr>ap_upstream := Some u\<rparr>)))"

section \<open>Failures of the hop\<close>

datatype hop_error = BodyTooLarge | HopError

text \<open>
  How \<open>ServeHTTP\<close> ends: a reply relayed with its status, a relay that broke off after the headers, or an
  error before them, with what the recorder and the context then say.
\<close>

datatype hop_end =
    Relayed int
  | BrokeOff int
  | HopFailed hop_error bool bool

datatype artifact_reply =
    TwirpError int string string
  | UpstreamReply int
  | Aborted int

definition artifactProxyError :: "hop_error \<Rightarrow> bool \<Rightarrow> bool \<Rightarrow> artifact_reply" where
  "artifactProxyError err deadline bodyTimedOut =
     (if err = BodyTooLarge then TwirpError 413 ''invalid_argument'' ''artifact rpc body too large''
      else if deadline \<or> bodyTimedOut then TwirpError 504 ''deadline_exceeded'' ''artifact rpc timed out''
      else TwirpError 502 ''unavailable'' ''artifact upstream unavailable'')"

section \<open>The handler\<close>

text \<open>\<open>r.ContentLength\<close> is -1 when the client did not say.\<close>

record artifact_call =
  ac_method :: string
  ac_length :: int

text \<open>\<open>SetURL\<close>: the scheme and host of the upstream, and its path joined with the call's by one slash.\<close>

definition join_url_path :: "string \<Rightarrow> string \<Rightarrow> string" where
  "join_url_path a b =
     (if has_suffix a ''/'' \<and> has_prefix b ''/'' then a @ drop 1 b
      else if \<not> has_suffix a ''/'' \<and> \<not> has_prefix b ''/'' then a @ ''/'' @ b
      else a @ b)"

record forwarded =
  fw_scheme :: string
  fw_host :: string
  fw_path :: string
  fw_bodyLimit :: int

definition forward_to :: "url \<Rightarrow> string \<Rightarrow> forwarded" where
  "forward_to u m =
     \<lparr>fw_scheme = u_Scheme u, fw_host = u_Host u, fw_path = join_url_path (u_Path u) (artifactTwirpBase @ m),
      fw_bodyLimit = maxArtifactRPCBody\<rparr>"

definition count_error :: "artifact_proxy \<Rightarrow> artifact_proxy" where
  "count_error s = s\<lparr>ap_errors := ap_errors s + 1\<rparr>"

text \<open>\<open>rec.proxyErr\<close> is set by the error handler; the broken relay is counted by the deferred function.\<close>

definition handleArtifactProxy ::
  "artifact_call \<Rightarrow> hop_end \<Rightarrow> artifact_proxy \<Rightarrow> forwarded option \<times> artifact_reply \<times> artifact_proxy" where
  "handleArtifactProxy r hop s =
     (if ac_method r \<notin> set artifactMethods then
        (None, TwirpError 404 ''bad_route'' ''unknown ArtifactService method'', count_error s)
      else (case ap_upstream s of
              None \<Rightarrow>
                (None, TwirpError 501 ''unimplemented''
                   ''artifact service forwarding is disabled on this cache-server; configure --artifact-upstream'', count_error s)
            | Some u \<Rightarrow>
                if ac_length r > maxArtifactRPCBody then
                  (None, TwirpError 413 ''invalid_argument'' ''artifact rpc body too large'', count_error s)
                else
                  (let s = s\<lparr>ap_rpcs := ap_rpcs s + 1\<rparr>; out = Some (forward_to u (ac_method r)) in
                   case hop of
                     BrokeOff status \<Rightarrow> (out, Aborted status, count_error s)
                   | Relayed status \<Rightarrow> (out, UpstreamReply status, if status \<ge> 500 then count_error s else s)
                   | HopFailed e deadline timedOut \<Rightarrow> (out, artifactProxyError e deadline timedOut, count_error s))))"

fun serve_calls :: "(artifact_call \<times> hop_end) list \<Rightarrow> artifact_proxy \<Rightarrow> (forwarded option \<times> artifact_reply) list \<times> artifact_proxy" where
  "serve_calls [] s = ([], s)"
| "serve_calls ((r, hop) # rs) s =
     (case handleArtifactProxy r hop s of
        (f, a, s) \<Rightarrow> (case serve_calls rs s of (as, s) \<Rightarrow> ((f, a) # as, s)))"

definition new_proxy :: artifact_proxy where
  "new_proxy = \<lparr>ap_upstream = None, ap_rpcs = 0, ap_errors = 0\<rparr>"

section \<open>What is forwarded\<close>

text \<open>A reply that tells the guest the call did not succeed: anything but a relayed reply below 500.\<close>

fun failed_reply :: "artifact_reply \<Rightarrow> bool" where
  "failed_reply (UpstreamReply status) = (status \<ge> 500)"
| "failed_reply (TwirpError _ _ _) = True"
| "failed_reply (Aborted _) = True"

definition safe_upstream :: "url \<Rightarrow> bool" where
  "safe_upstream u \<longleftrightarrow>
     (u_Scheme u = ''http'' \<or> u_Scheme u = ''https'') \<and> u_Hostname u \<noteq> [] \<and> u_RawQuery u = [] \<and> u_Fragment u = [] \<and>
     \<not> u_hasUser u"

lemma set_upstream:
  "SetArtifactUpstream parse raw s = (e, t) \<Longrightarrow>
   ap_rpcs t = ap_rpcs s \<and> ap_errors t = ap_errors s \<and>
   (e = None \<longrightarrow> ap_upstream t = (if raw = [] then None else parse raw) \<and> (\<forall>u. ap_upstream t = Some u \<longrightarrow> safe_upstream u)) \<and>
   (e \<noteq> None \<longrightarrow> t = s)"
  by (auto simp: SetArtifactUpstream_def safe_upstream_def split: if_splits option.splits)

lemma handle_counts:
  assumes "handleArtifactProxy r hop s = (f, a, t)"
  shows "ap_upstream t = ap_upstream s"
    and "ap_rpcs t = ap_rpcs s + of_bool (f \<noteq> None)"
    and "ap_errors t = ap_errors s + of_bool (failed_reply a)"
    and "f = Some g \<Longrightarrow> \<exists>u. ap_upstream s = Some u \<and> ac_method r \<in> set artifactMethods \<and>
       ac_length r \<le> maxArtifactRPCBody \<and> g = forward_to u (ac_method r)"
    and "f = None \<Longrightarrow> \<exists>c k m. a = TwirpError c k m"
  using assms
  by (auto simp: handleArtifactProxy_def count_error_def artifactProxyError_def Let_def
      split: if_splits option.splits hop_end.splits)

lemma serve_counts:
  "serve_calls rs s = (as, t) \<Longrightarrow>
   ap_upstream t = ap_upstream s \<and> length as = length rs \<and>
   ap_rpcs t = ap_rpcs s + of_nat (length (filter (\<lambda>x. fst x \<noteq> None) as)) \<and>
   ap_errors t = ap_errors s + of_nat (length (filter (\<lambda>x. failed_reply (snd x)) as)) \<and>
   (\<forall>i < length rs. \<forall>g. fst (as ! i) = Some g \<longrightarrow>
      (\<exists>u. ap_upstream s = Some u \<and> ac_method (fst (rs ! i)) \<in> set artifactMethods \<and>
         ac_length (fst (rs ! i)) \<le> maxArtifactRPCBody \<and> g = forward_to u (ac_method (fst (rs ! i)))))"
proof (induction rs s arbitrary: as t rule: serve_calls.induct)
  case (2 r hop rs s)
  obtain f a s' where h: "handleArtifactProxy r hop s = (f, a, s')" by (metis prod_cases3)
  obtain bs where b: "serve_calls rs s' = (bs, t)" "as = (f, a) # bs"
    using 2(2) by (auto simp: h split: prod.splits)
  note c = handle_counts [OF h]
  from 2(1) [OF h [symmetric] refl b(1)] c(1) have ih: "ap_upstream t = ap_upstream s" "length bs = length rs"
    "ap_rpcs t = ap_rpcs s' + of_nat (length (filter (\<lambda>x. fst x \<noteq> None) bs))"
    "ap_errors t = ap_errors s' + of_nat (length (filter (\<lambda>x. failed_reply (snd x)) bs))"
    "\<forall>i < length rs. \<forall>g. fst (bs ! i) = Some g \<longrightarrow>
      (\<exists>u. ap_upstream s = Some u \<and> ac_method (fst (rs ! i)) \<in> set artifactMethods \<and>
         ac_length (fst (rs ! i)) \<le> maxArtifactRPCBody \<and> g = forward_to u (ac_method (fst (rs ! i))))"
    by simp_all
  show ?case
    unfolding b(2) using ih c(2,3,4)
    by (auto simp: less_Suc_eq_0_disj)
qed simp

text \<open>
  C34. The proxy is no open relay, and its books are right.  After any successful configuration and for any
  calls with any ends of their hops: what goes out is a call of one of the five methods, with a declared
  body within the bound, to the configured upstream, an absolute http or https address without credentials,
  query or fragment, at the service's own path; every other call is answered here with an error.  The
  counters say exactly how many calls went out and how many failed, each counted once.
\<close>

theorem artifact_boundary:
  assumes "SetArtifactUpstream parse raw new_proxy = (None, s)" "serve_calls rs s = (as, t)"
  shows "length as = length rs \<and>
    ap_rpcs t = of_nat (length (filter (\<lambda>x. fst x \<noteq> None) as)) \<and>
    ap_errors t = of_nat (length (filter (\<lambda>x. failed_reply (snd x)) as)) \<and>
    (\<forall>i < length rs. \<forall>g. fst (as ! i) = Some g \<longrightarrow>
       (\<exists>u. parse raw = Some u \<and> safe_upstream u \<and> ac_method (fst (rs ! i)) \<in> set artifactMethods \<and>
          ac_length (fst (rs ! i)) \<le> 1048576 \<and> fw_scheme g = u_Scheme u \<and> fw_host g = u_Host u \<and>
          fw_path g = join_url_path (u_Path u) (artifactTwirpBase @ ac_method (fst (rs ! i)))))"
proof -
  from set_upstream [OF assms(1)] have s: "ap_rpcs s = 0" "ap_errors s = 0"
    "ap_upstream s = (if raw = [] then None else parse raw)" "\<forall>u. ap_upstream s = Some u \<longrightarrow> safe_upstream u"
    by (auto simp: new_proxy_def)
  have up: "parse raw = Some u \<and> safe_upstream u" if "ap_upstream s = Some u" for u
    using that s(3,4) by (auto split: if_splits)
  from serve_counts [OF assms(2)] s(1,2) have c: "length as = length rs"
    "ap_rpcs t = of_nat (length (filter (\<lambda>x. fst x \<noteq> None) as))"
    "ap_errors t = of_nat (length (filter (\<lambda>x. failed_reply (snd x)) as))"
    "\<And>i g. i < length rs \<Longrightarrow> fst (as ! i) = Some g \<Longrightarrow>
      \<exists>u. ap_upstream s = Some u \<and> ac_method (fst (rs ! i)) \<in> set artifactMethods \<and>
         ac_length (fst (rs ! i)) \<le> maxArtifactRPCBody \<and> g = forward_to u (ac_method (fst (rs ! i)))"
    by auto
  have "\<exists>u. parse raw = Some u \<and> safe_upstream u \<and> ac_method (fst (rs ! i)) \<in> set artifactMethods \<and>
          ac_length (fst (rs ! i)) \<le> 1048576 \<and> fw_scheme g = u_Scheme u \<and> fw_host g = u_Host u \<and>
          fw_path g = join_url_path (u_Path u) (artifactTwirpBase @ ac_method (fst (rs ! i)))"
    if "i < length rs" "fst (as ! i) = Some g" for i g
    using c(4) [OF that] up by (auto simp: forward_to_def maxArtifactRPCBody_def)
  with c(1-3) show ?thesis by blast
qed

definition demo_upstream :: url where
  "demo_upstream = \<lparr>u_Scheme = ''https'', u_Host = ''results'', u_Hostname = ''results'', u_Path = ''/'', u_RawQuery = [],
     u_Fragment = [], u_hasUser = False\<rparr>"

definition demo_calls :: "(artifact_call \<times> hop_end) list" where
  "demo_calls =
     [(\<lparr>ac_method = ''ListArtifacts'', ac_length = 2\<rparr>, Relayed 200),
      (\<lparr>ac_method = ''../CacheService/CreateCacheEntry'', ac_length = 2\<rparr>, Relayed 200),
      (\<lparr>ac_method = ''CreateArtifact'', ac_length = 2\<rparr>, HopFailed HopError True False)]"

lemma artifact_boundary_witness:
  "\<exists>t. snd (serve_calls demo_calls (snd (SetArtifactUpstream (\<lambda>_. Some demo_upstream) ''https://results/'' new_proxy))) = t \<and>
     ap_rpcs t = 2 \<and> ap_errors t = 2"
proof -
  let ?p = "\<lambda>_. Some demo_upstream" and ?s = "new_proxy\<lparr>ap_upstream := Some demo_upstream\<rparr>"
  have s: "SetArtifactUpstream ?p ''https://results/'' new_proxy = (None, ?s)"
    by (simp add: SetArtifactUpstream_def demo_upstream_def)
  obtain as t where t: "serve_calls demo_calls ?s = (as, t)" by fastforce
  have "map (\<lambda>x. (fst x \<noteq> None, failed_reply (snd x))) (fst (serve_calls demo_calls ?s)) = [(True, False), (False, True), (True, True)]"
    by (simp add: demo_calls_def handleArtifactProxy_def artifactMethods_def maxArtifactRPCBody_def count_error_def
        artifactProxyError_def)
  with t obtain a b c where "as = [a, b, c]" "fst a \<noteq> None" "fst b = None" "fst c \<noteq> None" "\<not> failed_reply (snd a)"
    "failed_reply (snd b)" "failed_reply (snd c)" by (auto simp: map_eq_Cons_conv)
  with artifact_boundary [OF s t] show ?thesis by (simp add: s t)
qed

end
