(* ===== verification/Spec2Isabelle.thy ===== *)
theory Spec2Isabelle
  imports Sched_Claims Schedule_Props Firecracker_Props Identity_Claims Cache_Claims Jit_Server EC2_Claims Isolation Config_Claims AppKey Reconcile_Claims Listener_Claims
    Serve_Claims Config_Check Diag_Claims Status EC2_Watch_Claims EC2_Threads_Claims Artifact_Proxy
begin

text \<open>
  A verification of firerunner, the daemon that runs each GitHub Actions job in a virtual machine of its
  own: a Firecracker microVM on its host or an EC2 instance.

  \<^bold>\<open>The program.\<close>  A configuration names tiers.  For each tier the daemon registers a runner scale set and
  runs four loops: the \<^emph>\<open>listener\<close> keeps a message session with GitHub and passes every demand and every
  job event on; the \<^emph>\<open>scheduler\<close> keeps as many VMs as that demand asks for, between the tier's minimum and
  maximum, one goroutine per VM; the \<^emph>\<open>reconciler\<close> compares the two from time to time; the \<^emph>\<open>schedule\<close>'s
  follower changes the sizes by the clock.  A VM is launched by a \<^emph>\<open>provisioner\<close>.  The Firecracker one takes a
  network slot, writes firewall rules and drives one VMM process; the EC2 one launches or wakes an instance,
  hands it its runner configuration through the \<^emph>\<open>JIT server\<close>, follows it with the \<^emph>\<open>watcher\<close>, keeps a
  \<^emph>\<open>pool\<close> of stopped instances, and has a \<^emph>\<open>reaper\<close> end what it no longer owns.  Beside them run the
  \<^emph>\<open>registry\<close>, which finds out from GitHub's API what the job of a VM may read and write and files that under
  the VM's address, and the \<^emph>\<open>cache server\<close>, a process of its own, which looks the caller's address up there
  and serves the Actions cache accordingly.  \<open>config check\<close>, \<open>doctor\<close> and \<open>status\<close> examine an installation.

  \<^bold>\<open>Conventions.\<close>  A method that holds its component's mutex throughout is one function on the component's
  record; a method that gives the mutex up is several.  Goroutines are the rules of a labelled step relation
  that interleaves those sections, so a theorem about the reachable states (\<open>reach\<close>, \<open>FR_Prelude\<close>) holds for
  every interleaving.  Where a step is coarser than that, its theory says so: the operations of
  \<open>EC2_Machine\<close> run whole, one at a time, beside the sections of the same code in \<open>EC2_Threads\<close>; a check of the
  reconciler, a sweep of the reaper and a cache handler with its wait for the caller's rights are one step each.  The invariants are stated once per relation and carried to the reachable states by the
  locale \<open>invariant_system\<close>, which is interpreted for every relation of the program.  Errors are \<open>None\<close>, a value of an error
  datatype, or the text where a property is about the text.  A Go map is an association list in the order one
  \<open>range\<close> visits it (\<open>mlookup\<close>, \<open>mput\<close>, \<open>mdel\<close>), and where the order matters it is an argument.  What GitHub,
  AWS, the kernel, the file system or a tool the host runs answers is an argument of the definitions that ask,
  and what the properties rely on is a named hypothesis with an instance that has it.  A Go \<open>int\<close> is an \<open>int\<close>;
  where a value can reach the end of its 64 bits the wrap is written out (\<open>Config\<close>, \<open>GitHub\<close>), and sizes that
  travel as unsigned words are \<open>64 word\<close>s (\<open>Artifact_Proxy\<close>).  Definitions compute.
\<close>

text \<open>
  \<^bold>\<open>The theories\<close>, by the part of the program they model.  A theory with the bare name of a part holds its
  state and operations, \<open>_Machine\<close> its step relation, \<open>_Facts\<close>, \<open>_Props\<close> and \<open>_Invariant\<close> the lemmas, \<open>_Claims\<close>
  the properties of the part with a concrete instance of each.

  \<^descr> \<open>FR_Prelude\<close>: maps, times, the functions of \<open>strings\<close> and \<open>strconv\<close> the sources call, \<open>reach\<close> and
    \<open>invariant_system\<close>, and the collections \<open>go_simps\<close> and \<open>inv_intros\<close>.
  \<^descr> \<open>Addresses\<close>, \<open>Paths\<close>: what is used of \<open>net/netip\<close>, of a parsed URL and of \<open>path/filepath\<close>.
  \<^descr> \<open>Sched_Core\<close>, \<open>Sched_Machine\<close>, \<open>Sched_Facts\<close>, \<open>Sched_Invariant\<close>, \<open>Sched_Removal\<close>, \<open>Sched_Props\<close>,
    \<open>Sched_Claims\<close>: \<open>internal/scheduler/scheduler.go\<close>.  The record \<open>scheduler\<close> is \<open>Scheduler\<close>, \<open>vmHandle\<close> the entry of
    \<open>active\<close>; \<open>world\<close> adds the launches with their program counters, the removers and the ended contexts.
  \<^descr> \<open>Schedule\<close>, \<open>Schedule_Props\<close>: \<open>internal/schedule/schedule.go\<close> and \<open>follow.go\<close>.
  \<^descr> \<open>Network\<close>: \<open>internal/provisioner/network.go\<close>, with the locale \<open>slot_pool\<close> between the slots and their users.
  \<^descr> \<open>Egress\<close>, \<open>Egress_Props\<close>: \<open>internal/provisioner/egress.go\<close>.  The ruleset is printed to the byte and its
    rules also have nftables' meaning (\<open>verdict\<close>).
  \<^descr> \<open>Firecracker\<close>, \<open>Firecracker_Host\<close>, \<open>Firecracker_Props\<close>: \<open>internal/provisioner/firecracker.go\<close>.
  \<^descr> \<open>JobIdentity\<close>, \<open>Registry\<close>, \<open>Registry_Props\<close>, \<open>GitHub\<close>, \<open>GitHub_Props\<close>, \<open>GitHub_Claims\<close>,
    \<open>Identity_Claims\<close>: \<open>internal/jobidentity/identity.go\<close>, \<open>registry.go\<close> and \<open>github.go\<close>.
  \<^descr> \<open>Cache_Server\<close>, \<open>Cache_Machine\<close>, \<open>Cache_Facts\<close>, \<open>Cache_Invariant\<close>, \<open>Cache_Claims\<close>:
    \<open>internal/cacheserver/cacheserver.go\<close> and \<open>scope.go\<close>; \<open>Artifact_Proxy\<close>: \<open>artifactproxy.go\<close> beside them.
  \<^descr> \<open>Isolation\<close>: the registry and the cache server together.
  \<^descr> \<open>Jit_Server\<close>: \<open>internal/jitserver/jitserver.go\<close>.
  \<^descr> \<open>EC2_Api\<close>, \<open>EC2_Pool\<close>, \<open>EC2_Provisioner\<close>, \<open>EC2_Reaper\<close>, \<open>EC2_Machine\<close>, \<open>EC2_Invariant\<close>, \<open>EC2_Props\<close>,
    \<open>EC2_Claims\<close>, \<open>EC2_Threads\<close>, \<open>EC2_Threads_Claims\<close>: \<open>internal/ec2/\<close> with \<open>api.go\<close>, \<open>ami.go\<close>, \<open>pool.go\<close>, \<open>provisioner.go\<close> and \<open>reaper.go\<close>;
    \<open>EC2_Watch\<close>, \<open>EC2_Watch_Claims\<close>: \<open>watch.go\<close>.
  \<^descr> \<open>Listener\<close>, \<open>Listener_Loop\<close>, \<open>Listener_Claims\<close>: \<open>internal/listener/scaleset.go\<close>; \<open>Reconcile\<close>,
    \<open>Reconcile_Claims\<close>: \<open>internal/reconcile/reconcile.go\<close>; \<open>Health\<close>: \<open>internal/health/health.go\<close>.
  \<^descr> \<open>Config\<close>, \<open>Config_Flags\<close>, \<open>Config_Props\<close>, \<open>Config_Claims\<close>, \<open>AppKey\<close>: \<open>internal/config/config.go\<close> and
    \<open>appkey.go\<close>; \<open>Config_Check\<close>: \<open>cmd/firerunner/configcheck.go\<close>.
  \<^descr> \<open>Serve\<close>, \<open>Wiring\<close>, \<open>Serve_Claims\<close>: \<open>cmd/firerunner/main.go\<close>.
  \<^descr> \<open>Diag\<close>, \<open>Diag_Claims\<close>, \<open>Status\<close>: \<open>internal/diag/diag.go\<close> and \<open>auth.go\<close>.
\<close>

text \<open>
  \<^bold>\<open>What is shown.\<close>

  \<^descr> Scheduler: \<open>running\<close>, \<open>pending\<close>, \<open>backingOff\<close> and the tracked handles are exact counts of launches in every
    interleaving, and \<open>running\<close> never exceeds \<open>Max\<close>; no step cancels a VM with a job; a deregistration is always
    retried or settled; an exit refills its place once; scaling down reaches its floor.
  \<^descr> Schedule: a window covers exactly the periods it describes, across midnight and for every offset of the zone.
  \<^descr> Network and egress: addresses and names of different slots differ, a guest cannot forge its source, and
    the exact set of packets a guest may send, in both modes.
  \<^descr> Firecracker: whatever step of a launch fails, the VMM started is reaped and what was made is removed before
    the slot returns; the console scanner in chunks finds what a search of the whole output finds.
  \<^descr> Identities: the rights of a job follow from GitHub's answers alone and ask with no token but its own
    repository's; the record under an address is of the VM that holds it.  The registry is proved against any
    resolver that answers for the job asked (locale \<open>job_resolver\<close>); GitHub's resolver is an interpretation.
  \<^descr> Cache: every interleaving refines a write-once store; uploads touch only their own entry; a restore takes
    the newest entry of the first class that has one; eviction is LRU and stops at the cap; the index survives a restart;
    waiting for rights ends.  With the registry: what a download serves is the caller's tenant's own.
  \<^descr> EC2: an instance is terminated only after its persistent spot request is cancelled, and is claimed only if
    AWS does not call it unusable; the reaper ends no job and no instance of a pool that is kept (these with whole
    operations, \<open>EC2_Machine\<close>).  In every interleaving of the pool's sections an instance is in one place at a
    time, and a launch's is tracked unless a claim had given it back (\<open>EC2_Threads\<close>).  A tick of the watcher tells
    every launch that waits its instance's state, whatever AWS answers for the others.  The JIT server serves a
    configuration once.
  \<^descr> Listener, reconciler: when the listener ends, that it reconnects and paces itself, that scaling down ends no
    job, and exactly whom the reconciler cancels.
  \<^descr> Configuration: an accepted catalog is well formed, its warm pools fit the slots, device names do not collide;
    no private key leaks into an error, and no refusal before the start depends on a token beyond its presence;
    \<open>config check\<close> agrees with the daemon.
  \<^descr> Command line: how the tiers of a daemon end together; a forwarded artifact call stays within its bounds;
    \<open>doctor\<close> succeeds exactly on an installation that has what its checks are about.

  \<^bold>\<open>Bounds and termination.\<close>  Recursion is structural or has a measure.  Loops whose end the code leaves to the
  environment take the sequence of what the environment answers, and end with it: the pages of a listing
  (of a branch's activity at most \<open>activityPages\<close> = 10 are read, as in the code), the attempts
  to resolve a job, the attempts to open a session (12 at start), the choices of a \<open>select\<close>.  A property that
  the code returns says for which answers it does: \<open>await_is_bounded\<close> bounds the polls of a caller that waits for
  its rights, \<open>listener_reconnects\<close> gives the attempt at which a tier is back, and \<open>nearest\<close> walks up a path with
  the length of the path as its measure.  Nothing is run on fuel that a result could depend on.

  \<^bold>\<open>Deviations\<close> that the lemmas prove of the code as it is: \<open>Firecracker_Props.cache_port_prefix_kept\<close>,
  \<open>Firecracker_Props.failed_setup_leaks\<close>, \<open>Cache_Claims.orphan_upload_adopted\<close>,
  \<open>Config_Claims.max_runners_unbounded\<close>, \<open>Diag_Claims.doctor_refuses_ec2_only\<close>,
  \<open>Diag_Claims.doctor_other_credential\<close>, \<open>Diag_Claims.doctor_other_api\<close>, \<open>Status.peer_miscounted\<close>,
  \<open>Config_Check.auth_kind_reported\<close> and \<open>EC2_Threads_Claims.tracking_lost\<close>.
\<close>

text \<open>
  \<^bold>\<open>Not modelled.\<close>

  \<^item> \<open>cmd/firerunner/main.go\<close>: the HTTP servers and their shutdown, signal handling, printing, and the
    \<open>cache-server\<close> subcommand, whose sizes are read as floating point numbers.
  \<^item> \<open>internal/provisioner/firecracker.go\<close>: copying files, the sockets and consoles themselves, the process
    attributes and the cgroup files are actions of the host, of which only order and outcome are kept.
  \<^item> \<open>internal/diag\<close>: the texts of the checks, the table and the JSON of \<open>status\<close>, the numbers printed through
    floating point (sizes, ages, the hit rate), and the signature of the App's token.
  \<^item> \<open>internal/config\<close>: the logger.  \<open>internal/cacheserver\<close>: the metrics text.
  \<^item> \<open>internal/core\<close>: interfaces and plain records, which are part of the models of their users.
  \<^item> \<open>test/\<close>'s init process: system calls only.
  \<^item> Everywhere: logging, JSON syntax, the contents of responses beyond what the code reads, and goroutine
    scheduling finer than the critical sections.
\<close>

end
